(* ===== verification/Prelude.thy ===== *)
theory Prelude
  imports Complex_Main
begin

text \<open>
  Shared vocabulary of the development: the service monad in which the handlers of
  \<^verbatim>\<open>src/src/modules\<close> are written, row-level operations on tables kept as lists, and the
  lemma collections the component theories use.

  A handler is an \<^verbatim>\<open>async\<close> method that reads and writes the database and may throw. It
  becomes a function from the state to a result and the state it leaves behind; a thrown
  exception is an \<open>Inl\<close> result and keeps the writes already committed, as in the code, where
  only \<^verbatim>\<open>prisma.$transaction\<close> undoes them.
\<close>

named_theorems run_simps \<open>how the monad's combinators run\<close>
named_theorems frame_simps \<open>which tables an operation leaves alone\<close>

type_synonym ('s, 'e, 'a) svc = "'s \<Rightarrow> ('e + 'a) \<times> 's"

section \<open>The service monad\<close>

definition ret :: "'a \<Rightarrow> ('s, 'e, 'a) svc" where
  "ret a = (\<lambda>s. (Inr a, s))"

definition throw :: "'e \<Rightarrow> ('s, 'e, 'a) svc" where
  "throw e = (\<lambda>s. (Inl e, s))"

definition bindM :: "('s, 'e, 'a) svc \<Rightarrow> ('a \<Rightarrow> ('s, 'e, 'b) svc) \<Rightarrow> ('s, 'e, 'b) svc" where
  "bindM m f = (\<lambda>s. case m s of (Inl e, s') \<Rightarrow> (Inl e, s') | (Inr a, s') \<Rightarrow> f a s')"

definition readM :: "('s \<Rightarrow> 'a) \<Rightarrow> ('s, 'e, 'a) svc" where
  "readM f = (\<lambda>s. (Inr (f s), s))"

definition writeM :: "('s \<Rightarrow> 's) \<Rightarrow> ('s, 'e, unit) svc" where
  "writeM f = (\<lambda>s. (Inr (), f s))"

text \<open>\<^verbatim>\<open>if (...) throw ...\<close>: stop with the exception when the condition holds.\<close>

definition throw_if :: "bool \<Rightarrow> 'e \<Rightarrow> ('s, 'e, unit) svc" where
  "throw_if c e = (\<lambda>s. if c then (Inl e, s) else (Inr (), s))"

text \<open>\<^verbatim>\<open>if (!x) throw ...\<close> on a row that may be \<^verbatim>\<open>null\<close>.\<close>

definition require :: "'a option \<Rightarrow> 'e \<Rightarrow> ('s, 'e, 'a) svc" where
  "require x e = (case x of None \<Rightarrow> throw e | Some a \<Rightarrow> ret a)"

text \<open>\<^verbatim>\<open>prisma.$transaction(fn)\<close>: an exception thrown inside rolls every write back.\<close>

definition transaction :: "('s, 'e, 'a) svc \<Rightarrow> ('s, 'e, 'a) svc" where
  "transaction m = (\<lambda>s. case m s of (Inl e, _) \<Rightarrow> (Inl e, s) | (Inr a, s') \<Rightarrow> (Inr a, s'))"

text \<open>A loop over a list, in order, collecting the results; and one with an accumulator.\<close>

fun forM :: "'x list \<Rightarrow> ('x \<Rightarrow> ('s, 'e, 'b) svc) \<Rightarrow> ('s, 'e, 'b list) svc" where
  "forM [] f = ret []"
| "forM (x # xs) f = bindM (f x) (\<lambda>y. bindM (forM xs f) (\<lambda>ys. ret (y # ys)))"

fun foldM :: "('acc \<Rightarrow> 'x \<Rightarrow> ('s, 'e, 'acc) svc) \<Rightarrow> 'acc \<Rightarrow> 'x list \<Rightarrow> ('s, 'e, 'acc) svc" where
  "foldM f a [] = ret a"
| "foldM f a (x # xs) = bindM (f a x) (\<lambda>a'. foldM f a' xs)"

lemma ret_run [run_simps, simp]: "ret a s = (Inr a, s)"
  by (simp add: ret_def)

lemma throw_run [run_simps, simp]: "throw e s = (Inl e, s)"
  by (simp add: throw_def)

lemma readM_run [run_simps, simp]: "readM f s = (Inr (f s), s)"
  by (simp add: readM_def)

lemma writeM_run [run_simps, simp]: "writeM f s = (Inr (), f s)"
  by (simp add: writeM_def)

lemma throw_if_run [run_simps, simp]:
  "throw_if c e s = (if c then (Inl e, s) else (Inr (), s))"
  by (simp add: throw_if_def)

lemma require_run [run_simps, simp]:
  "require None e s = (Inl e, s)" "require (Some a) e s = (Inr a, s)"
  by (simp_all add: require_def)

lemma require_Inr [run_simps, simp]: "require x e s = (Inr a, s') \<longleftrightarrow> x = Some a \<and> s' = s"
  by (cases x) auto

lemma require_Inl [run_simps, simp]: "require x e s = (Inl e', s') \<longleftrightarrow> x = None \<and> e' = e \<and> s' = s"
  by (cases x) auto

text \<open>A \<open>bindM\<close> runs by running its first part; these two equations drive the evaluation
  of closed runs, the next two invert runs in proofs.\<close>

lemma bindM_ok [run_simps]: "m s = (Inr a, s') \<Longrightarrow> bindM m f s = f a s'"
  by (simp add: bindM_def)

lemma bindM_fail [run_simps]: "m s = (Inl e, s') \<Longrightarrow> bindM m f s = (Inl e, s')"
  by (simp add: bindM_def)

lemma bindM_Inr:
  "bindM m f s = (Inr b, s'') \<longleftrightarrow> (\<exists>a s'. m s = (Inr a, s') \<and> f a s' = (Inr b, s''))"
  by (auto simp: bindM_def split: prod.splits sum.splits)

lemma bindM_Inl:
  "bindM m f s = (Inl e, s'') \<longleftrightarrow>
     m s = (Inl e, s'') \<or> (\<exists>a s'. m s = (Inr a, s') \<and> f a s' = (Inl e, s''))"
  by (auto simp: bindM_def split: prod.splits sum.splits)

lemma bindM_cases:
  assumes "bindM m f s = (r, s'')"
  obtains (stops) e where "m s = (Inl e, s'')" "r = Inl e"
  | (goes_on) a s' where "m s = (Inr a, s')" "f a s' = (r, s'')"
  using assms by (auto simp: bindM_def split: prod.splits sum.splits)

lemma bindM_run [run_simps]:
  "bindM (ret a) f s = f a s"
  "bindM (throw e) g s = (Inl e, s)"
  "bindM (readM h) g' s = g' (h s) s"
  "bindM (writeM w) k s = k () (w s)"
  "bindM (throw_if c e) k s = (if c then (Inl e, s) else k () s)"
  by (simp_all add: bindM_def)

lemma bindM_assoc: "bindM (bindM m f) g = bindM m (\<lambda>a. bindM (f a) g)"
  by (auto simp: bindM_def fun_eq_iff split: prod.splits sum.splits)

lemma bindM_ret [simp]: "bindM m ret = m"
  by (auto simp: bindM_def fun_eq_iff split: prod.splits sum.splits)

lemma transaction_Inr: "transaction m s = (Inr a, s') \<longleftrightarrow> m s = (Inr a, s')"
  by (auto simp: transaction_def split: prod.splits sum.splits)

lemma transaction_Inl: "transaction m s = (Inl e, s') \<longleftrightarrow> s' = s \<and> (\<exists>t. m s = (Inl e, t))"
  by (auto simp: transaction_def split: prod.splits sum.splits)

lemma transaction_ok [run_simps]: "m s = (Inr a, s') \<Longrightarrow> transaction m s = (Inr a, s')"
  by (simp add: transaction_def)

lemma transaction_fail [run_simps]: "m s = (Inl e, s') \<Longrightarrow> transaction m s = (Inl e, s)"
  by (simp add: transaction_def)

lemmas svc_invert = bindM_Inr bindM_Inl transaction_Inr transaction_Inl

section \<open>What a handler leaves alone\<close>

text \<open>
  \<open>keeps f m\<close>: whatever happens, the observation \<open>f\<close> of the state is the same afterwards.
  \<open>preserves I m\<close>: the invariant \<open>I\<close> survives a normal return and an exception alike.
  \<open>atomic m\<close>: an exception leaves the state as it was.
\<close>

definition keeps :: "('s \<Rightarrow> 'v) \<Rightarrow> ('s, 'e, 'a) svc \<Rightarrow> bool" where
  "keeps f m \<longleftrightarrow> (\<forall>s r s'. m s = (r, s') \<longrightarrow> f s' = f s)"

definition preserves :: "('s \<Rightarrow> bool) \<Rightarrow> ('s, 'e, 'a) svc \<Rightarrow> bool" where
  "preserves I m \<longleftrightarrow> (\<forall>s r s'. I s \<longrightarrow> m s = (r, s') \<longrightarrow> I s')"

definition atomic :: "('s, 'e, 'a) svc \<Rightarrow> bool" where
  "atomic m \<longleftrightarrow> (\<forall>s e s'. m s = (Inl e, s') \<longrightarrow> s' = s)"

definition readonly :: "('s, 'e, 'a) svc \<Rightarrow> bool" where
  "readonly m \<longleftrightarrow> (\<forall>s r s'. m s = (r, s') \<longrightarrow> s' = s)"

named_theorems svc_intros \<open>introduction rules for keeps, preserves, atomic and readonly\<close>

lemma keepsD: "keeps f m \<Longrightarrow> m s = (r, s') \<Longrightarrow> f s' = f s"
  by (auto simp: keeps_def)

lemma preservesD: "preserves I m \<Longrightarrow> I s \<Longrightarrow> m s = (r, s') \<Longrightarrow> I s'"
  by (auto simp: preserves_def)

lemma atomicD: "atomic m \<Longrightarrow> m s = (Inl e, s') \<Longrightarrow> s' = s"
  by (auto simp: atomic_def)

lemma readonlyD: "readonly m \<Longrightarrow> m s = (r, s') \<Longrightarrow> s' = s"
  by (auto simp: readonly_def)

lemma readonly_basic [svc_intros]:
  "readonly (ret a)" "readonly (throw e)" "readonly (readM f)"
  "readonly (throw_if c e)" "readonly (require x e)"
  by (auto simp: readonly_def require_def split: if_splits option.splits)

lemma readonly_bindM [svc_intros]:
  "readonly m \<Longrightarrow> (\<And>a. readonly (f a)) \<Longrightarrow> readonly (bindM m f)"
  by (auto dest: readonlyD simp: readonly_def [of "bindM m f"] elim!: bindM_cases)

lemma readonly_if [svc_intros]: "readonly m \<Longrightarrow> readonly m' \<Longrightarrow> readonly (if c then m else m')"
  by simp

lemma readonly_forM [svc_intros]: "(\<And>x. readonly (f x)) \<Longrightarrow> readonly (forM xs f)"
  by (induction xs) (auto intro!: svc_intros)

lemma readonly_keeps: "readonly m \<Longrightarrow> keeps f m"
  by (auto simp: readonly_def keeps_def)

lemma readonly_preserves: "readonly m \<Longrightarrow> preserves I m"
  by (auto simp: readonly_def preserves_def)

lemma readonly_atomic: "readonly m \<Longrightarrow> atomic m"
  by (auto simp: readonly_def atomic_def)

lemma keeps_basic [svc_intros]:
  "keeps g (ret a)" "keeps g (throw e)" "keeps g (readM f)"
  "keeps g (throw_if c e)" "keeps g (require x e)"
  by (auto intro!: readonly_keeps readonly_basic)

lemma keeps_writeM [svc_intros]: "(\<And>s. g (w s) = g s) \<Longrightarrow> keeps g (writeM w)"
  by (auto simp: keeps_def)

lemma keeps_bindM [svc_intros]:
  assumes "keeps g m" "\<And>a. keeps g (f a)"
  shows "keeps g (bindM m f)"
  unfolding keeps_def
proof (intro allI impI)
  fix s r s'
  assume "bindM m f s = (r, s')"
  then show "g s' = g s"
    by (cases rule: bindM_cases) (simp_all add: keepsD [OF assms(1)] keepsD [OF assms(2)])
qed

lemma keeps_transaction [svc_intros]: "keeps g m \<Longrightarrow> keeps g (transaction m)"
  unfolding keeps_def by (auto simp: transaction_def split: prod.splits sum.splits)

lemma keeps_if [svc_intros]: "keeps g m \<Longrightarrow> keeps g m' \<Longrightarrow> keeps g (if c then m else m')"
  by simp

lemma keeps_forM [svc_intros]: "(\<And>x. keeps g (f x)) \<Longrightarrow> keeps g (forM xs f)"
  by (induction xs) (auto intro!: svc_intros)

lemma keeps_foldM [svc_intros]: "(\<And>a x. keeps g (f a x)) \<Longrightarrow> keeps g (foldM f a xs)"
  by (induction xs arbitrary: a) (auto intro!: svc_intros)

lemma preserves_basic [svc_intros]:
  "preserves I (ret a)" "preserves I (throw e)" "preserves I (readM f)"
  "preserves I (throw_if c e)" "preserves I (require x e)"
  by (auto intro!: readonly_preserves readonly_basic)

lemma preserves_writeM [svc_intros]: "(\<And>s. I s \<Longrightarrow> I (w s)) \<Longrightarrow> preserves I (writeM w)"
  by (auto simp: preserves_def)

lemma preserves_bindM [svc_intros]:
  "preserves I m \<Longrightarrow> (\<And>a. preserves I (f a)) \<Longrightarrow> preserves I (bindM m f)"
  by (auto dest: preservesD simp: preserves_def [of I "bindM m f"] elim!: bindM_cases)

lemma preserves_transaction [svc_intros]: "preserves I m \<Longrightarrow> preserves I (transaction m)"
  unfolding preserves_def by (auto simp: transaction_def split: prod.splits sum.splits)

lemma preserves_if [svc_intros]:
  "preserves I m \<Longrightarrow> preserves I m' \<Longrightarrow> preserves I (if c then m else m')"
  by simp

lemma preserves_forM [svc_intros]: "(\<And>x. preserves I (f x)) \<Longrightarrow> preserves I (forM xs f)"
  by (induction xs) (auto intro!: svc_intros)

lemma preserves_foldM [svc_intros]: "(\<And>a x. preserves I (f a x)) \<Longrightarrow> preserves I (foldM f a xs)"
  by (induction xs arbitrary: a) (auto intro!: svc_intros)

lemma preserves_conj: "preserves I m \<Longrightarrow> preserves J m \<Longrightarrow> preserves (\<lambda>s. I s \<and> J s) m"
  by (auto simp: preserves_def)

lemma keeps_preserves: "keeps f m \<Longrightarrow> preserves (\<lambda>s. P (f s)) m"
  by (auto simp: keeps_def preserves_def)

lemma atomic_transaction [svc_intros]: "atomic (transaction m)"
  by (auto simp: atomic_def transaction_def split: prod.splits sum.splits)

text \<open>Checks that only read, then one transaction: the shape of most handlers.\<close>

lemma atomic_readonly_bindM [svc_intros]:
  "readonly m \<Longrightarrow> (\<And>a. atomic (f a)) \<Longrightarrow> atomic (bindM m f)"
  by (auto dest: atomicD readonlyD simp: atomic_def [of "bindM m f"] elim!: bindM_cases)

lemma atomic_bindM_ret: "atomic m \<Longrightarrow> (\<And>a s e s'. f a s \<noteq> (Inl e, s')) \<Longrightarrow> atomic (bindM m f)"
  unfolding atomic_def by (auto simp: bindM_def split: prod.splits sum.splits)

text \<open>\<open>never_throws m\<close>: the handler returns normally from every state.\<close>

definition never_throws :: "('s, 'e, 'a) svc \<Rightarrow> bool" where
  "never_throws m \<longleftrightarrow> (\<forall>s. \<exists>a s'. m s = (Inr a, s'))"

lemma never_throwsE:
  assumes "never_throws m"
  obtains a s' where "m s = (Inr a, s')"
  using assms unfolding never_throws_def by blast

lemma never_throws_basic [svc_intros]:
  "never_throws (ret a)" "never_throws (readM f)" "never_throws (writeM w)"
  by (auto simp: never_throws_def)

lemma never_throws_bindM [svc_intros]:
  assumes "never_throws m" "\<And>a. never_throws (f a)"
  shows "never_throws (bindM m f)"
  unfolding never_throws_def
proof
  fix s
  obtain a s' where a: "m s = (Inr a, s')" using assms(1) by (rule never_throwsE)
  obtain b s'' where "f a s' = (Inr b, s'')" using assms(2) by (rule never_throwsE)
  with a show "\<exists>b s''. bindM m f s = (Inr b, s'')" by (simp add: bindM_def)
qed

lemma never_throws_if [svc_intros]:
  "never_throws m \<Longrightarrow> never_throws m' \<Longrightarrow> never_throws (if c then m else m')"
  by simp

lemma never_throws_forM [svc_intros]: "(\<And>x. never_throws (f x)) \<Longrightarrow> never_throws (forM xs f)"
  by (induction xs) (auto intro!: svc_intros)

lemma never_throws_foldM [svc_intros]:
  "(\<And>a x. never_throws (f a x)) \<Longrightarrow> never_throws (foldM f a xs)"
  by (induction xs arbitrary: a) (auto intro!: svc_intros)

lemma never_throws_transaction [svc_intros]: "never_throws m \<Longrightarrow> never_throws (transaction m)"
  by (metis never_throws_def transaction_Inr)

section \<open>Posting to a counter\<close>

text \<open>
  The interface between the stock operations and the quantities they keep. A client posts items
  one after the other; a provider promises that a post moves the counter of the item's key by the
  item's amount and no other counter, as long as the item is good, and that posting to one key
  keeps the items for other keys good.
\<close>

locale posting =
  fixes cnt :: "'k \<Rightarrow> 's \<Rightarrow> 'n::ab_group_add"
    and body :: "'x \<Rightarrow> ('s, 'e, 'b) svc"
    and key :: "'x \<Rightarrow> 'k"
    and amount :: "'x \<Rightarrow> 'n"
    and good :: "'x \<Rightarrow> 's \<Rightarrow> bool"
  assumes post: "good x s \<Longrightarrow> body x s = (Inr b, s') \<Longrightarrow>
      cnt k s' = cnt k s + (if key x = k then amount x else 0)"
    and good_other: "good y s \<Longrightarrow> good x s \<Longrightarrow> key x \<noteq> key y \<Longrightarrow> body x s = (Inr b, s') \<Longrightarrow> good y s'"
begin

lemma forM_post_distinct:
  assumes "\<forall>x \<in> set xs. good x s" "distinct (map key xs)" "forM xs body s = (Inr bs, s')"
  shows "cnt k s' = cnt k s + (\<Sum>x\<leftarrow>xs. if key x = k then amount x else 0)"
  using assms
proof (induction xs arbitrary: s bs)
  case Nil
  then show ?case by simp
next
  case (Cons x xs)
  from Cons.prems(3) obtain b s1 cs where b: "body x s = (Inr b, s1)" "forM xs body s1 = (Inr cs, s')"
    by (auto simp: bindM_Inr)
  have "\<forall>y \<in> set xs. good y s1"
    using Cons.prems(1,2) good_other [OF _ _ _ b(1)] by (auto simp: image_iff)
  with Cons.IH [OF _ _ b(2)] Cons.prems(2) post [OF _ b(1), of k] Cons.prems(1)
  show ?case by (simp add: add.assoc)
qed

end

text \<open>Where a post keeps every item good, the same key may be posted to more than once.\<close>

locale free_posting = posting +
  assumes good_stable: "good y s \<Longrightarrow> body x s = (Inr b, s') \<Longrightarrow> good y s'"
begin

lemma forM_post:
  assumes "\<forall>x \<in> set xs. good x s" "forM xs body s = (Inr bs, s')"
  shows "cnt k s' = cnt k s + (\<Sum>x\<leftarrow>xs. if key x = k then amount x else 0)"
  using assms
proof (induction xs arbitrary: s bs)
  case Nil
  then show ?case by simp
next
  case (Cons x xs)
  from Cons.prems(2) obtain b s1 cs where b: "body x s = (Inr b, s1)" "forM xs body s1 = (Inr cs, s')"
    by (auto simp: bindM_Inr)
  have "\<forall>y \<in> set xs. good y s1" using Cons.prems(1) good_stable [OF _ b(1)] by auto
  from Cons.IH [OF this b(2)] post [OF _ b(1), of k] Cons.prems(1)
  show ?case by (simp add: add.assoc)
qed

lemma forM_good:
  "good y s \<Longrightarrow> forM xs body s = (Inr bs, s') \<Longrightarrow> good y s'"
proof (induction xs arbitrary: s bs)
  case Nil
  then show ?case by simp
next
  case (Cons x xs)
  then show ?case by (auto simp: bindM_Inr dest: good_stable)
qed

end

text \<open>Where a good item is also always posted, so is a whole list of them.\<close>

locale live_posting = free_posting +
  assumes runs: "good x s \<Longrightarrow> \<exists>b s'. body x s = (Inr b, s')"
begin

lemma forM_runs:
  assumes "\<forall>x \<in> set xs. good x s"
  shows "\<exists>bs s'. forM xs body s = (Inr bs, s')"
  using assms
proof (induction xs arbitrary: s)
  case Nil
  then show ?case by simp
next
  case (Cons x xs)
  from runs [of x s] Cons.prems obtain b s1 where b: "body x s = (Inr b, s1)" by auto
  have "\<forall>y \<in> set xs. good y s1" using Cons.prems good_stable [OF _ b] by auto
  from Cons.IH [OF this] b show ?case by (auto simp: bindM_Inr)
qed

end

section \<open>Rows of a table\<close>

text \<open>
  A table is the list of its rows in insertion order. \<^verbatim>\<open>findFirst\<close> is \<open>List.find\<close>,
  \<^verbatim>\<open>findMany\<close> is \<open>filter\<close>, and \<^verbatim>\<open>update\<close>/\<^verbatim>\<open>updateMany\<close> rewrite the rows that match.
\<close>

definition update_where :: "('r \<Rightarrow> bool) \<Rightarrow> ('r \<Rightarrow> 'r) \<Rightarrow> 'r list \<Rightarrow> 'r list" where
  "update_where P f rows = map (\<lambda>r. if P r then f r else r) rows"

lemma update_where_simps [simp]:
  "update_where P f [] = []"
  "update_where P f (r # rows) = (if P r then f r else r) # update_where P f rows"
  by (simp_all add: update_where_def)

lemma update_where_append [simp]:
  "update_where P f (xs @ ys) = update_where P f xs @ update_where P f ys"
  by (simp add: update_where_def)

lemma length_update_where [simp]: "length (update_where P f xs) = length xs"
  by (simp add: update_where_def)

lemma map_update_where:
  "(\<And>r. P r \<Longrightarrow> k (f r) = k r) \<Longrightarrow> map k (update_where P f rows) = map k rows"
  by (induction rows) auto

lemma set_update_where: "set (update_where P f rows) = f ` {r \<in> set rows. P r} \<union> {r \<in> set rows. \<not> P r}"
  by (auto simp: update_where_def)

lemma image_update_where:
  "(\<And>r. P r \<Longrightarrow> k (f r) = k r) \<Longrightarrow> k ` set (update_where P f rows) = k ` set rows"
  using map_update_where [of P k f rows] by (metis list.set_map)

lemma update_where_none: "(\<And>r. r \<in> set rows \<Longrightarrow> \<not> P r) \<Longrightarrow> update_where P f rows = rows"
  by (induction rows) auto

lemma find_update_where:
  "(\<And>r. P r \<Longrightarrow> Q (f r) = Q r) \<Longrightarrow>
   List.find Q (update_where P f rows) = map_option (\<lambda>r. if P r then f r else r) (List.find Q rows)"
  by (induction rows) auto

lemma filter_update_where:
  "(\<And>r. P r \<Longrightarrow> Q (f r) = Q r) \<Longrightarrow>
   filter Q (update_where P f rows) = update_where P f (filter Q rows)"
  by (induction rows) auto

lemma find_append:
  "List.find P (xs @ ys) = (case List.find P xs of None \<Rightarrow> List.find P ys | Some x \<Rightarrow> Some x)"
  by (induction xs) auto

lemma find_SomeD: "List.find P xs = Some x \<Longrightarrow> x \<in> set xs \<and> P x"
  by (induction xs) (auto split: if_splits)

lemma find_None_iff': "List.find P xs = None \<longleftrightarrow> (\<forall>x \<in> set xs. \<not> P x)"
  by (induction xs) auto

lemma find_map_key:
  "distinct (map k xs) \<Longrightarrow> x \<in> set xs \<Longrightarrow> k x = v \<Longrightarrow> List.find (\<lambda>y. k y = v) xs = Some x"
  by (induction xs) auto

text \<open>\<^verbatim>\<open>update({ where: { id }, data })\<close>: Prisma raises when no row matches. The table is
  given by its selector and its setter.\<close>

definition update_row ::
  "('s \<Rightarrow> 'r list) \<Rightarrow> ('r list \<Rightarrow> 's \<Rightarrow> 's) \<Rightarrow> 'e \<Rightarrow> ('r \<Rightarrow> bool) \<Rightarrow> ('r \<Rightarrow> 'r)
   \<Rightarrow> ('s, 'e, unit) svc" where
  "update_row get upd e P f =
     (\<lambda>s. if list_ex P (get s) then (Inr (), upd (update_where P f (get s)) s) else (Inl e, s))"

lemma update_row_run [run_simps]:
  "update_row get upd e P f s =
     (if list_ex P (get s) then (Inr (), upd (update_where P f (get s)) s) else (Inl e, s))"
  by (simp add: update_row_def)

lemma bindM_update_row [run_simps]:
  "bindM (update_row get upd e P f) k s =
     (if list_ex P (get s) then k () (upd (update_where P f (get s)) s) else (Inl e, s))"
  by (simp add: update_row_def bindM_def)

lemma keeps_update_row [svc_intros]:
  "(\<And>s r. h (upd r s) = h s) \<Longrightarrow> keeps h (update_row get upd e P f)"
  by (auto simp: keeps_def update_row_def)

section \<open>Sums over rows\<close>

definition sum_where :: "('r \<Rightarrow> bool) \<Rightarrow> ('r \<Rightarrow> 'n) \<Rightarrow> 'r list \<Rightarrow> 'n::comm_monoid_add" where
  "sum_where P f rows = sum_list (map f (filter P rows))"

lemma sum_where_simps [simp]:
  "sum_where P f [] = 0"
  "sum_where P f (r # rows) = (if P r then f r else 0) + sum_where P f rows"
  by (simp_all add: sum_where_def)

lemma sum_where_append [simp]:
  "sum_where P f (xs @ ys) = sum_where P f xs + sum_where P f ys"
  by (induction xs) (auto simp: add.assoc)

lemma sum_where_nonneg:
  fixes f :: "'r \<Rightarrow> 'n::ordered_comm_monoid_add"
  shows "(\<And>r. r \<in> set rows \<Longrightarrow> P r \<Longrightarrow> 0 \<le> f r) \<Longrightarrow> 0 \<le> sum_where P f rows"
  by (induction rows) auto

lemma sum_where_cong:
  "(\<And>r. r \<in> set rows \<Longrightarrow> P r = Q r) \<Longrightarrow> (\<And>r. r \<in> set rows \<Longrightarrow> P r \<Longrightarrow> f r = g r) \<Longrightarrow>
   sum_where P f rows = sum_where Q g rows"
  by (induction rows) auto

lemma sum_where_False: "(\<And>r. r \<in> set rows \<Longrightarrow> \<not> P r) \<Longrightarrow> sum_where P f rows = 0"
  by (induction rows) auto

lemma sum_if_uminus:
  "(\<Sum>x\<leftarrow>xs. if P x then - f x else 0) = - (\<Sum>x\<leftarrow>xs. if P x then f x else (0::int))"
  by (induction xs) auto

text \<open>Changing one row, found by a unique key, moves a sum by the change of that row.\<close>

lemma sum_where_update_key:
  fixes f :: "'r \<Rightarrow> 'n::ab_group_add"
  assumes "distinct (map k rows)" and "r \<in> set rows" and "k (g r) = k r"
  shows "sum_where P f (update_where (\<lambda>x. k x = k r) g rows) =
    sum_where P f rows - (if P r then f r else 0) + (if P (g r) then f (g r) else 0)"
  using assms
proof (induction rows)
  case Nil
  then show ?case by simp
next
  case (Cons x rows)
  show ?case
  proof (cases "x = r")
    case True
    with Cons.prems(1) have "update_where (\<lambda>y. k y = k r) g rows = rows"
      by (intro update_where_none) (auto simp: image_iff)
    with True show ?thesis by simp
  next
    case False
    with Cons.prems have "r \<in> set rows" "k x \<noteq> k r" by auto
    with Cons show ?thesis by (simp add: algebra_simps)
  qed
qed

end
