(* ===== verification/JsNumber.thy ===== *)
theory JsNumber
  imports Prelude "HOL-Library.Log_Nat"
begin

text \<open>
  JavaScript numbers. A finite \<^verbatim>\<open>number\<close> is the rational it denotes, and every arithmetic
  result is rounded to the nearest IEEE double, ties to even: 53 bits of significand, with the
  exponent unbounded (overflow to \<^verbatim>\<open>Infinity\<close> and subnormals do not arise for the amounts the
  program handles). The services compute with \<^verbatim>\<open>number\<close> in \<^verbatim>\<open>cart.service.ts\<close>,
  \<^verbatim>\<open>pricing.service.ts\<close> and the valuation report of \<^verbatim>\<open>balance.service.ts\<close>; everywhere else
  they use \<^verbatim>\<open>Prisma.Decimal\<close>, whose sums and products are exact on the amounts that fit the
  database's columns.
\<close>

section \<open>Rounding to a double\<close>

definition round_even :: "rat \<Rightarrow> int" where
  "round_even x =
     (let n = \<lfloor>x\<rfloor>; d = x - of_int n
      in if d < 1/2 then n else if 1/2 < d then n + 1 else if even n then n else n + 1)"

text \<open>The binary exponent of a non-zero rational: \<open>2 powi e \<le> \<bar>x\<bar> < 2 powi (e + 1)\<close>.\<close>

definition expo :: "rat \<Rightarrow> int" where
  "expo x = (let (p, q) = quotient_of \<bar>x\<bar>; e = bitlen p - bitlen q
             in if 2 powi e \<le> \<bar>x\<bar> then e else e - 1)"

definition fl :: "rat \<Rightarrow> rat" where
  "fl x = (if x = 0 then 0
           else let u = 2 powi (expo x - 52) in of_int (round_even (x / u)) * u)"

definition js_add :: "rat \<Rightarrow> rat \<Rightarrow> rat" where "js_add a b = fl (a + b)"
definition js_sub :: "rat \<Rightarrow> rat \<Rightarrow> rat" where "js_sub a b = fl (a - b)"
definition js_mul :: "rat \<Rightarrow> rat \<Rightarrow> rat" where "js_mul a b = fl (a * b)"
definition js_div :: "rat \<Rightarrow> rat \<Rightarrow> rat" where "js_div a b = fl (a / b)"

section \<open>Its error\<close>

lemma round_even_int [simp]: "round_even (of_int n) = n"
  by (simp add: round_even_def)

lemma round_even_err: "\<bar>of_int (round_even x) - x\<bar> \<le> 1/2"
proof -
  have "of_int \<lfloor>x\<rfloor> \<le> x" "x < of_int \<lfloor>x\<rfloor> + 1"
    by linarith+
  then show ?thesis
    unfolding round_even_def Let_def
    by (simp split: if_splits)
qed

lemma round_even_mono: "x \<le> y \<Longrightarrow> round_even x \<le> round_even y"
proof -
  assume xy: "x \<le> y"
  then have le: "\<lfloor>x\<rfloor> \<le> \<lfloor>y\<rfloor>" by (rule floor_mono)
  show ?thesis
  proof (cases "\<lfloor>x\<rfloor> = \<lfloor>y\<rfloor>")
    case True
    with xy show ?thesis by (auto simp: round_even_def Let_def)
  next
    case False
    with le have "\<lfloor>x\<rfloor> + 1 \<le> \<lfloor>y\<rfloor>" by linarith
    then show ?thesis by (auto simp: round_even_def Let_def)
  qed
qed

lemma bitlen_pos_bounds:
  assumes "0 < p"
  shows "(2::rat) powi (bitlen p - 1) \<le> of_int p" "of_int p < (2::rat) powi bitlen p"
proof -
  from bitlen_bounds [OF assms] have b: "2 ^ nat (bitlen p - 1) \<le> p" "p < 2 ^ nat (bitlen p)"
    by auto
  have n: "0 \<le> bitlen p - 1" "0 \<le> bitlen p"
    using assms bitlen_nonneg [of p] by (auto simp: bitlen_def floorlog_def)
  from b(1) have "(of_int (2 ^ nat (bitlen p - 1)) :: rat) \<le> of_int p"
    by (simp only: of_int_le_iff)
  with n show "(2::rat) powi (bitlen p - 1) \<le> of_int p" by (simp add: power_int_def)
  from b(2) have "(of_int p :: rat) < of_int (2 ^ nat (bitlen p))"
    by (simp only: of_int_less_iff)
  with n show "of_int p < (2::rat) powi bitlen p" by (simp add: power_int_def)
qed

lemma expo_bounds:
  assumes "x \<noteq> 0"
  shows "2 powi expo x \<le> \<bar>x\<bar>" "\<bar>x\<bar> < 2 powi (expo x + 1)"
proof -
  obtain p q where pq: "quotient_of \<bar>x\<bar> = (p, q)" by fastforce
  then have x: "\<bar>x\<bar> = of_int p / of_int q" and q: "0 < q"
    by (auto intro: quotient_of_div quotient_of_denom_pos)
  with assms have p: "0 < p" by (metis abs_le_zero_iff divide_nonpos_pos not_le of_int_0_less_iff of_int_le_0_iff)
  let ?e = "bitlen p - bitlen q"
  note P = bitlen_pos_bounds [OF p] and Q = bitlen_pos_bounds [OF q]
  have qpos: "(0::rat) < of_int q" using q by simp
  have "of_int p < (2::rat) powi (?e + 1) * 2 powi (bitlen q - 1)"
    using P(2) by (simp flip: power_int_add)
  also have "\<dots> \<le> 2 powi (?e + 1) * of_int q" using Q(1) by simp
  finally have up: "\<bar>x\<bar> < 2 powi (?e + 1)" using qpos by (simp add: x field_simps)
  have "(2::rat) powi (?e - 1) * of_int q \<le> 2 powi (?e - 1) * 2 powi bitlen q"
    using Q(2) by simp
  also have "\<dots> = 2 powi (bitlen p - 1)" by (simp flip: power_int_add)
  also note P(1)
  finally have lo: "2 powi (?e - 1) \<le> \<bar>x\<bar>" using qpos by (simp add: x field_simps)
  show "2 powi expo x \<le> \<bar>x\<bar>" using lo by (simp add: expo_def pq Let_def)
  show "\<bar>x\<bar> < 2 powi (expo x + 1)" using up by (simp add: expo_def pq Let_def)
qed

lemma fl_0 [simp]: "fl 0 = 0"
  by (simp add: fl_def)

text \<open>The relative error of one rounding is at most \<open>2 powi (- 53)\<close>.\<close>

lemma fl_err: "\<bar>fl x - x\<bar> \<le> \<bar>x\<bar> / 2 ^ 53"
proof (cases "x = 0")
  case False
  define u :: rat where "u = 2 powi (expo x - 52)"
  have u: "0 < u" by (simp add: u_def)
  have "\<bar>fl x - x\<bar> = \<bar>of_int (round_even (x / u)) - x / u\<bar> * u"
    using u False by (simp add: fl_def u_def [symmetric] abs_mult_pos left_diff_distrib abs_of_pos)
  also have "\<dots> \<le> 1/2 * u" using round_even_err [of "x / u"] u by (intro mult_right_mono) auto
  also have "1/2 * u = 2 powi expo x / 2 ^ 53"
    by (simp add: u_def power_int_diff)
  also have "\<dots> \<le> \<bar>x\<bar> / 2 ^ 53"
    using expo_bounds(1) [OF False] by (rule divide_right_mono) simp
  finally show ?thesis .
qed simp

lemma fl_nonneg: "0 \<le> x \<Longrightarrow> 0 \<le> fl x"
proof -
  assume "0 \<le> x"
  have "\<bar>fl x - x\<bar> \<le> x" using fl_err [of x] \<open>0 \<le> x\<close> by (simp add: field_simps)
  then show ?thesis by linarith
qed

lemma fl_le_double: "0 \<le> x \<Longrightarrow> fl x \<le> 2 * x"
proof -
  assume "0 \<le> x"
  have "\<bar>fl x - x\<bar> \<le> x" using fl_err [of x] \<open>0 \<le> x\<close> by (simp add: field_simps)
  then show ?thesis by linarith
qed

text \<open>Integers up to \<^verbatim>\<open>Number.MAX_SAFE_INTEGER\<close> are represented exactly.\<close>

lemma fl_int:
  assumes "\<bar>n\<bar> < 2 ^ 53"
  shows "fl (of_int n) = of_int n"
proof (cases "n = 0")
  case False
  let ?x = "of_int n :: rat"
  have x0: "?x \<noteq> 0" using False by simp
  have "(2::rat) powi expo ?x \<le> of_int \<bar>n\<bar>" using expo_bounds(1) [OF x0] by simp
  also have "of_int \<bar>n\<bar> < (of_int (2 ^ 53) :: rat)" using assms by (simp only: of_int_less_iff)
  finally have "(2::rat) powi expo ?x < 2 powi 53" by simp
  then have e: "expo ?x \<le> 52"
    using power_int_increasing [of 53 "expo ?x" "2::rat"] by force
  define k where "k = nat (52 - expo ?x)"
  have u: "(2::rat) powi (expo ?x - 52) = 1 / 2 ^ k"
    using e by (simp add: k_def power_int_def divide_simps)
  have "?x / (2 powi (expo ?x - 52)) = of_int (n * 2 ^ k)" by (simp add: u)
  then have "round_even (?x / (2 powi (expo ?x - 52))) = n * 2 ^ k" by (simp only: round_even_int)
  with x0 show ?thesis by (simp add: fl_def Let_def u)
qed simp

lemma fl_eq_self_rel: "\<bar>x\<bar> \<le> B \<Longrightarrow> \<bar>fl x - x\<bar> \<le> B / 2 ^ 53"
  using fl_err [of x] by (meson divide_right_mono dual_order.trans zero_le_numeral zero_le_power)

end
