(* ===== verification/Db.thy ===== *)
theory Db
  imports JsNumber
begin

text \<open>
  The data of the program: the rows of \<^verbatim>\<open>prisma/schemas\<close> that the modelled services read and
  write, the exceptions they throw, and what they get from outside the repository.

  Identifiers are strings (UUIDs), instants are integers (milliseconds), quantities are
  integers and amounts of money are rationals. A nullable column is an \<open>option\<close>. Free-form JSON
  columns, columns that are only copied from a request to a response (the images and the tax rate of
  a product, say) and the instants of the last update are left out.
\<close>

type_synonym id = string
type_synonym instant = int
type_synonym money = rat

section \<open>Enumerations\<close>

datatype PricingMethod = LIFO | FIFO | MOVING_AVERAGE
datatype ProductType = SIMPLE | VARIABLE | VARIANT
datatype ProductStatus = ProdDraft | ProdActive | ProdArchived
datatype MarkupType = PERCENT | FIXED_AMOUNT | MANUAL
datatype LocationStatus = LocActive | LocInactive | LocClosed
datatype MovementType = IN | OUT
datatype ReferenceType = PURCHASE | SALE | TRANSFER | RETURN | ADJUSTMENT
datatype MovementStatus = MovPending | MovCompleted | MovCancelled
datatype TransferStatus = DRAFT | IN_TRANSIT | COMPLETED | CANCELLED
datatype ReservationStatus = ACTIVE | RELEASED | FULFILLED | EXPIRED
datatype SaleStatus = SaleDraft | SalePending | SaleCompleted | SalePartiallyPaid | SaleVoided
  | SaleRefunded | SalePartiallyRefunded
datatype PaymentMethod = CASH | CARD | BKASH | NAGAD | ROCKET | MOBILE_WALLET | BANK_TRANSFER
  | STORE_CREDIT
datatype PaymentStatus = PayPending | PayCompleted | PayFailed | PayRefunded | PayPartiallyRefunded
datatype SessionStatus = SesOpen | SesClosed | SesReconciling
datatype LocationType = WAREHOUSE | STORAGE
datatype LocationSubType = ONLINE | PHYSICAL | HYBRID
datatype CustomerType = INDIVIDUAL | BUSINESS
datatype CustomerStatus = CusActive | CusInactive | CusBlocked
datatype AddressType = BILLING | SHIPPING | BOTH
datatype DocumentType = QUOTE | PROFORMA | INVOICE
datatype DocumentStatus = DocDraft | DocSent | DocAccepted | DocRejected | DocExpired | DocPaid
  | DocPartiallyPaid | DocOverdue | DocCancelled

section \<open>Rows\<close>

record tenant =
  ten_id :: id
  ten_name :: string
  ten_deletedAt :: "instant option"
  ten_defaultPricingMethod :: PricingMethod

record product =
  prod_id :: id
  prod_name :: string
  prod_sku :: string
  prod_slug :: "string option"
  prod_tenantId :: id
  prod_productType :: ProductType
  prod_pricingMethod :: "PricingMethod option"
  prod_markupType :: "MarkupType option"
  prod_markupValue :: "money option"
  prod_minSellingPrice :: "money option"
  prod_maxSellingPrice :: "money option"
  prod_reorderLevel :: int
  prod_deletedAt :: "instant option"
  prod_status :: ProductStatus
  prod_parentId :: "id option"
  prod_unitType :: "string option"
  prod_shortDescription :: "string option"
  prod_isFeatured :: bool
  prod_createdAt :: instant

text \<open>An attribute of a product, with its values; a product has each key at most once.\<close>

record product_attribute =
  pav_productId :: id
  pav_key :: string
  pav_values :: "string list"

text \<open>The unit types of a tenant; the row without a tenant is the default.\<close>

record tenant_unit_types =
  utt_id :: id
  utt_values :: "string list"
  utt_tenantId :: "id option"

record supplier =
  sup_id :: id
  sup_name :: string
  sup_email :: "string option"
  sup_phone :: "string option"
  sup_address :: "string option"
  sup_contactName :: "string option"
  sup_notes :: "string option"
  sup_tenantId :: id
  sup_deletedAt :: "instant option"

record batch =
  bat_id :: id
  bat_supplierId :: "id option"

record category =
  cat_id :: id
  cat_name :: string
  cat_slug :: string
  cat_description :: "string option"
  cat_image :: "string option"
  cat_status :: ProductStatus
  cat_parentId :: "id option"
  cat_tenantId :: id
  cat_deletedAt :: "instant option"

record location_address =
  lad_addressLine1 :: "string option"
  lad_addressLine2 :: "string option"
  lad_city :: "string option"
  lad_state :: "string option"
  lad_postalCode :: "string option"
  lad_country :: "string option"
  lad_latitude :: "rat option"
  lad_longitude :: "rat option"
  lad_googleMapUrl :: "string option"

text \<open>A location is kept with its address, of which it has at most one.\<close>

record location =
  loc_id :: id
  loc_name :: string
  loc_code :: "string option"
  loc_tenantId :: id
  loc_status :: LocationStatus
  loc_type :: LocationType
  loc_subType :: LocationSubType
  loc_email :: string
  loc_phone :: string
  loc_businessHours :: string
  loc_totalCapacity :: "int option"
  loc_establishedYear :: instant
  loc_createdByUserId :: "id option"
  loc_address :: "location_address option"

record balance =
  bal_productId :: id
  bal_locationId :: id
  bal_tenantId :: id
  bal_onHandQuantity :: int
  bal_reservedQuantity :: int

record layer =
  lay_id :: id
  lay_unitCost :: money
  lay_originalQty :: int
  lay_remainingQty :: int
  lay_productId :: id
  lay_locationId :: id
  lay_tenantId :: id
  lay_sourceMovementId :: "id option"
  lay_batchId :: "id option"
  lay_createdAt :: instant

record consumption =
  con_valuationLayerId :: id
  con_stockMovementId :: id
  con_quantity :: int
  con_unitCost :: money

record movement =
  mov_id :: id
  mov_movementType :: MovementType
  mov_quantity :: int
  mov_unitCost :: money
  mov_totalCost :: money
  mov_referenceType :: ReferenceType
  mov_referenceId :: "string option"
  mov_status :: MovementStatus
  mov_note :: "string option"
  mov_productId :: id
  mov_locationId :: id
  mov_tenantId :: id
  mov_createdById :: "id option"
  mov_transferId :: "id option"
  mov_createdAt :: instant

record reservation =
  res_id :: id
  res_quantity :: int
  res_expiresAt :: instant
  res_status :: ReservationStatus
  res_referenceType :: "string option"
  res_referenceId :: "string option"
  res_productId :: id
  res_locationId :: id
  res_tenantId :: id
  res_createdById :: "id option"

record transfer_item =
  ti_id :: id
  ti_productId :: id
  ti_requestedQuantity :: int
  ti_shippedQuantity :: int
  ti_receivedQuantity :: int
  ti_shippedUnitCost :: "money option"
  ti_shortageReason :: "string option"

text \<open>A transfer is kept with its items, which the code always reads and creates together.\<close>

record stock_transfer =
  trf_id :: id
  trf_transferNumber :: string
  trf_fromLocationId :: id
  trf_toLocationId :: id
  trf_status :: TransferStatus
  trf_shippedAt :: "instant option"
  trf_receivedAt :: "instant option"
  trf_cancelledAt :: "instant option"
  trf_note :: "string option"
  trf_tenantId :: id
  trf_createdById :: "id option"
  trf_createdAt :: instant
  trf_items :: "transfer_item list"

record sale =
  sale_id :: id
  sale_saleNumber :: string
  sale_subtotal :: money
  sale_discountAmount :: money
  sale_taxAmount :: money
  sale_totalAmount :: money
  sale_paidAmount :: money
  sale_changeAmount :: money
  sale_status :: SaleStatus
  sale_customerId :: "id option"
  sale_locationId :: id
  sale_terminalId :: "id option"
  sale_sessionId :: "id option"
  sale_cashierId :: id
  sale_notes :: "string option"
  sale_createdAt :: instant
  sale_completedAt :: "instant option"
  sale_voidedAt :: "instant option"
  sale_voidedById :: "id option"
  sale_voidReason :: "string option"
  sale_tenantId :: id

record sale_item =
  si_id :: id
  si_saleId :: id
  si_productId :: id
  si_productName :: string
  si_productSku :: string
  si_quantity :: int
  si_unitPrice :: money
  si_unitCost :: money
  si_discountAmount :: money
  si_lineTotal :: money
  si_notes :: "string option"

record sale_payment =
  pay_id :: id
  pay_saleId :: id
  pay_amount :: money
  pay_method :: PaymentMethod
  pay_status :: PaymentStatus
  pay_transactionRef :: "string option"
  pay_notes :: "string option"
  pay_processedById :: id
  pay_processedAt :: instant

record refund_item =
  ri_saleItemId :: id
  ri_quantity :: int

record sale_refund =
  ref_id :: id
  ref_refundNumber :: string
  ref_amount :: money
  ref_method :: PaymentMethod
  ref_status :: PaymentStatus
  ref_reason :: string
  ref_items :: "refund_item list option"
  ref_saleId :: id
  ref_processedById :: id
  ref_tenantId :: id
  ref_processedAt :: instant

record terminal =
  term_id :: id
  term_name :: string
  term_code :: string
  term_isActive :: bool
  term_locationId :: id
  term_tenantId :: id
  term_createdById :: "id option"
  term_createdAt :: instant
  term_deletedAt :: "instant option"

record session =
  ses_id :: id
  ses_sessionNumber :: string
  ses_openingBalance :: money
  ses_closingBalance :: "money option"
  ses_expectedBalance :: "money option"
  ses_variance :: "money option"
  ses_status :: SessionStatus
  ses_openedAt :: instant
  ses_closedAt :: "instant option"
  ses_notes :: "string option"
  ses_terminalId :: id
  ses_openedById :: id
  ses_closedById :: "id option"
  ses_tenantId :: id

record daily_summary =
  dss_date :: int
  dss_locationId :: id
  dss_tenantId :: id
  dss_totalSales :: nat
  dss_totalRevenue :: money
  dss_totalCOGS :: money
  dss_totalDiscount :: money
  dss_totalTax :: money
  dss_totalRefunds :: money
  dss_cashTotal :: money
  dss_cardTotal :: money
  dss_bkashTotal :: money
  dss_nagadTotal :: money
  dss_otherTotal :: money

record customer =
  cus_id :: id
  cus_customerType :: CustomerType
  cus_firstName :: string
  cus_lastName :: "string option"
  cus_companyName :: "string option"
  cus_taxId :: "string option"
  cus_email :: "string option"
  cus_phone :: string
  cus_alternatePhone :: "string option"
  cus_status :: CustomerStatus
  cus_tags :: "string list"
  cus_notes :: "string option"
  cus_tenantId :: id
  cus_createdById :: "id option"
  cus_createdAt :: instant
  cus_deletedAt :: "instant option"

record customer_address =
  cad_id :: id
  cad_addressType :: AddressType
  cad_label :: "string option"
  cad_isDefault :: bool
  cad_addressLine1 :: "string option"
  cad_addressLine2 :: "string option"
  cad_city :: "string option"
  cad_state :: "string option"
  cad_postalCode :: "string option"
  cad_country :: "string option"
  cad_latitude :: "rat option"
  cad_longitude :: "rat option"
  cad_customerId :: id
  cad_createdAt :: instant

record invoice =
  inv_id :: id
  inv_documentNumber :: string
  inv_documentType :: DocumentType
  inv_status :: DocumentStatus
  inv_subject :: "string option"
  inv_subtotal :: money
  inv_discountAmount :: money
  inv_taxAmount :: money
  inv_totalAmount :: money
  inv_paidAmount :: money
  inv_dueAmount :: money
  inv_issueDate :: instant
  inv_dueDate :: "instant option"
  inv_validUntil :: "instant option"
  inv_paymentTerms :: "string option"
  inv_sourceDocumentId :: "id option"
  inv_customerId :: id
  inv_locationId :: id
  inv_tenantId :: id
  inv_createdById :: "id option"
  inv_notes :: "string option"
  inv_customerNotes :: "string option"
  inv_termsConditions :: "string option"
  inv_createdAt :: instant
  inv_sentAt :: "instant option"
  inv_acceptedAt :: "instant option"
  inv_paidAt :: "instant option"
  inv_cancelledAt :: "instant option"

record invoice_item =
  ini_id :: id
  ini_productId :: id
  ini_productName :: string
  ini_productSku :: string
  ini_quantity :: int
  ini_unitPrice :: money
  ini_discountAmount :: money
  ini_taxAmount :: money
  ini_lineTotal :: money
  ini_notes :: "string option"
  ini_sortOrder :: int
  ini_invoiceId :: id

record invoice_payment =
  inp_id :: id
  inp_amount :: money
  inp_paymentMethod :: PaymentMethod
  inp_transactionRef :: "string option"
  inp_paymentDate :: instant
  inp_notes :: "string option"
  inp_invoiceId :: id
  inp_processedById :: "id option"

text \<open>A delayed job of the reservation queue: \<^verbatim>\<open>jobId = expire-<reservationId>\<close>.\<close>

record expiry_job =
  job_reservationId :: id
  job_tenantId :: id
  job_runAt :: instant

text \<open>The database, with the two queues: delayed expiry jobs, and the jobs that ask for the summary of
  a tenant's location on a day. \<open>productCategories\<close> is the junction table, as pairs of a product and
  a category.\<close>

record db =
  tenants :: "tenant list"
  products :: "product list"
  locations :: "location list"
  balances :: "balance list"
  layers :: "layer list"
  consumptions :: "consumption list"
  movements :: "movement list"
  reservations :: "reservation list"
  transfers :: "stock_transfer list"
  sales :: "sale list"
  saleItems :: "sale_item list"
  payments :: "sale_payment list"
  refunds :: "sale_refund list"
  terminals :: "terminal list"
  sessions :: "session list"
  jobs :: "expiry_job list"
  reportJobs :: "(id \<times> id \<times> instant) list"
  categories :: "category list"
  productCategories :: "(id \<times> id) list"
  productAttributes :: "product_attribute list"
  unitTypes :: "tenant_unit_types list"
  suppliers :: "supplier list"
  batches :: "batch list"
  dailySummaries :: "daily_summary list"
  customers :: "customer list"
  customerAddresses :: "customer_address list"
  invoices :: "invoice list"
  invoiceItems :: "invoice_item list"
  invoicePayments :: "invoice_payment list"
  clock :: instant
  nextId :: nat

section \<open>Exceptions\<close>

text \<open>The exception classes of NestJS the services throw, with the message they carry, a plain
  \<^verbatim>\<open>Error\<close>, and the errors Prisma itself raises: the row of an \<^verbatim>\<open>update\<close> is missing, an inserted row repeats the value
  of a unique index or names a row of another table that does not exist, a value does not fit its column.\<close>

datatype msg =
    ProductsNotFound "id list"
  | ParentProducts "string list"
  | LocationNotFound
  | LocationIdNotFound id
  | InsufficientStock string int int int int
  | InsufficientAvailable int int
  | InsufficientForSale "string option" int rat
  | ProductNotFound
  | ProductIdNotFound id
  | ExpiryInPast
  | NothingToUpdate
  | ReservationNotFound
  | CannotUpdateReservation ReservationStatus
  | CannotReleaseReservation ReservationStatus
  | SameLocations
  | TransferNotFound
  | CannotShip TransferStatus
  | CannotReceive TransferStatus
  | MissingReceived id
  | ReceivedTooMuch id int int
  | ShortageReasonRequired id int int int
  | CannotCancelCompleted
  | AlreadyCancelled
  | MovementNotFound
  | CartNotFound
  | CartItemNotFound
  | SaleNotFound
  | SaleNotDraft SaleStatus
  | EmptySale
  | FailedToCreateSale
  | NoItems
  | NoPayments
  | InsufficientPayment money money
  | CannotVoid SaleStatus
  | CannotRefund SaleStatus
  | RefundTooLarge money
  | SaleItemNotFound id
  | TerminalNotFound
  | TerminalInactive
  | TerminalCodeTaken string
  | TerminalHasOpenSession string
  | OpenSessionBlocksDelete
  | SessionNotFound
  | CannotCloseSession SessionStatus
  | CategoriesNotFound "id list"
  | ParentCategoryNotFound
  | CategoryNotFound
  | SelfParent
  | CircularParent
  | CategoryHasChildren
  | CategoryHasProducts
  | SlugOrNameRequired
  | SkuTaken
  | ProductHasVariants
  | CustomerNotFound
  | CustomerIdNotFound id
  | CustomerNameRequired
  | CompanyNameRequired
  | CustomerPhoneTaken
  | CustomerEmailTaken
  | AddressNotFound
  | SupplierNameTaken
  | SupplierNotFound
  | SupplierHasBatches
  | LocationCodeTaken
  | LocationEmailTaken
  | LocationPhoneTaken
  | LocationHasStock
  | InvoiceNotFound
  | QuoteNotFound
  | SomeProductsNotFound
  | FailedToCreateInvoice
  | FailedToConvertQuote
  | OnlyDraftsUpdated
  | OnlyDraftsSent
  | OnlyQuotesConverted
  | QuoteNotOpen
  | NoPaymentOnQuotes
  | CannotCancelInvoice

datatype exn = NotFoundException msg | BadRequestException msg | ConflictException msg
  | PlainError msg | RecordNotFound | UniqueConstraint | ForeignKeyConstraint | ValidationError

type_synonym 'a handler = "(db, exn, 'a) svc"

section \<open>What comes from outside the repository\<close>

text \<open>
  Parameters of the model: the UUID generator (the \<open>n\<close>-th identifier it hands out),
  \<^verbatim>\<open>new Prisma.Decimal(number)\<close>, \<^verbatim>\<open>Decimal.div\<close> (which rounds to the library's working
  precision), what a \<^verbatim>\<open>@db.Decimal(_, 4)\<close> column holds after a value is stored in it,
  PostgreSQL's case-insensitive \<^verbatim>\<open>contains\<close>, and the calendar year of an instant in the server's
  time zone. Theorems that rely on their documented behaviour
  name it as a hypothesis.
\<close>

record env =
  e_uuid :: "nat \<Rightarrow> id"
  e_dec :: "rat \<Rightarrow> money"
  e_div :: "money \<Rightarrow> int \<Rightarrow> money"
  e_col :: "money \<Rightarrow> money"
  e_ilike :: "string \<Rightarrow> string \<Rightarrow> bool"
  e_year :: "instant \<Rightarrow> nat"

text \<open>Sample rows for the witnesses.\<close>

definition sample_product :: "id \<Rightarrow> string \<Rightarrow> string \<Rightarrow> id \<Rightarrow> ProductType \<Rightarrow> money option \<Rightarrow> int \<Rightarrow> product" where
  "sample_product i name1 sku t ty price level =
     \<lparr>prod_id = i, prod_name = name1, prod_sku = sku, prod_slug = None, prod_tenantId = t,
      prod_productType = ty, prod_pricingMethod = None, prod_markupType = None, prod_markupValue = None,
      prod_minSellingPrice = price, prod_maxSellingPrice = None, prod_reorderLevel = level,
      prod_deletedAt = None, prod_status = ProdActive, prod_parentId = None, prod_unitType = None,
      prod_shortDescription = None, prod_isFeatured = False, prod_createdAt = 0\<rparr>"

definition sample_location :: "id \<Rightarrow> string \<Rightarrow> id \<Rightarrow> location" where
  "sample_location i name1 t =
     \<lparr>loc_id = i, loc_name = name1, loc_code = None, loc_tenantId = t, loc_status = LocActive,
      loc_type = WAREHOUSE, loc_subType = PHYSICAL, loc_email = i @ ''@shop'', loc_phone = i,
      loc_businessHours = ''9:00 AM - 5:00 PM'', loc_totalCapacity = None, loc_establishedYear = 0,
      loc_createdByUserId = None, loc_address = None\<rparr>"

lemma sample_product_simps [simp]:
  "prod_id (sample_product i n k t ty pr lv) = i" "prod_name (sample_product i n k t ty pr lv) = n"
  "prod_sku (sample_product i n k t ty pr lv) = k" "prod_tenantId (sample_product i n k t ty pr lv) = t"
  "prod_productType (sample_product i n k t ty pr lv) = ty" "prod_slug (sample_product i n k t ty pr lv) = None"
  "prod_minSellingPrice (sample_product i n k t ty pr lv) = pr" "prod_deletedAt (sample_product i n k t ty pr lv) = None"
  "prod_pricingMethod (sample_product i n k t ty pr lv) = None" "prod_reorderLevel (sample_product i n k t ty pr lv) = lv"
  by (simp_all add: sample_product_def)

lemma sample_location_simps [simp]:
  "loc_id (sample_location i n t) = i" "loc_name (sample_location i n t) = n"
  "loc_tenantId (sample_location i n t) = t" "loc_status (sample_location i n t) = LocActive"
  by (simp_all add: sample_location_def)

text \<open>A column keeps four decimals, rounding to the nearest.\<close>

definition four_decimals :: "money \<Rightarrow> bool" where
  "four_decimals x \<longleftrightarrow> (\<exists>k::int. x = of_int k / 10000)"

definition column_rounds :: "env \<Rightarrow> bool" where
  "column_rounds E \<longleftrightarrow> (\<forall>x. four_decimals (e_col E x) \<and> \<bar>e_col E x - x\<bar> \<le> 1 / 20000)"

text \<open>A concrete environment for the witnesses: exact decimals, columns rounding half up.\<close>

definition col4 :: "rat \<Rightarrow> rat" where
  "col4 x = of_int \<lfloor>x * 10000 + 1/2\<rfloor> / 10000"

definition nat_id :: "nat \<Rightarrow> id" where
  "nat_id n = replicate (Suc n) CHR ''u''"

definition env0 :: env where
  "env0 = \<lparr>e_uuid = nat_id, e_dec = (\<lambda>x. x), e_div = (\<lambda>x q. x / of_int q), e_col = col4,
           e_ilike = (\<lambda>t s. t = s), e_year = (\<lambda>_. 2026)\<rparr>"

definition db0 :: db where
  "db0 = \<lparr>tenants = [], products = [], locations = [], balances = [], layers = [],
     consumptions = [], movements = [], reservations = [], transfers = [], sales = [],
     saleItems = [], payments = [], refunds = [], terminals = [], sessions = [], jobs = [],
     reportJobs = [], categories = [], productCategories = [],
     productAttributes = [], unitTypes = [], suppliers = [], batches = [], dailySummaries = [],
     customers = [], customerAddresses = [], invoices = [], invoiceItems = [], invoicePayments = [],
     clock = 0, nextId = 0\<rparr>"

lemma env0_simps [simp]:
  "e_uuid env0 = nat_id" "e_dec env0 x = x" "e_div env0 x q = x / of_int q"
  "e_col env0 x = col4 x"
  by (simp_all add: env0_def)

lemma column_rounds_env0: "column_rounds env0"
proof -
  have "\<bar>of_int \<lfloor>x * 10000 + 1/2\<rfloor> / 10000 - x\<bar> \<le> (1::rat) / 20000" for x :: rat
  proof -
    have "of_int \<lfloor>x * 10000 + 1/2\<rfloor> \<le> x * 10000 + 1/2"
      "x * 10000 + 1/2 < of_int \<lfloor>x * 10000 + 1/2\<rfloor> + 1" by linarith+
    then have "of_int \<lfloor>x * 10000 + 1/2\<rfloor> / 10000 - x \<le> (1::rat) / 20000"
      "x - of_int \<lfloor>x * 10000 + 1/2\<rfloor> / 10000 \<le> (1::rat) / 20000" by linarith+
    then show ?thesis by linarith
  qed
  then show ?thesis by (auto simp: column_rounds_def four_decimals_def col4_def)
qed

lemma four_decimals_eq:
  assumes "four_decimals x" "four_decimals y" "\<bar>x - y\<bar> < 1 / 10000"
  shows "x = y"
proof -
  from assms obtain a b :: int where ab: "x = of_int a / 10000" "y = of_int b / 10000"
    by (auto simp: four_decimals_def)
  with assms(3) have "\<bar>of_int (a - b) :: rat\<bar> < 1" by (simp add: abs_less_iff field_simps)
  then have "\<bar>a - b\<bar> < 1" by (metis of_int_abs of_int_less_1_iff)
  with ab show ?thesis by simp
qed

text \<open>Storing an amount that already has four decimals changes nothing.\<close>

lemma column_exact:
  assumes "column_rounds E" "four_decimals x"
  shows "e_col E x = x"
proof -
  from assms(1) have "four_decimals (e_col E x)" "\<bar>e_col E x - x\<bar> \<le> 1 / 20000"
    by (simp_all add: column_rounds_def)
  then show ?thesis using assms(2) by (intro four_decimals_eq) linarith+
qed

section \<open>Database primitives\<close>

text \<open>\<^verbatim>\<open>@default(uuid())\<close>: the next identifier.\<close>

definition fresh_id :: "env \<Rightarrow> id handler" where
  "fresh_id E = (\<lambda>s. (Inr (e_uuid E (nextId s)), s\<lparr>nextId := Suc (nextId s)\<rparr>))"

text \<open>\<^verbatim>\<open>new Date()\<close>.\<close>

definition now :: "instant handler" where
  "now = readM clock"

text \<open>\<^verbatim>\<open>prisma.<table>.update\<close> on the tables that have one.\<close>

abbreviation update_balance :: "(balance \<Rightarrow> bool) \<Rightarrow> (balance \<Rightarrow> balance) \<Rightarrow> unit handler" where
  "update_balance \<equiv> update_row balances (\<lambda>rows s. s\<lparr>balances := rows\<rparr>) RecordNotFound"
abbreviation update_layer :: "(layer \<Rightarrow> bool) \<Rightarrow> (layer \<Rightarrow> layer) \<Rightarrow> unit handler" where
  "update_layer \<equiv> update_row layers (\<lambda>rows s. s\<lparr>layers := rows\<rparr>) RecordNotFound"
abbreviation update_reservation :: "(reservation \<Rightarrow> bool) \<Rightarrow> (reservation \<Rightarrow> reservation) \<Rightarrow> unit handler" where
  "update_reservation \<equiv> update_row reservations (\<lambda>rows s. s\<lparr>reservations := rows\<rparr>) RecordNotFound"
abbreviation update_transfer :: "(stock_transfer \<Rightarrow> bool) \<Rightarrow> (stock_transfer \<Rightarrow> stock_transfer) \<Rightarrow> unit handler" where
  "update_transfer \<equiv> update_row transfers (\<lambda>rows s. s\<lparr>transfers := rows\<rparr>) RecordNotFound"
abbreviation update_sale :: "(sale \<Rightarrow> bool) \<Rightarrow> (sale \<Rightarrow> sale) \<Rightarrow> unit handler" where
  "update_sale \<equiv> update_row sales (\<lambda>rows s. s\<lparr>sales := rows\<rparr>) RecordNotFound"
abbreviation update_sale_item :: "(sale_item \<Rightarrow> bool) \<Rightarrow> (sale_item \<Rightarrow> sale_item) \<Rightarrow> unit handler" where
  "update_sale_item \<equiv> update_row saleItems (\<lambda>rows s. s\<lparr>saleItems := rows\<rparr>) RecordNotFound"
abbreviation update_terminal :: "(terminal \<Rightarrow> bool) \<Rightarrow> (terminal \<Rightarrow> terminal) \<Rightarrow> unit handler" where
  "update_terminal \<equiv> update_row terminals (\<lambda>rows s. s\<lparr>terminals := rows\<rparr>) RecordNotFound"
abbreviation update_session :: "(session \<Rightarrow> bool) \<Rightarrow> (session \<Rightarrow> session) \<Rightarrow> unit handler" where
  "update_session \<equiv> update_row sessions (\<lambda>rows s. s\<lparr>sessions := rows\<rparr>) RecordNotFound"

abbreviation update_location :: "(location \<Rightarrow> bool) \<Rightarrow> (location \<Rightarrow> location) \<Rightarrow> unit handler" where
  "update_location \<equiv> update_row locations (\<lambda>rows s. s\<lparr>locations := rows\<rparr>) RecordNotFound"
abbreviation update_product :: "(product \<Rightarrow> bool) \<Rightarrow> (product \<Rightarrow> product) \<Rightarrow> unit handler" where
  "update_product \<equiv> update_row products (\<lambda>rows s. s\<lparr>products := rows\<rparr>) RecordNotFound"
abbreviation update_customer :: "(customer \<Rightarrow> bool) \<Rightarrow> (customer \<Rightarrow> customer) \<Rightarrow> unit handler" where
  "update_customer \<equiv> update_row customers (\<lambda>rows s. s\<lparr>customers := rows\<rparr>) RecordNotFound"
abbreviation update_address :: "(customer_address \<Rightarrow> bool) \<Rightarrow> (customer_address \<Rightarrow> customer_address) \<Rightarrow> unit handler" where
  "update_address \<equiv> update_row customerAddresses (\<lambda>rows s. s\<lparr>customerAddresses := rows\<rparr>) RecordNotFound"
abbreviation update_supplier :: "(supplier \<Rightarrow> bool) \<Rightarrow> (supplier \<Rightarrow> supplier) \<Rightarrow> unit handler" where
  "update_supplier \<equiv> update_row suppliers (\<lambda>rows s. s\<lparr>suppliers := rows\<rparr>) RecordNotFound"
abbreviation update_invoice :: "(invoice \<Rightarrow> bool) \<Rightarrow> (invoice \<Rightarrow> invoice) \<Rightarrow> unit handler" where
  "update_invoice \<equiv> update_row invoices (\<lambda>rows s. s\<lparr>invoices := rows\<rparr>) RecordNotFound"

lemma fresh_id_run [run_simps, simp]:
  "fresh_id E s = (Inr (e_uuid E (nextId s)), s\<lparr>nextId := Suc (nextId s)\<rparr>)"
  by (simp add: fresh_id_def)

lemma now_run [run_simps, simp]: "now s = (Inr (clock s), s)"
  by (simp add: now_def)

lemma bindM_fresh_id [run_simps]:
  "bindM (fresh_id E) f s = f (e_uuid E (nextId s)) (s\<lparr>nextId := Suc (nextId s)\<rparr>)"
  "bindM now g s = g (clock s) s"
  by (simp_all add: bindM_def)

lemma readonly_now [svc_intros]: "readonly now"
  by (simp add: readonly_def)

lemma never_throws_fresh_id [svc_intros]: "never_throws (fresh_id E)" "never_throws now"
  by (simp_all add: never_throws_def)

lemma keeps_fresh_id [svc_intros]:
  "(\<And>s n. f (s\<lparr>nextId := n\<rparr>) = f s) \<Longrightarrow> keeps f (fresh_id E)"
  "keeps g now"
  by (auto simp: keeps_def)

text \<open>The generator never repeats an identifier, and all of \<open>X\<close> came from it.\<close>

definition ids_used :: "env \<Rightarrow> db \<Rightarrow> id set \<Rightarrow> bool" where
  "ids_used E s X \<longleftrightarrow> inj (e_uuid E) \<and> X \<subseteq> e_uuid E ` {..<nextId s}"

lemma ids_used_fresh: "ids_used E s X \<Longrightarrow> e_uuid E (nextId s) \<notin> X"
  by (auto simp: ids_used_def dest: injD)

lemma ids_used_mono:
  "ids_used E s X \<Longrightarrow> nextId s \<le> nextId s' \<Longrightarrow> X' \<subseteq> X \<union> e_uuid E ` {nextId s..<nextId s'} \<Longrightarrow>
   ids_used E s' X'"
  by (fastforce simp: ids_used_def)

lemma inj_nat_id: "inj nat_id"
  by (rule injI) (metis length_replicate nat.inject nat_id_def)

lemma nat_id_eq [simp]: "nat_id a = nat_id b \<longleftrightarrow> a = b"
  using inj_nat_id by (auto dest: injD)

end
