(* ===== verification/Valuation.thy ===== *)
theory Valuation
  imports Db "HOL-Library.Multiset"
begin

text \<open>
  \<^verbatim>\<open>src/src/modules/stock/services/valuation.service.ts\<close>: cost layers. Every receipt of stock
  opens a layer with its unit cost; an issue of stock draws on the layers, oldest first (FIFO),
  newest first (LIFO), or oldest first at the weighted average cost (MOVING_AVERAGE).

  The abstract view is the list of single units on the shelf, each with its cost, in the order
  of consumption: an issue of \<open>n\<close> units takes the first \<open>n\<close> of them (\<open>shelf\<close>).
\<close>

section \<open>The service\<close>

record consumption_line =
  lin_layerId :: id
  lin_quantity :: int
  lin_unitCost :: money
  lin_lineCost :: money

definition resolvePricingMethod :: "id \<Rightarrow> id \<Rightarrow> PricingMethod handler" where
  "resolvePricingMethod productId tenantId = readM (\<lambda>s.
     case List.find (\<lambda>p. prod_id p = productId) (products s) of
       None \<Rightarrow> FIFO
     | Some p \<Rightarrow>
         (case prod_pricingMethod p of
            Some m \<Rightarrow> m
          | None \<Rightarrow>
              (case List.find (\<lambda>t. ten_id t = prod_tenantId p) (tenants s) of
                 Some t \<Rightarrow> ten_defaultPricingMethod t
               | None \<Rightarrow> FIFO)))"

definition layer_of :: "id \<Rightarrow> id \<Rightarrow> id \<Rightarrow> layer \<Rightarrow> bool" where
  "layer_of productId locationId tenantId y \<longleftrightarrow>
     lay_productId y = productId \<and> lay_locationId y = locationId \<and> lay_tenantId y = tenantId"

lemma layer_of_update [simp]:
  "layer_of p l t (y\<lparr>lay_remainingQty := r\<rparr>) = layer_of p l t y"
  by (simp add: layer_of_def)

definition open_layers :: "id \<Rightarrow> id \<Rightarrow> id \<Rightarrow> db \<Rightarrow> layer list" where
  "open_layers productId locationId tenantId s =
     filter (\<lambda>y. layer_of productId locationId tenantId y \<and> 0 < lay_remainingQty y) (layers s)"

definition wac :: "env \<Rightarrow> id \<Rightarrow> id \<Rightarrow> id \<Rightarrow> db \<Rightarrow> money" where
  "wac E productId locationId tenantId s =
     (let ys = open_layers productId locationId tenantId s in
      if ys = [] then 0
      else
        let totalValue = sum_list (map (\<lambda>y. lay_unitCost y * of_int (lay_remainingQty y)) ys);
            totalQty = sum_list (map lay_remainingQty ys)
        in if 0 < totalQty then e_div E totalValue totalQty else 0)"

definition calculateWAC :: "env \<Rightarrow> id \<Rightarrow> id \<Rightarrow> id \<Rightarrow> money handler" where
  "calculateWAC E productId locationId tenantId = readM (wac E productId locationId tenantId)"

text \<open>The order in which layers are consumed. Rows created at the same instant have no order in
  the query; here they keep their insertion order.\<close>

definition consumption_order :: "PricingMethod \<Rightarrow> layer list \<Rightarrow> layer list" where
  "consumption_order method ys =
     (if method = LIFO then sort_key (\<lambda>y. - lay_createdAt y) ys else sort_key lay_createdAt ys)"

definition issue_line :: "(layer \<Rightarrow> money) \<Rightarrow> layer \<Rightarrow> int \<Rightarrow> consumption_line" where
  "issue_line cost y q =
     \<lparr>lin_layerId = lay_id y, lin_quantity = q, lin_unitCost = cost y,
      lin_lineCost = cost y * of_int q\<rparr>"

fun consume_loop ::
  "(layer \<Rightarrow> money) \<Rightarrow> int \<Rightarrow> layer list \<Rightarrow> money \<Rightarrow> consumption_line list
   \<Rightarrow> (money \<times> consumption_line list) handler" where
  "consume_loop cost remainingToConsume [] totalCost acc = ret (totalCost, acc)"
| "consume_loop cost remainingToConsume (y # ys) totalCost acc =
     (if remainingToConsume \<le> 0 then ret (totalCost, acc)
      else
        let consumeQty = min remainingToConsume (lay_remainingQty y);
            line = issue_line cost y consumeQty
        in bindM (update_layer (\<lambda>z. lay_id z = lay_id y)
                    (\<lambda>z. z\<lparr>lay_remainingQty := lay_remainingQty y - consumeQty\<rparr>))
             (\<lambda>_. consume_loop cost (remainingToConsume - consumeQty) ys
                    (totalCost + lin_lineCost line) (acc @ [line])))"

definition consumeLayers ::
  "env \<Rightarrow> id \<Rightarrow> id \<Rightarrow> id \<Rightarrow> int \<Rightarrow> PricingMethod \<Rightarrow> (money \<times> consumption_line list) handler" where
  "consumeLayers E productId locationId tenantId quantity method =
     bindM (if method = MOVING_AVERAGE
            then bindM (calculateWAC E productId locationId tenantId) (\<lambda>w. ret (Some w))
            else ret None) (\<lambda>movingAverageCost.
     bindM (readM (\<lambda>s. consumption_order method (open_layers productId locationId tenantId s)))
       (\<lambda>ys. consume_loop
          (\<lambda>y. case movingAverageCost of Some w \<Rightarrow> w | None \<Rightarrow> lay_unitCost y)
          quantity ys 0 []))"

definition createConsumptionRecords :: "env \<Rightarrow> id \<Rightarrow> consumption_line list \<Rightarrow> unit handler" where
  "createConsumptionRecords E movementId lines = writeM (\<lambda>s. s\<lparr>consumptions := consumptions s @
     map (\<lambda>c. \<lparr>con_valuationLayerId = lin_layerId c, con_stockMovementId = movementId,
                con_quantity = lin_quantity c, con_unitCost = e_col E (lin_unitCost c)\<rparr>) lines\<rparr>)"

definition createLayer ::
  "env \<Rightarrow> id \<Rightarrow> id \<Rightarrow> id \<Rightarrow> int \<Rightarrow> rat \<Rightarrow> id \<Rightarrow> id option \<Rightarrow> unit handler" where
  "createLayer E productId locationId tenantId quantity unitCost sourceMovementId batchId =
     bindM (fresh_id E) (\<lambda>i. bindM now (\<lambda>t.
     writeM (\<lambda>s. s\<lparr>layers := layers s @
       [\<lparr>lay_id = i, lay_unitCost = e_col E (e_dec E unitCost), lay_originalQty = quantity,
         lay_remainingQty = quantity, lay_productId = productId, lay_locationId = locationId,
         lay_tenantId = tenantId, lay_sourceMovementId = Some sourceMovementId,
         lay_batchId = batchId, lay_createdAt = t\<rparr>]\<rparr>)))"

definition getAvailableQuantity :: "id \<Rightarrow> id \<Rightarrow> id \<Rightarrow> int handler" where
  "getAvailableQuantity productId locationId tenantId =
     readM (\<lambda>s. sum_list (map lay_remainingQty (open_layers productId locationId tenantId s)))"

section \<open>What a run of the loop takes\<close>

text \<open>The quantities the loop takes from each layer, without the database.\<close>

fun takes :: "int \<Rightarrow> layer list \<Rightarrow> (layer \<times> int) list" where
  "takes n [] = []"
| "takes n (y # ys) =
     (if n \<le> 0 then []
      else let q = min n (lay_remainingQty y) in (y, q) # takes (n - q) ys)"

definition draw :: "layer \<times> int \<Rightarrow> layer list \<Rightarrow> layer list" where
  "draw yq rows = update_where (\<lambda>z. lay_id z = lay_id (fst yq))
     (\<lambda>z. z\<lparr>lay_remainingQty := lay_remainingQty (fst yq) - snd yq\<rparr>) rows"

lemma map_lay_id_draw [simp]: "map lay_id (draw yq rows) = map lay_id rows"
  by (auto simp: draw_def intro: map_update_where)

lemma map_lay_id_fold_draw [simp]: "map lay_id (fold draw ts rows) = map lay_id rows"
  by (induction ts arbitrary: rows) auto

lemma length_takes: "length (takes n ys) \<le> length ys"
  by (induction n ys rule: takes.induct) (auto simp: Let_def)

lemma takes_prefix: "map fst (takes n ys) = take (length (takes n ys)) ys"
  by (induction n ys rule: takes.induct) (auto simp: Let_def)

lemma takes_set: "(y, q) \<in> set (takes n ys) \<Longrightarrow> y \<in> set ys"
  by (metis fst_conv in_set_takeD list.set_map rev_image_eqI takes_prefix)

lemma takes_bounds:
  "(y, q) \<in> set (takes n ys) \<Longrightarrow> (\<And>y. y \<in> set ys \<Longrightarrow> 0 < lay_remainingQty y) \<Longrightarrow>
   0 < q \<and> q \<le> lay_remainingQty y"
  by (induction n ys rule: takes.induct) (auto simp: Let_def split: if_splits)

lemma distinct_takes: "distinct (map lay_id ys) \<Longrightarrow> distinct (map (lay_id \<circ> fst) (takes n ys))"
  by (metis distinct_take map_map take_map takes_prefix)

text \<open>All of the request, or all there is.\<close>

lemma takes_total:
  assumes "0 \<le> n" "\<And>y. y \<in> set ys \<Longrightarrow> 0 < lay_remainingQty y"
  shows "sum_list (map snd (takes n ys)) = min n (sum_list (map lay_remainingQty ys))"
  using assms
proof (induction n ys rule: takes.induct)
  case (1 n)
  then show ?case by simp
next
  case (2 n y ys)
  have rest: "0 \<le> sum_list (map lay_remainingQty ys)"
    using 2(3) by (intro sum_list_nonneg) (auto intro: less_imp_le)
  have y: "0 < lay_remainingQty y" using 2(3) by simp
  show ?case
  proof (cases "n \<le> 0")
    case True
    with 2(2) rest y show ?thesis by (simp add: min_def)
  next
    case False
    with 2 have "sum_list (map snd (takes (n - min n (lay_remainingQty y)) ys)) =
      min (n - min n (lay_remainingQty y)) (sum_list (map lay_remainingQty ys))"
      by simp
    with False y rest show ?thesis by (simp add: Let_def)
  qed
qed

text \<open>The unit-by-unit view: a layer is as many single units as remain in it.\<close>

definition shelf :: "(layer \<Rightarrow> money) \<Rightarrow> layer list \<Rightarrow> money list" where
  "shelf cost ys = concat (map (\<lambda>y. replicate (nat (lay_remainingQty y)) (cost y)) ys)"

definition issued :: "consumption_line list \<Rightarrow> money list" where
  "issued ls = concat (map (\<lambda>c. replicate (nat (lin_quantity c)) (lin_unitCost c)) ls)"

lemma takes_units:
  assumes "\<And>y. y \<in> set ys \<Longrightarrow> 0 < lay_remainingQty y"
  shows "issued (map (\<lambda>(y, q). issue_line cost y q) (takes n ys)) =
    take (nat n) (shelf cost ys)"
  using assms
proof (induction n ys rule: takes.induct)
  case (1 n)
  then show ?case by (simp add: issued_def shelf_def)
next
  case (2 n y ys)
  have pos: "0 < lay_remainingQty y" using 2(2) by simp
  show ?case
  proof (cases "n \<le> 0")
    case True
    then show ?thesis by (simp add: issued_def)
  next
    case False
    with 2 have IH: "issued (map (\<lambda>(y, q). issue_line cost y q)
        (takes (n - min n (lay_remainingQty y)) ys)) =
      take (nat (n - min n (lay_remainingQty y))) (shelf cost ys)"
      by simp
    have "nat n - nat (lay_remainingQty y) = nat (n - min n (lay_remainingQty y))"
      "min (nat n) (nat (lay_remainingQty y)) = nat (min n (lay_remainingQty y))"
      using pos by (auto simp: min_def nat_diff_distrib)
    with False IH show ?thesis
      by (simp add: issued_def shelf_def issue_line_def Let_def)
  qed
qed

lemma issued_cost:
  "(\<And>c. c \<in> set ls \<Longrightarrow> 0 \<le> lin_quantity c \<and>
      lin_lineCost c = lin_unitCost c * of_int (lin_quantity c)) \<Longrightarrow>
   sum_list (issued ls) = sum_list (map lin_lineCost ls)"
  by (induction ls) (auto simp: issued_def sum_list_replicate)

section \<open>What a run of the loop does to the database\<close>

lemma consume_loop_run:
  assumes "lay_id ` set ys \<subseteq> lay_id ` set (layers s)"
  shows "consume_loop cost n ys tot acc s =
    (Inr (tot + sum_list (map (\<lambda>(y, q). cost y * of_int q) (takes n ys)),
          acc @ map (\<lambda>(y, q). issue_line cost y q) (takes n ys)),
     s\<lparr>layers := fold draw (takes n ys) (layers s)\<rparr>)"
  using assms
proof (induction cost n ys tot acc arbitrary: s rule: consume_loop.induct)
  case (1 cost n tot acc)
  then show ?case by simp
next
  case (2 cost n y ys tot acc)
  show ?case
  proof (cases "n \<le> 0")
    case True
    then show ?thesis by simp
  next
    case False
    define q where "q = min n (lay_remainingQty y)"
    define s' where "s' = s\<lparr>layers := draw (y, q) (layers s)\<rparr>"
    have ex: "list_ex (\<lambda>z. lay_id z = lay_id y) (layers s)"
      using 2(2) by (auto simp: list_ex_iff image_iff dest: sym)
    have "lay_id ` set (layers s') = lay_id ` set (layers s)"
      by (metis list.set_map map_lay_id_draw s'_def db.select_convs(5) db.surjective db.update_convs(5))
    then have sub: "lay_id ` set ys \<subseteq> lay_id ` set (layers s')" using 2(2) by auto
    have "consume_loop cost n (y # ys) tot acc s =
      consume_loop cost (n - q) ys (tot + cost y * of_int q)
        (acc @ [issue_line cost y q]) s'"
      using False ex by (simp add: run_simps Let_def q_def s'_def draw_def issue_line_def)
    also have "\<dots> = (Inr (tot + cost y * of_int q
          + sum_list (map (\<lambda>(y, q). cost y * of_int q) (takes (n - q) ys)),
        (acc @ [issue_line cost y q])
          @ map (\<lambda>(y, q). issue_line cost y q) (takes (n - q) ys)),
      s'\<lparr>layers := fold draw (takes (n - q) ys) (layers s')\<rparr>)"
      using 2(1) [OF False q_def refl sub] by (simp add: issue_line_def)
    finally show ?thesis using False by (simp add: Let_def q_def [symmetric] s'_def add.assoc)
  qed
qed

text \<open>How a sum over the layers changes when the quantities are drawn from them.\<close>

lemma sum_draw:
  fixes w :: "layer \<Rightarrow> 'n::comm_ring_1"
  assumes "distinct (map lay_id rows)" "y \<in> set rows"
    and "\<And>z r. P (z\<lparr>lay_remainingQty := r\<rparr>) = P z" "\<And>z r. w (z\<lparr>lay_remainingQty := r\<rparr>) = w z"
  shows "sum_where P (\<lambda>z. w z * of_int (lay_remainingQty z)) (draw (y, q) rows) =
    sum_where P (\<lambda>z. w z * of_int (lay_remainingQty z)) rows
      - (if P y then w y * of_int q else 0)"
  unfolding draw_def fst_conv snd_conv
  by (subst sum_where_update_key [OF assms(1,2)]) (auto simp: assms(3,4) algebra_simps)

lemma sum_fold_draw:
  fixes w :: "layer \<Rightarrow> 'n::comm_ring_1"
  assumes "distinct (map lay_id rows)" "fst ` set ts \<subseteq> set rows"
    and "distinct (map (lay_id \<circ> fst) ts)"
    and P: "\<And>z r. P (z\<lparr>lay_remainingQty := r\<rparr>) = P z"
    and w: "\<And>z r. w (z\<lparr>lay_remainingQty := r\<rparr>) = w z"
  shows "sum_where P (\<lambda>z. w z * of_int (lay_remainingQty z)) (fold draw ts rows) =
    sum_where P (\<lambda>z. w z * of_int (lay_remainingQty z)) rows
      - sum_list (map (\<lambda>(y, q). if P y then w y * of_int q else 0) ts)"
  using assms(1-3)
proof (induction ts arbitrary: rows)
  case Nil
  then show ?case by simp
next
  case (Cons t ts)
  obtain y q where t: "t = (y, q)" by force
  have y: "y \<in> set rows" using Cons.prems(2) t by simp
  have sub: "fst ` set ts \<subseteq> set (draw t rows)"
  proof
    fix z assume z: "z \<in> fst ` set ts"
    with Cons.prems(3) have "lay_id z \<noteq> lay_id y" by (auto simp: t image_iff)
    moreover from z Cons.prems(2) have "z \<in> set rows" by auto
    ultimately show "z \<in> set (draw t rows)" by (simp add: t draw_def set_update_where)
  qed
  have "sum_where P (\<lambda>z. w z * of_int (lay_remainingQty z)) (fold draw ts (draw t rows)) =
    sum_where P (\<lambda>z. w z * of_int (lay_remainingQty z)) (draw t rows)
      - sum_list (map (\<lambda>(y, q). if P y then w y * of_int q else 0) ts)"
    by (rule Cons.IH) (use Cons.prems sub in simp_all)
  then show ?case
    by (simp add: t sum_draw [OF Cons.prems(1) y P w])
qed

section \<open>The layer table\<close>

definition layers_wf :: "db \<Rightarrow> bool" where
  "layers_wf s \<longleftrightarrow> distinct (map lay_id (layers s)) \<and>
     (\<forall>y \<in> set (layers s). 0 \<le> lay_remainingQty y \<and> lay_remainingQty y \<le> lay_originalQty y)"

abbreviation layer_ids_used :: "env \<Rightarrow> db \<Rightarrow> bool" where
  "layer_ids_used E s \<equiv> ids_used E s (lay_id ` set (layers s))"

definition layer_qty :: "id \<Rightarrow> id \<Rightarrow> id \<Rightarrow> db \<Rightarrow> int" where
  "layer_qty p l t s = sum_where (layer_of p l t) lay_remainingQty (layers s)"

definition stock_value :: "id \<Rightarrow> id \<Rightarrow> id \<Rightarrow> db \<Rightarrow> money" where
  "stock_value p l t s =
     sum_where (layer_of p l t) (\<lambda>y. lay_unitCost y * of_int (lay_remainingQty y)) (layers s)"

definition line_cost :: "env \<Rightarrow> PricingMethod \<Rightarrow> id \<Rightarrow> id \<Rightarrow> id \<Rightarrow> db \<Rightarrow> layer \<Rightarrow> money" where
  "line_cost E method p l t s y = (if method = MOVING_AVERAGE then wac E p l t s else lay_unitCost y)"

text \<open>The queue of layers an issue goes through.\<close>

definition layer_queue :: "PricingMethod \<Rightarrow> id \<Rightarrow> id \<Rightarrow> id \<Rightarrow> db \<Rightarrow> layer list" where
  "layer_queue method p l t s = consumption_order method (open_layers p l t s)"

lemma set_layer_queue: "set (layer_queue m p l t s) = set (open_layers p l t s)"
  by (simp add: layer_queue_def consumption_order_def)

lemma layer_queue_pos: "y \<in> set (layer_queue m p l t s) \<Longrightarrow> 0 < lay_remainingQty y"
  by (simp add: set_layer_queue open_layers_def)

lemma layer_queue_of: "y \<in> set (layer_queue m p l t s) \<Longrightarrow> layer_of p l t y \<and> y \<in> set (layers s)"
  by (simp add: set_layer_queue open_layers_def)

lemma distinct_sort_key_map:
  "distinct (map f xs) \<Longrightarrow> distinct (map f (sort_key k xs))"
  by (simp add: distinct_map)

lemma distinct_layer_queue: "layers_wf s \<Longrightarrow> distinct (map lay_id (layer_queue m p l t s))"
  unfolding layer_queue_def consumption_order_def open_layers_def layers_wf_def
  by (auto intro!: distinct_sort_key_map distinct_map_filter)

lemma sum_layer_queue:
  "sum_list (map f (layer_queue m p l t s)) = sum_list (map f (open_layers p l t s))"
  for f :: "layer \<Rightarrow> 'n::comm_monoid_add"
proof -
  have "mset (layer_queue m p l t s) = mset (open_layers p l t s)"
    by (simp add: layer_queue_def consumption_order_def)
  then show ?thesis by (metis mset_map sum_mset_sum_list)
qed

lemma layer_qty_open:
  assumes "layers_wf s"
  shows "sum_list (map lay_remainingQty (open_layers p l t s)) = layer_qty p l t s"
proof -
  have "\<forall>y \<in> set rows. 0 \<le> lay_remainingQty y \<Longrightarrow>
    sum_list (map lay_remainingQty (filter (\<lambda>y. layer_of p l t y \<and> 0 < lay_remainingQty y) rows)) =
    sum_where (layer_of p l t) lay_remainingQty rows" for rows
    by (induction rows) auto
  with assms show ?thesis by (simp add: open_layers_def layer_qty_def layers_wf_def)
qed

lemma layer_qty_nonneg: "layers_wf s \<Longrightarrow> 0 \<le> layer_qty p l t s"
  by (simp add: layer_qty_def layers_wf_def sum_where_nonneg)

section \<open>consumeLayers\<close>

lemma consumeLayers_run:
  "consumeLayers E p l t n m s =
    (Inr (sum_list (map (\<lambda>(y, q). line_cost E m p l t s y * of_int q) (takes n (layer_queue m p l t s))),
          map (\<lambda>(y, q). issue_line (line_cost E m p l t s) y q)
            (takes n (layer_queue m p l t s))),
     s\<lparr>layers := fold draw (takes n (layer_queue m p l t s)) (layers s)\<rparr>)"
proof -
  have sub: "lay_id ` set (layer_queue m p l t s) \<subseteq> lay_id ` set (layers s)"
    by (auto dest: layer_queue_of)
  have cost: "(\<lambda>y. case if m = MOVING_AVERAGE then Some (wac E p l t s) else None of
      Some w \<Rightarrow> w | None \<Rightarrow> lay_unitCost y) = line_cost E m p l t s"
    by (auto simp: fun_eq_iff line_cost_def)
  have "consumeLayers E p l t n m s = consume_loop
      (\<lambda>y. case if m = MOVING_AVERAGE then Some (wac E p l t s) else None of
        Some w \<Rightarrow> w | None \<Rightarrow> lay_unitCost y) n (layer_queue m p l t s) 0 [] s"
    by (simp add: consumeLayers_def calculateWAC_def run_simps bindM_def layer_queue_def)
  then show ?thesis unfolding cost by (simp add: consume_loop_run [OF sub])
qed

text \<open>The quantity, the value and the frame of a consumption.\<close>

lemma consume_sum:
  fixes w :: "layer \<Rightarrow> 'n::comm_ring_1"
  assumes wf: "layers_wf s"
    and P: "\<And>z r. P (z\<lparr>lay_remainingQty := r\<rparr>) = P z"
    and w: "\<And>z r. w (z\<lparr>lay_remainingQty := r\<rparr>) = w z"
  shows "sum_where P (\<lambda>z. w z * of_int (lay_remainingQty z))
      (fold draw (takes n (layer_queue m p l t s)) (layers s)) =
    sum_where P (\<lambda>z. w z * of_int (lay_remainingQty z)) (layers s)
      - sum_list (map (\<lambda>(y, q). if P y then w y * of_int q else 0) (takes n (layer_queue m p l t s)))"
proof (rule sum_fold_draw [OF _ _ _ P w])
  show "distinct (map lay_id (layers s))" using wf by (simp add: layers_wf_def)
  show "fst ` set (takes n (layer_queue m p l t s)) \<subseteq> set (layers s)"
    by (auto dest!: takes_set layer_queue_of)
  show "distinct (map (lay_id \<circ> fst) (takes n (layer_queue m p l t s)))"
    by (rule distinct_takes) (rule distinct_layer_queue [OF wf])
qed

lemma takes_layer_of: "(y, q) \<in> set (takes n (layer_queue m p l t s)) \<Longrightarrow> layer_of p l t y"
  by (auto dest!: takes_set layer_queue_of)

lemma takes_sum_if:
  "sum_list (map (\<lambda>(y, q). if layer_of p' l' t' y then g y q else 0)
      (takes n (layer_queue m p l t s))) =
   (if p' = p \<and> l' = l \<and> t' = t
    then sum_list (map (\<lambda>(y, q). g y q) (takes n (layer_queue m p l t s))) else (0::'n::comm_monoid_add))"
proof -
  have "(\<lambda>(y, q). if layer_of p' l' t' y then g y q else 0) yq =
      (if p' = p \<and> l' = l \<and> t' = t then (\<lambda>(y, q). g y q) yq else (0::'n))"
    if "yq \<in> set (takes n (layer_queue m p l t s))" for yq
    using takes_layer_of [of "fst yq" "snd yq"] that by (cases yq) (auto simp: layer_of_def)
  then have "sum_list (map (\<lambda>(y, q). if layer_of p' l' t' y then g y q else 0)
      (takes n (layer_queue m p l t s))) =
    sum_list (map (\<lambda>yq. if p' = p \<and> l' = l \<and> t' = t then (\<lambda>(y, q). g y q) yq else (0::'n))
      (takes n (layer_queue m p l t s)))"
    by (intro arg_cong [where f = sum_list] map_cong) auto
  then show ?thesis by auto
qed

lemma consume_total:
  assumes "layers_wf s" "0 \<le> n"
  shows "sum_list (map snd (takes n (layer_queue m p l t s))) = min n (layer_qty p l t s)"
  using takes_total [OF assms(2), of "layer_queue m p l t s"] layer_queue_pos
  by (simp add: sum_layer_queue layer_qty_open [OF assms(1)])

lemma consumeLayers_qty:
  assumes "layers_wf s" "0 \<le> n" "consumeLayers E p l t n m s = (r, s')"
  shows "layer_qty p' l' t' s' = layer_qty p' l' t' s
    - (if p' = p \<and> l' = l \<and> t' = t then min n (layer_qty p l t s) else 0)"
proof -
  let ?ts = "takes n (layer_queue m p l t s)"
  have "layer_qty p' l' t' s' = layer_qty p' l' t' s
      - sum_list (map (\<lambda>(y, q). if layer_of p' l' t' y then q else 0) ?ts)"
    using assms(3) consume_sum [OF assms(1), of "layer_of p' l' t'" "\<lambda>_. 1 :: int" n m p l t]
    by (auto simp: consumeLayers_run layer_qty_def case_prod_unfold cong: if_cong)
  also have "sum_list (map (\<lambda>(y, q). if layer_of p' l' t' y then q else 0) ?ts) =
      (if p' = p \<and> l' = l \<and> t' = t then sum_list (map snd ?ts) else 0)"
    unfolding takes_sum_if [where g = "\<lambda>_ q. q"] by (simp add: case_prod_unfold)
  finally show ?thesis using consume_total [OF assms(1,2)] by (simp split: if_splits)
qed

lemma consumeLayers_value:
  assumes "layers_wf s" "m \<noteq> MOVING_AVERAGE"
    and "consumeLayers E p l t n m s = (Inr (totalCost, ls), s')"
  shows "stock_value p' l' t' s' = stock_value p' l' t' s
    - (if p' = p \<and> l' = l \<and> t' = t then totalCost else 0)"
proof -
  let ?ts = "takes n (layer_queue m p l t s)"
  have "stock_value p' l' t' s' = stock_value p' l' t' s
      - sum_list (map (\<lambda>(y, q). if layer_of p' l' t' y then lay_unitCost y * of_int q else 0) ?ts)"
    using assms(3) consume_sum [OF assms(1), of "layer_of p' l' t'" lay_unitCost n m p l t]
    by (auto simp: consumeLayers_run stock_value_def)
  also have "sum_list (map (\<lambda>(y, q). if layer_of p' l' t' y then lay_unitCost y * of_int q else 0) ?ts) =
      (if p' = p \<and> l' = l \<and> t' = t then totalCost else 0)"
    using assms(2,3) by (simp add: takes_sum_if consumeLayers_run line_cost_def)
  finally show ?thesis .
qed

text \<open>The table stays well formed: no layer is overdrawn, none is touched but those taken.\<close>

lemma draw_wf:
  assumes "distinct (map lay_id rows)" "(y, q) = yq" "y \<in> set rows" "0 \<le> q" "q \<le> lay_remainingQty y"
    and "\<forall>z \<in> set rows. 0 \<le> lay_remainingQty z \<and> lay_remainingQty z \<le> lay_originalQty z"
  shows "\<forall>z \<in> set (draw yq rows). 0 \<le> lay_remainingQty z \<and> lay_remainingQty z \<le> lay_originalQty z"
proof -
  have same: "z = y" if "z \<in> set rows" "lay_id z = lay_id y" for z
    using assms(1,3) that by (auto simp: distinct_map dest: inj_onD)
  show ?thesis
  proof
    fix z assume "z \<in> set (draw yq rows)"
    then consider "z = y\<lparr>lay_remainingQty := lay_remainingQty y - q\<rparr>" | "z \<in> set rows"
      using same by (auto simp: draw_def set_update_where simp flip: assms(2))
    then show "0 \<le> lay_remainingQty z \<and> lay_remainingQty z \<le> lay_originalQty z"
      using assms(3-6) by cases fastforce+
  qed
qed

lemma fold_draw_wf:
  assumes "distinct (map lay_id rows)" "fst ` set ts \<subseteq> set rows"
    and "distinct (map (lay_id \<circ> fst) ts)"
    and "\<forall>(y, q) \<in> set ts. 0 \<le> q \<and> q \<le> lay_remainingQty y"
    and "\<forall>z \<in> set rows. 0 \<le> lay_remainingQty z \<and> lay_remainingQty z \<le> lay_originalQty z"
  shows "\<forall>z \<in> set (fold draw ts rows). 0 \<le> lay_remainingQty z \<and> lay_remainingQty z \<le> lay_originalQty z"
  using assms
proof (induction ts arbitrary: rows)
  case Nil
  then show ?case by simp
next
  case (Cons t ts)
  obtain y q where t: "t = (y, q)" by force
  have wf: "\<forall>z \<in> set (draw t rows). 0 \<le> lay_remainingQty z \<and> lay_remainingQty z \<le> lay_originalQty z"
    by (rule draw_wf [where y = y and q = q]) (use Cons.prems t in auto)
  have sub: "fst ` set ts \<subseteq> set (draw t rows)"
  proof
    fix z assume z: "z \<in> fst ` set ts"
    with Cons.prems(3) have "lay_id z \<noteq> lay_id y" by (auto simp: t image_iff)
    moreover from z Cons.prems(2) have "z \<in> set rows" by auto
    ultimately show "z \<in> set (draw t rows)" by (simp add: t draw_def set_update_where)
  qed
  have "\<forall>z \<in> set (fold draw ts (draw t rows)). 0 \<le> lay_remainingQty z \<and> lay_remainingQty z \<le> lay_originalQty z"
    by (rule Cons.IH) (use Cons.prems sub wf in auto)
  then show ?case by simp
qed

lemma consumeLayers_wf:
  assumes "layers_wf s" "consumeLayers E p l t n m s = (r, s')"
  shows "layers_wf s'"
proof -
  let ?ts = "takes n (layer_queue m p l t s)"
  have "\<forall>z \<in> set (fold draw ?ts (layers s)). 0 \<le> lay_remainingQty z \<and> lay_remainingQty z \<le> lay_originalQty z"
  proof (rule fold_draw_wf)
    show "fst ` set ?ts \<subseteq> set (layers s)" by (auto dest!: takes_set layer_queue_of)
    show "distinct (map (lay_id \<circ> fst) ?ts)"
      by (rule distinct_takes) (rule distinct_layer_queue [OF assms(1)])
    show "\<forall>(y, q) \<in> set ?ts. 0 \<le> q \<and> q \<le> lay_remainingQty y"
      using takes_bounds layer_queue_pos by fastforce
  qed (use assms(1) in \<open>auto simp: layers_wf_def\<close>)
  with assms show ?thesis by (auto simp: consumeLayers_run layers_wf_def)
qed

lemma consumeLayers_frame:
  assumes "consumeLayers E p l t n m s = (r, s')"
  shows "s' = s\<lparr>layers := layers s'\<rparr>" "map lay_id (layers s') = map lay_id (layers s)"
    "\<exists>x. r = Inr x"
  using assms by (auto simp: consumeLayers_run)

section \<open>The shelf after an issue\<close>

definition left_after :: "(layer \<times> int) list \<Rightarrow> layer \<Rightarrow> layer" where
  "left_after ts z = z\<lparr>lay_remainingQty := lay_remainingQty z -
     (case map_of (map (\<lambda>(y, q). (lay_id y, q)) ts) (lay_id z) of None \<Rightarrow> 0 | Some q \<Rightarrow> q)\<rparr>"

lemma left_after_simps [simp]:
  "left_after [] z = z" "lay_id (left_after ts z) = lay_id z"
  "lay_unitCost (left_after ts z) = lay_unitCost z"
  "lay_createdAt (left_after ts z) = lay_createdAt z"
  "layer_of p l t (left_after ts z) = layer_of p l t z"
  by (simp_all add: left_after_def)

lemma left_after_other: "lay_id y \<noteq> lay_id z \<Longrightarrow> left_after ((y, q) # ts) z = left_after ts z"
  by (simp add: left_after_def)

lemma left_after_head [simp]:
  "left_after ((y, q) # ts) y = y\<lparr>lay_remainingQty := lay_remainingQty y - q\<rparr>"
  by (simp add: left_after_def)

lemma left_after_notin: "lay_id z \<notin> (lay_id \<circ> fst) ` set ts \<Longrightarrow> left_after ts z = z"
  by (induction ts) (auto simp: left_after_other)

lemma fold_draw_left_after:
  assumes "distinct (map lay_id rows)" "fst ` set ts \<subseteq> set rows"
    and "distinct (map (lay_id \<circ> fst) ts)"
  shows "fold draw ts rows = map (left_after ts) rows"
  using assms
proof (induction ts arbitrary: rows)
  case Nil
  then show ?case by (simp add: map_idI)
next
  case (Cons t ts)
  obtain y q where t: "t = (y, q)" by force
  have y: "y \<in> set rows" using Cons.prems(2) t by simp
  have same: "z = y" if "z \<in> set rows" "lay_id z = lay_id y" for z
    using Cons.prems(1) y that by (auto simp: distinct_map dest: inj_onD)
  have ids: "lay_id z \<noteq> lay_id y" if "z \<in> fst ` set ts" for z
    using Cons.prems(3) that by (auto simp: t image_iff)
  have sub: "fst ` set ts \<subseteq> set (draw t rows)"
  proof
    fix z assume z: "z \<in> fst ` set ts"
    moreover from z Cons.prems(2) have "z \<in> set rows" by auto
    ultimately show "z \<in> set (draw t rows)" using ids by (simp add: t draw_def set_update_where)
  qed
  have "fold draw ts (draw t rows) = map (left_after ts) (draw t rows)"
    by (rule Cons.IH) (use Cons.prems sub in simp_all)
  also have "\<dots> = map (left_after (t # ts)) rows"
    unfolding draw_def update_where_def map_map
  proof (rule map_cong [OF refl])
    fix z assume z: "z \<in> set rows"
    have "left_after ts (y\<lparr>lay_remainingQty := lay_remainingQty y - q\<rparr>) =
        y\<lparr>lay_remainingQty := lay_remainingQty y - q\<rparr>"
      by (rule left_after_notin) (use ids in force)
    then show "(left_after ts \<circ> (\<lambda>z. if lay_id z = lay_id (fst t)
        then z\<lparr>lay_remainingQty := lay_remainingQty (fst t) - snd t\<rparr> else z)) z = left_after (t # ts) z"
      using same [OF z] by (cases "lay_id z = lay_id y") (auto simp: t left_after_other)
  qed
  finally show ?case by simp
qed

lemma insort_key_map:
  "(\<And>x. k (f x) = k x) \<Longrightarrow> insort_key k (f x) (map f ys) = map f (insort_key k x ys)"
  by (induction ys) auto

lemma sort_key_map: "(\<And>x. k (f x) = k x) \<Longrightarrow> sort_key k (map f xs) = map f (sort_key k xs)"
  by (induction xs) (auto simp: insort_key_map)

lemma consumption_order_map:
  "(\<And>x. lay_createdAt (f x) = lay_createdAt x) \<Longrightarrow>
   consumption_order m (map f xs) = map f (consumption_order m xs)"
  by (simp add: consumption_order_def sort_key_map)

lemma consumption_order_filter:
  "consumption_order m (filter P xs) = filter P (consumption_order m xs)"
  by (simp add: consumption_order_def filter_sort)

definition still_open :: "layer list \<Rightarrow> layer list" where
  "still_open ys = filter (\<lambda>y. 0 < lay_remainingQty y) ys"

lemma open_layers_still_open:
  "open_layers p l t s = still_open (filter (layer_of p l t) (layers s))"
  by (simp add: open_layers_def still_open_def)

lemma consumption_order_still_open:
  "consumption_order m (still_open ys) = still_open (consumption_order m ys)"
  by (simp add: still_open_def consumption_order_filter)

lemma still_open_left_after:
  assumes "distinct (map lay_id ys)" "\<And>y. y \<in> set ys \<Longrightarrow> 0 < lay_remainingQty y"
  shows "shelf lay_unitCost (still_open (map (left_after (takes n ys)) ys)) =
    drop (nat n) (shelf lay_unitCost ys)"
  using assms
proof (induction n ys rule: takes.induct)
  case (1 n)
  then show ?case by (simp add: shelf_def still_open_def)
next
  case (2 n y ys)
  define q where "q = min n (lay_remainingQty y)"
  have pos: "0 < lay_remainingQty y" and posys: "\<And>y. y \<in> set ys \<Longrightarrow> 0 < lay_remainingQty y"
    using 2(3) by simp_all
  show ?case
  proof (cases "n \<le> 0")
    case True
    have "still_open (y # ys) = y # ys" using 2(3) by (simp add: still_open_def)
    with True show ?thesis by (simp add: map_idI)
  next
    case False
    have "map (left_after ((y, q) # takes (n - q) ys)) ys = map (left_after (takes (n - q) ys)) ys"
      using 2(2) by (intro map_cong [OF refl] left_after_other) auto
    with False have step: "map (left_after (takes n (y # ys))) (y # ys) =
        y\<lparr>lay_remainingQty := lay_remainingQty y - q\<rparr> # map (left_after (takes (n - q) ys)) ys"
      by (simp add: Let_def q_def)
    have IH: "shelf lay_unitCost (still_open (map (left_after (takes (n - q) ys)) ys)) =
        drop (nat (n - q)) (shelf lay_unitCost ys)"
      using 2(1) [OF False q_def] 2(2) posys by simp
    have "shelf lay_unitCost (still_open (map (left_after (takes n (y # ys))) (y # ys))) =
        replicate (nat (lay_remainingQty y - q)) (lay_unitCost y)
        @ drop (nat (n - q)) (shelf lay_unitCost ys)"
      unfolding step using IH by (auto simp: still_open_def shelf_def)
    also have "\<dots> = drop (nat n) (shelf lay_unitCost (y # ys))"
      using False pos by (auto simp: shelf_def q_def min_def nat_diff_distrib)
    finally show ?thesis .
  qed
qed

lemma layer_queue_after:
  assumes "layers_wf s"
  shows "layer_queue m p l t (s\<lparr>layers := fold draw (takes n (layer_queue m p l t s)) (layers s)\<rparr>) =
    still_open (map (left_after (takes n (layer_queue m p l t s))) (layer_queue m p l t s))"
proof -
  let ?ts = "takes n (layer_queue m p l t s)"
  let ?own = "filter (layer_of p l t) (layers s)"
  have queue: "layer_queue m p l t s = still_open (consumption_order m ?own)"
    by (simp add: layer_queue_def open_layers_still_open consumption_order_still_open)
  have "fold draw ?ts (layers s) = map (left_after ?ts) (layers s)"
  proof (rule fold_draw_left_after)
    show "distinct (map lay_id (layers s))" using assms by (simp add: layers_wf_def)
    show "fst ` set ?ts \<subseteq> set (layers s)" by (auto dest!: takes_set layer_queue_of)
    show "distinct (map (lay_id \<circ> fst) ?ts)"
      by (rule distinct_takes) (rule distinct_layer_queue [OF assms])
  qed
  then have "layer_queue m p l t (s\<lparr>layers := fold draw ?ts (layers s)\<rparr>) =
      still_open (map (left_after ?ts) (consumption_order m ?own))"
    by (simp add: layer_queue_def open_layers_still_open consumption_order_still_open
        filter_map o_def consumption_order_map)
  also have "\<dots> = still_open (map (left_after ?ts) (still_open (consumption_order m ?own)))"
  proof -
    have shut: "left_after ?ts z = z" if "z \<in> set ?own" "\<not> 0 < lay_remainingQty z" for z
    proof (rule left_after_notin)
      have "y \<noteq> z" if "(y, q) \<in> set ?ts" for y q
        using that \<open>\<not> 0 < lay_remainingQty z\<close> by (auto dest!: takes_set layer_queue_pos)
      moreover have "y = z" if "(y, q) \<in> set ?ts" "lay_id y = lay_id z" for y q
        using that \<open>z \<in> set ?own\<close> assms
        by (auto simp: layers_wf_def distinct_map dest!: takes_set layer_queue_of dest: inj_onD)
      ultimately show "lay_id z \<notin> (lay_id \<circ> fst) ` set ?ts" by fastforce
    qed
    have drop_shut: "still_open (map f zs) = still_open (map f (still_open zs))"
      if "\<And>z. z \<in> set zs \<Longrightarrow> \<not> 0 < lay_remainingQty z \<Longrightarrow> f z = z" for f zs
      using that by (induction zs) (auto simp: still_open_def)
    show ?thesis by (rule drop_shut) (use shut in \<open>auto simp: consumption_order_def split: if_splits\<close>)
  qed
  finally show ?thesis by (simp flip: queue)
qed

lemma consumeLayers_shelf:
  assumes "layers_wf s" "consumeLayers E p l t n m s = (Inr (totalCost, ls), s')"
  shows "issued ls = take (nat n) (shelf (line_cost E m p l t s) (layer_queue m p l t s))"
    and "totalCost = sum_list (issued ls)"
    and "shelf lay_unitCost (layer_queue m p l t s') =
      drop (nat n) (shelf lay_unitCost (layer_queue m p l t s))"
proof -
  let ?ts = "takes n (layer_queue m p l t s)"
  have ls: "ls = map (\<lambda>(y, q). issue_line (line_cost E m p l t s) y q) ?ts"
    and tot: "totalCost = sum_list (map (\<lambda>(y, q). line_cost E m p l t s y * of_int q) ?ts)"
    and s': "s' = s\<lparr>layers := fold draw ?ts (layers s)\<rparr>"
    using assms(2) by (auto simp: consumeLayers_run)
  show "issued ls = take (nat n) (shelf (line_cost E m p l t s) (layer_queue m p l t s))"
    unfolding ls by (rule takes_units) (rule layer_queue_pos)
  have "sum_list (issued ls) = sum_list (map lin_lineCost ls)"
  proof (rule issued_cost)
    fix c assume "c \<in> set ls"
    then obtain y q where "(y, q) \<in> set ?ts" "c = issue_line (line_cost E m p l t s) y q"
      unfolding ls by auto
    moreover from this(1) have "0 < q" using takes_bounds layer_queue_pos by blast
    ultimately show "0 \<le> lin_quantity c \<and> lin_lineCost c = lin_unitCost c * of_int (lin_quantity c)"
      by (simp add: issue_line_def)
  qed
  also have "map lin_lineCost ls = map (\<lambda>(y, q). line_cost E m p l t s y * of_int q) ?ts"
    by (auto simp: ls issue_line_def)
  finally show "totalCost = sum_list (issued ls)" by (simp add: tot)
  show "shelf lay_unitCost (layer_queue m p l t s') =
      drop (nat n) (shelf lay_unitCost (layer_queue m p l t s))"
    unfolding s' layer_queue_after [OF assms(1)]
    by (rule still_open_left_after) (auto intro: distinct_layer_queue [OF assms(1)] layer_queue_pos)
qed

section \<open>createLayer\<close>

lemma createLayer_run:
  "createLayer E p l t n c src b s =
    (Inr (), s\<lparr>nextId := Suc (nextId s), layers := layers s @
       [\<lparr>lay_id = e_uuid E (nextId s), lay_unitCost = e_col E (e_dec E c), lay_originalQty = n,
         lay_remainingQty = n, lay_productId = p, lay_locationId = l, lay_tenantId = t,
         lay_sourceMovementId = Some src, lay_batchId = b, lay_createdAt = clock s\<rparr>]\<rparr>)"
  by (simp add: createLayer_def run_simps)

lemma createLayer_qty:
  "createLayer E p l t n c src b s = (r, s') \<Longrightarrow>
   layer_qty p' l' t' s' = layer_qty p' l' t' s + (if p' = p \<and> l' = l \<and> t' = t then n else 0)"
  by (auto simp: createLayer_run layer_qty_def layer_of_def)

lemma createLayer_value:
  "createLayer E p l t n c src b s = (r, s') \<Longrightarrow>
   stock_value p' l' t' s' = stock_value p' l' t' s
     + (if p' = p \<and> l' = l \<and> t' = t then e_col E (e_dec E c) * of_int n else 0)"
  by (auto simp: createLayer_run stock_value_def layer_of_def)

lemma createLayer_wf:
  assumes "layers_wf s" "layer_ids_used E s" "0 \<le> n"
    and "createLayer E p l t n c src b s = (r, s')"
  shows "layers_wf s'" "layer_ids_used E s'"
proof -
  have "e_uuid E (nextId s) \<notin> lay_id ` set (layers s)" by (rule ids_used_fresh [OF assms(2)])
  with assms show "layers_wf s'" by (auto simp: createLayer_run layers_wf_def)
  show "layer_ids_used E s'"
    by (rule ids_used_mono [OF assms(2)]) (use assms(4) in \<open>auto simp: createLayer_run\<close>)
qed

section \<open>The weighted average cost\<close>

text \<open>
  What is relied on of \<^verbatim>\<open>Decimal.div\<close>: it rounds the quotient monotonically and leaves the
  amounts with four decimals, which it represents, alone. So a quotient on one side of such an
  amount is rounded to the same side.
\<close>

definition div_rounds :: "env \<Rightarrow> bool" where
  "div_rounds E \<longleftrightarrow> (\<forall>v q a. 0 < q \<longrightarrow> four_decimals a \<longrightarrow>
     (a * of_int q \<le> v \<longrightarrow> a \<le> e_div E v q) \<and> (v \<le> a * of_int q \<longrightarrow> e_div E v q \<le> a))"

lemma div_rounds_env0: "div_rounds env0"
  by (simp add: div_rounds_def field_simps)

lemma sum_remaining_pos:
  "ys \<noteq> [] \<Longrightarrow> (\<And>y. y \<in> set ys \<Longrightarrow> 0 < lay_remainingQty y) \<Longrightarrow>
   0 < sum_list (map lay_remainingQty ys)"
  by (induction ys rule: induct_list012) (auto intro: add_pos_pos)

lemma weighted_sum_bounds:
  assumes "\<And>y. y \<in> set ys \<Longrightarrow> 0 < lay_remainingQty y \<and> lo \<le> lay_unitCost y \<and> lay_unitCost y \<le> hi"
  shows "lo * of_int (sum_list (map lay_remainingQty ys)) \<le>
      sum_list (map (\<lambda>y. lay_unitCost y * of_int (lay_remainingQty y)) ys)"
    and "sum_list (map (\<lambda>y. lay_unitCost y * of_int (lay_remainingQty y)) ys) \<le>
      hi * of_int (sum_list (map lay_remainingQty ys))"
  using assms
proof (induction ys)
  case (Cons y ys)
  {
    case 1
    from 1 have "0 < lay_remainingQty y" "lo \<le> lay_unitCost y" by simp_all
    then have "lo * of_int (lay_remainingQty y) \<le> lay_unitCost y * of_int (lay_remainingQty y)"
      by (intro mult_right_mono) auto
    with Cons.IH(1) 1 show ?case by (simp add: distrib_left add_mono)
  next
    case 2
    from 2 have "0 < lay_remainingQty y" "lay_unitCost y \<le> hi" by simp_all
    then have "lay_unitCost y * of_int (lay_remainingQty y) \<le> hi * of_int (lay_remainingQty y)"
      by (intro mult_right_mono) auto
    with Cons.IH(2) 2 show ?case by (simp add: distrib_left add_mono)
  }
qed simp_all

section \<open>Properties\<close>

definition val_db :: db where
  "val_db = db0\<lparr>clock := 30, nextId := 2, layers :=
     [\<lparr>lay_id = nat_id 0, lay_unitCost = 10, lay_originalQty = 5, lay_remainingQty = 3,
       lay_productId = ''p'', lay_locationId = ''l'', lay_tenantId = ''t'',
       lay_sourceMovementId = None, lay_batchId = None, lay_createdAt = 10\<rparr>,
      \<lparr>lay_id = nat_id 1, lay_unitCost = 12, lay_originalQty = 4, lay_remainingQty = 4,
       lay_productId = ''p'', lay_locationId = ''l'', lay_tenantId = ''t'',
       lay_sourceMovementId = None, lay_batchId = None, lay_createdAt = 20\<rparr>]\<rparr>"

lemma val_db_wf: "layers_wf val_db"
  by (simp add: layers_wf_def val_db_def db0_def)

text \<open>C3: an issue of stock takes exactly the first units of the shelf. Laying the open layers
  out as single units in consumption order (oldest first for FIFO and MOVING_AVERAGE, newest
  first for LIFO), \<^verbatim>\<open>consumeLayers\<close> always returns, its consumption lines are the first \<open>n\<close> of
  these units (at the average cost for MOVING_AVERAGE, else at each layer's own cost), the total
  cost is their sum, and the shelf it leaves is the old one with these units dropped.\<close>

theorem consume_takes_shelf_prefix:
  assumes "layers_wf s"
  shows "\<exists>totalCost ls s'. consumeLayers E p l t n m s = (Inr (totalCost, ls), s') \<and>
    issued ls = take (nat n) (shelf (line_cost E m p l t s) (layer_queue m p l t s)) \<and>
    totalCost = sum_list (issued ls) \<and>
    shelf lay_unitCost (layer_queue m p l t s') =
      drop (nat n) (shelf lay_unitCost (layer_queue m p l t s)) \<and>
    sorted (map (\<lambda>y. if m = LIFO then - lay_createdAt y else lay_createdAt y) (layer_queue m p l t s))"
proof -
  obtain totalCost ls s' where run: "consumeLayers E p l t n m s = (Inr (totalCost, ls), s')"
    by (simp add: consumeLayers_run)
  have "sorted (map (\<lambda>y. if m = LIFO then - lay_createdAt y else lay_createdAt y) (layer_queue m p l t s))"
    by (simp add: layer_queue_def consumption_order_def)
  with run consumeLayers_shelf [OF assms run] show ?thesis by blast
qed

theorem consume_takes_shelf_prefix_witness:
  "layers_wf val_db \<and> shelf lay_unitCost (layer_queue LIFO ''p'' ''l'' ''t'' val_db) =
     [12, 12, 12, 12, 10, 10, 10] \<and>
   (\<exists>totalCost ls s'. consumeLayers env0 ''p'' ''l'' ''t'' 5 LIFO val_db = (Inr (totalCost, ls), s') \<and>
     issued ls = [12, 12, 12, 12, 10] \<and> totalCost = 58)"
proof -
  have sh: "shelf lay_unitCost (layer_queue LIFO ''p'' ''l'' ''t'' val_db) = [12, 12, 12, 12, 10, 10, 10]"
    by (simp add: shelf_def layer_queue_def consumption_order_def open_layers_def layer_of_def
        val_db_def db0_def numeral_eq_Suc)
  have "line_cost env0 LIFO ''p'' ''l'' ''t'' val_db = lay_unitCost"
    by (simp add: line_cost_def fun_eq_iff)
  with consume_takes_shelf_prefix [OF val_db_wf, of env0 "''p''" "''l''" "''t''" 5 LIFO] sh
  have "\<exists>totalCost ls s'. consumeLayers env0 ''p'' ''l'' ''t'' 5 LIFO val_db = (Inr (totalCost, ls), s') \<and>
     issued ls = take 5 [12, 12, 12, 12, 10, 10, 10] \<and> totalCost = sum_list (issued ls)"
    by auto
  with sh val_db_wf show ?thesis by fastforce
qed

text \<open>An issue takes all the units asked for or all there are, from this product, location and
  tenant only; no layer is overdrawn or refilled.\<close>

theorem consume_quantity:
  assumes "layers_wf s" "0 \<le> n"
  shows "\<exists>totalCost ls s'. consumeLayers E p l t n m s = (Inr (totalCost, ls), s') \<and>
    sum_list (map lin_quantity ls) = min n (layer_qty p l t s) \<and>
    layer_qty p l t s' = layer_qty p l t s - min n (layer_qty p l t s) \<and>
    (\<forall>p' l' t'. (p', l', t') \<noteq> (p, l, t) \<longrightarrow> layer_qty p' l' t' s' = layer_qty p' l' t' s) \<and>
    layers_wf s'"
proof -
  obtain totalCost ls s' where run: "consumeLayers E p l t n m s = (Inr (totalCost, ls), s')"
    by (simp add: consumeLayers_run)
  have "sum_list (map lin_quantity ls) = sum_list (map snd (takes n (layer_queue m p l t s)))"
    using run by (auto simp: consumeLayers_run issue_line_def case_prod_unfold o_def)
  also note consume_total [OF assms]
  finally show ?thesis
    using run consumeLayers_qty [OF assms run] consumeLayers_wf [OF assms(1) run] by auto
qed


text \<open>Under FIFO and LIFO the value of the stock is conserved: what the issue reports as its
  cost is exactly what leaves the layers of this product and location, and nothing else moves.\<close>

theorem consume_conserves_value:
  assumes "layers_wf s" "m \<noteq> MOVING_AVERAGE"
  shows "\<exists>totalCost ls s'. consumeLayers E p l t n m s = (Inr (totalCost, ls), s') \<and>
    stock_value p l t s = stock_value p l t s' + totalCost \<and>
    (\<forall>p' l' t'. (p', l', t') \<noteq> (p, l, t) \<longrightarrow> stock_value p' l' t' s' = stock_value p' l' t' s)"
proof -
  obtain totalCost ls s' where run: "consumeLayers E p l t n m s = (Inr (totalCost, ls), s')"
    by (simp add: consumeLayers_run)
  with consumeLayers_value [OF assms run] show ?thesis by auto
qed


text \<open>C11: issuing in two steps costs the same as issuing at once: under FIFO and LIFO the lines of
  an issue of \<open>n\<close> units followed by those of \<open>k\<close> units are, unit by unit, those of one issue of
  \<open>n + k\<close>, and so are the costs.\<close>

theorem consume_splits:
  assumes "layers_wf s" "m \<noteq> MOVING_AVERAGE" "0 \<le> n" "0 \<le> k"
  shows "\<exists>c1 ls1 s1 c2 ls2 s2 c ls s'.
    consumeLayers E p l t n m s = (Inr (c1, ls1), s1) \<and>
    consumeLayers E p l t k m s1 = (Inr (c2, ls2), s2) \<and>
    consumeLayers E p l t (n + k) m s = (Inr (c, ls), s') \<and>
    issued ls1 @ issued ls2 = issued ls \<and> c1 + c2 = c"
proof -
  obtain c1 ls1 s1 where r1: "consumeLayers E p l t n m s = (Inr (c1, ls1), s1)"
    by (simp add: consumeLayers_run)
  obtain c2 ls2 s2 where r2: "consumeLayers E p l t k m s1 = (Inr (c2, ls2), s2)"
    by (simp add: consumeLayers_run)
  obtain c ls s' where r: "consumeLayers E p l t (n + k) m s = (Inr (c, ls), s')"
    by (simp add: consumeLayers_run)
  have own: "line_cost E m p l t s0 = lay_unitCost" for s0
    using assms(2) by (simp add: line_cost_def fun_eq_iff)
  note a1 = consumeLayers_shelf [OF assms(1) r1]
    and a2 = consumeLayers_shelf [OF consumeLayers_wf [OF assms(1) r1] r2]
    and a = consumeLayers_shelf [OF assms(1) r]
  let ?S = "shelf lay_unitCost (layer_queue m p l t s)"
  have "issued ls1 @ issued ls2 = take (nat n) ?S @ take (nat k) (drop (nat n) ?S)"
    using a1(1) a2(1) a1(3) by (simp add: own)
  also have "\<dots> = take (nat n + nat k) ?S" by (simp only: take_add)
  also have "\<dots> = issued ls" using a(1) assms(3,4) by (simp add: own nat_add_distrib)
  finally have units: "issued ls1 @ issued ls2 = issued ls" .
  have costs: "c1 + c2 = c" unfolding a1(2) a2(2) a(2) units [symmetric] by simp
  show ?thesis by (intro exI conjI) (rule r1 r2 r units costs)+
qed

theorem consume_splits_witness:
  "layers_wf val_db \<and> (\<exists>c1 ls1 s1 c2 ls2 s2 c ls s'.
    consumeLayers env0 ''p'' ''l'' ''t'' 2 FIFO val_db = (Inr (c1, ls1), s1) \<and>
    consumeLayers env0 ''p'' ''l'' ''t'' 3 FIFO s1 = (Inr (c2, ls2), s2) \<and>
    consumeLayers env0 ''p'' ''l'' ''t'' (2 + 3) FIFO val_db = (Inr (c, ls), s') \<and>
    issued ls1 @ issued ls2 = issued ls \<and> c1 + c2 = c)"
  using consume_splits [OF val_db_wf, of FIFO 2 3 env0 "''p''" "''l''" "''t''"] val_db_wf by simp

text \<open>the weighted average cost lies between the cheapest and the dearest open layer, and a
  MOVING_AVERAGE issue charges it for every unit taken.\<close>

theorem wac_between_layer_costs:
  assumes "div_rounds E" "layers_wf s" "0 \<le> n" "four_decimals lo" "four_decimals hi"
    and "open_layers p l t s \<noteq> []"
    and "\<forall>y \<in> set (open_layers p l t s). lo \<le> lay_unitCost y \<and> lay_unitCost y \<le> hi"
  shows "\<exists>w totalCost ls s'. calculateWAC E p l t s = (Inr w, s) \<and> lo \<le> w \<and> w \<le> hi \<and>
    consumeLayers E p l t n MOVING_AVERAGE s = (Inr (totalCost, ls), s') \<and>
    totalCost = w * of_int (min n (layer_qty p l t s))"
proof -
  let ?ys = "open_layers p l t s"
  let ?v = "sum_list (map (\<lambda>y. lay_unitCost y * of_int (lay_remainingQty y)) ?ys)"
  let ?q = "sum_list (map lay_remainingQty ?ys)"
  have pos: "0 < lay_remainingQty y" if "y \<in> set ?ys" for y
    using that by (simp add: open_layers_def)
  have q: "0 < ?q" using assms(6) pos by (rule sum_remaining_pos)
  have w: "wac E p l t s = e_div E ?v ?q" using assms(6) q by (simp add: wac_def Let_def)
  have each: "0 < lay_remainingQty y \<and> lo \<le> lay_unitCost y \<and> lay_unitCost y \<le> hi"
    if "y \<in> set ?ys" for y
    using pos [OF that] assms(7) that by blast
  note weighted_sum_bounds [of ?ys lo hi, OF each]
  with assms(1,4,5) q have b: "lo \<le> wac E p l t s" "wac E p l t s \<le> hi"
    by (simp_all add: w div_rounds_def)
  obtain totalCost ls s' where run:
    "consumeLayers E p l t n MOVING_AVERAGE s = (Inr (totalCost, ls), s')"
    by (simp add: consumeLayers_run)
  have "totalCost = wac E p l t s * of_int (sum_list (map snd (takes n (layer_queue MOVING_AVERAGE p l t s))))"
  proof -
    have "(\<Sum>(y, q)\<leftarrow>ts. w * of_int q) = w * of_int (sum_list (map snd ts))"
      for w :: rat and ts :: "(layer \<times> int) list"
      by (induction ts) (auto simp: distrib_left)
    with run show ?thesis by (auto simp: consumeLayers_run line_cost_def)
  qed
  with consume_total [OF assms(2,3)] b run show ?thesis by (auto simp: calculateWAC_def)
qed


end
