(* ===== verification/Pagination.thy ===== *)
theory Pagination
  imports JsNumber
begin

text \<open>
  \<^verbatim>\<open>src/src/common/utils/pagination.utils.ts\<close>: the page a list endpoint returns and the metadata
  it reports. Page numbers, limits and counts are JavaScript integers; the number of pages is
  computed with a floating-point division.
\<close>

datatype SortType = ASC | DESC

record page_query =
  q_page :: "int option"
  q_limit :: "int option"
  q_sort :: "SortType option"
  q_sortBy :: "string option"

record page_window =
  pw_skip :: int
  pw_take :: int
  pw_page :: int
  pw_orderBy :: "string \<times> SortType"

record page_meta =
  pm_page :: int
  pm_limit :: int
  pm_take :: int
  pm_total :: int
  pm_skip :: int
  pm_totalPages :: int
  pm_hasNextPage :: bool
  pm_hasPreviousPage :: bool

definition getPagination :: "page_query \<Rightarrow> page_window" where
  "getPagination queries =
     (let page = (case q_page queries of Some v \<Rightarrow> v | None \<Rightarrow> 1);
          limit = (case q_limit queries of Some v \<Rightarrow> v | None \<Rightarrow> 10);
          sort = (case q_sort queries of Some v \<Rightarrow> v | None \<Rightarrow> DESC);
          sortBy = (case q_sortBy queries of Some v \<Rightarrow> v | None \<Rightarrow> ''createdAt'');
          safeLimit = min limit 100;
          safePage = max 1 page
      in \<lparr>pw_skip = (safePage - 1) * safeLimit, pw_take = safeLimit, pw_page = safePage,
          pw_orderBy = (sortBy, sort)\<rparr>)"

definition generatePaginationMeta :: "int \<Rightarrow> int \<Rightarrow> int \<Rightarrow> int \<Rightarrow> page_meta" where
  "generatePaginationMeta page limit totalRows skip =
     (let totalPages = \<lceil>js_div (of_int totalRows) (of_int limit)\<rceil>
      in \<lparr>pm_page = page, pm_limit = limit, pm_take = limit, pm_total = totalRows, pm_skip = skip,
          pm_totalPages = totalPages, pm_hasNextPage = page < totalPages,
          pm_hasPreviousPage = 1 < page\<rparr>)"

definition validatePagination :: "rat \<Rightarrow> rat \<Rightarrow> int \<Rightarrow> int \<times> int" where
  "validatePagination page limit maxLimit =
     (max 1 \<lfloor>page\<rfloor>, min maxLimit (max 1 \<lfloor>limit\<rfloor>))"

text \<open>\<^verbatim>\<open>findMany({ skip, take })\<close> on the ordered rows, and a whole list endpoint.\<close>

definition page_rows :: "int \<Rightarrow> int \<Rightarrow> 'r list \<Rightarrow> 'r list" where
  "page_rows skip n rows = take (nat n) (drop (nat skip) rows)"

definition list_page :: "page_query \<Rightarrow> 'r list \<Rightarrow> page_meta \<times> 'r list" where
  "list_page queries rows =
     (let w = getPagination queries
      in (generatePaginationMeta (pw_page w) (pw_take w) (int (length rows)) (pw_skip w),
          page_rows (pw_skip w) (pw_take w) rows))"

section \<open>Lemmas\<close>

lemma ceil_fl_div:
  assumes "0 \<le> n" "n < 2 ^ 53" "0 < d"
  shows "\<lceil>js_div (of_int n) (of_int d)\<rceil> = \<lceil>of_int n / of_int d :: rat\<rceil>"
proof (cases "d dvd n")
  case True
  then obtain k where k: "n = d * k" by auto
  with assms have "0 \<le> k" by (simp add: zero_le_mult_iff)
  moreover have "k \<le> n" using assms k \<open>0 \<le> k\<close> by (simp add: mult_le_cancel_right1)
  ultimately have "fl (of_int k) = of_int k" using assms by (intro fl_int) simp
  with assms k show ?thesis by (simp add: js_div_def)
next
  case False
  define x :: rat where "x = of_int n / of_int d"
  define c where "c = \<lceil>x\<rceil>"
  have d0: "(0::rat) < of_int d" using assms by simp
  have x0: "0 \<le> x" using assms by (simp add: x_def)
  have c: "x \<le> of_int c" "of_int c - 1 < x" unfolding c_def by linarith+
  have xd: "x * of_int d = of_int n" using d0 by (simp add: x_def)
  have "n < c * d"
  proof -
    have "of_int n \<le> (of_int (c * d) :: rat)"
      using mult_right_mono [OF c(1), of "of_int d"] d0 xd by simp
    then have "n \<le> c * d" by (simp only: of_int_le_iff)
    moreover have "n \<noteq> c * d" using False by auto
    ultimately show ?thesis by simp
  qed
  then have "of_int n + 1 \<le> (of_int (c * d) :: rat)" by (simp flip: of_int_mult of_int_add)
  then have up: "x + 1 / of_int d \<le> of_int c" using d0 by (simp add: x_def field_simps)
  have "(c - 1) * d < n"
  proof -
    have "(of_int ((c - 1) * d) :: rat) < of_int n"
      using mult_strict_right_mono [OF c(2) d0] xd by simp
    then show ?thesis by (simp only: of_int_less_iff)
  qed
  then have "(of_int ((c - 1) * d) :: rat) + 1 \<le> of_int n"
    by (metis add1_zle_eq of_int_1 of_int_add of_int_le_iff)
  then have "(of_int c - 1) * of_int d + 1 \<le> x * of_int d" by (simp add: xd)
  then have "((of_int c - 1) * of_int d + 1) / of_int d \<le> x"
    using d0 by (simp add: pos_divide_le_eq)
  then have lo: "of_int c - 1 + 1 / of_int d \<le> x" using d0 by (simp add: add_divide_distrib)
  have "\<bar>fl x - x\<bar> \<le> x / 2 ^ 53" using fl_err [of x] x0 by simp
  also have "\<dots> < 1 / of_int d"
  proof -
    have "(of_int n :: rat) < of_int (2 ^ 53)" using assms(2) by (simp only: of_int_less_iff)
    then show ?thesis using d0 by (simp add: x_def divide_less_eq)
  qed
  finally have "fl x < of_int c" "of_int c - 1 < fl x" using up lo by linarith+
  then have "\<lceil>fl x\<rceil> = c" by (intro ceiling_unique) linarith+
  then show ?thesis by (simp add: js_div_def x_def c_def)
qed

lemma concat_pages:
  "length rows \<le> k * n \<Longrightarrow> concat (map (\<lambda>i. take n (drop (i * n) rows)) [0..<k]) = rows"
proof (induction k arbitrary: rows)
  case 0
  then show ?case by simp
next
  case (Suc k)
  have "concat (map (\<lambda>i. take n (drop (i * n) rows)) [0..<Suc k]) =
      take n rows @ concat (map (\<lambda>i. take n (drop (Suc i * n) rows)) [0..<k])"
    by (simp add: upt_conv_Cons map_Suc_upt [symmetric] o_def del: upt_Suc)
  also have "map (\<lambda>i. take n (drop (Suc i * n) rows)) [0..<k] =
      map (\<lambda>i. take n (drop (i * n) (drop n rows))) [0..<k]"
    by (simp add: add.commute)
  also have "concat \<dots> = drop n rows" by (rule Suc.IH) (use Suc.prems in simp)
  finally show ?case by simp
qed

section \<open>Properties\<close>

text \<open>A page window is always within bounds: the page is at least 1, the size never exceeds 100
  and the offset is never negative when the requested size is not.\<close>

theorem getPagination_bounds:
  assumes "\<forall>v. q_limit queries = Some v \<longrightarrow> 1 \<le> v"
  shows "1 \<le> pw_page (getPagination queries) \<and> 1 \<le> pw_take (getPagination queries) \<and>
    pw_take (getPagination queries) \<le> 100 \<and>
    pw_skip (getPagination queries) = (pw_page (getPagination queries) - 1) * pw_take (getPagination queries) \<and>
    0 \<le> pw_skip (getPagination queries)"
  using assms by (auto simp: getPagination_def Let_def split: option.splits)


text \<open>the pages of a list endpoint are the list. With fewer than \<open>2 ^ 53\<close> rows, the reported
  number of pages is exact in spite of the floating-point division, requesting the pages from 1 to
  it returns every row once and in order, and only the last page says there is no next one.\<close>

theorem pages_partition_rows:
  assumes "1 \<le> limit" "limit \<le> 100" "int (length rows) < 2 ^ 53" "rows \<noteq> []"
  shows "\<exists>n. pm_totalPages (fst (list_page \<lparr>q_page = Some 1, q_limit = Some limit, q_sort = so, q_sortBy = sb\<rparr> rows)) = int n \<and>
    concat (map (\<lambda>i. snd (list_page \<lparr>q_page = Some (int i + 1), q_limit = Some limit, q_sort = so, q_sortBy = sb\<rparr> rows)) [0..<n]) = rows \<and>
    (\<forall>i < n. pm_hasNextPage (fst (list_page \<lparr>q_page = Some (int i + 1), q_limit = Some limit, q_sort = so, q_sortBy = sb\<rparr> rows)) \<longleftrightarrow> Suc i < n)"
proof -
  let ?len = "int (length rows)"
  let ?pages = "\<lceil>of_int ?len / of_int limit :: rat\<rceil>"
  define n where "n = nat ?pages"
  have pages: "\<lceil>js_div (of_int ?len) (of_int limit)\<rceil> = ?pages"
    using assms by (intro ceil_fl_div) auto
  have lim: "(0::rat) < of_int limit" using assms(1) by simp
  have "(0::rat) \<le> of_int ?len / of_int limit" using lim by simp
  then have nonneg: "0 \<le> ?pages" by linarith
  have "of_int ?len / of_int limit \<le> (of_int ?pages :: rat)" by linarith
  then have "(of_int ?len :: rat) \<le> of_int ?pages * of_int limit"
    by (simp only: pos_divide_le_eq [OF lim])
  then have "(of_int ?len :: rat) \<le> of_int (?pages * limit)" by (simp only: of_int_mult)
  then have "?len \<le> ?pages * limit" by (simp only: of_int_le_iff)
  then have "?len \<le> int (n * nat limit)" using assms(1) nonneg by (simp add: n_def)
  then have "length rows \<le> n * nat limit" by (simp only: of_nat_le_iff)
  note all = concat_pages [OF this]
  have row: "snd (list_page \<lparr>q_page = Some (int i + 1), q_limit = Some limit, q_sort = so, q_sortBy = sb\<rparr> rows) =
      take (nat limit) (drop (i * nat limit) rows)" for i
    using assms(1,2) by (simp add: list_page_def getPagination_def page_rows_def Let_def nat_mult_distrib)
  have meta: "pm_totalPages (fst (list_page \<lparr>q_page = Some (int i + 1), q_limit = Some limit, q_sort = so, q_sortBy = sb\<rparr> rows)) = int n"
    "pm_hasNextPage (fst (list_page \<lparr>q_page = Some (int i + 1), q_limit = Some limit, q_sort = so, q_sortBy = sb\<rparr> rows)) \<longleftrightarrow> int i + 1 < int n" for i
    using assms(1,2) pages nonneg
    by (simp_all add: list_page_def getPagination_def generatePaginationMeta_def Let_def n_def)
  show ?thesis
    using all meta(1) [of 0] by (intro exI [of _ n]) (auto simp: row meta(2))
qed


end
