(* ===== verification/Balance.thy ===== *)
theory Balance
  imports Valuation Pagination
begin

text \<open>
  \<^verbatim>\<open>src/src/modules/stock/services/balance.service.ts\<close>: the fast-read table of on-hand and
  reserved quantities per product and location, its queries and its upsert, and
  \<^verbatim>\<open>stock-validation.service.ts\<close>, the checks every stock operation runs first.
\<close>

section \<open>Strings and keys\<close>

definition js_space :: "char \<Rightarrow> bool" where
  "js_space c \<longleftrightarrow> c \<in> {CHR '' '', CHR 0x09, CHR 0x0A, CHR 0x0B, CHR 0x0C, CHR 0x0D}"

text \<open>\<^verbatim>\<open>String.prototype.trim\<close> on ASCII text.\<close>

definition js_trim :: "string \<Rightarrow> string" where
  "js_trim x = rev (dropWhile js_space (rev (dropWhile js_space x)))"

text \<open>\<^verbatim>\<open>!x\<close> on an optional text.\<close>

definition empty_string :: "string option \<Rightarrow> bool" where
  "empty_string x \<longleftrightarrow> (case x of None \<Rightarrow> True | Some t \<Rightarrow> t = [])"

text \<open>\<^verbatim>\<open>[...new Set(xs)]\<close>: each element once, in order of first occurrence.\<close>

definition js_unique :: "'a list \<Rightarrow> 'a list" where
  "js_unique xs = rev (remdups (rev xs))"

lemma set_js_unique [simp]: "set (js_unique xs) = set xs"
  by (simp add: js_unique_def)

lemma distinct_js_unique [simp]: "distinct (js_unique xs)"
  by (simp add: js_unique_def)

section \<open>The balance table\<close>

definition bal_key :: "id \<Rightarrow> id \<Rightarrow> balance \<Rightarrow> bool" where
  "bal_key productId locationId b \<longleftrightarrow> bal_productId b = productId \<and> bal_locationId b = locationId"

definition find_balance :: "id \<Rightarrow> id \<Rightarrow> db \<Rightarrow> balance option" where
  "find_balance productId locationId s = List.find (bal_key productId locationId) (balances s)"

text \<open>\<^verbatim>\<open>upsert\<close> on the unique key (product, location).\<close>

definition upsert_balance :: "id \<Rightarrow> id \<Rightarrow> balance \<Rightarrow> (balance \<Rightarrow> balance) \<Rightarrow> unit handler" where
  "upsert_balance productId locationId row f = writeM (\<lambda>s.
     if list_ex (bal_key productId locationId) (balances s)
     then s\<lparr>balances := update_where (bal_key productId locationId) f (balances s)\<rparr>
     else s\<lparr>balances := balances s @ [row]\<rparr>)"

definition updateBalance :: "id \<Rightarrow> id \<Rightarrow> id \<Rightarrow> int \<Rightarrow> unit handler" where
  "updateBalance productId locationId tenantId quantityChange =
     upsert_balance productId locationId
       \<lparr>bal_productId = productId, bal_locationId = locationId, bal_tenantId = tenantId,
        bal_onHandQuantity = max 0 quantityChange, bal_reservedQuantity = 0\<rparr>
       (\<lambda>b. b\<lparr>bal_onHandQuantity := bal_onHandQuantity b + quantityChange\<rparr>)"

record balance_summary =
  bs_onHandQuantity :: int
  bs_reservedQuantity :: int
  bs_availableQuantity :: int

definition summary_of :: "balance \<Rightarrow> balance_summary" where
  "summary_of b = \<lparr>bs_onHandQuantity = bal_onHandQuantity b,
     bs_reservedQuantity = bal_reservedQuantity b,
     bs_availableQuantity = bal_onHandQuantity b - bal_reservedQuantity b\<rparr>"

record product_balance_summary =
  pbs_productId :: id
  pbs_totalOnHand :: int
  pbs_totalReserved :: int
  pbs_totalAvailable :: int
  pbs_locations :: "(id \<times> balance_summary) list"

definition findByProduct :: "id \<Rightarrow> id \<Rightarrow> product_balance_summary handler" where
  "findByProduct tenantId productId =
     bindM (readM (\<lambda>s. List.find (\<lambda>p. prod_id p = productId \<and> prod_tenantId p = tenantId \<and>
              prod_deletedAt p = None) (products s))) (\<lambda>found.
     bindM (require found (NotFoundException ProductNotFound)) (\<lambda>prod.
     bindM (readM (\<lambda>s. filter (\<lambda>b. bal_productId b = productId \<and> bal_tenantId b = tenantId)
              (balances s))) (\<lambda>rows.
     let locs = map (\<lambda>b. (bal_locationId b, summary_of b)) rows in
     ret \<lparr>pbs_productId = prod_id prod,
          pbs_totalOnHand = sum_list (map (bs_onHandQuantity \<circ> snd) locs),
          pbs_totalReserved = sum_list (map (bs_reservedQuantity \<circ> snd) locs),
          pbs_totalAvailable = sum_list (map (bs_availableQuantity \<circ> snd) locs),
          pbs_locations = locs\<rparr>)))"

record location_balance_summary =
  lbs_locationId :: id
  lbs_totalUnits :: int
  lbs_productCount :: nat
  lbs_products :: "(id \<times> balance_summary) list"

definition findByLocation :: "id \<Rightarrow> id \<Rightarrow> location_balance_summary handler" where
  "findByLocation tenantId locationId =
     bindM (readM (\<lambda>s. List.find (\<lambda>l. loc_id l = locationId \<and> loc_tenantId l = tenantId)
              (locations s))) (\<lambda>found.
     bindM (require found (NotFoundException LocationNotFound)) (\<lambda>loc.
     bindM (readM (\<lambda>s. filter (\<lambda>b. bal_locationId b = locationId \<and> bal_tenantId b = tenantId)
              (balances s))) (\<lambda>rows.
     let prods = map (\<lambda>b. (bal_productId b, summary_of b)) rows in
     ret \<lparr>lbs_locationId = loc_id loc,
          lbs_totalUnits = sum_list (map (bs_onHandQuantity \<circ> snd) prods),
          lbs_productCount = length prods,
          lbs_products = prods\<rparr>)))"

record balance_query =
  bq_productId :: "id option"
  bq_locationId :: "id option"
  bq_search :: "string option"

text \<open>The \<^verbatim>\<open>where\<close> clause of a balance query, as a predicate on rows: every condition holds, and
  a non-empty search term occurs in a name or code of the product or the location.\<close>

definition balance_filter :: "env \<Rightarrow> db \<Rightarrow> id \<Rightarrow> balance_query \<Rightarrow> balance \<Rightarrow> bool" where
  "balance_filter E s tenantId q b \<longleftrightarrow>
     bal_tenantId b = tenantId \<and>
     (case bq_productId q of None \<Rightarrow> True | Some p \<Rightarrow> bal_productId b = p) \<and>
     (case bq_locationId q of None \<Rightarrow> True | Some l \<Rightarrow> bal_locationId b = l) \<and>
     (case bq_search q of None \<Rightarrow> True
      | Some text \<Rightarrow> text = [] \<or>
          (let term = js_trim text in
           (case List.find (\<lambda>p. prod_id p = bal_productId b) (products s) of None \<Rightarrow> False
            | Some p \<Rightarrow> e_ilike E term (prod_name p) \<or> e_ilike E term (prod_sku p)) \<or>
           (case List.find (\<lambda>l. loc_id l = bal_locationId b) (locations s) of None \<Rightarrow> False
            | Some l \<Rightarrow> e_ilike E term (loc_name l) \<or>
                (case loc_code l of None \<Rightarrow> False | Some c \<Rightarrow> e_ilike E term c))))"

record balance_item =
  bi_balance :: balance
  bi_availableQuantity :: int
  bi_isLowStock :: bool

definition balance_item_of :: "db \<Rightarrow> balance \<Rightarrow> balance_item" where
  "balance_item_of s b =
     (let reorderLevel = (case List.find (\<lambda>p. prod_id p = bal_productId b) (products s) of
            None \<Rightarrow> 0 | Some p \<Rightarrow> prod_reorderLevel p)
      in \<lparr>bi_balance = b, bi_availableQuantity = bal_onHandQuantity b - bal_reservedQuantity b,
          bi_isLowStock = (if reorderLevel \<noteq> 0 then bal_onHandQuantity b < reorderLevel else False)\<rparr>)"

text \<open>The database sorts by the requested column; \<open>sorted_by\<close> is its ordering of the rows.\<close>

definition findAll_balances ::
  "env \<Rightarrow> (string \<times> SortType \<Rightarrow> balance list \<Rightarrow> balance list) \<Rightarrow> id \<Rightarrow> page_query \<Rightarrow> balance_query
   \<Rightarrow> (page_meta \<times> balance_item list) handler" where
  "findAll_balances E sorted_by tenantId pq q = readM (\<lambda>s.
     let w = getPagination pq;
         rows = filter (balance_filter E s tenantId q) (balances s);
         page = page_rows (pw_skip w) (pw_take w) (sorted_by (pw_orderBy w) rows)
     in (generatePaginationMeta (pw_page w) (pw_take w) (int (length rows)) (pw_skip w),
         map (balance_item_of s) page))"

record low_stock_item =
  lsi_productId :: id
  lsi_locationId :: id
  lsi_onHandQuantity :: int
  lsi_reorderLevel :: int
  lsi_shortage :: int

text \<open>The raw SQL of the low-stock report: the join of balances with their product and location,
  its conditions, the order by shortage, limit and offset.\<close>

definition low_stock_rows ::
  "env \<Rightarrow> db \<Rightarrow> id \<Rightarrow> id option \<Rightarrow> string option \<Rightarrow> low_stock_item list" where
  "low_stock_rows E s tenantId locationId search =
     concat (map (\<lambda>b.
       case (List.find (\<lambda>p. prod_id p = bal_productId b) (products s),
             List.find (\<lambda>l. loc_id l = bal_locationId b) (locations s)) of
         (Some p, Some l) \<Rightarrow>
           if bal_tenantId b = tenantId \<and> 0 < prod_reorderLevel p \<and> prod_deletedAt p = None \<and>
              bal_onHandQuantity b < prod_reorderLevel p \<and>
              (case locationId of None \<Rightarrow> True | Some i \<Rightarrow> i = [] \<or> bal_locationId b = i) \<and>
              (case search of None \<Rightarrow> True
               | Some t \<Rightarrow> t = [] \<or> e_ilike E t (prod_name p) \<or> e_ilike E t (prod_sku p))
           then [\<lparr>lsi_productId = bal_productId b, lsi_locationId = bal_locationId b,
                  lsi_onHandQuantity = bal_onHandQuantity b, lsi_reorderLevel = prod_reorderLevel p,
                  lsi_shortage = prod_reorderLevel p - bal_onHandQuantity b\<rparr>]
           else []
       | _ \<Rightarrow> []) (balances s))"

definition findLowStock ::
  "env \<Rightarrow> id \<Rightarrow> int \<Rightarrow> int \<Rightarrow> id option \<Rightarrow> string option \<Rightarrow> (page_meta \<times> low_stock_item list) handler" where
  "findLowStock E tenantId page limit locationId search = readM (\<lambda>s.
     let offset = (page - 1) * limit;
         rows = low_stock_rows E s tenantId locationId search
     in (generatePaginationMeta page limit (int (length rows)) offset,
         page_rows offset limit (sort_key (\<lambda>i. - lsi_shortage i) rows)))"

record valuation_line =
  vl_productId :: id
  vl_locationId :: id
  vl_totalQuantity :: int
  vl_totalValue :: rat
  vl_averageCost :: rat
  vl_layers :: "layer list"

text \<open>Grouping by the key \<^verbatim>\<open>productId:locationId\<close> with a \<^verbatim>\<open>Map\<close>, which keeps the order in which
  keys were first set.\<close>

definition layer_group_key :: "layer \<Rightarrow> string" where
  "layer_group_key y = lay_productId y @ '':'' @ lay_locationId y"

fun group_layers :: "(string \<times> layer list) list \<Rightarrow> layer list \<Rightarrow> (string \<times> layer list) list" where
  "group_layers groups [] = groups"
| "group_layers groups (y # ys) =
     group_layers
       (if layer_group_key y \<in> fst ` set groups
        then map (\<lambda>(k, g). if k = layer_group_key y then (k, g @ [y]) else (k, g)) groups
        else groups @ [(layer_group_key y, [y])]) ys"

definition valuation_line_of :: "layer list \<Rightarrow> valuation_line" where
  "valuation_line_of g =
     (let totalQty = sum_list (map lay_remainingQty g);
          totalValue = foldl (\<lambda>v y. js_add v (js_mul (fl (lay_unitCost y)) (of_int (lay_remainingQty y)))) 0 g
      in \<lparr>vl_productId = lay_productId (hd g), vl_locationId = lay_locationId (hd g),
          vl_totalQuantity = totalQty, vl_totalValue = totalValue,
          vl_averageCost = (if 0 < totalQty then js_div totalValue (of_int totalQty) else 0),
          vl_layers = g\<rparr>)"

definition getValuation :: "id \<Rightarrow> (rat \<times> int \<times> valuation_line list) handler" where
  "getValuation tenantId = readM (\<lambda>s.
     let ys = sort_key lay_createdAt
           (filter (\<lambda>y. lay_tenantId y = tenantId \<and> 0 < lay_remainingQty y) (layers s));
         items = map (valuation_line_of \<circ> snd) (group_layers [] ys)
     in (foldl (\<lambda>v i. js_add v (vl_totalValue i)) 0 items,
         foldl (\<lambda>n i. n + vl_totalQuantity i) 0 items, items))"

section \<open>stock-validation.service.ts\<close>

definition validateProducts :: "id \<Rightarrow> id list \<Rightarrow> unit handler" where
  "validateProducts tenantId productIds =
     (let uniqueProductIds = js_unique productIds in
      bindM (readM (\<lambda>s. filter (\<lambda>p. prod_id p \<in> set uniqueProductIds \<and> prod_tenantId p = tenantId \<and>
               prod_deletedAt p = None) (products s))) (\<lambda>found.
      bindM (throw_if (length found \<noteq> length uniqueProductIds)
               (NotFoundException (ProductsNotFound
                  (filter (\<lambda>i. i \<notin> prod_id ` set found) uniqueProductIds)))) (\<lambda>_.
      let variableProducts = filter (\<lambda>p. prod_productType p = VARIABLE) found in
      throw_if (variableProducts \<noteq> [])
        (BadRequestException (ParentProducts (map prod_name variableProducts))))))"

definition validateLocation :: "id \<Rightarrow> id \<Rightarrow> location handler" where
  "validateLocation tenantId locationId =
     bindM (readM (\<lambda>s. List.find (\<lambda>l. loc_id l = locationId \<and> loc_tenantId l = tenantId \<and>
              loc_status l = LocActive) (locations s))) (\<lambda>found.
     require found (NotFoundException LocationNotFound))"

definition validateLocations :: "id \<Rightarrow> id list \<Rightarrow> (id \<times> location) list handler" where
  "validateLocations tenantId locationIds =
     (let uniqueLocationIds = js_unique locationIds in
      bindM (readM (\<lambda>s. filter (\<lambda>l. loc_id l \<in> set uniqueLocationIds \<and> loc_tenantId l = tenantId \<and>
               loc_status l = LocActive) (locations s))) (\<lambda>found.
      let locationMap = map (\<lambda>l. (loc_id l, l)) found in
      bindM (forM uniqueLocationIds (\<lambda>i.
               throw_if (i \<notin> fst ` set locationMap) (NotFoundException (LocationIdNotFound i)))) (\<lambda>_.
      ret locationMap)))"

definition availability_check :: "db \<Rightarrow> id \<Rightarrow> id \<Rightarrow> id \<times> int \<Rightarrow> unit handler" where
  "availability_check s tenantId locationId item =
     (let productId = fst item; quantity = snd item;
          bal = List.find (\<lambda>b. bal_productId b = productId \<and> bal_tenantId b = tenantId \<and>
                  bal_locationId b = locationId) (balances s);
          onHand = (case bal of None \<Rightarrow> 0 | Some b \<Rightarrow> bal_onHandQuantity b);
          reserved = (case bal of None \<Rightarrow> 0 | Some b \<Rightarrow> bal_reservedQuantity b);
          available = onHand - reserved;
          productName = (case bal of None \<Rightarrow> productId
             | Some b \<Rightarrow> (case List.find (\<lambda>p. prod_id p = productId) (products s) of
                            None \<Rightarrow> productId | Some p \<Rightarrow> prod_name p))
      in throw_if (available < quantity)
           (BadRequestException (InsufficientStock productName onHand reserved available quantity)))"

definition validateStockAvailability :: "id \<Rightarrow> id \<Rightarrow> (id \<times> int) list \<Rightarrow> unit handler" where
  "validateStockAvailability tenantId locationId items =
     (\<lambda>s. bindM (forM items (availability_check s tenantId locationId)) (\<lambda>_. ret ()) s)"

definition getAvailableStock :: "id \<Rightarrow> id \<Rightarrow> (int \<times> int \<times> int) handler" where
  "getAvailableStock locationId productId = readM (\<lambda>s.
     let bal = find_balance productId locationId s;
         onHand = (case bal of None \<Rightarrow> 0 | Some b \<Rightarrow> bal_onHandQuantity b);
         reserved = (case bal of None \<Rightarrow> 0 | Some b \<Rightarrow> bal_reservedQuantity b)
     in (onHand, reserved, onHand - reserved))"

section \<open>Lemmas: the balance of a product at a location\<close>

definition on_hand :: "id \<Rightarrow> id \<Rightarrow> db \<Rightarrow> int" where
  "on_hand p l s = (case find_balance p l s of None \<Rightarrow> 0 | Some b \<Rightarrow> bal_onHandQuantity b)"

definition reserved_at :: "id \<Rightarrow> id \<Rightarrow> db \<Rightarrow> int" where
  "reserved_at p l s = (case find_balance p l s of None \<Rightarrow> 0 | Some b \<Rightarrow> bal_reservedQuantity b)"

definition has_balance :: "id \<Rightarrow> id \<Rightarrow> db \<Rightarrow> bool" where
  "has_balance p l s \<longleftrightarrow> find_balance p l s \<noteq> None"

lemma list_ex_bal_key: "list_ex (bal_key p l) (balances s) \<longleftrightarrow> has_balance p l s"
  by (simp add: has_balance_def find_balance_def find_None_iff' list_ex_iff)

lemma bal_key_update [simp]:
  "bal_key p l (b\<lparr>bal_onHandQuantity := n\<rparr>) = bal_key p l b"
  "bal_key p l (b\<lparr>bal_reservedQuantity := n\<rparr>) = bal_key p l b"
  by (simp_all add: bal_key_def)

text \<open>Rewriting the row of one key, seen from any key.\<close>

lemma find_balance_update:
  assumes "\<And>b. bal_key p l b \<Longrightarrow> bal_key p' l' (f b) = bal_key p' l' b"
  shows "find_balance p' l' (s\<lparr>balances := update_where (bal_key p l) f (balances s)\<rparr>) =
    (if p' = p \<and> l' = l then map_option f (find_balance p l s) else find_balance p' l' s)"
proof -
  have "List.find (bal_key p' l') (update_where (bal_key p l) f (balances s)) =
      map_option (\<lambda>b. if bal_key p l b then f b else b) (List.find (bal_key p' l') (balances s))"
    using assms by (rule find_update_where)
  then have upd: "find_balance p' l' (s\<lparr>balances := update_where (bal_key p l) f (balances s)\<rparr>) =
      map_option (\<lambda>b. if bal_key p l b then f b else b) (find_balance p' l' s)"
    by (simp add: find_balance_def)
  show ?thesis
  proof (cases "find_balance p' l' s")
    case None
    with upd show ?thesis by auto
  next
    case (Some b)
    then have "bal_key p' l' b" by (auto simp: find_balance_def dest: find_SomeD)
    with upd Some show ?thesis by (auto simp: bal_key_def)
  qed
qed

lemma find_balance_append:
  "find_balance p' l' (s\<lparr>balances := balances s @ [b]\<rparr>) =
   (case find_balance p' l' s of None \<Rightarrow> (if bal_key p' l' b then Some b else None) | Some x \<Rightarrow> Some x)"
  by (simp add: find_balance_def find_append split: option.split)

lemma updateBalance_run:
  "updateBalance p l t d s =
    (Inr (), if has_balance p l s
     then s\<lparr>balances := update_where (bal_key p l)
              (\<lambda>b. b\<lparr>bal_onHandQuantity := bal_onHandQuantity b + d\<rparr>) (balances s)\<rparr>
     else s\<lparr>balances := balances s @
              [\<lparr>bal_productId = p, bal_locationId = l, bal_tenantId = t,
                bal_onHandQuantity = max 0 d, bal_reservedQuantity = 0\<rparr>]\<rparr>)"
  by (simp add: updateBalance_def upsert_balance_def list_ex_bal_key)

text \<open>An update lands on its own key; a first, negative one is cut off at zero.\<close>

lemma updateBalance_on_hand:
  assumes "updateBalance p l t d s = (r, s')"
  shows "on_hand p' l' s' = on_hand p' l' s +
    (if p' = p \<and> l' = l then (if has_balance p l s then d else max 0 d) else 0)"
proof (cases "find_balance p l s")
  case None
  with assms show ?thesis
    by (auto simp: updateBalance_run on_hand_def has_balance_def find_balance_append bal_key_def
        split: option.splits)
next
  case (Some b)
  with assms show ?thesis
    by (auto simp: updateBalance_run on_hand_def has_balance_def find_balance_update)
qed

lemma updateBalance_reserved:
  "updateBalance p l t d s = (r, s') \<Longrightarrow> reserved_at p' l' s' = reserved_at p' l' s"
  by (cases "find_balance p l s"; cases "find_balance p' l' s")
    (auto simp: updateBalance_run reserved_at_def find_balance_append find_balance_update
      has_balance_def bal_key_def)

lemma updateBalance_has:
  "updateBalance p l t d s = (r, s') \<Longrightarrow>
   has_balance p' l' s' \<longleftrightarrow> has_balance p' l' s \<or> (p' = p \<and> l' = l)"
  by (cases "find_balance p l s"; cases "find_balance p' l' s")
    (auto simp: updateBalance_run find_balance_append find_balance_update
      has_balance_def bal_key_def split: if_splits)

lemma updateBalance_frame:
  "updateBalance p l t d s = (r, s') \<Longrightarrow> s' = s\<lparr>balances := balances s'\<rparr>"
  by (auto simp: updateBalance_run)

lemma updateBalance_never_throws [svc_intros]: "never_throws (updateBalance p l t d)"
  by (auto simp: never_throws_def updateBalance_run)

section \<open>Lemmas: the checks\<close>

lemma readonly_checks [svc_intros]:
  "readonly (validateProducts t ps)" "readonly (validateLocation t l)"
  "readonly (validateLocations t ls)" "readonly (getAvailableStock l p)"
  by (auto simp: validateProducts_def validateLocation_def validateLocations_def Let_def
      getAvailableStock_def intro!: svc_intros)

lemma readonly_validateStockAvailability [svc_intros]:
  "readonly (validateStockAvailability t l items)"
proof -
  have "readonly (\<lambda>s. bindM (forM items (availability_check s0 t l)) (\<lambda>_. ret ()) s)" for s0
    by (auto simp: availability_check_def Let_def intro!: svc_intros)
  then show ?thesis unfolding readonly_def validateStockAvailability_def by blast
qed

text \<open>A product that may hold stock: live, of this tenant, and not the parent of variants.\<close>

definition stockable :: "id \<Rightarrow> db \<Rightarrow> id \<Rightarrow> bool" where
  "stockable tenantId s i \<longleftrightarrow> (\<exists>p \<in> set (products s). prod_id p = i \<and> prod_tenantId p = tenantId \<and>
     prod_deletedAt p = None \<and> prod_productType p \<noteq> VARIABLE)"

definition live_products :: "id \<Rightarrow> db \<Rightarrow> id set" where
  "live_products tenantId s =
     prod_id ` {p \<in> set (products s). prod_tenantId p = tenantId \<and> prod_deletedAt p = None}"

lemma found_all_iff:
  assumes "distinct (map prod_id (products s))"
  shows "length (filter (\<lambda>p. prod_id p \<in> set ids \<and> prod_tenantId p = t \<and> prod_deletedAt p = None) (products s)) =
      length (js_unique ids) \<longleftrightarrow>
    set ids \<subseteq> prod_id ` set (filter (\<lambda>p. prod_id p \<in> set ids \<and> prod_tenantId p = t \<and> prod_deletedAt p = None) (products s))"
proof -
  let ?found = "filter (\<lambda>p. prod_id p \<in> set ids \<and> prod_tenantId p = t \<and> prod_deletedAt p = None) (products s)"
  have d: "distinct (map prod_id ?found)" using assms by (rule distinct_map_filter)
  have sub: "prod_id ` set ?found \<subseteq> set ids" by auto
  have "length ?found = length (js_unique ids) \<longleftrightarrow> prod_id ` set ?found = set ids"
  proof -
    have "length ?found = card (prod_id ` set ?found)"
      using distinct_card [OF d] by simp
    moreover have "length (js_unique ids) = card (set ids)"
      using distinct_card [OF distinct_js_unique, of ids] by simp
    ultimately show ?thesis using card_subset_eq [OF _ sub] by auto
  qed
  moreover have "prod_id ` set ?found = set ids \<longleftrightarrow> set ids \<subseteq> prod_id ` set ?found" using sub by blast
  ultimately show ?thesis by simp
qed

lemma two_checks_Inl:
  "(if a then (Inl x, s) else if b then (Inl y, s) else (Inr (), s)) = (Inl e, s') \<Longrightarrow>
   (a \<and> e = x \<and> s' = s) \<or> (\<not> a \<and> b \<and> e = y \<and> s' = s)"
  by (auto split: if_splits)

lemma validateProducts_run:
  "validateProducts t ids s =
    (let found = filter (\<lambda>p. prod_id p \<in> set ids \<and> prod_tenantId p = t \<and> prod_deletedAt p = None) (products s);
         parents = filter (\<lambda>p. prod_productType p = VARIABLE) found
     in if length found \<noteq> length (js_unique ids)
        then (Inl (NotFoundException (ProductsNotFound (filter (\<lambda>i. i \<notin> prod_id ` set found) (js_unique ids)))), s)
        else if parents \<noteq> [] then (Inl (BadRequestException (ParentProducts (map prod_name parents))), s)
        else (Inr (), s))"
  by (simp only: validateProducts_def Let_def set_js_unique bindM_run throw_if_run)

lemma validateProducts_iff:
  assumes "distinct (map prod_id (products s))"
  shows "validateProducts t ids s = (Inr (), s) \<longleftrightarrow> (\<forall>i \<in> set ids. stockable t s i)"
proof -
  let ?found = "filter (\<lambda>p. prod_id p \<in> set ids \<and> prod_tenantId p = t \<and> prod_deletedAt p = None) (products s)"
  note found = found_all_iff [OF assms, of ids t]
  have one: "p = q" if "p \<in> set (products s)" "q \<in> set (products s)" "prod_id p = prod_id q" for p q
    using assms that by (auto simp: distinct_map dest: inj_onD)
  have "validateProducts t ids s = (Inr (), s) \<longleftrightarrow>
      length ?found = length (js_unique ids) \<and> filter (\<lambda>p. prod_productType p = VARIABLE) ?found = []"
    by (auto simp: validateProducts_def Let_def run_simps)
  also have "\<dots> \<longleftrightarrow> (\<forall>i \<in> set ids. stockable t s i)"
  proof
    assume h: "length ?found = length (js_unique ids) \<and> filter (\<lambda>p. prod_productType p = VARIABLE) ?found = []"
    show "\<forall>i \<in> set ids. stockable t s i"
    proof
      fix i assume "i \<in> set ids"
      with h found obtain p where "p \<in> set ?found" "prod_id p = i" by auto
      with h show "stockable t s i" by (auto simp: stockable_def filter_empty_conv)
    qed
  next
    assume h: "\<forall>i \<in> set ids. stockable t s i"
    then have "set ids \<subseteq> prod_id ` set ?found" by (force simp: stockable_def)
    moreover have "prod_productType p \<noteq> VARIABLE" if "p \<in> set ?found" for p
    proof -
      from that h have "stockable t s (prod_id p)" "p \<in> set (products s)" by auto
      then show ?thesis using one by (auto simp: stockable_def)
    qed
    then have "filter (\<lambda>p. prod_productType p = VARIABLE) ?found = []"
      unfolding filter_empty_conv by blast
    ultimately show "length ?found = length (js_unique ids) \<and> filter (\<lambda>p. prod_productType p = VARIABLE) ?found = []"
      unfolding found by blast
  qed
  finally show ?thesis .
qed

definition tenant_available :: "id \<Rightarrow> id \<Rightarrow> id \<Rightarrow> db \<Rightarrow> int" where
  "tenant_available tenantId p l s =
     (case List.find (\<lambda>b. bal_productId b = p \<and> bal_tenantId b = tenantId \<and> bal_locationId b = l)
        (balances s) of None \<Rightarrow> 0 | Some b \<Rightarrow> bal_onHandQuantity b - bal_reservedQuantity b)"

lemma availability_check_iff:
  "availability_check s t l x s1 = (Inr (), s2) \<longleftrightarrow> s2 = s1 \<and> snd x \<le> tenant_available t (fst x) l s"
  by (auto simp: availability_check_def Let_def tenant_available_def split: option.splits)

lemma forM_unit_iff:
  assumes "\<And>x s1 s2. f x s1 = (Inr (), s2) \<longleftrightarrow> s2 = s1 \<and> P x"
  shows "(\<exists>us. forM xs f s = (Inr us, s')) \<longleftrightarrow> s' = s \<and> (\<forall>x \<in> set xs. P x)"
proof (induction xs arbitrary: s)
  case Nil
  then show ?case by auto
next
  case (Cons x xs)
  have "(\<exists>us. forM (x # xs) f s = (Inr us, s')) \<longleftrightarrow>
      (\<exists>s1. f x s = (Inr (), s1) \<and> (\<exists>us. forM xs f s1 = (Inr us, s')))"
    by (auto simp: bindM_Inr)
  with Cons assms show ?case by auto
qed

lemma validateStockAvailability_iff:
  "validateStockAvailability t l items s = (Inr (), s') \<longleftrightarrow>
   s' = s \<and> (\<forall>(p, q) \<in> set items. q \<le> tenant_available t p l s)"
proof -
  have "validateStockAvailability t l items s = (Inr (), s') \<longleftrightarrow>
      (\<exists>us. forM items (availability_check s t l) s = (Inr us, s'))"
    by (auto simp: validateStockAvailability_def bindM_Inr)
  also have "\<dots> \<longleftrightarrow> s' = s \<and> (\<forall>x \<in> set items. snd x \<le> tenant_available t (fst x) l s)"
    by (rule forM_unit_iff) (rule availability_check_iff)
  finally show ?thesis by auto
qed

text \<open>Each key has one row, and each row is of its product's tenant.\<close>

definition balances_wf :: "db \<Rightarrow> bool" where
  "balances_wf s \<longleftrightarrow> distinct (map (\<lambda>b. (bal_productId b, bal_locationId b)) (balances s))"

lemma tenant_available_le:
  assumes "tenant_available t p l s \<noteq> 0" "balances_wf s"
  shows "has_balance p l s" "tenant_available t p l s = on_hand p l s - reserved_at p l s"
proof -
  from assms(1) obtain b where
    b: "List.find (\<lambda>b. bal_productId b = p \<and> bal_tenantId b = t \<and> bal_locationId b = l) (balances s) = Some b"
    by (auto simp: tenant_available_def split: option.splits)
  then have "b \<in> set (balances s)" "bal_key p l b" by (auto simp: bal_key_def dest: find_SomeD)
  moreover have key: "bal_key p l = (\<lambda>b. (bal_productId b, bal_locationId b) = (p, l))"
    by (auto simp: bal_key_def)
  ultimately have "find_balance p l s = Some b"
    using assms(2) unfolding find_balance_def key balances_wf_def by (intro find_map_key) auto
  with b show "has_balance p l s" "tenant_available t p l s = on_hand p l s - reserved_at p l s"
    by (simp_all add: has_balance_def on_hand_def reserved_at_def tenant_available_def)
qed

section \<open>Lemmas: the valuation report\<close>

definition groups_ok :: "(string \<times> layer list) list \<Rightarrow> bool" where
  "groups_ok gs \<longleftrightarrow> distinct (map fst gs) \<and>
     (\<forall>(k, g) \<in> set gs. g \<noteq> [] \<and> (\<forall>y \<in> set g. layer_group_key y = k))"

definition add_to_group :: "(string \<times> layer list) list \<Rightarrow> layer \<Rightarrow> (string \<times> layer list) list" where
  "add_to_group gs y =
     (if layer_group_key y \<in> fst ` set gs
      then map (\<lambda>(k, g). if k = layer_group_key y then (k, g @ [y]) else (k, g)) gs
      else gs @ [(layer_group_key y, [y])])"

lemma group_layers_Cons: "group_layers gs (y # ys) = group_layers (add_to_group gs y) ys"
  by (simp add: add_to_group_def)

definition group_of :: "string \<Rightarrow> (string \<times> layer list) list \<Rightarrow> layer list" where
  "group_of k gs = (case map_of gs k of None \<Rightarrow> [] | Some g \<Rightarrow> g)"

lemma fst_add_to_group:
  "map fst (add_to_group gs y) =
   (if layer_group_key y \<in> fst ` set gs then map fst gs else map fst gs @ [layer_group_key y])"
  by (auto simp: add_to_group_def)

lemma groups_ok_add: "groups_ok gs \<Longrightarrow> groups_ok (add_to_group gs y)"
  unfolding groups_ok_def fst_add_to_group
  by (auto simp: add_to_group_def split: if_splits) fastforce+

lemma map_of_add_to_group:
  "map_of (map (\<lambda>(k, g). if k = k0 then (k, g @ [y]) else (k, g)) gs) k =
   map_option (\<lambda>g. if k = k0 then g @ [y] else g) (map_of gs k)"
  by (induction gs) auto

lemma group_of_add:
  "group_of k (add_to_group gs y) = group_of k gs @ (if layer_group_key y = k then [y] else [])"
proof (cases "layer_group_key y \<in> fst ` set gs")
  case True
  then obtain g where "map_of gs (layer_group_key y) = Some g"
    by (metis imageE map_of_eq_None_iff not_None_eq image_eqI)
  with True show ?thesis
    by (auto simp: group_of_def add_to_group_def map_of_add_to_group split: option.splits)
next
  case False
  then have "map_of gs (layer_group_key y) = None" by (simp add: map_of_eq_None_iff)
  with False show ?thesis
    by (auto simp: group_of_def add_to_group_def map_add_def split: option.splits)
qed

lemma group_layers_ok: "groups_ok gs \<Longrightarrow> groups_ok (group_layers gs ys)"
proof (induction ys arbitrary: gs)
  case (Cons y ys)
  then show ?case unfolding group_layers_Cons by (blast intro: groups_ok_add)
qed simp

lemma group_of_group_layers:
  "group_of k (group_layers gs ys) = group_of k gs @ filter (\<lambda>y. layer_group_key y = k) ys"
proof (induction ys arbitrary: gs)
  case (Cons y ys)
  show ?case unfolding group_layers_Cons Cons.IH by (simp add: group_of_add)
qed simp

lemma sum_add_to_group:
  "distinct (map fst gs) \<Longrightarrow>
   sum_list (map (\<lambda>(k, g). sum_list (map f g)) (add_to_group gs y)) =
   sum_list (map (\<lambda>(k, g). sum_list (map f g)) gs) + f y" for f :: "layer \<Rightarrow> int"
proof (induction gs)
  case Nil
  then show ?case by (simp add: add_to_group_def)
next
  case (Cons kg gs)
  obtain k g where kg: "kg = (k, g)" by force
  show ?case
  proof (cases "k = layer_group_key y")
    case True
    with Cons.prems have "layer_group_key y \<notin> fst ` set gs" by (auto simp: kg)
    then have "map (\<lambda>(k, g). if k = layer_group_key y then (k, g @ [y]) else (k, g)) gs = gs"
      by (intro map_idI) force
    with True show ?thesis by (simp add: add_to_group_def kg)
  next
    case False
    then have "add_to_group (kg # gs) y = kg # add_to_group gs y"
      by (auto simp: add_to_group_def kg)
    with Cons show ?thesis by (simp add: kg)
  qed
qed

lemma sum_group_layers:
  "groups_ok gs \<Longrightarrow>
   sum_list (map (\<lambda>(k, g). sum_list (map f g)) (group_layers gs ys)) =
   sum_list (map (\<lambda>(k, g). sum_list (map f g)) gs) + sum_list (map f ys)" for f :: "layer \<Rightarrow> int"
proof (induction ys arbitrary: gs)
  case (Cons y ys)
  have "distinct (map fst gs)" using Cons.prems by (simp add: groups_ok_def)
  from Cons.IH [OF groups_ok_add [OF Cons.prems, of y]] sum_add_to_group [OF this, of f y]
  show ?case unfolding group_layers_Cons by simp
qed simp

lemma sum_sort_key: "sum_list (map g (sort_key f xs)) = sum_list (map g xs)"
  for g :: "'a \<Rightarrow> int"
proof -
  have "mset (map g (sort_key f xs)) = mset (map g xs)" by (simp only: mset_map mset_sort)
  then show ?thesis by (metis sum_mset_sum_list)
qed

text \<open>The keys of the groups are the keys of what was grouped.\<close>

lemma group_keys:
  assumes "groups_ok gs" "\<And>k. group_of k gs = filter (\<lambda>y. layer_group_key y = k) (sort_key f (filter P ys))"
  shows "fst ` set gs = layer_group_key ` {y \<in> set ys. P y}"
proof -
  have "k \<in> fst ` set gs \<longleftrightarrow> group_of k gs \<noteq> []" for k
  proof
    assume "k \<in> fst ` set gs"
    then obtain g where "(k, g) \<in> set gs" by force
    with assms(1) show "group_of k gs \<noteq> []" by (auto simp: groups_ok_def group_of_def)
  next
    assume "group_of k gs \<noteq> []"
    then obtain g where "map_of gs k = Some g" by (auto simp: group_of_def split: option.splits)
    then show "k \<in> fst ` set gs" by (force dest: map_of_SomeD)
  qed
  then show ?thesis by (intro set_eqI) (simp only: assms(2) filter_empty_conv set_sort image_iff; auto)
qed

section \<open>Properties\<close>

definition bal_db :: db where
  "bal_db = db0\<lparr>products := [sample_product ''p'' ''Pen'' ''PEN'' ''t'' SIMPLE (Some 15) 3,
       sample_product ''v'' ''Shirt'' ''SH'' ''t'' VARIABLE None 0],
     locations := [sample_location ''l'' ''Main'' ''t''],
     balances := [\<lparr>bal_productId = ''p'', bal_locationId = ''l'', bal_tenantId = ''t'',
       bal_onHandQuantity = 7, bal_reservedQuantity = 2\<rparr>],
     layers := layers val_db, clock := 30, nextId := 2\<rparr>"

text \<open>The product check in front of every stock operation accepts exactly the requests whose
  products are all live products of the tenant that are not the parent of variants. Otherwise it
  throws and changes nothing: a 404 naming, once each, the requested ids that are missing, or a 400
  naming parents.\<close>

theorem validateProducts_spec:
  assumes "distinct (map prod_id (products s))"
  shows "(validateProducts t ids s = (Inr (), s) \<longleftrightarrow> (\<forall>i \<in> set ids. stockable t s i)) \<and>
    (\<forall>e s'. validateProducts t ids s = (Inl e, s') \<longrightarrow> s' = s \<and>
      ((\<exists>missing. e = NotFoundException (ProductsNotFound missing) \<and> distinct missing \<and> missing \<noteq> [] \<and>
          set missing = set ids - live_products t s) \<or>
       (\<exists>names. e = BadRequestException (ParentProducts names) \<and> names \<noteq> [] \<and>
          set ids \<subseteq> live_products t s)))"
proof (intro conjI allI impI validateProducts_iff [OF assms])
  fix e s' assume run: "validateProducts t ids s = (Inl e, s')"
  let ?found = "filter (\<lambda>p. prod_id p \<in> set ids \<and> prod_tenantId p = t \<and> prod_deletedAt p = None) (products s)"
  let ?missing = "filter (\<lambda>i. i \<notin> prod_id ` set ?found) (js_unique ids)"
  have missing: "set ?missing = set ids - live_products t s" by (auto simp: live_products_def)
  have count: "length ?found = length (js_unique ids) \<longleftrightarrow> ?missing = []"
    using found_all_iff [OF assms, of ids t] by (auto simp: filter_empty_conv)
  have "(if length ?found \<noteq> length (js_unique ids) then (Inl (NotFoundException (ProductsNotFound ?missing)), s)
      else if filter (\<lambda>p. prod_productType p = VARIABLE) ?found \<noteq> []
      then (Inl (BadRequestException (ParentProducts (map prod_name (filter (\<lambda>p. prod_productType p = VARIABLE) ?found)))), s)
      else (Inr (), s)) = (Inl e, s')"
    using run unfolding validateProducts_run Let_def .
  from two_checks_Inl [OF this] consider "length ?found \<noteq> length (js_unique ids)" "e = NotFoundException (ProductsNotFound ?missing)" "s' = s"
    | "length ?found = length (js_unique ids)" "filter (\<lambda>p. prod_productType p = VARIABLE) ?found \<noteq> []"
      "e = BadRequestException (ParentProducts (map prod_name (filter (\<lambda>p. prod_productType p = VARIABLE) ?found)))"
      "s' = s"
    by blast
  then have "s' = s \<and>
      ((\<exists>missing. e = NotFoundException (ProductsNotFound missing) \<and> distinct missing \<and> missing \<noteq> [] \<and>
          set missing = set ids - live_products t s) \<or>
       (\<exists>names. e = BadRequestException (ParentProducts names) \<and> names \<noteq> [] \<and>
          set ids \<subseteq> live_products t s))"
  proof (cases)
    case 1
    have "distinct ?missing" by (rule distinct_filter) (rule distinct_js_unique)
    moreover have "?missing \<noteq> []" using count 1(1) by blast
    ultimately show ?thesis
      by (intro conjI disjI1 exI [of _ ?missing]) (rule 1(3) 1(2) missing | assumption)+
  next
    case 2
    from 2(1) count have "set ?missing = {}" by simp
    then have "set ids \<subseteq> live_products t s" unfolding missing by blast
    moreover have "map prod_name (filter (\<lambda>p. prod_productType p = VARIABLE) ?found) \<noteq> []"
      using 2(2) unfolding map_is_Nil_conv .
    ultimately show ?thesis
      by (intro conjI disjI2 exI [of _ "map prod_name (filter (\<lambda>p. prod_productType p = VARIABLE) ?found)"])
        (rule 2(3,4) | assumption)+
  qed
  then show "s' = s"
    and "(\<exists>missing. e = NotFoundException (ProductsNotFound missing) \<and> distinct missing \<and> missing \<noteq> [] \<and>
          set missing = set ids - live_products t s) \<or>
       (\<exists>names. e = BadRequestException (ParentProducts names) \<and> names \<noteq> [] \<and>
          set ids \<subseteq> live_products t s)"
    by blast+
qed


text \<open>the valuation report covers the tenant's open layers exactly once: it has one line for
  each key (product and location) of an open layer and no other, the line holds the layers of that
  key in creation order, and the reported units are the units that remain.\<close>

theorem getValuation_partitions_layers:
  "\<exists>value units items ks. getValuation t s = (Inr (value, units, items), s) \<and>
    distinct ks \<and>
    set ks = layer_group_key ` {y \<in> set (layers s). lay_tenantId y = t \<and> 0 < lay_remainingQty y} \<and>
    items = map (\<lambda>k. valuation_line_of (filter (\<lambda>y. layer_group_key y = k)
       (sort_key lay_createdAt (filter (\<lambda>y. lay_tenantId y = t \<and> 0 < lay_remainingQty y) (layers s))))) ks \<and>
    units = sum_where (\<lambda>y. lay_tenantId y = t \<and> 0 < lay_remainingQty y) lay_remainingQty (layers s)"
proof -
  let ?open = "filter (\<lambda>y. lay_tenantId y = t \<and> 0 < lay_remainingQty y) (layers s)"
  let ?ys = "sort_key lay_createdAt ?open"
  define gs where "gs = group_layers [] ?ys"
  have ok: "groups_ok gs" unfolding gs_def by (rule group_layers_ok) (simp add: groups_ok_def)
  have of: "group_of k gs = filter (\<lambda>y. layer_group_key y = k) ?ys" for k
    unfolding gs_def using group_of_group_layers [of k "[]" ?ys] by (simp add: group_of_def)
  have groups: "g = filter (\<lambda>y. layer_group_key y = k) ?ys" if "(k, g) \<in> set gs" for k g
    using that ok of [of k] by (simp add: groups_ok_def group_of_def)
  have fold: "foldl (\<lambda>n i. n + vl_totalQuantity i) 0 xs = sum_list (map vl_totalQuantity xs)" for xs
    by (induction xs rule: rev_induct) auto
  have "sum_list (map vl_totalQuantity (map (valuation_line_of \<circ> snd) gs)) =
      sum_list (map (\<lambda>(k, g). sum_list (map lay_remainingQty g)) gs)"
    by (simp add: valuation_line_of_def Let_def case_prod_unfold o_def)
  also have "\<dots> = sum_list (map lay_remainingQty ?ys)"
    unfolding gs_def by (subst sum_group_layers) (simp_all add: groups_ok_def)
  also have "\<dots> = sum_list (map lay_remainingQty ?open)"
    by (rule sum_sort_key)
  finally have units: "foldl (\<lambda>n i. n + vl_totalQuantity i) 0 (map (valuation_line_of \<circ> snd) gs) =
      sum_where (\<lambda>y. lay_tenantId y = t \<and> 0 < lay_remainingQty y) lay_remainingQty (layers s)"
    unfolding fold sum_where_def .
  show ?thesis
  proof (intro exI conjI)
    show "getValuation t s = (Inr (foldl (\<lambda>v i. js_add v (vl_totalValue i)) 0 (map (valuation_line_of \<circ> snd) gs),
        foldl (\<lambda>n i. n + vl_totalQuantity i) 0 (map (valuation_line_of \<circ> snd) gs),
        map (valuation_line_of \<circ> snd) gs), s)"
      by (simp only: getValuation_def readM_run Let_def gs_def)
    show "distinct (map fst gs)" using ok by (simp add: groups_ok_def)
    show "map (valuation_line_of \<circ> snd) gs =
        map (\<lambda>k. valuation_line_of (filter (\<lambda>y. layer_group_key y = k) ?ys)) (map fst gs)"
      unfolding map_map by (rule map_cong) (use groups in auto)
    show "set (map fst gs) = layer_group_key ` {y \<in> set (layers s). lay_tenantId y = t \<and> 0 < lay_remainingQty y}"
      unfolding set_map by (rule group_keys [OF ok of])
  qed (use units in auto)
qed

text \<open>The product summary adds up: its totals are the sums over the tenant's balances of the
  product, and what is available is what is on hand less what is reserved; a product that is
  deleted or of another tenant is a 404.\<close>

theorem findByProduct_totals:
  "if i \<in> live_products t s
   then \<exists>r. findByProduct t i s = (Inr r, s) \<and> pbs_productId r = i \<and>
     pbs_totalOnHand r = sum_where (\<lambda>b. bal_productId b = i \<and> bal_tenantId b = t) bal_onHandQuantity (balances s) \<and>
     pbs_totalReserved r = sum_where (\<lambda>b. bal_productId b = i \<and> bal_tenantId b = t) bal_reservedQuantity (balances s) \<and>
     pbs_totalAvailable r = pbs_totalOnHand r - pbs_totalReserved r
   else findByProduct t i s = (Inl (NotFoundException ProductNotFound), s)"
proof (cases "List.find (\<lambda>p. prod_id p = i \<and> prod_tenantId p = t \<and> prod_deletedAt p = None) (products s)")
  case None
  then have "i \<notin> live_products t s" by (auto simp: find_None_iff' live_products_def)
  with None show ?thesis by (simp add: findByProduct_def run_simps bindM_def)
next
  case (Some p)
  then have "prod_id p = i" "i \<in> live_products t s"
    by (auto simp: live_products_def dest: find_SomeD)
  moreover have "(\<Sum>b\<leftarrow>bs. bal_onHandQuantity b - bal_reservedQuantity b) =
      sum_list (map bal_onHandQuantity bs) - sum_list (map bal_reservedQuantity bs)" for bs
    by (induction bs) auto
  ultimately show ?thesis
    using Some by (simp add: findByProduct_def run_simps bindM_def Let_def sum_where_def
        summary_of_def o_def)
qed

end
