(* ===== verification/Movement.thy ===== *)
theory Movement
  imports Balance
begin

text \<open>
  \<^verbatim>\<open>src/src/modules/stock/services/movement.service.ts\<close>: receipts, issues and adjustments of
  stock, and the queries over the movement ledger. Every operation writes a movement row, the cost
  layers (Valuation) and the balance (Balance) of each item, in one transaction.

  The abstract view is double-entry bookkeeping: the on-hand quantity of a product at a location
  is the sum of its movements, IN counting positive and OUT negative (\<open>ledger\<close>).

  \<^verbatim>\<open>Promise.all\<close> over writes of one transaction runs them one after the other on its connection;
  here in the order of the items. The free-form \<^verbatim>\<open>metadata\<close> column and the success messages are
  left out.
\<close>

section \<open>Requests\<close>

record stock_in_item =
  sin_productId :: id
  sin_quantity :: int
  sin_unitCost :: rat
  sin_batchId :: "id option"

record stock_in_dto =
  in_locationId :: id
  in_referenceType :: "ReferenceType option"
  in_referenceId :: "string option"
  in_note :: "string option"
  in_items :: "stock_in_item list"

record stock_out_item =
  sou_productId :: id
  sou_quantity :: int

record stock_out_dto =
  out_locationId :: id
  out_referenceType :: "ReferenceType option"
  out_referenceId :: "string option"
  out_note :: "string option"
  out_items :: "stock_out_item list"

record adjust_item =
  adj_productId :: id
  adj_quantity :: int
  adj_unitCost :: "rat option"

record adjust_dto =
  ad_locationId :: id
  ad_reason :: string
  ad_note :: "string option"
  ad_items :: "adjust_item list"

text \<open>What the field decorators of the DTOs let through.\<close>

definition stock_in_valid :: "stock_in_dto \<Rightarrow> bool" where
  "stock_in_valid dto \<longleftrightarrow> (\<forall>x \<in> set (in_items dto). 1 \<le> sin_quantity x \<and> 0 \<le> sin_unitCost x)"

definition stock_out_valid :: "stock_out_dto \<Rightarrow> bool" where
  "stock_out_valid dto \<longleftrightarrow> (\<forall>x \<in> set (out_items dto). 1 \<le> sou_quantity x)"

definition adjust_valid :: "adjust_dto \<Rightarrow> bool" where
  "adjust_valid dto \<longleftrightarrow> (\<forall>x \<in> set (ad_items dto). adj_quantity x \<noteq> 0 \<and>
     (case adj_unitCost x of None \<Rightarrow> True | Some c \<Rightarrow> 0 \<le> c))"

record stock_in_result =
  sir_totalItems :: nat
  sir_totalQuantity :: int
  sir_movementIds :: "id list"

record stock_out_result =
  sor_totalItems :: nat
  sor_totalQuantity :: int
  sor_totalCost :: rat
  sor_movementIds :: "id list"

record adjust_result =
  adr_totalItems :: nat
  adr_positiveAdjustments :: nat
  adr_negativeAdjustments :: nat
  adr_movementIds :: "id list"

section \<open>Writing a movement\<close>

definition movement_row ::
  "env \<Rightarrow> MovementType \<Rightarrow> int \<Rightarrow> money \<Rightarrow> money \<Rightarrow> ReferenceType \<Rightarrow> string option \<Rightarrow> string option
   \<Rightarrow> id \<Rightarrow> id \<Rightarrow> id \<Rightarrow> id option \<Rightarrow> id option \<Rightarrow> id \<Rightarrow> instant \<Rightarrow> movement" where
  "movement_row E ty q unitCost totalCost refType refId note productId locationId tenantId userId
     transferId i t =
     \<lparr>mov_id = i, mov_movementType = ty, mov_quantity = q, mov_unitCost = e_col E unitCost,
      mov_totalCost = e_col E totalCost, mov_referenceType = refType, mov_referenceId = refId,
      mov_status = MovCompleted, mov_note = note, mov_productId = productId,
      mov_locationId = locationId, mov_tenantId = tenantId, mov_createdById = userId,
      mov_transferId = transferId, mov_createdAt = t\<rparr>"

text \<open>\<^verbatim>\<open>stockMovement.create\<close>: the database chooses the identifier and the instant.\<close>

definition create_movement :: "env \<Rightarrow> (id \<Rightarrow> instant \<Rightarrow> movement) \<Rightarrow> id handler" where
  "create_movement E row =
     bindM (fresh_id E) (\<lambda>i. bindM now (\<lambda>t.
     bindM (writeM (\<lambda>s. s\<lparr>movements := movements s @ [row i t]\<rparr>)) (\<lambda>_. ret i)))"

text \<open>Run in the caller's transaction if there is one, else in one of its own.\<close>

definition in_transaction :: "bool \<Rightarrow> 'a handler \<Rightarrow> 'a handler" where
  "in_transaction tx m = (if tx then m else transaction m)"

section \<open>Stock in\<close>

definition receive_item :: "env \<Rightarrow> id \<Rightarrow> id \<Rightarrow> stock_in_item \<times> id \<Rightarrow> unit handler" where
  "receive_item E tenantId locationId x =
     bindM (createLayer E (sin_productId (fst x)) locationId tenantId (sin_quantity (fst x))
              (sin_unitCost (fst x)) (snd x) (sin_batchId (fst x))) (\<lambda>_.
     updateBalance (sin_productId (fst x)) locationId tenantId (sin_quantity (fst x)))"

definition record_receipt :: "env \<Rightarrow> id \<Rightarrow> id \<Rightarrow> stock_in_dto \<Rightarrow> stock_in_item \<Rightarrow> id handler" where
  "record_receipt E tenantId userId dto x =
     (let unitCostDecimal = e_dec E (sin_unitCost x);
          referenceType = (case in_referenceType dto of Some r \<Rightarrow> r | None \<Rightarrow> PURCHASE)
      in create_movement E (movement_row E IN (sin_quantity x) unitCostDecimal
           (unitCostDecimal * of_int (sin_quantity x)) referenceType (in_referenceId dto)
           (in_note dto) (sin_productId x) (in_locationId dto) tenantId (Some userId) None))"

definition stockIn_execute :: "env \<Rightarrow> id \<Rightarrow> id \<Rightarrow> stock_in_dto \<Rightarrow> stock_in_result handler" where
  "stockIn_execute E tenantId userId dto =
     bindM (forM (in_items dto) (record_receipt E tenantId userId dto)) (\<lambda>movementIds.
     bindM (forM (zip (in_items dto) movementIds) (receive_item E tenantId (in_locationId dto))) (\<lambda>_.
     ret \<lparr>sir_totalItems = length (in_items dto),
          sir_totalQuantity = sum_list (map sin_quantity (in_items dto)),
          sir_movementIds = movementIds\<rparr>))"

definition stockIn :: "env \<Rightarrow> id \<Rightarrow> id \<Rightarrow> stock_in_dto \<Rightarrow> bool \<Rightarrow> stock_in_result handler" where
  "stockIn E tenantId userId dto tx =
     bindM (validateProducts tenantId (map sin_productId (in_items dto))) (\<lambda>_.
     bindM (validateLocation tenantId (in_locationId dto)) (\<lambda>_.
     in_transaction tx (stockIn_execute E tenantId userId dto)))"

section \<open>Stock out\<close>

text \<open>One issue: the layers it draws on, its movement, the consumption records, the balance. The
  result is the movement and its cost. A negative adjustment runs the same statements.\<close>

definition issue_stock ::
  "env \<Rightarrow> id \<Rightarrow> id \<Rightarrow> id \<Rightarrow> ReferenceType \<Rightarrow> string option \<Rightarrow> string option \<Rightarrow> id \<Rightarrow> int
   \<Rightarrow> (id \<times> money) handler" where
  "issue_stock E tenantId userId locationId refType refId note productId quantity =
     bindM (resolvePricingMethod productId tenantId) (\<lambda>pricingMethod.
     bindM (consumeLayers E productId locationId tenantId quantity pricingMethod) (\<lambda>(totalCost, ls).
     let unitCost = (if ls \<noteq> [] then e_div E totalCost quantity else 0) in
     bindM (create_movement E (movement_row E OUT quantity unitCost totalCost refType refId note
              productId locationId tenantId (Some userId) None)) (\<lambda>movementId.
     bindM (createConsumptionRecords E movementId ls) (\<lambda>_.
     bindM (updateBalance productId locationId tenantId (- quantity)) (\<lambda>_.
     ret (movementId, totalCost))))))"

definition stockOut_item :: "env \<Rightarrow> id \<Rightarrow> id \<Rightarrow> stock_out_dto \<Rightarrow> stock_out_item \<Rightarrow> (id \<times> money) handler" where
  "stockOut_item E tenantId userId dto x =
     issue_stock E tenantId userId (out_locationId dto)
       (case out_referenceType dto of Some r \<Rightarrow> r | None \<Rightarrow> SALE) (out_referenceId dto)
       (out_note dto) (sou_productId x) (sou_quantity x)"

definition stockOut_execute :: "env \<Rightarrow> id \<Rightarrow> id \<Rightarrow> stock_out_dto \<Rightarrow> stock_out_result handler" where
  "stockOut_execute E tenantId userId dto =
     bindM (forM (out_items dto) (stockOut_item E tenantId userId dto)) (\<lambda>issued.
     ret \<lparr>sor_totalItems = length (out_items dto),
          sor_totalQuantity = sum_list (map sou_quantity (out_items dto)),
          sor_totalCost = fl (sum_list (map snd issued)),
          sor_movementIds = map fst issued\<rparr>)"

definition stockOut_checks :: "id \<Rightarrow> stock_out_dto \<Rightarrow> unit handler" where
  "stockOut_checks tenantId dto =
     bindM (validateProducts tenantId (map sou_productId (out_items dto))) (\<lambda>_.
     bindM (validateLocation tenantId (out_locationId dto)) (\<lambda>_.
     validateStockAvailability tenantId (out_locationId dto)
       (map (\<lambda>x. (sou_productId x, sou_quantity x)) (out_items dto))))"

definition stockOut :: "env \<Rightarrow> id \<Rightarrow> id \<Rightarrow> stock_out_dto \<Rightarrow> bool \<Rightarrow> stock_out_result handler" where
  "stockOut E tenantId userId dto tx =
     bindM (stockOut_checks tenantId dto) (\<lambda>_.
     in_transaction tx (stockOut_execute E tenantId userId dto))"

section \<open>Adjustment\<close>

definition adjust_item_step :: "env \<Rightarrow> id \<Rightarrow> id \<Rightarrow> id \<Rightarrow> string \<Rightarrow> adjust_item \<Rightarrow> id handler" where
  "adjust_item_step E tenantId userId locationId note x =
     (let absQuantity = \<bar>adj_quantity x\<bar> in
      if 0 < adj_quantity x then
        let unitCost = (case adj_unitCost x of Some c \<Rightarrow> c | None \<Rightarrow> 0);
            unitCostDecimal = e_dec E unitCost
        in bindM (create_movement E (movement_row E IN absQuantity unitCostDecimal
                    (unitCostDecimal * of_int absQuantity) ADJUSTMENT None (Some note)
                    (adj_productId x) locationId tenantId (Some userId) None)) (\<lambda>movementId.
           bindM (createLayer E (adj_productId x) locationId tenantId absQuantity unitCost
                    movementId None) (\<lambda>_.
           bindM (updateBalance (adj_productId x) locationId tenantId absQuantity) (\<lambda>_.
           ret movementId)))
      else
        bindM (issue_stock E tenantId userId locationId ADJUSTMENT None (Some note)
                 (adj_productId x) absQuantity) (\<lambda>(movementId, _). ret movementId))"

definition adjust_note :: "adjust_dto \<Rightarrow> string" where
  "adjust_note dto = ad_reason dto @
     (case ad_note dto of None \<Rightarrow> [] | Some n \<Rightarrow> if n = [] then [] else '' - '' @ n)"

definition adjust :: "env \<Rightarrow> id \<Rightarrow> id \<Rightarrow> adjust_dto \<Rightarrow> adjust_result handler" where
  "adjust E tenantId userId dto =
     bindM (validateProducts tenantId (map adj_productId (ad_items dto))) (\<lambda>_.
     bindM (validateLocation tenantId (ad_locationId dto)) (\<lambda>_.
     let negativeItems = map (\<lambda>x. (adj_productId x, \<bar>adj_quantity x\<bar>))
           (filter (\<lambda>x. adj_quantity x < 0) (ad_items dto)) in
     bindM (if negativeItems \<noteq> []
            then validateStockAvailability tenantId (ad_locationId dto) negativeItems
            else ret ()) (\<lambda>_.
     transaction (
       bindM (forM (ad_items dto)
                (adjust_item_step E tenantId userId (ad_locationId dto) (adjust_note dto))) (\<lambda>movementIds.
       ret \<lparr>adr_totalItems = length (ad_items dto),
            adr_positiveAdjustments = length (filter (\<lambda>x. 0 < adj_quantity x) (ad_items dto)),
            adr_negativeAdjustments = length (filter (\<lambda>x. \<not> 0 < adj_quantity x) (ad_items dto)),
            adr_movementIds = movementIds\<rparr>)))))"

section \<open>Queries\<close>

record movement_query =
  mq_productId :: "id option"
  mq_locationId :: "id option"
  mq_movementType :: "MovementType option"
  mq_status :: "MovementStatus option"
  mq_referenceType :: "ReferenceType option"
  mq_search :: "string option"
  mq_dateFrom :: "instant option"
  mq_dateTo :: "instant option"

text \<open>The \<^verbatim>\<open>where\<close> clause built by \<^verbatim>\<open>buildFilter\<close>, as a predicate on rows.\<close>

definition movement_filter :: "env \<Rightarrow> db \<Rightarrow> id \<Rightarrow> movement_query \<Rightarrow> movement \<Rightarrow> bool" where
  "movement_filter E s tenantId q m \<longleftrightarrow>
     mov_tenantId m = tenantId \<and>
     (case mq_productId q of None \<Rightarrow> True | Some p \<Rightarrow> mov_productId m = p) \<and>
     (case mq_locationId q of None \<Rightarrow> True | Some l \<Rightarrow> mov_locationId m = l) \<and>
     (case mq_movementType q of None \<Rightarrow> True | Some y \<Rightarrow> mov_movementType m = y) \<and>
     (case mq_status q of None \<Rightarrow> True | Some y \<Rightarrow> mov_status m = y) \<and>
     (case mq_referenceType q of None \<Rightarrow> True | Some y \<Rightarrow> mov_referenceType m = y) \<and>
     (case mq_search q of None \<Rightarrow> True
      | Some text \<Rightarrow> text = [] \<or>
          (let term = js_trim text in
           (case mov_note m of None \<Rightarrow> False | Some n \<Rightarrow> e_ilike E term n) \<or>
           (case mov_referenceId m of None \<Rightarrow> False | Some r \<Rightarrow> e_ilike E term r) \<or>
           (case List.find (\<lambda>p. prod_id p = mov_productId m) (products s) of None \<Rightarrow> False
            | Some p \<Rightarrow> e_ilike E term (prod_name p) \<or> e_ilike E term (prod_sku p)))) \<and>
     (case mq_dateFrom q of None \<Rightarrow> True | Some d \<Rightarrow> d \<le> mov_createdAt m) \<and>
     (case mq_dateTo q of None \<Rightarrow> True | Some d \<Rightarrow> mov_createdAt m \<le> d)"

record movement_response =
  mr_movement :: movement
  mr_product :: "(id \<times> string \<times> string) option"
  mr_location :: "(id \<times> string \<times> string option) option"
  mr_consumptions :: "(id \<times> int \<times> money) list option"

definition formatMovementResponse ::
  "db \<Rightarrow> movement \<Rightarrow> (id \<times> int \<times> money) list option \<Rightarrow> movement_response" where
  "formatMovementResponse s m cs =
     \<lparr>mr_movement = m,
      mr_product = map_option (\<lambda>p. (prod_id p, prod_name p, prod_sku p))
        (List.find (\<lambda>p. prod_id p = mov_productId m) (products s)),
      mr_location = map_option (\<lambda>l. (loc_id l, loc_name l, loc_code l))
        (List.find (\<lambda>l. loc_id l = mov_locationId m) (locations s)),
      mr_consumptions = cs\<rparr>"

definition findAll_movements ::
  "env \<Rightarrow> (string \<times> SortType \<Rightarrow> movement list \<Rightarrow> movement list) \<Rightarrow> id \<Rightarrow> page_query \<Rightarrow> movement_query
   \<Rightarrow> (page_meta \<times> movement_response list) handler" where
  "findAll_movements E sorted_by tenantId pq q = readM (\<lambda>s.
     let w = getPagination pq;
         rows = filter (movement_filter E s tenantId q) (movements s);
         page = page_rows (pw_skip w) (pw_take w) (sorted_by (pw_orderBy w) rows)
     in (generatePaginationMeta (pw_page w) (pw_take w) (int (length rows)) (pw_skip w),
         map (\<lambda>m. formatMovementResponse s m None) page))"

definition findOne_movement :: "id \<Rightarrow> id \<Rightarrow> movement_response handler" where
  "findOne_movement tenantId i =
     bindM (readM (\<lambda>s. List.find (\<lambda>m. mov_id m = i \<and> mov_tenantId m = tenantId) (movements s))) (\<lambda>found.
     bindM (require found (NotFoundException MovementNotFound)) (\<lambda>m.
     bindM (if mov_movementType m = OUT
            then readM (\<lambda>s. map (\<lambda>c. (con_valuationLayerId c, con_quantity c, con_unitCost c))
                   (filter (\<lambda>c. con_stockMovementId c = i) (consumptions s)))
            else ret []) (\<lambda>cs.
     readM (\<lambda>s. formatMovementResponse s m (Some cs)))))"

section \<open>Lemmas: the ledger\<close>

definition signed_quantity :: "movement \<Rightarrow> int" where
  "signed_quantity m = (case mov_movementType m of IN \<Rightarrow> mov_quantity m | OUT \<Rightarrow> - mov_quantity m)"

definition ledger :: "id \<Rightarrow> id \<Rightarrow> db \<Rightarrow> int" where
  "ledger p l s =
     sum_where (\<lambda>m. mov_productId m = p \<and> mov_locationId m = l) signed_quantity (movements s)"

definition books_balance :: "db \<Rightarrow> bool" where
  "books_balance s \<longleftrightarrow> (\<forall>p l. on_hand p l s = ledger p l s)"

lemma create_movement_run [run_simps]:
  "create_movement E row s = (Inr (e_uuid E (nextId s)),
     s\<lparr>nextId := Suc (nextId s), movements := movements s @ [row (e_uuid E (nextId s)) (clock s)]\<rparr>)"
  by (simp add: create_movement_def run_simps)

lemma signed_movement_row [simp]:
  "signed_quantity (movement_row E IN q c tc rt ri nt p l t u tr i tm) = q"
  "signed_quantity (movement_row E OUT q c tc rt ri nt p l t u tr i tm) = - q"
  by (simp_all add: signed_quantity_def movement_row_def)

lemma movement_row_key [simp]:
  "mov_productId (movement_row E ty q c tc rt ri nt p l t u tr i tm) = p"
  "mov_locationId (movement_row E ty q c tc rt ri nt p l t u tr i tm) = l"
  "mov_id (movement_row E ty q c tc rt ri nt p l t u tr i tm) = i"
  by (simp_all add: movement_row_def)

lemma ledger_create:
  assumes "\<And>i t. mov_productId (row i t) = p" "\<And>i t. mov_locationId (row i t) = l"
    "\<And>i t. signed_quantity (row i t) = d" "create_movement E row s = (r, s')"
  shows "ledger p' l' s' = ledger p' l' s + (if p' = p \<and> l' = l then d else 0)"
  using assms by (auto simp: create_movement_run ledger_def)

text \<open>Each quantity is read off one table, so the steps that write other tables keep it.\<close>

lemma ledger_cong: "movements s' = movements s \<Longrightarrow> ledger p l s' = ledger p l s"
  by (simp add: ledger_def)

lemma on_hand_cong:
  "balances s' = balances s \<Longrightarrow> on_hand p l s' = on_hand p l s"
  "balances s' = balances s \<Longrightarrow> reserved_at p l s' = reserved_at p l s"
  "balances s' = balances s \<Longrightarrow> has_balance p l s' = has_balance p l s"
  by (simp_all add: on_hand_def reserved_at_def has_balance_def find_balance_def)

lemma layer_cong:
  "layers s' = layers s \<Longrightarrow> layer_qty p l t s' = layer_qty p l t s"
  "layers s' = layers s \<Longrightarrow> stock_value p l t s' = stock_value p l t s"
  "layers s' = layers s \<Longrightarrow> layers_wf s' = layers_wf s"
  by (simp_all add: layer_qty_def stock_value_def layers_wf_def)

lemmas table_cong = ledger_cong on_hand_cong layer_cong

section \<open>Lemmas: one issue\<close>

lemma resolve_run:
  obtains m where "resolvePricingMethod p t s = (Inr m, s)"
  by (simp add: resolvePricingMethod_def)

lemma issue_stock_cases:
  assumes "issue_stock E t u l rt ri nt p q s = (r, s')"
  obtains m total ls s1 row where
    "resolvePricingMethod p t s = (Inr m, s)"
    "consumeLayers E p l t q m s = (Inr (total, ls), s1)"
    "r = Inr (e_uuid E (nextId s), total)"
    "layers s' = layers s1"
    "movements s' = movements s @ [row]"
    "row = movement_row E OUT q (if ls \<noteq> [] then e_div E total q else 0) total rt ri nt p l t (Some u)
       None (e_uuid E (nextId s)) (clock s)"
    "balances s' = balances (snd (updateBalance p l t (- q) s))"
    "consumptions s' = consumptions s @
       map (\<lambda>c. \<lparr>con_valuationLayerId = lin_layerId c, con_stockMovementId = e_uuid E (nextId s),
                con_quantity = lin_quantity c, con_unitCost = e_col E (lin_unitCost c)\<rparr>) ls"
    "s' = s\<lparr>layers := layers s', movements := movements s', balances := balances s',
            consumptions := consumptions s', nextId := Suc (nextId s)\<rparr>"
proof -
  obtain m where m: "resolvePricingMethod p t s = (Inr m, s)" by (rule resolve_run)
  obtain total ls s1 where c: "consumeLayers E p l t q m s = (Inr (total, ls), s1)"
    by (simp add: consumeLayers_run)
  obtain L where s1: "s1 = s\<lparr>layers := L\<rparr>" using consumeLayers_frame(1) [OF c] by blast
  let ?i = "e_uuid E (nextId s)"
  let ?row = "movement_row E OUT q (if ls \<noteq> [] then e_div E total q else 0) total rt ri nt p l t (Some u)
       None ?i (clock s)"
  let ?cons = "map (\<lambda>c. \<lparr>con_valuationLayerId = lin_layerId c, con_stockMovementId = ?i,
                con_quantity = lin_quantity c, con_unitCost = e_col E (lin_unitCost c)\<rparr>) ls"
  let ?s2 = "s\<lparr>layers := L, nextId := Suc (nextId s), movements := movements s @ [?row],
       consumptions := consumptions s @ ?cons\<rparr>"
  have run: "issue_stock E t u l rt ri nt p q s =
      (Inr (?i, total), snd (updateBalance p l t (- q) ?s2))"
    by (simp add: issue_stock_def bindM_def m c s1 create_movement_run createConsumptionRecords_def
        updateBalance_run Let_def cong: if_cong)
  have s': "s' = snd (updateBalance p l t (- q) ?s2)" "r = Inr (?i, total)"
    using assms unfolding run by simp_all
  show thesis
    by (rule that [OF m c s'(2) _ _ refl])
      (simp_all add: s' s1 updateBalance_run has_balance_def find_balance_def)
qed

lemma issue_stock_balance:
  assumes "issue_stock E t u l rt ri nt p q s = (r, s')"
  shows "on_hand p' l' s' = on_hand p' l' s +
      (if p' = p \<and> l' = l then (if has_balance p l s then - q else max 0 (- q)) else 0)"
    and "reserved_at p' l' s' = reserved_at p' l' s"
    and "has_balance p' l' s' \<longleftrightarrow> has_balance p' l' s \<or> (p' = p \<and> l' = l)"
proof -
  let ?s1 = "snd (updateBalance p l t (- q) s)"
  have b: "balances s' = balances ?s1" by (rule issue_stock_cases [OF assms])
  have u: "updateBalance p l t (- q) s = (fst (updateBalance p l t (- q) s), ?s1)" by simp
  show "on_hand p' l' s' = on_hand p' l' s +
      (if p' = p \<and> l' = l then (if has_balance p l s then - q else max 0 (- q)) else 0)"
    "reserved_at p' l' s' = reserved_at p' l' s"
    "has_balance p' l' s' \<longleftrightarrow> has_balance p' l' s \<or> (p' = p \<and> l' = l)"
    unfolding on_hand_cong [OF b] updateBalance_on_hand [OF u] updateBalance_reserved [OF u]
      updateBalance_has [OF u] by (rule refl)+
qed

lemma issue_stock_ledger:
  assumes "issue_stock E t u l rt ri nt p q s = (r, s')"
  shows "ledger p' l' s' = ledger p' l' s + (if p = p' \<and> l = l' then - q else 0)"
  by (rule issue_stock_cases [OF assms]) (auto simp: ledger_def)

lemma issue_stock_layers:
  assumes "layers_wf s" "issue_stock E t u l rt ri nt p q s = (r, s')"
  shows "layers_wf s'"
    and "0 \<le> q \<Longrightarrow> layer_qty p' l' t' s' = layer_qty p' l' t' s
      - (if p' = p \<and> l' = l \<and> t' = t then min q (layer_qty p l t s) else 0)"
proof -
  obtain m total ls s1 where c: "consumeLayers E p l t q m s = (Inr (total, ls), s1)"
    and l: "layers s' = layers s1"
    by (rule issue_stock_cases [OF assms(2)])
  show "layers_wf s'"
    unfolding layer_cong(3) [OF l] by (rule consumeLayers_wf [OF assms(1) c])
  show "layer_qty p' l' t' s' = layer_qty p' l' t' s
      - (if p' = p \<and> l' = l \<and> t' = t then min q (layer_qty p l t s) else 0)" if "0 \<le> q"
    unfolding layer_cong(1) [OF l] by (rule consumeLayers_qty [OF assms(1) that c])
qed

lemma issue_stock_never_throws [svc_intros]: "never_throws (issue_stock E t u l rt ri nt p q)"
  unfolding never_throws_def
proof
  fix s
  obtain r s' where run: "issue_stock E t u l rt ri nt p q s = (r, s')" by force
  then show "\<exists>a s'. issue_stock E t u l rt ri nt p q s = (Inr a, s')"
    by (rule issue_stock_cases) (use run in blast)
qed

text \<open>The rows an issue adds: its movement, one consumption record per line.\<close>

lemma issue_stock_frame:
  assumes "issue_stock E t u l rt ri nt p q s = (r, s')"
  shows "s' = s\<lparr>layers := layers s', movements := movements s', balances := balances s',
            consumptions := consumptions s', nextId := Suc (nextId s)\<rparr>"
  by (rule issue_stock_cases [OF assms]) simp

section \<open>The stock operations post to the balance, the ledger and the layers\<close>

text \<open>The three counters, by the keys the operations post to.\<close>

definition stock_count :: "id \<times> id \<Rightarrow> db \<Rightarrow> int" where
  "stock_count k s = on_hand (fst k) (snd k) s"

definition ledger_count :: "id \<times> id \<Rightarrow> db \<Rightarrow> int" where
  "ledger_count k s = ledger (fst k) (snd k) s"

definition layer_count :: "id \<times> id \<times> id \<Rightarrow> db \<Rightarrow> int" where
  "layer_count k s = layer_qty (fst k) (fst (snd k)) (snd (snd k)) s"

lemmas counts = stock_count_def ledger_count_def layer_count_def

text \<open>An issue posts to the balance where there is a balance row, which stays; to the ledger
  always; to the layers as long as they hold the quantity.\<close>

interpretation out_stock: free_posting stock_count "stockOut_item E t u dto"
    "\<lambda>x. (sou_productId x, out_locationId dto)" "\<lambda>x. - sou_quantity x"
    "\<lambda>x. has_balance (sou_productId x) (out_locationId dto)" for E t u dto
  by unfold_locales
    (auto simp: counts stockOut_item_def issue_stock_balance)

interpretation out_ledger: free_posting ledger_count "stockOut_item E t u dto"
    "\<lambda>x. (sou_productId x, out_locationId dto)" "\<lambda>x. - sou_quantity x" "\<lambda>x s. True" for E t u dto
  by unfold_locales (auto simp: counts stockOut_item_def issue_stock_ledger)

interpretation out_layers: posting layer_count "stockOut_item E t u dto"
    "\<lambda>x. (sou_productId x, out_locationId dto, t)" "\<lambda>x. - sou_quantity x"
    "\<lambda>x s. layers_wf s \<and> 0 \<le> sou_quantity x \<and>
       sou_quantity x \<le> layer_qty (sou_productId x) (out_locationId dto) t s" for E t u dto
proof (unfold_locales, unfold stockOut_item_def)
  fix x y s b s' k
  assume good: "layers_wf s \<and> 0 \<le> sou_quantity x \<and>
      sou_quantity x \<le> layer_qty (sou_productId x) (out_locationId dto) t s"
    and run: "issue_stock E t u (out_locationId dto) (case out_referenceType dto of None \<Rightarrow> SALE | Some r \<Rightarrow> r)
      (out_referenceId dto) (out_note dto) (sou_productId x) (sou_quantity x) s = (Inr b, s')"
  note effect = issue_stock_layers [OF _ run]
  show "layer_count k s' = layer_count k s +
      (if (sou_productId x, out_locationId dto, t) = k then - sou_quantity x else 0)"
    using good by (cases k) (auto simp: layer_count_def effect(2))
  assume "layers_wf s \<and> 0 \<le> sou_quantity y \<and>
      sou_quantity y \<le> layer_qty (sou_productId y) (out_locationId dto) t s"
    and "(sou_productId x, out_locationId dto, t) \<noteq> (sou_productId y, out_locationId dto, t)"
  with good show "layers_wf s' \<and> 0 \<le> sou_quantity y \<and>
      sou_quantity y \<le> layer_qty (sou_productId y) (out_locationId dto) t s'"
    by (simp add: effect)
qed

text \<open>A receipt posts to the balance and the layers.\<close>

lemma receive_item_cases:
  assumes "receive_item E t l (x, mid) s = (r, s')"
  obtains s1 where "createLayer E (sin_productId x) l t (sin_quantity x) (sin_unitCost x) mid
      (sin_batchId x) s = (Inr (), s1)"
    "updateBalance (sin_productId x) l t (sin_quantity x) s1 = (r, s')"
  using assms by (auto simp: receive_item_def createLayer_run bindM_def)

lemma receive_item_effect:
  assumes "receive_item E t l (x, mid) s = (r, s')"
  shows "0 \<le> sin_quantity x \<Longrightarrow> on_hand p' l' s' =
      on_hand p' l' s + (if p' = sin_productId x \<and> l' = l then sin_quantity x else 0)"
    and "reserved_at p' l' s' = reserved_at p' l' s"
    and "layer_qty p' l' t' s' = layer_qty p' l' t' s +
      (if p' = sin_productId x \<and> l' = l \<and> t' = t then sin_quantity x else 0)"
    and "stock_value p' l' t' s' = stock_value p' l' t' s +
      (if p' = sin_productId x \<and> l' = l \<and> t' = t
       then e_col E (e_dec E (sin_unitCost x)) * of_int (sin_quantity x) else 0)"
    and "movements s' = movements s" "nextId s \<le> nextId s'"
proof -
  obtain s1 where c: "createLayer E (sin_productId x) l t (sin_quantity x) (sin_unitCost x) mid
      (sin_batchId x) s = (Inr (), s1)"
    and u: "updateBalance (sin_productId x) l t (sin_quantity x) s1 = (r, s')"
    by (rule receive_item_cases [OF assms])
  have b: "balances s1 = balances s" "movements s1 = movements s" "nextId s1 = Suc (nextId s)"
    using c by (auto simp: createLayer_run)
  have y: "layers s' = layers s1" "movements s' = movements s1" "nextId s' = nextId s1"
    using u by (auto simp: updateBalance_run)
  show "0 \<le> sin_quantity x \<Longrightarrow> on_hand p' l' s' =
      on_hand p' l' s + (if p' = sin_productId x \<and> l' = l then sin_quantity x else 0)"
    by (simp add: updateBalance_on_hand [OF u] on_hand_cong [OF b(1)])
  show "reserved_at p' l' s' = reserved_at p' l' s"
    by (simp add: updateBalance_reserved [OF u] on_hand_cong [OF b(1)])
  show "layer_qty p' l' t' s' = layer_qty p' l' t' s +
      (if p' = sin_productId x \<and> l' = l \<and> t' = t then sin_quantity x else 0)"
    unfolding layer_cong(1) [OF y(1)] by (rule createLayer_qty [OF c])
  show "stock_value p' l' t' s' = stock_value p' l' t' s +
      (if p' = sin_productId x \<and> l' = l \<and> t' = t
       then e_col E (e_dec E (sin_unitCost x)) * of_int (sin_quantity x) else 0)"
    unfolding layer_cong(2) [OF y(1)] by (rule createLayer_value [OF c])
  show "movements s' = movements s" "nextId s \<le> nextId s'" using b y by simp_all
qed

interpretation in_stock: free_posting stock_count "receive_item E t l"
    "\<lambda>x. (sin_productId (fst x), l)" "\<lambda>x. sin_quantity (fst x)" "\<lambda>x s. 0 \<le> sin_quantity (fst x)"
  for E t l
  by unfold_locales (auto simp: stock_count_def receive_item_effect(1) split: if_splits)

interpretation in_layers: free_posting layer_count "receive_item E t l"
    "\<lambda>x. (sin_productId (fst x), l, t)" "\<lambda>x. sin_quantity (fst x)" "\<lambda>x s. True" for E t l
  by unfold_locales (auto simp: layer_count_def receive_item_effect(3) split: if_splits)

interpretation in_value: free_posting "\<lambda>k s. stock_value (fst k) (fst (snd k)) (snd (snd k)) s"
    "receive_item E t l" "\<lambda>x. (sin_productId (fst x), l, t)"
    "\<lambda>x. e_col E (e_dec E (sin_unitCost (fst x))) * of_int (sin_quantity (fst x))" "\<lambda>x s. True" for E t l
  by unfold_locales (auto simp: receive_item_effect(4) split: if_splits)

lemma record_receipt_run:
  "record_receipt E t u dto x s = create_movement E (movement_row E IN (sin_quantity x)
     (e_dec E (sin_unitCost x)) (e_dec E (sin_unitCost x) * of_int (sin_quantity x))
     (case in_referenceType dto of Some r \<Rightarrow> r | None \<Rightarrow> PURCHASE) (in_referenceId dto)
     (in_note dto) (sin_productId x) (in_locationId dto) t (Some u) None) s"
  by (simp add: record_receipt_def Let_def)

interpretation in_ledger: free_posting ledger_count "record_receipt E t u dto"
    "\<lambda>x. (sin_productId x, in_locationId dto)" "\<lambda>x. sin_quantity x" "\<lambda>x s. True" for E t u dto
  by unfold_locales (auto simp: ledger_count_def record_receipt_run create_movement_run ledger_def)

text \<open>An adjustment posts its signed quantity to the balance and the ledger.\<close>

definition adjustable :: "id \<Rightarrow> adjust_item \<Rightarrow> db \<Rightarrow> bool" where
  "adjustable l x s \<longleftrightarrow> 0 < adj_quantity x \<or> has_balance (adj_productId x) l s"

lemma adjust_item_negative:
  assumes "adjust_item_step E t u l nt x s = (r, s')" "\<not> 0 < adj_quantity x"
  obtains r' where "issue_stock E t u l ADJUSTMENT None (Some nt) (adj_productId x)
    (- adj_quantity x) s = (r', s')"
proof -
  obtain r' s1 where i: "issue_stock E t u l ADJUSTMENT None (Some nt) (adj_productId x)
      (- adj_quantity x) s = (r', s1)" by force
  moreover have "s1 = s'"
    using assms i by (cases r') (auto simp: adjust_item_step_def bindM_def)
  ultimately show thesis using that by blast
qed

lemma adjust_item_positive:
  assumes "adjust_item_step E t u l nt x s = (r, s')" "0 < adj_quantity x"
  obtains s1 row where "createLayer E (adj_productId x) l t (adj_quantity x)
      (case adj_unitCost x of Some c \<Rightarrow> c | None \<Rightarrow> 0) (e_uuid E (nextId s)) None
      (s\<lparr>nextId := Suc (nextId s), movements := movements s @ [row]\<rparr>) = (Inr (), s1)"
    "updateBalance (adj_productId x) l t (adj_quantity x) s1 = (Inr (), s')"
    "mov_productId row = adj_productId x" "mov_locationId row = l" "signed_quantity row = adj_quantity x"
    "r = Inr (e_uuid E (nextId s))"
proof -
  let ?c = "case adj_unitCost x of Some c \<Rightarrow> c | None \<Rightarrow> 0"
  let ?row = "movement_row E IN (adj_quantity x) (e_dec E ?c) (e_dec E ?c * of_int (adj_quantity x))
    ADJUSTMENT None (Some nt) (adj_productId x) l t (Some u) None (e_uuid E (nextId s)) (clock s)"
  obtain s1 where c: "createLayer E (adj_productId x) l t (adj_quantity x) ?c (e_uuid E (nextId s)) None
      (s\<lparr>nextId := Suc (nextId s), movements := movements s @ [?row]\<rparr>) = (Inr (), s1)"
    by (simp add: createLayer_run)
  have "adjust_item_step E t u l nt x s = (Inr (e_uuid E (nextId s)),
      snd (updateBalance (adj_productId x) l t (adj_quantity x) s1))"
    using assms(2) c
    by (simp add: adjust_item_step_def Let_def bindM_def create_movement_run updateBalance_run cong: if_cong)
  with assms(1) have "r = Inr (e_uuid E (nextId s))"
    "updateBalance (adj_productId x) l t (adj_quantity x) s1 = (Inr (), s')"
    by (simp_all add: updateBalance_run)
  then show thesis by (intro that [OF c]) simp_all
qed

lemma adjust_item_effect:
  assumes "adjust_item_step E t u l nt x s = (r, s')"
  shows "adjustable l x s \<Longrightarrow> on_hand p' l' s' = on_hand p' l' s +
      (if p' = adj_productId x \<and> l' = l then adj_quantity x else 0)"
    and "ledger p' l' s' = ledger p' l' s +
      (if p' = adj_productId x \<and> l' = l then adj_quantity x else 0)"
    and "has_balance p' l' s \<Longrightarrow> has_balance p' l' s'"
    and "reserved_at p' l' s' = reserved_at p' l' s"
proof -
  have "(adjustable l x s \<longrightarrow> on_hand p' l' s' = on_hand p' l' s +
      (if p' = adj_productId x \<and> l' = l then adj_quantity x else 0)) \<and>
    ledger p' l' s' = ledger p' l' s + (if p' = adj_productId x \<and> l' = l then adj_quantity x else 0) \<and>
    (has_balance p' l' s \<longrightarrow> has_balance p' l' s') \<and> reserved_at p' l' s' = reserved_at p' l' s"
  proof (cases "0 < adj_quantity x")
    case True
    obtain s1 row where c: "createLayer E (adj_productId x) l t (adj_quantity x)
      (case adj_unitCost x of Some c \<Rightarrow> c | None \<Rightarrow> 0) (e_uuid E (nextId s)) None
      (s\<lparr>nextId := Suc (nextId s), movements := movements s @ [row]\<rparr>) = (Inr (), s1)"
      and u: "updateBalance (adj_productId x) l t (adj_quantity x) s1 = (Inr (), s')"
      and row: "mov_productId row = adj_productId x" "mov_locationId row = l"
        "signed_quantity row = adj_quantity x"
      by (rule adjust_item_positive [OF assms True])
    have b: "balances s1 = balances s" "movements s1 = movements s @ [row]"
      using c by (auto simp: createLayer_run)
    have m: "movements s' = movements s1" using u by (auto simp: updateBalance_run)
    show ?thesis
      using True row b(2) m
      by (auto simp: updateBalance_on_hand [OF u] updateBalance_has [OF u] updateBalance_reserved [OF u]
          on_hand_cong [OF b(1)] ledger_def)
  next
    case False
    obtain r' where "issue_stock E t u l ADJUSTMENT None (Some nt) (adj_productId x)
      (- adj_quantity x) s = (r', s')" by (rule adjust_item_negative [OF assms False])
    note run = this
    show ?thesis
      using False
      by (auto simp: adjustable_def issue_stock_balance [OF run] issue_stock_ledger [OF run])
  qed
  then show "adjustable l x s \<Longrightarrow> on_hand p' l' s' = on_hand p' l' s +
      (if p' = adj_productId x \<and> l' = l then adj_quantity x else 0)"
    and "ledger p' l' s' = ledger p' l' s +
      (if p' = adj_productId x \<and> l' = l then adj_quantity x else 0)"
    and "has_balance p' l' s \<Longrightarrow> has_balance p' l' s'"
    and "reserved_at p' l' s' = reserved_at p' l' s"
    by blast+
qed

interpretation adj_stock: free_posting stock_count "adjust_item_step E t u l nt"
    "\<lambda>x. (adj_productId x, l)" adj_quantity "adjustable l" for E t u l nt
proof unfold_locales
  fix x y s b s' k
  assume x: "adjustable l x s" and run: "adjust_item_step E t u l nt x s = (Inr b, s')"
  show "stock_count k s' = stock_count k s + (if (adj_productId x, l) = k then adj_quantity x else 0)"
    unfolding stock_count_def adjust_item_effect(1) [OF run x] by (cases k) auto
next
  fix x y s b s'
  assume run: "adjust_item_step E t u l nt x s = (Inr b, s')" and y: "adjustable l y s"
  from y show "adjustable l y s'"
    using adjust_item_effect(3) [OF run] by (auto simp: adjustable_def)
next
  fix x y s b s'
  assume run: "adjust_item_step E t u l nt x s = (Inr b, s')" and y: "adjustable l y s"
  from y show "adjustable l y s'"
    using adjust_item_effect(3) [OF run] by (auto simp: adjustable_def)
qed

interpretation adj_ledger: free_posting ledger_count "adjust_item_step E t u l nt"
    "\<lambda>x. (adj_productId x, l)" adj_quantity "\<lambda>x s. True" for E t u l nt
proof unfold_locales
  fix x s b s' k
  assume run: "adjust_item_step E t u l nt x s = (Inr b, s')"
  show "ledger_count k s' = ledger_count k s + (if (adj_productId x, l) = k then adj_quantity x else 0)"
    unfolding ledger_count_def adjust_item_effect(2) [OF run] by (cases k) auto
qed simp_all

section \<open>Lemmas: the requests as a whole\<close>

definition location_open :: "id \<Rightarrow> db \<Rightarrow> id \<Rightarrow> bool" where
  "location_open tenantId s l \<longleftrightarrow> (\<exists>x \<in> set (locations s). loc_id x = l \<and> loc_tenantId x = tenantId \<and>
     loc_status x = LocActive)"

lemma validateLocation_iff: "(\<exists>x. validateLocation t l s = (Inr x, s)) \<longleftrightarrow> location_open t s l"
  by (cases "List.find (\<lambda>x. loc_id x = l \<and> loc_tenantId x = t \<and> loc_status x = LocActive) (locations s)")
    (auto simp: validateLocation_def bindM_def location_open_def find_None_iff' dest: find_SomeD)

text \<open>A check that only reads either passes or stops the handler in the state it started from.\<close>

lemma readonly_cases:
  assumes "readonly m"
  obtains a where "m s = (Inr a, s)" | e where "m s = (Inl e, s)"
  using assms by (cases "m s") (metis old.sum.exhaust readonlyD)

lemma checked_run:
  assumes "readonly m" "(\<exists>a. m s = (Inr a, s)) \<longleftrightarrow> P"
  shows "P \<Longrightarrow> \<exists>a. bindM m f s = f a s" "\<not> P \<Longrightarrow> \<exists>e. bindM m f s = (Inl e, s)"
  using assms(2) by (auto simp: bindM_def intro: readonly_cases [OF assms(1)])

lemma receive_item_never_throws [svc_intros]: "never_throws (receive_item E t l x)"
  by (auto simp: never_throws_def receive_item_def createLayer_run updateBalance_run bindM_def)

lemma record_receipt_never_throws [svc_intros]: "never_throws (record_receipt E t u dto x)"
  by (auto simp: never_throws_def record_receipt_run create_movement_run)

lemma stockOut_item_never_throws [svc_intros]: "never_throws (stockOut_item E t u dto x)"
  unfolding stockOut_item_def by (rule svc_intros)

lemma adjust_item_never_throws [svc_intros]: "never_throws (adjust_item_step E t u l nt x)"
proof (cases "0 < adj_quantity x")
  case True
  then have eq: "adjust_item_step E t u l nt x s = (fst (adjust_item_step E t u l nt x s),
      snd (adjust_item_step E t u l nt x s))" for s by simp
  show ?thesis
    unfolding never_throws_def using adjust_item_positive [OF eq True] eq by (metis (no_types))
next
  case False
  have "never_throws (bindM (issue_stock E t u l ADJUSTMENT None (Some nt) (adj_productId x)
      \<bar>adj_quantity x\<bar>) (\<lambda>(movementId, _). ret movementId))"
    by (intro never_throws_bindM issue_stock_never_throws) (auto intro: svc_intros split: prod.split)
  with False show ?thesis by (simp add: adjust_item_step_def)
qed

lemma in_transaction_never_throws:
  "never_throws m \<Longrightarrow> in_transaction tx m s = m s" for m :: "'a handler"
  unfolding in_transaction_def transaction_def never_throws_def
  by (auto split: prod.splits sum.splits) (metis Inl_Inr_False fst_conv)+

lemma transaction_never_throws: "never_throws m \<Longrightarrow> transaction m s = m s" for m :: "'a handler"
  using in_transaction_never_throws [of m False s] by (simp add: in_transaction_def)

lemma stockIn_execute_never_throws: "never_throws (stockIn_execute E t u dto)"
  unfolding stockIn_execute_def by (intro svc_intros)

lemma stockOut_execute_never_throws: "never_throws (stockOut_execute E t u dto)"
  unfolding stockOut_execute_def by (intro svc_intros)

text \<open>The steps of a receipt.\<close>

lemma stockIn_execute_cases:
  assumes "stockIn_execute E t u dto s = (r, s')"
  obtains ids us s1 where "forM (in_items dto) (record_receipt E t u dto) s = (Inr ids, s1)"
    "forM (zip (in_items dto) ids) (receive_item E t (in_locationId dto)) s1 = (Inr us, s')"
    "r = Inr \<lparr>sir_totalItems = length (in_items dto),
          sir_totalQuantity = sum_list (map sin_quantity (in_items dto)), sir_movementIds = ids\<rparr>"
proof -
  have "never_throws (forM (in_items dto) (record_receipt E t u dto))" by (intro svc_intros)
  then obtain ids s1 where 1: "forM (in_items dto) (record_receipt E t u dto) s = (Inr ids, s1)"
    by (rule never_throwsE)
  have "never_throws (forM (zip (in_items dto) ids) (receive_item E t (in_locationId dto)))"
    by (intro svc_intros)
  then obtain us s2 where 2: "forM (zip (in_items dto) ids) (receive_item E t (in_locationId dto)) s1 = (Inr us, s2)"
    by (rule never_throwsE)
  show thesis using assms 2 by (intro that [OF 1, of us]) (auto simp: stockIn_execute_def bindM_def 1)
qed

lemma forM_length: "forM xs f s = (Inr ys, s') \<Longrightarrow> length ys = length xs"
  by (induction xs arbitrary: s ys) (auto simp: bindM_Inr)

lemma keeps_create_movement [svc_intros]:
  assumes "\<And>s n. g (s\<lparr>nextId := n\<rparr>) = g s" "\<And>s m. g (s\<lparr>movements := m\<rparr>) = g s"
  shows "keeps g (create_movement E row)"
  unfolding create_movement_def by (intro svc_intros assms)

lemma record_receipts_keep:
  "forM xs (record_receipt E t u dto) s = (r, s1) \<Longrightarrow> balances s1 = balances s"
  "forM xs (record_receipt E t u dto) s = (r, s1) \<Longrightarrow> layers s1 = layers s"
proof -
  have "keeps balances (forM xs (record_receipt E t u dto))" "keeps layers (forM xs (record_receipt E t u dto))"
    unfolding record_receipt_def Let_def by (intro svc_intros; simp)+
  then show "forM xs (record_receipt E t u dto) s = (r, s1) \<Longrightarrow> balances s1 = balances s"
    "forM xs (record_receipt E t u dto) s = (r, s1) \<Longrightarrow> layers s1 = layers s"
    by (blast dest: keepsD)+
qed

lemma receive_items_keep:
  "forM xs (receive_item E t l) s = (r, s1) \<Longrightarrow> movements s1 = movements s"
proof -
  have "keeps movements (receive_item E t l x)" for x
    unfolding keeps_def
  proof (intro allI impI)
    fix s r s' assume "receive_item E t l x s = (r, s')"
    then show "movements s' = movements s" by (cases x) (simp add: receive_item_effect(5))
  qed
  then have "keeps movements (forM xs (receive_item E t l))" by (intro svc_intros)
  then show "forM xs (receive_item E t l) s = (r, s1) \<Longrightarrow> movements s1 = movements s"
    by (blast dest: keepsD)
qed

lemma sum_zip_fst: "length ys = length xs \<Longrightarrow> (\<Sum>z\<leftarrow>zip xs ys. f (fst z)) = (\<Sum>x\<leftarrow>xs. f x)"
  for f :: "'a \<Rightarrow> 'n::comm_monoid_add"
  by (induction xs ys rule: list_induct2') auto

text \<open>What a receipt does to every quantity.\<close>

lemma stockIn_execute_effect:
  assumes "stockIn_execute E t u dto s = (r, s')"
  shows "\<forall>x \<in> set (in_items dto). 0 \<le> sin_quantity x \<Longrightarrow> on_hand p l s' = on_hand p l s +
      (\<Sum>x\<leftarrow>in_items dto. if (sin_productId x, in_locationId dto) = (p, l) then sin_quantity x else 0)"
    and "ledger p l s' = ledger p l s +
      (\<Sum>x\<leftarrow>in_items dto. if (sin_productId x, in_locationId dto) = (p, l) then sin_quantity x else 0)"
    and "layer_qty p l t' s' = layer_qty p l t' s +
      (\<Sum>x\<leftarrow>in_items dto. if (sin_productId x, in_locationId dto, t) = (p, l, t') then sin_quantity x else 0)"
    and "stock_value p l t' s' = stock_value p l t' s +
      (\<Sum>x\<leftarrow>in_items dto. if (sin_productId x, in_locationId dto, t) = (p, l, t')
        then e_col E (e_dec E (sin_unitCost x)) * of_int (sin_quantity x) else 0)"
proof -
  obtain ids us s1 where 1: "forM (in_items dto) (record_receipt E t u dto) s = (Inr ids, s1)"
    and 2: "forM (zip (in_items dto) ids) (receive_item E t (in_locationId dto)) s1 = (Inr us, s')"
    by (rule stockIn_execute_cases [OF assms])
  note len = forM_length [OF 1]
  note keep = record_receipts_keep [OF 1] receive_items_keep [OF 2]
  note zip = sum_zip_fst [OF len]
  show "on_hand p l s' = on_hand p l s +
      (\<Sum>x\<leftarrow>in_items dto. if (sin_productId x, in_locationId dto) = (p, l) then sin_quantity x else 0)"
    if "\<forall>x \<in> set (in_items dto). 0 \<le> sin_quantity x"
  proof -
    from that have "\<forall>x \<in> set (zip (in_items dto) ids). 0 \<le> sin_quantity (fst x)"
      by (metis prod.collapse set_zip_leftD)
    from in_stock.forM_post [OF this 2, of "(p, l)"] show ?thesis
      using zip [of "\<lambda>x. if (sin_productId x, in_locationId dto) = (p, l) then sin_quantity x else 0"]
      by (simp add: stock_count_def on_hand_cong [OF keep(1)])
  qed
  show "ledger p l s' = ledger p l s +
      (\<Sum>x\<leftarrow>in_items dto. if (sin_productId x, in_locationId dto) = (p, l) then sin_quantity x else 0)"
    using in_ledger.forM_post [OF _ 1, of "(p, l)"]
    by (simp add: ledger_count_def ledger_cong [OF keep(3)])
  show "layer_qty p l t' s' = layer_qty p l t' s +
      (\<Sum>x\<leftarrow>in_items dto. if (sin_productId x, in_locationId dto, t) = (p, l, t') then sin_quantity x else 0)"
    using in_layers.forM_post [OF _ 2, where k = "(p, l, t')"]
      zip [of "\<lambda>x. if (sin_productId x, in_locationId dto, t) = (p, l, t') then sin_quantity x else 0"]
    by (simp add: layer_count_def layer_cong [OF keep(2)])
  show "stock_value p l t' s' = stock_value p l t' s +
      (\<Sum>x\<leftarrow>in_items dto. if (sin_productId x, in_locationId dto, t) = (p, l, t')
        then e_col E (e_dec E (sin_unitCost x)) * of_int (sin_quantity x) else 0)"
    using in_value.forM_post [OF _ 2, where k = "(p, l, t')"]
      zip [of "\<lambda>x. if (sin_productId x, in_locationId dto, t) = (p, l, t')
        then e_col E (e_dec E (sin_unitCost x)) * of_int (sin_quantity x) else 0"]
    by (simp add: layer_cong [OF keep(2)])
qed

definition receivable :: "id \<Rightarrow> db \<Rightarrow> stock_in_dto \<Rightarrow> bool" where
  "receivable t s dto \<longleftrightarrow>
     (\<forall>x \<in> set (in_items dto). stockable t s (sin_productId x)) \<and> location_open t s (in_locationId dto)"

definition issuable :: "id \<Rightarrow> db \<Rightarrow> stock_out_dto \<Rightarrow> bool" where
  "issuable t s dto \<longleftrightarrow>
     (\<forall>x \<in> set (out_items dto). stockable t s (sou_productId x)) \<and> location_open t s (out_locationId dto) \<and>
     (\<forall>x \<in> set (out_items dto). sou_quantity x \<le> tenant_available t (sou_productId x) (out_locationId dto) s)"

lemma validateProducts_ok:
  assumes "distinct (map prod_id (products s))"
  shows "(\<exists>a. validateProducts t ids s = (Inr a, s)) \<longleftrightarrow> (\<forall>i \<in> set ids. stockable t s i)"
  using validateProducts_iff [OF assms] by simp

text \<open>Two checks in front of a body.\<close>

lemma two_checks_run:
  assumes "readonly m" "(\<exists>a. m s = (Inr a, s)) \<longleftrightarrow> P" "readonly m'" "(\<exists>a. m' s = (Inr a, s)) \<longleftrightarrow> Q"
  shows "P \<and> Q \<Longrightarrow> bindM m (\<lambda>_. bindM m' (\<lambda>_. f)) s = f s"
    and "\<not> (P \<and> Q) \<Longrightarrow> \<exists>e. bindM m (\<lambda>_. bindM m' (\<lambda>_. f)) s = (Inl e, s)"
  using checked_run [OF assms(1,2), of "\<lambda>_. bindM m' (\<lambda>_. f)"] checked_run [OF assms(3,4), of "\<lambda>_. f"]
  by auto metis

lemma stockIn_run:
  assumes "distinct (map prod_id (products s))"
  shows "receivable t s dto \<Longrightarrow> stockIn E t u dto tx s = stockIn_execute E t u dto s"
    and "\<not> receivable t s dto \<Longrightarrow> \<exists>e. stockIn E t u dto tx s = (Inl e, s)"
proof -
  have eq: "receivable t s dto \<longleftrightarrow>
      (\<forall>i \<in> set (map sin_productId (in_items dto)). stockable t s i) \<and> location_open t s (in_locationId dto)"
    by (simp add: receivable_def)
  note run = two_checks_run [OF readonly_checks(1) validateProducts_ok [OF assms] readonly_checks(2)
      validateLocation_iff]
  show "stockIn E t u dto tx s = stockIn_execute E t u dto s" if "receivable t s dto"
    unfolding stockIn_def run(1) [OF that [unfolded eq]]
    by (rule in_transaction_never_throws [OF stockIn_execute_never_throws])
  show "\<exists>e. stockIn E t u dto tx s = (Inl e, s)" if "\<not> receivable t s dto"
    unfolding stockIn_def by (rule run(2) [OF that [unfolded eq]])
qed

lemma readonly_stockOut_checks [svc_intros]: "readonly (stockOut_checks t dto)"
  unfolding stockOut_checks_def by (intro svc_intros)

lemma validateStockAvailability_ok:
  "(\<exists>a. validateStockAvailability t l items s = (Inr a, s)) \<longleftrightarrow>
   (\<forall>(p, q) \<in> set items. q \<le> tenant_available t p l s)"
  using validateStockAvailability_iff [of t l items s s] by simp

lemma stockOut_checks_ok:
  assumes "distinct (map prod_id (products s))"
  shows "(\<exists>a. stockOut_checks t dto s = (Inr a, s)) \<longleftrightarrow> issuable t s dto"
proof -
  let ?items = "map (\<lambda>x. (sou_productId x, sou_quantity x)) (out_items dto)"
  have "(\<exists>a. stockOut_checks t dto s = (Inr a, s)) \<longleftrightarrow>
      (\<exists>a. validateProducts t (map sou_productId (out_items dto)) s = (Inr a, s)) \<and>
      (\<exists>a. validateLocation t (out_locationId dto) s = (Inr a, s)) \<and>
      (\<exists>a. validateStockAvailability t (out_locationId dto) ?items s = (Inr a, s))"
    unfolding stockOut_checks_def bindM_Inr
    by (blast dest: readonlyD [OF readonly_checks(1)] readonlyD [OF readonly_checks(2)])
  then show ?thesis
    unfolding validateProducts_ok [OF assms] validateLocation_iff validateStockAvailability_ok issuable_def
    by auto
qed

lemma stockOut_run:
  assumes "distinct (map prod_id (products s))"
  shows "issuable t s dto \<Longrightarrow> stockOut E t u dto tx s = stockOut_execute E t u dto s"
    and "\<not> issuable t s dto \<Longrightarrow> \<exists>e. stockOut E t u dto tx s = (Inl e, s)"
  using checked_run [OF readonly_stockOut_checks stockOut_checks_ok [OF assms, of t dto]]
    in_transaction_never_throws [OF stockOut_execute_never_throws, of tx E t u dto s]
  unfolding stockOut_def by metis+

lemma stockOut_Inr:
  assumes "distinct (map prod_id (products s))" "stockOut E t u dto tx s = (Inr res, s')"
  shows "issuable t s dto" "stockOut_execute E t u dto s = (Inr res, s')"
proof -
  show ok: "issuable t s dto"
  proof (rule ccontr)
    assume "\<not> issuable t s dto"
    from stockOut_run(2) [OF assms(1) this, of E u tx] assms(2) show False by auto
  qed
  show "stockOut_execute E t u dto s = (Inr res, s')"
    using assms(2) by (simp add: stockOut_run(1) [OF assms(1) ok])
qed

lemma stockOut_execute_cases:
  assumes "stockOut_execute E t u dto s = (r, s')"
  obtains out where "forM (out_items dto) (stockOut_item E t u dto) s = (Inr out, s')"
    "r = Inr \<lparr>sor_totalItems = length (out_items dto),
          sor_totalQuantity = sum_list (map sou_quantity (out_items dto)),
          sor_totalCost = fl (sum_list (map snd out)), sor_movementIds = map fst out\<rparr>"
proof -
  have "never_throws (forM (out_items dto) (stockOut_item E t u dto))" by (intro svc_intros)
  then obtain out s1 where 1: "forM (out_items dto) (stockOut_item E t u dto) s = (Inr out, s1)"
    by (rule never_throwsE)
  show thesis using assms by (intro that [of out]) (auto simp: stockOut_execute_def bindM_def 1)
qed

text \<open>A passed availability check for a positive quantity means there is a balance row.\<close>

lemma issuable_has_balance:
  assumes "issuable t s dto" "stock_out_valid dto" "balances_wf s" "x \<in> set (out_items dto)"
  shows "has_balance (sou_productId x) (out_locationId dto) s"
    "tenant_available t (sou_productId x) (out_locationId dto) s =
       on_hand (sou_productId x) (out_locationId dto) s - reserved_at (sou_productId x) (out_locationId dto) s"
  using assms tenant_available_le [OF _ assms(3), of t "sou_productId x" "out_locationId dto"]
  by (fastforce simp: issuable_def stock_out_valid_def)+

lemma forM_reserved:
  assumes "forM xs (stockOut_item E t u dto) s = (r, s')"
  shows "reserved_at p l s' = reserved_at p l s"
proof -
  have "keeps (reserved_at p l) (stockOut_item E t u dto x)" for x
    unfolding keeps_def stockOut_item_def by (blast intro: issue_stock_balance(2))
  then have "keeps (reserved_at p l) (forM xs (stockOut_item E t u dto))" by (intro svc_intros)
  with assms show ?thesis by (blast dest: keepsD)
qed

lemma stockOut_execute_effect:
  assumes "stockOut_execute E t u dto s = (r, s')"
  shows "\<forall>x \<in> set (out_items dto). has_balance (sou_productId x) (out_locationId dto) s \<Longrightarrow>
      on_hand p l s' = on_hand p l s +
      (\<Sum>x\<leftarrow>out_items dto. if (sou_productId x, out_locationId dto) = (p, l) then - sou_quantity x else 0)"
    and "ledger p l s' = ledger p l s +
      (\<Sum>x\<leftarrow>out_items dto. if (sou_productId x, out_locationId dto) = (p, l) then - sou_quantity x else 0)"
    and "reserved_at p l s' = reserved_at p l s"
proof -
  obtain out where 1: "forM (out_items dto) (stockOut_item E t u dto) s = (Inr out, s')"
    by (rule stockOut_execute_cases [OF assms])
  show "\<forall>x \<in> set (out_items dto). has_balance (sou_productId x) (out_locationId dto) s \<Longrightarrow>
      on_hand p l s' = on_hand p l s +
      (\<Sum>x\<leftarrow>out_items dto. if (sou_productId x, out_locationId dto) = (p, l) then - sou_quantity x else 0)"
    using out_stock.forM_post [OF _ 1, of "(p, l)"] by (simp add: stock_count_def)
  show "ledger p l s' = ledger p l s +
      (\<Sum>x\<leftarrow>out_items dto. if (sou_productId x, out_locationId dto) = (p, l) then - sou_quantity x else 0)"
    using out_ledger.forM_post [OF _ 1, of "(p, l)"] by (simp add: ledger_count_def)
  show "reserved_at p l s' = reserved_at p l s" by (rule forM_reserved [OF 1])
qed

text \<open>The sum over the items of a key is the quantity of the one item of that key, if items are
  distinct.\<close>

lemma sum_distinct_key:
  "distinct (map k xs) \<Longrightarrow> x \<in> set xs \<Longrightarrow> (\<Sum>y\<leftarrow>xs. if k y = k x then f y else 0) = f x"
  for f :: "'a \<Rightarrow> int"
proof (induction xs)
  case (Cons y xs)
  show ?case
  proof (cases "y = x")
    case True
    with Cons.prems(1) have "\<forall>z \<in> set xs. k z \<noteq> k x" by (auto simp: image_iff)
    then have "(\<Sum>y\<leftarrow>xs. if k y = k x then f y else 0) = (\<Sum>y\<leftarrow>xs. 0)"
      by (intro arg_cong [where f = sum_list] map_cong) auto
    with True show ?thesis by simp
  next
    case False
    with Cons.prems have "x \<in> set xs" "k y \<noteq> k x" by (auto simp: image_iff)
    with Cons show ?thesis by simp
  qed
qed simp

lemma updateBalance_wf:
  "balances_wf s \<Longrightarrow> updateBalance p l t d s = (r, s') \<Longrightarrow> balances_wf s'"
  by (auto simp: updateBalance_run balances_wf_def map_update_where has_balance_def find_balance_def
      find_None_iff' bal_key_def)

section \<open>Lemmas: the books\<close>

definition books_ok :: "db \<Rightarrow> bool" where
  "books_ok s \<longleftrightarrow> books_balance s \<and> balances_wf s \<and> distinct (map prod_id (products s))"

lemma issue_stock_keeps_products:
  "issue_stock E t u l rt ri nt p q s = (r, s') \<Longrightarrow> products s' = products s"
  by (drule issue_stock_frame) (erule ssubst, simp)

lemma issue_stock_wf:
  assumes "balances_wf s" "issue_stock E t u l rt ri nt p q s = (r, s')"
  shows "balances_wf s'"
proof -
  have b: "balances s' = balances (snd (updateBalance p l t (- q) s))"
    by (rule issue_stock_cases [OF assms(2)])
  have "balances_wf (snd (updateBalance p l t (- q) s))"
    by (rule updateBalance_wf [OF assms(1)]) (rule prod.collapse [symmetric])
  then show ?thesis unfolding balances_wf_def b .
qed

lemma receive_item_wf:
  assumes "balances_wf s" "receive_item E t l x s = (r, s')"
  shows "balances_wf s'" "products s' = products s"
proof -
  obtain y mid where x: "x = (y, mid)" by force
  obtain s1 where c: "createLayer E (sin_productId y) l t (sin_quantity y) (sin_unitCost y) mid
      (sin_batchId y) s = (Inr (), s1)"
    and u: "updateBalance (sin_productId y) l t (sin_quantity y) s1 = (r, s')"
    using assms(2) unfolding x by (rule receive_item_cases)
  have "balances s1 = balances s" "products s1 = products s" using c by (auto simp: createLayer_run)
  then have "balances_wf s1" using assms(1) by (simp add: balances_wf_def)
  then show "balances_wf s'" using u by (rule updateBalance_wf)
  show "products s' = products s" using u \<open>products s1 = products s\<close> by (auto simp: updateBalance_run)
qed

lemma adjust_item_wf:
  assumes "balances_wf s" "adjust_item_step E t u l nt x s = (r, s')"
  shows "balances_wf s'" "products s' = products s"
proof -
  have "balances_wf s' \<and> products s' = products s"
  proof (cases "0 < adj_quantity x")
    case True
    obtain s1 row where c: "createLayer E (adj_productId x) l t (adj_quantity x)
      (case adj_unitCost x of Some c \<Rightarrow> c | None \<Rightarrow> 0) (e_uuid E (nextId s)) None
      (s\<lparr>nextId := Suc (nextId s), movements := movements s @ [row]\<rparr>) = (Inr (), s1)"
      and u: "updateBalance (adj_productId x) l t (adj_quantity x) s1 = (Inr (), s')"
      by (rule adjust_item_positive [OF assms(2) True])
    have "balances s1 = balances s" "products s1 = products s" using c by (auto simp: createLayer_run)
    then have "balances_wf s1" using assms(1) by (simp add: balances_wf_def)
    then show ?thesis
      using updateBalance_wf [OF _ u] u \<open>products s1 = products s\<close> by (auto simp: updateBalance_run)
  next
    case False
    obtain r' where "issue_stock E t u l ADJUSTMENT None (Some nt) (adj_productId x)
      (- adj_quantity x) s = (r', s')" by (rule adjust_item_negative [OF assms(2) False])
    from issue_stock_wf [OF assms(1) this] issue_stock_keeps_products [OF this] show ?thesis by simp
  qed
  then show "balances_wf s'" "products s' = products s" by blast+
qed

lemma forM_preserves:
  assumes "\<And>x s r s'. I s \<Longrightarrow> f x s = (r, s') \<Longrightarrow> I s'" "I s" "forM xs f s = (r, s')"
  shows "I s'"
proof -
  have "preserves I (f x)" for x unfolding preserves_def using assms(1) by blast
  then have "preserves I (forM xs f)" by (intro svc_intros)
  then show ?thesis using assms(2,3) by (rule preservesD)
qed

lemma stockIn_books:
  assumes "books_ok s" "stock_in_valid dto" "stockIn E t u dto tx s = (r, s')"
  shows "books_ok s'"
proof -
  have d: "distinct (map prod_id (products s))" using assms(1) by (simp add: books_ok_def)
  show ?thesis
  proof (cases "receivable t s dto")
    case True
    with assms(3) have ex: "stockIn_execute E t u dto s = (r, s')" by (simp add: stockIn_run [OF d])
    obtain ids us s1 where 1: "forM (in_items dto) (record_receipt E t u dto) s = (Inr ids, s1)"
      and 2: "forM (zip (in_items dto) ids) (receive_item E t (in_locationId dto)) s1 = (Inr us, s')"
      by (rule stockIn_execute_cases [OF ex])
    have "keeps products (forM (in_items dto) (record_receipt E t u dto))"
      unfolding record_receipt_def Let_def by (intro svc_intros; simp)
    then have p1: "products s1 = products s" using 1 by (rule keepsD)
    have w1: "balances_wf s1"
      using assms(1) unfolding books_ok_def balances_wf_def record_receipts_keep(1) [OF 1] by blast
    have "balances_wf s' \<and> products s' = products s1"
      using forM_preserves [OF _ _ 2, of "\<lambda>z. balances_wf z \<and> products z = products s1"] w1
        receive_item_wf by metis
    moreover have "\<forall>x \<in> set (in_items dto). 0 \<le> sin_quantity x"
      using assms(2) by (auto simp: stock_in_valid_def)
    ultimately show ?thesis
      using assms(1) p1 stockIn_execute_effect(1,2) [OF ex] by (simp add: books_ok_def books_balance_def)
  next
    case False
    with assms(1,3) show ?thesis using stockIn_run(2) [OF d False] by (metis Pair_inject)
  qed
qed

lemma stockOut_books:
  assumes "books_ok s" "stock_out_valid dto" "stockOut E t u dto tx s = (r, s')"
  shows "books_ok s'"
proof -
  have d: "distinct (map prod_id (products s))" using assms(1) by (simp add: books_ok_def)
  show ?thesis
  proof (cases "issuable t s dto")
    case True
    with assms(3) have ex: "stockOut_execute E t u dto s = (r, s')" by (simp add: stockOut_run [OF d])
    obtain out where 1: "forM (out_items dto) (stockOut_item E t u dto) s = (Inr out, s')"
      by (rule stockOut_execute_cases [OF ex])
    have "balances_wf s' \<and> products s' = products s"
    proof (rule forM_preserves [OF _ _ 1])
      show "balances_wf s \<and> products s = products s" using assms(1) by (simp add: books_ok_def)
    next
      fix x z r z'
      assume "balances_wf z \<and> products z = products s" "stockOut_item E t u dto x z = (r, z')"
      then show "balances_wf z' \<and> products z' = products s"
        unfolding stockOut_item_def using issue_stock_wf issue_stock_keeps_products by metis
    qed
    moreover have "\<forall>x \<in> set (out_items dto). has_balance (sou_productId x) (out_locationId dto) s"
      using issuable_has_balance(1) [OF True assms(2)] assms(1) by (simp add: books_ok_def)
    ultimately show ?thesis
      using assms(1) stockOut_execute_effect(1,2) [OF ex] by (simp add: books_ok_def books_balance_def)
  next
    case False
    with assms(1,3) show ?thesis using stockOut_run(2) [OF d False] by (metis Pair_inject)
  qed
qed

text \<open>What the checks in front of an adjustment let through.\<close>

definition can_adjust :: "id \<Rightarrow> db \<Rightarrow> adjust_dto \<Rightarrow> bool" where
  "can_adjust t s dto \<longleftrightarrow>
     (\<forall>x \<in> set (ad_items dto). stockable t s (adj_productId x)) \<and> location_open t s (ad_locationId dto) \<and>
     (\<forall>x \<in> set (ad_items dto). adj_quantity x < 0 \<longrightarrow>
        \<bar>adj_quantity x\<bar> \<le> tenant_available t (adj_productId x) (ad_locationId dto) s)"

definition adjust_execute :: "env \<Rightarrow> id \<Rightarrow> id \<Rightarrow> adjust_dto \<Rightarrow> adjust_result handler" where
  "adjust_execute E t u dto =
     bindM (forM (ad_items dto) (adjust_item_step E t u (ad_locationId dto) (adjust_note dto))) (\<lambda>movementIds.
       ret \<lparr>adr_totalItems = length (ad_items dto),
            adr_positiveAdjustments = length (filter (\<lambda>x. 0 < adj_quantity x) (ad_items dto)),
            adr_negativeAdjustments = length (filter (\<lambda>x. \<not> 0 < adj_quantity x) (ad_items dto)),
            adr_movementIds = movementIds\<rparr>)"

lemma adjust_execute_never_throws: "never_throws (adjust_execute E t u dto)"
  unfolding adjust_execute_def by (intro svc_intros)

lemma adjust_run:
  assumes "distinct (map prod_id (products s))"
  shows "can_adjust t s dto \<Longrightarrow> adjust E t u dto s = adjust_execute E t u dto s"
    and "\<not> can_adjust t s dto \<Longrightarrow> \<exists>e. adjust E t u dto s = (Inl e, s)"
proof -
  let ?neg = "map (\<lambda>x. (adj_productId x, \<bar>adj_quantity x\<bar>)) (filter (\<lambda>x. adj_quantity x < 0) (ad_items dto))"
  let ?P = "(\<forall>i \<in> set (map adj_productId (ad_items dto)). stockable t s i) \<and> location_open t s (ad_locationId dto)"
  let ?Q = "\<forall>(p, q) \<in> set ?neg. q \<le> tenant_available t p (ad_locationId dto) s"
  let ?check = "if ?neg \<noteq> [] then validateStockAvailability t (ad_locationId dto) ?neg else ret ()"
  let ?body = "\<lambda>_. transaction (adjust_execute E t u dto)"
  have "readonly ?check" by (intro svc_intros)
  moreover have "(\<exists>a. ?check s = (Inr a, s)) \<longleftrightarrow> ?Q"
    using validateStockAvailability_ok [of t "ad_locationId dto" ?neg s] by (cases "?neg = []") simp_all
  ultimately have avail: "?Q \<Longrightarrow> bindM ?check ?body s = transaction (adjust_execute E t u dto) s"
    "\<not> ?Q \<Longrightarrow> \<exists>e. bindM ?check ?body s = (Inl e, s)"
    using checked_run [of ?check s ?Q ?body] by blast+
  note first = two_checks_run [OF readonly_checks(1) validateProducts_ok [OF assms, of t "map adj_productId (ad_items dto)"]
      readonly_checks(2) validateLocation_iff [of t "ad_locationId dto" s], of "bindM ?check ?body"]
  have unfold: "adjust E t u dto = bindM (validateProducts t (map adj_productId (ad_items dto)))
      (\<lambda>_. bindM (validateLocation t (ad_locationId dto)) (\<lambda>_. bindM ?check ?body))"
    unfolding adjust_def adjust_execute_def Let_def by (rule refl)
  have can: "can_adjust t s dto \<longleftrightarrow> ?P \<and> ?Q" by (auto simp: can_adjust_def)
  show "adjust E t u dto s = adjust_execute E t u dto s" if "can_adjust t s dto"
  proof -
    from that have P: ?P and Q: ?Q unfolding can by blast+
    show ?thesis
      unfolding unfold first(1) [OF P] avail(1) [OF Q]
      by (rule transaction_never_throws [OF adjust_execute_never_throws])
  qed
  show "\<exists>e. adjust E t u dto s = (Inl e, s)" if "\<not> can_adjust t s dto"
  proof (cases ?P)
    case True
    with that have Q: "\<not> ?Q" unfolding can by blast
    show ?thesis unfolding unfold first(1) [OF True] by (rule avail(2) [OF Q])
  next
    case False
    show ?thesis unfolding unfold by (rule first(2) [OF False])
  qed
qed

lemma adjust_execute_cases:
  assumes "adjust_execute E t u dto s = (r, s')"
  obtains ids where
    "forM (ad_items dto) (adjust_item_step E t u (ad_locationId dto) (adjust_note dto)) s = (Inr ids, s')"
    "r = Inr \<lparr>adr_totalItems = length (ad_items dto),
            adr_positiveAdjustments = length (filter (\<lambda>x. 0 < adj_quantity x) (ad_items dto)),
            adr_negativeAdjustments = length (filter (\<lambda>x. \<not> 0 < adj_quantity x) (ad_items dto)),
            adr_movementIds = ids\<rparr>"
proof -
  have "never_throws (forM (ad_items dto) (adjust_item_step E t u (ad_locationId dto) (adjust_note dto)))"
    by (intro svc_intros)
  then obtain ids s1 where 1:
    "forM (ad_items dto) (adjust_item_step E t u (ad_locationId dto) (adjust_note dto)) s = (Inr ids, s1)"
    by (rule never_throwsE)
  show thesis using assms by (intro that [of ids]) (auto simp: adjust_execute_def bindM_def 1)
qed

lemma can_adjust_adjustable:
  assumes "can_adjust t s dto" "adjust_valid dto" "balances_wf s" "x \<in> set (ad_items dto)"
  shows "adjustable (ad_locationId dto) x s"
proof (cases "0 < adj_quantity x")
  case False
  with assms have "adj_quantity x < 0" by (force simp: adjust_valid_def)
  with assms(1,4) have "tenant_available t (adj_productId x) (ad_locationId dto) s \<noteq> 0"
    by (force simp: can_adjust_def)
  from tenant_available_le(1) [OF this assms(3)] show ?thesis by (simp add: adjustable_def)
qed (simp add: adjustable_def)

lemma adjust_execute_effect:
  assumes "adjust_execute E t u dto s = (r, s')"
  shows "\<forall>x \<in> set (ad_items dto). adjustable (ad_locationId dto) x s \<Longrightarrow> on_hand p l s' = on_hand p l s +
      (\<Sum>x\<leftarrow>ad_items dto. if (adj_productId x, ad_locationId dto) = (p, l) then adj_quantity x else 0)"
    and "ledger p l s' = ledger p l s +
      (\<Sum>x\<leftarrow>ad_items dto. if (adj_productId x, ad_locationId dto) = (p, l) then adj_quantity x else 0)"
proof -
  obtain ids where 1:
    "forM (ad_items dto) (adjust_item_step E t u (ad_locationId dto) (adjust_note dto)) s = (Inr ids, s')"
    by (rule adjust_execute_cases [OF assms])
  show "\<forall>x \<in> set (ad_items dto). adjustable (ad_locationId dto) x s \<Longrightarrow> on_hand p l s' = on_hand p l s +
      (\<Sum>x\<leftarrow>ad_items dto. if (adj_productId x, ad_locationId dto) = (p, l) then adj_quantity x else 0)"
    using adj_stock.forM_post [OF _ 1, of "(p, l)"] by (simp add: stock_count_def)
  show "ledger p l s' = ledger p l s +
      (\<Sum>x\<leftarrow>ad_items dto. if (adj_productId x, ad_locationId dto) = (p, l) then adj_quantity x else 0)"
    using adj_ledger.forM_post [OF _ 1, of "(p, l)"] by (simp add: ledger_count_def)
qed

lemma adjust_books:
  assumes "books_ok s" "adjust_valid dto" "adjust E t u dto s = (r, s')"
  shows "books_ok s'"
proof -
  have d: "distinct (map prod_id (products s))" using assms(1) by (simp add: books_ok_def)
  show ?thesis
  proof (cases "can_adjust t s dto")
    case True
    with assms(3) have ex: "adjust_execute E t u dto s = (r, s')" by (simp add: adjust_run [OF d])
    obtain ids where 1:
      "forM (ad_items dto) (adjust_item_step E t u (ad_locationId dto) (adjust_note dto)) s = (Inr ids, s')"
      by (rule adjust_execute_cases [OF ex])
    have "balances_wf s' \<and> products s' = products s"
    proof (rule forM_preserves [OF _ _ 1])
      show "balances_wf s \<and> products s = products s" using assms(1) by (simp add: books_ok_def)
    next
      fix x z r z'
      assume "balances_wf z \<and> products z = products s"
        "adjust_item_step E t u (ad_locationId dto) (adjust_note dto) x z = (r, z')"
      then show "balances_wf z' \<and> products z' = products s" using adjust_item_wf by metis
    qed
    moreover have "\<forall>x \<in> set (ad_items dto). adjustable (ad_locationId dto) x s"
      using can_adjust_adjustable [OF True assms(2)] assms(1) by (simp add: books_ok_def)
    ultimately show ?thesis
      using assms(1) adjust_execute_effect [OF ex] by (simp add: books_ok_def books_balance_def)
  next
    case False
    with assms(1,3) show ?thesis using adjust_run(2) [OF d False] by (metis Pair_inject)
  qed
qed

section \<open>Lemmas: the value of the stock\<close>

definition inventory_value :: "db \<Rightarrow> money" where
  "inventory_value s = sum_where (\<lambda>y. True) (\<lambda>y. lay_unitCost y * of_int (lay_remainingQty y)) (layers s)"

definition costed_by_layer :: "id \<Rightarrow> db \<Rightarrow> id \<Rightarrow> bool" where
  "costed_by_layer t s p \<longleftrightarrow> resolvePricingMethod p t s \<noteq> (Inr MOVING_AVERAGE, s)"

lemma costed_cong:
  assumes "products s' = products s" "tenants s' = tenants s"
  shows "costed_by_layer t s' p = costed_by_layer t s p"
  by (simp add: costed_by_layer_def resolvePricingMethod_def assms cong: option.case_cong)

lemma issue_stock_value:
  assumes "layers_wf s" "costed_by_layer t s p" "issue_stock E t u l rt ri nt p q s = (Inr (i, cst), s')"
  shows "inventory_value s = inventory_value s' + cst"
proof -
  obtain m tot ls s1 where m: "resolvePricingMethod p t s = (Inr m, s)"
    and c: "consumeLayers E p l t q m s = (Inr (tot, ls), s1)"
    and r: "(Inr (i, cst) :: exn + id \<times> money) = Inr (e_uuid E (nextId s), tot)" and y: "layers s' = layers s1"
    by (rule issue_stock_cases [OF assms(3)])
  have "m \<noteq> MOVING_AVERAGE" using assms(2) m by (auto simp: costed_by_layer_def)
  then have "line_cost E m p l t s = lay_unitCost" by (simp add: line_cost_def fun_eq_iff)
  then show ?thesis
    using c r y consume_sum [OF assms(1), of "\<lambda>_. True" lay_unitCost q m p l t]
    by (auto simp: inventory_value_def consumeLayers_run)
qed

lemma stockOut_items_value:
  assumes "layers_wf s" "\<forall>x \<in> set xs. costed_by_layer t s (sou_productId x)"
    and "forM xs (stockOut_item E t u dto) s = (Inr out, s')"
  shows "inventory_value s = inventory_value s' + sum_list (map snd out)"
  using assms
proof (induction xs arbitrary: s out)
  case (Cons x xs)
  from Cons.prems(3) obtain y s1 out' where x: "stockOut_item E t u dto x s = (Inr y, s1)"
    and xs: "forM xs (stockOut_item E t u dto) s1 = (Inr out', s')" and out: "out = y # out'"
    by (auto simp: bindM_Inr)
  obtain i cst where y: "y = (i, cst)" by force
  note run = x [unfolded stockOut_item_def y]
  have keep: "products s1 = products s" "tenants s1 = tenants s"
    by (subst issue_stock_frame [OF run], simp)+
  have "inventory_value s1 = inventory_value s' + sum_list (map snd out')"
    using Cons.prems(2) by (intro Cons.IH [OF issue_stock_layers(1) [OF Cons.prems(1) run] _ xs])
      (simp add: costed_cong [OF keep])
  moreover have "inventory_value s = inventory_value s1 + cst"
    using Cons.prems(1,2) by (intro issue_stock_value [OF _ _ run]) simp_all
  ultimately show ?case by (simp add: out y)
qed simp

section \<open>Properties\<close>


definition receipt :: stock_in_dto where
  "receipt = \<lparr>in_locationId = ''l'', in_referenceType = None, in_referenceId = None, in_note = None,
     in_items = [\<lparr>sin_productId = ''p'', sin_quantity = 4, sin_unitCost = 5/2, sin_batchId = None\<rparr>,
                 \<lparr>sin_productId = ''p'', sin_quantity = 1, sin_unitCost = 3, sin_batchId = None\<rparr>]\<rparr>"

lemma bal_db_distinct: "distinct (map prod_id (products bal_db))"
  by (simp add: bal_db_def)

lemma bal_db_counts:
  "on_hand ''p'' ''l'' bal_db = 7" "reserved_at ''p'' ''l'' bal_db = 2"
  "has_balance ''p'' ''l'' bal_db" "tenant_available ''t'' ''p'' ''l'' bal_db = 5"
  "layer_qty ''p'' ''l'' ''t'' bal_db = 7" "balances_wf bal_db" "layers_wf bal_db"
  "stockable ''t'' bal_db ''p''" "location_open ''t'' bal_db ''l''"
  by (simp_all add: on_hand_def reserved_at_def has_balance_def find_balance_def bal_key_def bal_db_def
      tenant_available_def layer_qty_def layer_of_def val_db_def balances_wf_def layers_wf_def
      stockable_def location_open_def)


text \<open>C4: an issue of stock succeeds exactly when its products may hold stock, its location is open,
  and each item's quantity is available (on hand less reserved); otherwise it throws and changes
  nothing. A successful one takes every item's quantity from the balance and the ledger of the
  location and leaves every reservation, product and location besides alone.\<close>

theorem stockOut_effect:
  assumes "distinct (map prod_id (products s))" "stock_out_valid dto" "balances_wf s"
  shows "if issuable t s dto
    then \<exists>res s'. stockOut E t u dto tx s = (Inr res, s') \<and>
      sor_totalQuantity res = sum_list (map sou_quantity (out_items dto)) \<and>
      length (sor_movementIds res) = length (out_items dto) \<and>
      (\<forall>p l. let d = (\<Sum>x\<leftarrow>out_items dto. if (sou_productId x, out_locationId dto) = (p, l) then - sou_quantity x else 0) in
         on_hand p l s' = on_hand p l s + d \<and> ledger p l s' = ledger p l s + d \<and>
         reserved_at p l s' = reserved_at p l s)
    else \<exists>e. stockOut E t u dto tx s = (Inl e, s)"
proof (cases "issuable t s dto")
  case True
  obtain r s' where ex: "stockOut_execute E t u dto s = (r, s')" by force
  obtain out where 1: "forM (out_items dto) (stockOut_item E t u dto) s = (Inr out, s')"
    and res: "r = Inr \<lparr>sor_totalItems = length (out_items dto),
          sor_totalQuantity = sum_list (map sou_quantity (out_items dto)),
          sor_totalCost = fl (sum_list (map snd out)), sor_movementIds = map fst out\<rparr>"
    by (rule stockOut_execute_cases [OF ex])
  have has: "\<forall>x \<in> set (out_items dto). has_balance (sou_productId x) (out_locationId dto) s"
    using issuable_has_balance(1) [OF True assms(2,3)] by blast
  note effect = stockOut_execute_effect(1) [OF ex has] stockOut_execute_effect(2-) [OF ex]
  show ?thesis
    unfolding if_P [OF True] stockOut_run(1) [OF assms(1) True] ex res Let_def
    using effect forM_length [OF 1] by simp
next
  case False
  then show ?thesis using stockOut_run(2) [OF assms(1) False] by simp
qed

definition release_of :: "int list \<Rightarrow> stock_out_dto" where
  "release_of qs = \<lparr>out_locationId = ''l'', out_referenceType = None, out_referenceId = None, out_note = None,
     out_items = map (\<lambda>q. \<lparr>sou_productId = ''p'', sou_quantity = q\<rparr>) qs\<rparr>"

lemma release_of_simps [simp]:
  "out_items (release_of qs) = map (\<lambda>q. \<lparr>sou_productId = ''p'', sou_quantity = q\<rparr>) qs"
  "out_locationId (release_of qs) = ''l''"
  by (simp_all add: release_of_def)

lemma issuable_release_of: "issuable ''t'' bal_db (release_of qs) \<longleftrightarrow> (\<forall>q \<in> set qs. q \<le> 5)"
  by (auto simp: issuable_def bal_db_counts)

theorem stockOut_effect_witness:
  "distinct (map prod_id (products bal_db)) \<and> stock_out_valid (release_of [5]) \<and> balances_wf bal_db \<and>
   (\<exists>res s'. stockOut env0 ''t'' ''u'' (release_of [5]) False bal_db = (Inr res, s') \<and>
     sor_totalQuantity res = 5 \<and> on_hand ''p'' ''l'' s' = 2 \<and> reserved_at ''p'' ''l'' s' = 2) \<and>
   (\<exists>e. stockOut env0 ''t'' ''u'' (release_of [6]) False bal_db = (Inl e, bal_db))"
proof -
  have v: "stock_out_valid (release_of [5])" "stock_out_valid (release_of [6])"
    by (simp_all add: stock_out_valid_def)
  have ok: "issuable ''t'' bal_db (release_of [5])" "\<not> issuable ''t'' bal_db (release_of [6])"
    by (simp_all add: issuable_release_of)
  note eff = stockOut_effect [OF bal_db_distinct _ bal_db_counts(6)]
  from eff [OF v(1), of "''t''" env0 "''u''" False, unfolded if_P [OF ok(1)]]
  obtain res s' where r: "stockOut env0 ''t'' ''u'' (release_of [5]) False bal_db = (Inr res, s')"
    "sor_totalQuantity res = sum_list (map sou_quantity (out_items (release_of [5])))"
    and k: "on_hand ''p'' ''l'' s' = on_hand ''p'' ''l'' bal_db +
      (\<Sum>x\<leftarrow>out_items (release_of [5]). if (sou_productId x, out_locationId (release_of [5])) = (''p'', ''l'') then - sou_quantity x else 0)"
      "reserved_at ''p'' ''l'' s' = reserved_at ''p'' ''l'' bal_db"
    unfolding Let_def by blast
  from eff [OF v(2), of "''t''" env0 "''u''" False, unfolded if_not_P [OF ok(2)]]
  have "\<exists>e. stockOut env0 ''t'' ''u'' (release_of [6]) False bal_db = (Inl e, bal_db)" .
  moreover have "\<exists>res s'. stockOut env0 ''t'' ''u'' (release_of [5]) False bal_db = (Inr res, s') \<and>
     sor_totalQuantity res = 5 \<and> on_hand ''p'' ''l'' s' = 2 \<and> reserved_at ''p'' ''l'' s' = 2"
    by (intro conjI exI) (rule r | simp add: r k bal_db_counts)+
  ultimately show ?thesis using v(1) bal_db_distinct bal_db_counts(6) by blast
qed

text \<open>C8: an issue whose items are for distinct products never eats into reservations: after it,
  each product issued still has at least its reserved quantity on hand at the location. Where the
  cost layers hold the quantity, they shrink by exactly it, as the balance does.\<close>

theorem stockOut_leaves_reserved:
  assumes "distinct (map prod_id (products s))" "stock_out_valid dto" "balances_wf s" "layers_wf s"
    and "distinct (map sou_productId (out_items dto))"
    and "stockOut E t u dto tx s = (Inr res, s')" "x \<in> set (out_items dto)"
  shows "reserved_at (sou_productId x) (out_locationId dto) s' \<le> on_hand (sou_productId x) (out_locationId dto) s' \<and>
    ((\<forall>y \<in> set (out_items dto). sou_quantity y \<le> layer_qty (sou_productId y) (out_locationId dto) t s) \<longrightarrow>
       layer_qty (sou_productId x) (out_locationId dto) t s' =
         layer_qty (sou_productId x) (out_locationId dto) t s - sou_quantity x)"
proof -
  let ?p = "sou_productId x" and ?l = "out_locationId dto"
  note ok = stockOut_Inr(1) [OF assms(1,6)]
  note ex = stockOut_Inr(2) [OF assms(1,6)]
  obtain out where 1: "forM (out_items dto) (stockOut_item E t u dto) s = (Inr out, s')"
    by (rule stockOut_execute_cases [OF ex])
  have has: "\<forall>y \<in> set (out_items dto). has_balance (sou_productId y) ?l s"
    using issuable_has_balance(1) [OF ok assms(2,3)] by blast
  have key: "(if (sou_productId y, ?l) = (?p, ?l) then - sou_quantity y else 0) =
      (if sou_productId y = ?p then - sou_quantity y else 0)" for y by simp
  have "on_hand ?p ?l s' = on_hand ?p ?l s - sou_quantity x"
    using stockOut_execute_effect(1) [OF ex has, of ?p ?l]
      sum_distinct_key [OF assms(5,7), of "\<lambda>y. - sou_quantity y"] unfolding key by simp
  moreover have "sou_quantity x \<le> on_hand ?p ?l s - reserved_at ?p ?l s"
    using ok assms(7) issuable_has_balance(2) [OF ok assms(2,3,7)] by (auto simp: issuable_def)
  moreover have "reserved_at ?p ?l s' = reserved_at ?p ?l s" by (rule stockOut_execute_effect(3) [OF ex])
  moreover have "layer_qty ?p ?l t s' = layer_qty ?p ?l t s - sou_quantity x"
    if "\<forall>y \<in> set (out_items dto). sou_quantity y \<le> layer_qty (sou_productId y) ?l t s"
  proof -
    have "\<forall>y \<in> set (out_items dto). layers_wf s \<and> 0 \<le> sou_quantity y \<and>
        sou_quantity y \<le> layer_qty (sou_productId y) ?l t s"
      using that assms(2,4) by (force simp: stock_out_valid_def)
    moreover have "distinct (map (\<lambda>y. (sou_productId y, ?l, t)) (out_items dto))"
      using assms(5) by (auto simp: distinct_map inj_on_def)
    ultimately have "layer_count (?p, ?l, t) s' = layer_count (?p, ?l, t) s +
        (\<Sum>y\<leftarrow>out_items dto. if (sou_productId y, ?l, t) = (?p, ?l, t) then - sou_quantity y else 0)"
      using 1 by (rule out_layers.forM_post_distinct)
    then show ?thesis
      using sum_distinct_key [OF assms(5,7), of "\<lambda>y. - sou_quantity y"] by (simp add: layer_count_def)
  qed
  ultimately show ?thesis by simp
qed

theorem stockOut_leaves_reserved_witness:
  "\<exists>res s'. stockOut env0 ''t'' ''u'' (release_of [5]) False bal_db = (Inr res, s') \<and>
     reserved_at ''p'' ''l'' s' \<le> on_hand ''p'' ''l'' s' \<and> layer_qty ''p'' ''l'' ''t'' s' = 2"
proof -
  have v: "stock_out_valid (release_of [5])" by (simp add: stock_out_valid_def)
  have ok: "issuable ''t'' bal_db (release_of [5])" by (simp add: issuable_release_of)
  obtain res s' where run: "stockOut env0 ''t'' ''u'' (release_of [5]) False bal_db = (Inr res, s')"
    using stockOut_run(1) [OF bal_db_distinct ok] stockOut_execute_never_throws never_throwsE by metis
  let ?x = "\<lparr>sou_productId = ''p'', sou_quantity = 5\<rparr>"
  have x: "?x \<in> set (out_items (release_of [5]))" and d: "distinct (map sou_productId (out_items (release_of [5])))"
    by simp_all
  from stockOut_leaves_reserved [OF bal_db_distinct v bal_db_counts(6,7) d run x] run
  show ?thesis by (auto simp: bal_db_counts)
qed

text \<open>C2: an issue of products costed by FIFO or LIFO conserves the value of the inventory: the
  cost it reports is (as a JavaScript number) the value that left the cost layers.\<close>

theorem stockOut_conserves_value:
  assumes "distinct (map prod_id (products s))" "layers_wf s"
    and "\<forall>x \<in> set (out_items dto). costed_by_layer t s (sou_productId x)"
    and "stockOut E t u dto tx s = (Inr res, s')"
  shows "sor_totalCost res = fl (inventory_value s - inventory_value s')"
proof -
  note ok = stockOut_Inr(1) [OF assms(1,4)]
  note ex = stockOut_Inr(2) [OF assms(1,4)]
  obtain out where 1: "forM (out_items dto) (stockOut_item E t u dto) s = (Inr out, s')"
    and res: "(Inr res :: exn + stock_out_result) = Inr \<lparr>sor_totalItems = length (out_items dto),
          sor_totalQuantity = sum_list (map sou_quantity (out_items dto)),
          sor_totalCost = fl (sum_list (map snd out)), sor_movementIds = map fst out\<rparr>"
    by (rule stockOut_execute_cases [OF ex])
  from stockOut_items_value [OF assms(2,3) 1] res show ?thesis by simp
qed

theorem stockOut_conserves_value_witness:
  "\<exists>res s'. stockOut env0 ''t'' ''u'' (release_of [5]) False bal_db = (Inr res, s') \<and>
     sor_totalCost res = fl (78 - inventory_value s')"
proof -
  have ok: "issuable ''t'' bal_db (release_of [5])" by (simp add: issuable_release_of)
  obtain res s' where run: "stockOut env0 ''t'' ''u'' (release_of [5]) False bal_db = (Inr res, s')"
    using stockOut_run(1) [OF bal_db_distinct ok] stockOut_execute_never_throws never_throwsE by metis
  have c: "\<forall>x \<in> set (out_items (release_of [5])). costed_by_layer ''t'' bal_db (sou_productId x)"
    by (simp add: costed_by_layer_def resolvePricingMethod_def bal_db_def db0_def)
  have "inventory_value bal_db = 78" by (simp add: inventory_value_def bal_db_def val_db_def)
  with stockOut_conserves_value [OF bal_db_distinct bal_db_counts(7) c run] run show ?thesis by auto
qed

text \<open>C6: an adjustment succeeds exactly when its products may hold stock, its location is open and
  each negative quantity is available; otherwise it throws and changes nothing. A successful one
  moves balance and ledger by the signed quantities, counts the positive and negative items and
  returns one movement per item.\<close>

theorem adjust_effect:
  assumes "distinct (map prod_id (products s))" "adjust_valid dto" "balances_wf s"
  shows "if can_adjust t s dto
    then \<exists>res s'. adjust E t u dto s = (Inr res, s') \<and>
      length (adr_movementIds res) = length (ad_items dto) \<and>
      adr_positiveAdjustments res + adr_negativeAdjustments res = adr_totalItems res \<and>
      (\<forall>p l. let d = (\<Sum>x\<leftarrow>ad_items dto. if (adj_productId x, ad_locationId dto) = (p, l) then adj_quantity x else 0) in
         on_hand p l s' = on_hand p l s + d \<and> ledger p l s' = ledger p l s + d)
    else \<exists>e. adjust E t u dto s = (Inl e, s)"
proof (cases "can_adjust t s dto")
  case True
  obtain r s' where ex: "adjust_execute E t u dto s = (r, s')" by force
  obtain ids where 1:
    "forM (ad_items dto) (adjust_item_step E t u (ad_locationId dto) (adjust_note dto)) s = (Inr ids, s')"
    and res: "r = Inr \<lparr>adr_totalItems = length (ad_items dto),
            adr_positiveAdjustments = length (filter (\<lambda>x. 0 < adj_quantity x) (ad_items dto)),
            adr_negativeAdjustments = length (filter (\<lambda>x. \<not> 0 < adj_quantity x) (ad_items dto)),
            adr_movementIds = ids\<rparr>"
    by (rule adjust_execute_cases [OF ex])
  have has: "\<forall>x \<in> set (ad_items dto). adjustable (ad_locationId dto) x s"
    using can_adjust_adjustable [OF True assms(2,3)] by blast
  note effect = adjust_execute_effect(1) [OF ex has] adjust_execute_effect(2) [OF ex]
  show ?thesis
    unfolding if_P [OF True] adjust_run(1) [OF assms(1) True] ex res Let_def
    using effect forM_length [OF 1] sum_length_filter_compl [of "\<lambda>x. 0 < adj_quantity x" "ad_items dto"] by simp
next
  case False
  then show ?thesis using adjust_run(2) [OF assms(1) False] by simp
qed

definition recount :: adjust_dto where
  "recount = \<lparr>ad_locationId = ''l'', ad_reason = ''count'', ad_note = None,
     ad_items = [\<lparr>adj_productId = ''p'', adj_quantity = -4, adj_unitCost = None\<rparr>,
                 \<lparr>adj_productId = ''p'', adj_quantity = 6, adj_unitCost = Some 2\<rparr>]\<rparr>"

theorem adjust_effect_witness:
  "adjust_valid recount \<and> (\<exists>res s'. adjust env0 ''t'' ''u'' recount bal_db = (Inr res, s') \<and>
     on_hand ''p'' ''l'' s' = 9)"
proof -
  have v: "adjust_valid recount" by (simp add: adjust_valid_def recount_def)
  have ok: "can_adjust ''t'' bal_db recount" by (simp add: can_adjust_def recount_def bal_db_counts)
  from adjust_effect [OF bal_db_distinct v bal_db_counts(6), of "''t''" env0 "''u''", unfolded if_P [OF ok]]
  obtain res s' where r: "adjust env0 ''t'' ''u'' recount bal_db = (Inr res, s')"
    and k: "on_hand ''p'' ''l'' s' = on_hand ''p'' ''l'' bal_db +
      (\<Sum>x\<leftarrow>ad_items recount. if (adj_productId x, ad_locationId recount) = (''p'', ''l'') then adj_quantity x else 0)"
    unfolding Let_def by blast
  show ?thesis by (intro conjI exI) (rule v r | simp add: k bal_db_counts recount_def)+
qed

text \<open>C9: the availability check is not repeated when the issue is posted: it runs before the
  transaction, item by item. Two requests that each pass it in the same state are both posted in
  full whatever is left after the first, and so are two items of one request for the same product;
  together they can take more than there is and drive the balance below zero.\<close>

theorem stale_checks_overdraw:
  assumes "distinct (map prod_id (products s))" "balances_wf s"
    and "stock_out_valid d1" "stock_out_valid d2" "issuable t s d1" "issuable t s d2"
  shows "\<exists>s1 res1 res2 s2. stockOut_checks t d1 s = (Inr (), s) \<and> stockOut_checks t d2 s = (Inr (), s) \<and>
    stockOut_execute E t u d1 s = (Inr res1, s1) \<and> stockOut_execute E t u d2 s1 = (Inr res2, s2) \<and>
    (\<forall>p l. on_hand p l s2 = on_hand p l s
       - (\<Sum>x\<leftarrow>out_items d1. if (sou_productId x, out_locationId d1) = (p, l) then sou_quantity x else 0)
       - (\<Sum>x\<leftarrow>out_items d2. if (sou_productId x, out_locationId d2) = (p, l) then sou_quantity x else 0))"
proof -
  obtain res1 s1 where 1: "stockOut_execute E t u d1 s = (Inr res1, s1)"
    using stockOut_execute_never_throws never_throwsE by metis
  obtain res2 s2 where 2: "stockOut_execute E t u d2 s1 = (Inr res2, s2)"
    using stockOut_execute_never_throws never_throwsE by metis
  have has1: "\<forall>x \<in> set (out_items d1). has_balance (sou_productId x) (out_locationId d1) s"
    using issuable_has_balance(1) [OF assms(5,3,2)] by blast
  obtain out where out: "forM (out_items d1) (stockOut_item E t u d1) s = (Inr out, s1)"
    by (rule stockOut_execute_cases [OF 1])
  have has2: "\<forall>x \<in> set (out_items d2). has_balance (sou_productId x) (out_locationId d2) s1"
  proof
    fix x assume "x \<in> set (out_items d2)"
    with issuable_has_balance(1) [OF assms(6,4,2)]
    have "has_balance (sou_productId x) (out_locationId d2) s" by blast
    from forM_preserves [where I = "has_balance (sou_productId x) (out_locationId d2)", OF _ this out]
    show "has_balance (sou_productId x) (out_locationId d2) s1"
      by (auto simp: stockOut_item_def issue_stock_balance(3))
  qed
  have "stockOut_checks t d s = (Inr (), s)" if "issuable t s d" for d
    using stockOut_checks_ok [OF assms(1), of t d] that by simp
  then show ?thesis
    using 1 2 assms(5,6) stockOut_execute_effect(1) [OF 1 has1] stockOut_execute_effect(1) [OF 2 has2]
    unfolding sum_if_uminus by (intro exI conjI allI) auto
qed

theorem stale_checks_overdraw_witness:
  "\<exists>s1 res1 res2 s2. stockOut_checks ''t'' (release_of [5]) bal_db = (Inr (), bal_db) \<and>
    stockOut_execute env0 ''t'' ''u'' (release_of [5]) bal_db = (Inr res1, s1) \<and>
    stockOut_execute env0 ''t'' ''u'' (release_of [5]) s1 = (Inr res2, s2) \<and> on_hand ''p'' ''l'' s2 = -3"
proof -
  have v: "stock_out_valid (release_of [5])" by (simp add: stock_out_valid_def)
  have ok: "issuable ''t'' bal_db (release_of [5])" by (simp add: issuable_release_of)
  from stale_checks_overdraw [OF bal_db_distinct bal_db_counts(6) v v ok ok, of env0 "''u''"]
  obtain s1 res1 res2 s2 where r: "stockOut_checks ''t'' (release_of [5]) bal_db = (Inr (), bal_db)"
    "stockOut_execute env0 ''t'' ''u'' (release_of [5]) bal_db = (Inr res1, s1)"
    "stockOut_execute env0 ''t'' ''u'' (release_of [5]) s1 = (Inr res2, s2)"
    and k: "on_hand ''p'' ''l'' s2 = on_hand ''p'' ''l'' bal_db
       - (\<Sum>x\<leftarrow>out_items (release_of [5]). if (sou_productId x, out_locationId (release_of [5])) = (''p'', ''l'') then sou_quantity x else 0)
       - (\<Sum>x\<leftarrow>out_items (release_of [5]). if (sou_productId x, out_locationId (release_of [5])) = (''p'', ''l'') then sou_quantity x else 0)"
    by blast
  show ?thesis by (intro exI conjI) (rule r | simp add: k bal_db_counts)+
qed

end
