(* ===== verification/Numbering.thy ===== *)
theory Numbering
  imports Prelude "HOL-Library.Char_ord" "HOL-Library.List_Lexorder"
begin

text \<open>
  The document numbers: \<^verbatim>\<open>generateTransferNumber\<close> (\<^verbatim>\<open>transfer.service.ts\<close>), \<^verbatim>\<open>generateSaleNumber\<close>
  (\<^verbatim>\<open>pos/utils/sale-number.generator.ts\<close>), \<^verbatim>\<open>generateRefundNumber\<close> and \<^verbatim>\<open>generateSessionNumber\<close>
  all take the last number with the prefix of the year, in descending order of the text, and
  count one up, padding with zeros. They differ in prefix and width only.

  Texts are compared character by character, as PostgreSQL does for texts of a common prefix
  followed by digits.
\<close>

section \<open>JavaScript strings and numbers\<close>

definition digit :: "nat \<Rightarrow> char" where
  "digit d = ''0123456789'' ! d"

definition digit_value :: "char \<Rightarrow> nat option" where
  "digit_value c = (let n = of_char c - 48 :: nat in
     if 48 \<le> (of_char c :: nat) \<and> of_char c \<le> (57 :: nat) then Some n else None)"

text \<open>\<^verbatim>\<open>String(n)\<close> of a natural number.\<close>

fun show_nat :: "nat \<Rightarrow> string" where
  "show_nat n = (if n < 10 then [digit n] else show_nat (n div 10) @ [digit (n mod 10)])"

declare show_nat.simps [simp del]

definition padStart :: "nat \<Rightarrow> char \<Rightarrow> string \<Rightarrow> string" where
  "padStart w c x = replicate (w - length x) c @ x"

definition startsWith :: "string \<Rightarrow> string \<Rightarrow> bool" where
  "startsWith x prefix \<longleftrightarrow> take (length prefix) x = prefix"

text \<open>\<^verbatim>\<open>parseInt(x, 10)\<close> of the digits in front; \<open>None\<close> is \<^verbatim>\<open>NaN\<close>. (Signs and leading blanks do not
  occur in document numbers.)\<close>

fun parse_digits :: "nat \<Rightarrow> string \<Rightarrow> nat" where
  "parse_digits a [] = a"
| "parse_digits a (c # cs) =
     (case digit_value c of None \<Rightarrow> a | Some d \<Rightarrow> parse_digits (a * 10 + d) cs)"

definition parseInt :: "string \<Rightarrow> nat option" where
  "parseInt x = (case x of [] \<Rightarrow> None
     | c # _ \<Rightarrow> (case digit_value c of None \<Rightarrow> None | Some _ \<Rightarrow> Some (parse_digits 0 x)))"

definition show_number :: "nat option \<Rightarrow> string" where
  "show_number n = (case n of None \<Rightarrow> ''NaN'' | Some k \<Rightarrow> show_nat k)"

section \<open>The generators\<close>

text \<open>\<^verbatim>\<open>findFirst\<close> with \<^verbatim>\<open>startsWith: prefix\<close>, in descending order.\<close>

definition latest_number :: "string \<Rightarrow> string list \<Rightarrow> string option" where
  "latest_number prefix numbers =
     (case filter (\<lambda>x. startsWith x prefix) numbers of [] \<Rightarrow> None | x # xs \<Rightarrow> Some (fold max xs x))"

text \<open>\<^verbatim>\<open>latest.replace(prefix, '')\<close>: the text starts with the prefix.\<close>

definition without_prefix :: "string \<Rightarrow> string \<Rightarrow> string" where
  "without_prefix prefix x = drop (length prefix) x"

definition next_number :: "string \<Rightarrow> nat \<Rightarrow> string list \<Rightarrow> string" where
  "next_number prefix width numbers =
     (let nextNumber = (case latest_number prefix numbers of
            None \<Rightarrow> Some 1
          | Some latest \<Rightarrow> map_option Suc (parseInt (without_prefix prefix latest)))
      in prefix @ padStart width CHR ''0'' (show_number nextNumber))"

definition year_prefix :: "string \<Rightarrow> nat \<Rightarrow> string" where
  "year_prefix kind year = kind @ ''-'' @ show_nat year @ ''-''"

section \<open>Lemmas: numbers of a fixed width\<close>

fun digits :: "nat \<Rightarrow> nat \<Rightarrow> string" where
  "digits 0 k = []"
| "digits (Suc w) k = digits w (k div 10) @ [digit (k mod 10)]"

lemma all_digits: "d < 10 \<Longrightarrow> d \<in> {0, 1, 2, 3, 4, 5, 6, 7, 8, 9::nat}"
  by auto

lemma digit_char: "d < 10 \<Longrightarrow> of_char (digit d) = 48 + d"
  by (drule all_digits) (auto simp: digit_def)

lemma digit_value_digit [simp]: "d < 10 \<Longrightarrow> digit_value (digit d) = Some d"
  by (simp add: digit_value_def digit_char)

lemma digit_less: "c < 10 \<Longrightarrow> d < 10 \<Longrightarrow> digit c < digit d \<longleftrightarrow> c < d"
  by (simp add: less_char_def digit_char)

lemma length_digits [simp]: "length (digits w k) = w"
  by (induction w k rule: digits.induct) auto

lemma show_nat_digits: "k < 10 ^ Suc w \<Longrightarrow> padStart (Suc w) CHR ''0'' (show_nat k) = digits (Suc w) k"
proof (induction w arbitrary: k)
  case 0
  then show ?case by (simp add: show_nat.simps padStart_def)
next
  case (Suc w)
  have zero: "digits n 0 = replicate n CHR ''0''" for n
    by (induction n) (simp_all add: digit_def replicate_append_same)
  show ?case
  proof (cases "k < 10")
    case True
    then show ?thesis
      using zero [of "Suc w"] by (simp add: show_nat.simps padStart_def)
  next
    case False
    have "k div 10 < 10 ^ Suc w" using Suc.prems by (simp add: less_mult_imp_div_less mult.commute)
    from Suc.IH [OF this] have "padStart (Suc w) CHR ''0'' (show_nat (k div 10)) = digits (Suc w) (k div 10)" .
    moreover have "show_nat k = show_nat (k div 10) @ [digit (k mod 10)]"
      using False by (simp add: show_nat.simps [of k])
    ultimately show ?thesis by (simp add: padStart_def)
  qed
qed

lemma parse_digits_append:
  "(\<And>c. c \<in> set xs \<Longrightarrow> digit_value c \<noteq> None) \<Longrightarrow> parse_digits a (xs @ ys) = parse_digits (parse_digits a xs) ys"
proof (induction xs arbitrary: a)
  case (Cons c xs)
  from Cons.prems [of c] obtain v where "digit_value c = Some v" by auto
  with Cons show ?case by simp
qed simp

lemma digits_are_digits: "c \<in> set (digits w k) \<Longrightarrow> digit_value c \<noteq> None"
  by (induction w k rule: digits.induct) auto

lemma parse_digits_digits: "k < 10 ^ w \<Longrightarrow> parse_digits 0 (digits w k) = k"
proof (induction w k rule: digits.induct)
  case (2 w k)
  have "k div 10 < 10 ^ w" using 2(2) by (simp add: less_mult_imp_div_less mult.commute)
  with 2(1) have "parse_digits 0 (digits w (k div 10)) = k div 10" .
  then show ?case
    using digits_are_digits [of _ w "k div 10"] by (simp add: parse_digits_append)
qed simp

lemma parseInt_digits: "0 < w \<Longrightarrow> k < 10 ^ w \<Longrightarrow> parseInt (digits w k) = Some k"
proof (cases "digits w k")
  case Nil
  then show "0 < w \<Longrightarrow> ?thesis" by (metis length_digits list.size(3) nat_neq_iff)
next
  case (Cons c cs)
  then have "digit_value c \<noteq> None" using digits_are_digits [of c w k] by simp
  then obtain v where "digit_value c = Some v" by blast
  then show "k < 10 ^ w \<Longrightarrow> ?thesis"
    using parse_digits_digits [of k w] Cons by (simp add: parseInt_def)
qed

lemma lex_snoc:
  "length xs = length ys \<Longrightarrow> xs @ [c] < ys @ [d] \<longleftrightarrow> xs < ys \<or> (xs = ys \<and> c < d)"
  for xs :: "'a::linorder list"
  by (induction xs ys rule: list_induct2) auto

lemma div_mod_less: "a div 10 < b div 10 \<or> a div 10 = b div 10 \<and> a mod 10 < b mod 10 \<longleftrightarrow> a < b" for a b :: nat
proof -
  have "a = 10 * (a div 10) + a mod 10" "b = 10 * (b div 10) + b mod 10" "a mod 10 < 10" "b mod 10 < 10"
    by simp_all
  then show ?thesis by (cases "a div 10 = b div 10"; cases "a div 10 < b div 10") linarith+
qed

lemma digits_less: "j < 10 ^ w \<Longrightarrow> k < 10 ^ w \<Longrightarrow> digits w j < digits w k \<longleftrightarrow> j < k"
proof (induction w arbitrary: j k)
  case (Suc w)
  have b: "j div 10 < 10 ^ w" "k div 10 < 10 ^ w"
    using Suc.prems by (simp_all add: less_mult_imp_div_less mult.commute)
  have eq: "digits w (j div 10) = digits w (k div 10) \<longleftrightarrow> j div 10 = k div 10"
    using Suc.IH [OF b] Suc.IH [OF b(2,1)] by (metis less_irrefl nat_neq_iff)
  show ?case
    using b by (simp add: lex_snoc Suc.IH [OF b] eq digit_less div_mod_less)
qed simp

lemma prefix_less: "p @ xs < p @ ys \<longleftrightarrow> xs < ys" for p :: "'a::linorder list"
  by (induction p) auto

lemma startsWith_append [simp]: "startsWith (p @ xs) p"
  by (simp add: startsWith_def)

lemma fold_max_Max: "fold max xs x = Max (insert x (set xs))" for x :: "'a::linorder"
proof (induction xs arbitrary: x)
  case (Cons y xs)
  then show ?case by (cases "xs = []") (simp_all add: ac_simps)
qed simp

lemma latest_number_None: "latest_number p xs = None \<longleftrightarrow> (\<forall>x \<in> set xs. \<not> startsWith x p)"
proof -
  have "latest_number p xs = None \<longleftrightarrow> filter (\<lambda>x. startsWith x p) xs = []"
    by (simp add: latest_number_def split: list.split)
  then show ?thesis by (simp add: filter_empty_conv)
qed

lemma latest_number_Some:
  assumes "latest_number p xs = Some y"
  shows "y \<in> set xs" "startsWith y p" "\<And>x. x \<in> set xs \<Longrightarrow> startsWith x p \<Longrightarrow> x \<le> y"
proof -
  let ?S = "{x \<in> set xs. startsWith x p}"
  from assms obtain z zs where f: "filter (\<lambda>x. startsWith x p) xs = z # zs" and y: "y = Max (set (z # zs))"
    by (auto simp: latest_number_def fold_max_Max split: list.splits)
  have S: "set (z # zs) = ?S" unfolding f [symmetric] by auto
  have "y \<in> set (z # zs)" unfolding y by (rule Max_in) simp_all
  then show "y \<in> set xs" "startsWith y p" unfolding S by simp_all
  show "x \<le> y" if "x \<in> set xs" "startsWith x p" for x
    unfolding y by (rule Max_ge) (use that S in auto)
qed

lemma latest_number_eq:
  assumes "y \<in> set xs" "startsWith y p" "\<And>x. x \<in> set xs \<Longrightarrow> startsWith x p \<Longrightarrow> x \<le> y"
  shows "latest_number p xs = Some y"
proof (cases "latest_number p xs")
  case None
  with assms(1,2) show ?thesis by (simp add: latest_number_None)
next
  case (Some z)
  from assms(3) [OF latest_number_Some(1,2) [OF Some]] latest_number_Some(3) [OF Some assms(1,2)]
  have "z = y" by (rule order.antisym)
  with Some show ?thesis by simp
qed

lemma digits_nines: "digits w (10 ^ w - 1) = replicate w (digit 9)"
proof (induction w)
  case (Suc w)
  obtain m where m: "10 ^ w = Suc m" by (metis not0_implies_Suc power_not_zero zero_neq_numeral)
  then have "10 ^ Suc w - 1 = 10 * m + (9 :: nat)" by simp
  then have "digits (Suc w) (10 ^ Suc w - 1) = digits w (10 ^ w - 1) @ [digit 9]" by (simp add: m)
  then show ?case unfolding Suc by (simp add: replicate_append_same)
qed simp

lemma digits_power: "digits (Suc w) (10 ^ w) = digit 1 # replicate w (digit 0)"
proof (induction w)
  case (Suc w)
  have q: "10 ^ Suc w div 10 = (10 ^ w :: nat)" "10 ^ Suc w mod 10 = (0 :: nat)" by simp_all
  have "digits (Suc (Suc w)) (10 ^ Suc w) = digits (Suc w) (10 ^ w) @ [digit 0]"
    unfolding digits.simps(2) [of "Suc w"] q by (rule refl)
  then show ?case unfolding Suc by (simp add: replicate_append_same)
qed simp

section \<open>Properties\<close>

text \<open>C15: as long as the year's counter fits its width, the next number is new: it is the counter of
  the largest number so far plus one (or one), printed at the fixed width, and it comes after every
  number of the prefix in the order the generator itself uses.\<close>

theorem next_number_fresh:
  assumes "0 < w"
    and "\<forall>x \<in> set xs. startsWith x p \<longrightarrow> (\<exists>k. Suc k < 10 ^ w \<and> x = p @ digits w k)"
  shows "next_number p w xs \<notin> set xs \<and> (\<forall>x \<in> set xs. startsWith x p \<longrightarrow> x < next_number p w xs) \<and>
    (\<exists>n < 10 ^ w. next_number p w xs = p @ digits w n)"
proof (cases "latest_number p xs")
  case None
  obtain v where v: "w = Suc v" using assms(1) by (cases w) auto
  have "(1::nat) < 10 ^ w" using assms(1) by (intro one_less_power) simp_all
  then have "next_number p w xs = p @ digits w 1"
    using None show_nat_digits [of 1 v] by (simp add: next_number_def show_number_def v)
  with None \<open>1 < 10 ^ w\<close> show ?thesis by (auto simp: latest_number_None)
next
  case (Some y)
  note y = latest_number_Some [OF Some]
  obtain v where v: "w = Suc v" using assms(1) by (cases w) auto
  from assms(2) y(1,2) obtain k where k: "Suc k < 10 ^ w" "y = p @ digits w k" by blast
  have "parseInt (without_prefix p y) = Some k"
    using k parseInt_digits [OF assms(1), of k] by (simp add: without_prefix_def)
  then have next_eq: "next_number p w xs = p @ digits w (Suc k)"
    using Some show_nat_digits [of "Suc k" v] k(1) by (simp add: next_number_def show_number_def v)
  have less: "x < next_number p w xs" if "x \<in> set xs" "startsWith x p" for x
  proof -
    from assms(2) that obtain j where j: "Suc j < 10 ^ w" "x = p @ digits w j" by blast
    have "\<not> k < j"
    proof
      assume "k < j"
      then have "y < x" using j k digits_less [of k w j] by (simp add: prefix_less)
      with y(3) [OF that] show False by simp
    qed
    then show ?thesis using j k next_eq digits_less [of j w "Suc k"] by (simp add: prefix_less)
  qed
  moreover have "next_number p w xs \<notin> set xs"
    using less [of "next_number p w xs"] next_eq by auto
  ultimately show ?thesis using k(1) next_eq by blast
qed

theorem next_number_fresh_witness:
  "next_number ''TRF-2026-'' 4 [''TRF-2026-0001'', ''TRF-2026-0009'', ''TRF-2025-0200''] = ''TRF-2026-0010'' \<and>
   ''TRF-2026-0010'' \<notin> set [''TRF-2026-0001'', ''TRF-2026-0009'', ''TRF-2025-0200'']"
proof -
  have d: "digits 4 1 = ''0001''" "digits 4 9 = ''0009''" by code_simp+
  have s: "\<not> startsWith ''TRF-2025-0200'' ''TRF-2026-''" by code_simp
  have "\<exists>k. Suc k < 10 ^ 4 \<and> ''TRF-2026-0001'' = ''TRF-2026-'' @ digits 4 k"
    "\<exists>k. Suc k < 10 ^ 4 \<and> ''TRF-2026-0009'' = ''TRF-2026-'' @ digits 4 k"
    by (rule exI [of _ 1], unfold d, simp) (rule exI [of _ 9], unfold d, simp)
  with s have "\<forall>x \<in> set [''TRF-2026-0001'', ''TRF-2026-0009'', ''TRF-2025-0200'']. startsWith x ''TRF-2026-'' \<longrightarrow>
      (\<exists>k. Suc k < 10 ^ 4 \<and> x = ''TRF-2026-'' @ digits 4 k)"
    by (metis empty_iff insert_iff list.set)
  from next_number_fresh [OF _ this] have new: "next_number ''TRF-2026-'' 4
      [''TRF-2026-0001'', ''TRF-2026-0009'', ''TRF-2025-0200''] \<notin>
      set [''TRF-2026-0001'', ''TRF-2026-0009'', ''TRF-2025-0200'']" by simp
  have eq: "next_number ''TRF-2026-'' 4 [''TRF-2026-0001'', ''TRF-2026-0009'', ''TRF-2025-0200''] = ''TRF-2026-0010''"
    by code_simp
  from new show ?thesis unfolding eq by blast
qed

text \<open>when the counter outgrows its width the numbering stops: once the number after the last one
  of the width (say \<^verbatim>\<open>TRF-2026-10000\<close> after \<^verbatim>\<open>TRF-2026-9999\<close>) has been handed out, it still
  sorts before the latter, so the generator hands it out again and again.\<close>

theorem next_number_stuck:
  assumes "0 < w"
    and "p @ digits w (10 ^ w - 1) \<in> set xs" "p @ digits (Suc w) (10 ^ w) \<in> set xs"
    and "\<forall>x \<in> set xs. startsWith x p \<longrightarrow>
      x = p @ digits (Suc w) (10 ^ w) \<or> (\<exists>k. k < 10 ^ w \<and> x = p @ digits w k)"
  shows "next_number p w xs = p @ digits (Suc w) (10 ^ w) \<and> next_number p w xs \<in> set xs"
proof -
  obtain v where v: "w = Suc v" using assms(1) by (cases w) auto
  let ?last = "p @ digits w (10 ^ w - 1)"
  have "x \<le> ?last" if x: "x \<in> set xs" "startsWith x p" for x
  proof -
    consider "x = p @ digits (Suc w) (10 ^ w)" | k where "k < 10 ^ w" "x = p @ digits w k"
      using assms(4) x by blast
    then show ?thesis
    proof cases
      case 1
      have "digits (Suc w) (10 ^ w) < digits w (10 ^ w - 1)"
        unfolding digits_power digits_nines v by (simp add: digit_less)
      with 1 show ?thesis by (simp add: prefix_less order.strict_implies_order)
    next
      case (2 k)
      have "k = 10 ^ w - 1 \<or> k < 10 ^ w - 1" using 2(1) by linarith
      then show ?thesis
        using 2 digits_less [of k w "10 ^ w - 1"] by (auto simp: prefix_less order.strict_implies_order)
    qed
  qed
  from latest_number_eq [OF assms(2) startsWith_append this]
  have "latest_number p xs = Some ?last" .
  moreover have "parseInt (without_prefix p ?last) = Some (10 ^ w - 1)"
    using parseInt_digits [OF assms(1), of "10 ^ w - 1"] by (simp add: without_prefix_def)
  moreover have "padStart w CHR ''0'' (show_nat (10 ^ w)) = digits (Suc w) (10 ^ w)"
  proof -
    have "padStart (Suc w) CHR ''0'' (show_nat (10 ^ w)) = digits (Suc w) (10 ^ w)"
      by (rule show_nat_digits) simp
    moreover have "Suc w \<le> length (show_nat (10 ^ w))"
    proof (rule ccontr)
      assume "\<not> Suc w \<le> length (show_nat (10 ^ w))"
      then have "hd (padStart (Suc w) CHR ''0'' (show_nat (10 ^ w))) = CHR ''0''"
        by (cases "Suc w - length (show_nat (10 ^ w))") (simp_all add: padStart_def)
      then show False unfolding calculation digits_power by (simp add: digit_def)
    qed
    ultimately show ?thesis by (simp add: padStart_def)
  qed
  ultimately have "next_number p w xs = p @ digits (Suc w) (10 ^ w)"
    by (simp add: next_number_def show_number_def)
  with assms(3) show ?thesis by simp
qed


end
