(* ===== verification/StockTransfer.thy ===== *)
theory StockTransfer
  imports Movement Numbering
begin

text \<open>
  \<^verbatim>\<open>src/src/modules/stock/services/transfer.service.ts\<close>: stock moved between two locations of a
  tenant. A transfer is created as a DRAFT, shipped (stock leaves the source), received (stock
  arrives at the destination, possibly less) or cancelled (shipped stock returns to the source).

  The abstract view is the status machine DRAFT, IN_TRANSIT, COMPLETED or CANCELLED, and the
  conservation of stock: what a shipped transfer took from the source is in transit until it is
  received or returned.
\<close>

section \<open>Requests\<close>

record transfer_item_dto =
  tdi_productId :: id
  tdi_requestedQuantity :: int

record create_transfer_dto =
  ct_fromLocationId :: id
  ct_toLocationId :: id
  ct_items :: "transfer_item_dto list"
  ct_status :: "TransferStatus option"
  ct_note :: "string option"

record receive_item_dto =
  rc_productId :: id
  rc_receivedQuantity :: int
  rc_shortageReason :: "string option"

record receive_transfer_dto =
  rt_items :: "receive_item_dto list"
  rt_note :: "string option"

definition create_transfer_valid :: "create_transfer_dto \<Rightarrow> bool" where
  "create_transfer_valid dto \<longleftrightarrow> ct_items dto \<noteq> [] \<and> (\<forall>x \<in> set (ct_items dto). 1 \<le> tdi_requestedQuantity x)"

definition receive_transfer_valid :: "receive_transfer_dto \<Rightarrow> bool" where
  "receive_transfer_valid dto \<longleftrightarrow> rt_items dto \<noteq> [] \<and> (\<forall>x \<in> set (rt_items dto). 0 \<le> rc_receivedQuantity x)"

record transfer_result =
  tr_transferId :: id
  tr_transferNumber :: string

section \<open>Helpers\<close>

definition generateTransferNumber :: "env \<Rightarrow> id \<Rightarrow> string handler" where
  "generateTransferNumber E tenantId =
     bindM now (\<lambda>t.
     readM (\<lambda>s. next_number (year_prefix ''TRF'' (e_year E t)) 4
       (map trf_transferNumber (filter (\<lambda>x. trf_tenantId x = tenantId) (transfers s)))))"

text \<open>\<^verbatim>\<open>stockTransferItem.update\<close>: items live in their transfer.\<close>

definition item_exists :: "id \<Rightarrow> db \<Rightarrow> bool" where
  "item_exists i s \<longleftrightarrow> (\<exists>x \<in> set (transfers s). \<exists>y \<in> set (trf_items x). ti_id y = i)"

definition update_transfer_item :: "id \<Rightarrow> (transfer_item \<Rightarrow> transfer_item) \<Rightarrow> unit handler" where
  "update_transfer_item i f =
     update_transfer (\<lambda>x. \<exists>y \<in> set (trf_items x). ti_id y = i)
       (\<lambda>x. x\<lparr>trf_items := update_where (\<lambda>y. ti_id y = i) f (trf_items x)\<rparr>)"

definition find_transfer :: "id \<Rightarrow> id \<Rightarrow> db \<Rightarrow> stock_transfer option" where
  "find_transfer tenantId i s = List.find (\<lambda>x. trf_id x = i \<and> trf_tenantId x = tenantId) (transfers s)"

definition product_name :: "db \<Rightarrow> id \<Rightarrow> string" where
  "product_name s p = (case List.find (\<lambda>x. prod_id x = p) (products s) of None \<Rightarrow> p | Some x \<Rightarrow> prod_name x)"

text \<open>A note appended under a tag, if there is one: the old note, a line feed, the tag, the text.\<close>

definition tagged_note :: "string \<Rightarrow> string option \<Rightarrow> string option \<Rightarrow> string option" where
  "tagged_note tag old new = (case new of
      None \<Rightarrow> old
    | Some n \<Rightarrow> if n = [] then old
        else Some (js_trim ((case old of None \<Rightarrow> [] | Some x \<Rightarrow> x) @ CHR 0x0A # ''['' @ tag @ ''] '' @ n)))"

section \<open>Ship\<close>

definition ship_item :: "env \<Rightarrow> id \<Rightarrow> id \<Rightarrow> stock_transfer \<Rightarrow> transfer_item \<Rightarrow> unit handler" where
  "ship_item E tenantId userId transfer item =
     (let shippedQty = ti_requestedQuantity item; from = trf_fromLocationId transfer in
      bindM (calculateWAC E (ti_productId item) from tenantId) (\<lambda>unitCost.
      bindM (update_transfer_item (ti_id item) (\<lambda>x. x\<lparr>ti_shippedQuantity := shippedQty,
               ti_shippedUnitCost := Some (e_col E unitCost)\<rparr>)) (\<lambda>_.
      bindM (create_movement E (movement_row E OUT shippedQty unitCost (unitCost * of_int shippedQty)
               TRANSFER (Some (trf_transferNumber transfer))
               (Some (''Transfer to '' @ trf_toLocationId transfer)) (ti_productId item) from tenantId
               (Some userId) (Some (trf_id transfer)))) (\<lambda>_.
      bindM (resolvePricingMethod (ti_productId item) tenantId) (\<lambda>pricingMethod.
      bindM (consumeLayers E (ti_productId item) from tenantId shippedQty pricingMethod) (\<lambda>_.
      updateBalance (ti_productId item) from tenantId (- shippedQty)))))))"

definition ship_tx :: "env \<Rightarrow> id \<Rightarrow> id \<Rightarrow> string option \<Rightarrow> stock_transfer \<Rightarrow> unit handler" where
  "ship_tx E tenantId userId note1 transfer = transaction (
     bindM now (\<lambda>t.
     bindM (update_transfer (\<lambda>x. trf_id x = trf_id transfer) (\<lambda>x. x\<lparr>trf_status := IN_TRANSIT,
              trf_shippedAt := Some t, trf_note := tagged_note ''Ship'' (trf_note transfer) note1\<rparr>)) (\<lambda>_.
     bindM (forM (trf_items transfer) (ship_item E tenantId userId transfer)) (\<lambda>_. ret ()))))"

definition ship :: "env \<Rightarrow> id \<Rightarrow> id \<Rightarrow> id \<Rightarrow> string option \<Rightarrow> unit handler" where
  "ship E tenantId userId i note1 =
     bindM (readM (find_transfer tenantId i)) (\<lambda>found.
     bindM (require found (NotFoundException TransferNotFound)) (\<lambda>transfer.
     bindM (throw_if (trf_status transfer \<noteq> DRAFT)
              (ConflictException (CannotShip (trf_status transfer)))) (\<lambda>_.
     bindM (validateStockAvailability tenantId (trf_fromLocationId transfer)
              (map (\<lambda>x. (ti_productId x, ti_requestedQuantity x)) (trf_items transfer))) (\<lambda>_.
     ship_tx E tenantId userId note1 transfer))))"

section \<open>Create\<close>

definition create_transfer :: "env \<Rightarrow> id \<Rightarrow> id \<Rightarrow> create_transfer_dto \<Rightarrow> transfer_result handler" where
  "create_transfer E tenantId userId dto =
     bindM (throw_if (ct_fromLocationId dto = ct_toLocationId dto) (BadRequestException SameLocations)) (\<lambda>_.
     bindM (validateLocations tenantId [ct_fromLocationId dto, ct_toLocationId dto]) (\<lambda>_.
     bindM (validateProducts tenantId (map tdi_productId (ct_items dto))) (\<lambda>_.
     bindM (generateTransferNumber E tenantId) (\<lambda>transferNumber.
     bindM (transaction (
       bindM (fresh_id E) (\<lambda>i.
       bindM (forM (ct_items dto) (\<lambda>x. bindM (fresh_id E) (\<lambda>j.
         ret \<lparr>ti_id = j, ti_productId = tdi_productId x,
              ti_requestedQuantity = tdi_requestedQuantity x, ti_shippedQuantity = 0,
              ti_receivedQuantity = 0, ti_shippedUnitCost = None, ti_shortageReason = None\<rparr>))) (\<lambda>items.
       bindM now (\<lambda>t.
       bindM (readM (\<lambda>s. \<exists>x \<in> set (transfers s). trf_transferNumber x = transferNumber \<and>
                trf_tenantId x = tenantId)) (\<lambda>taken.
       bindM (throw_if (taken \<or> \<not> distinct (map tdi_productId (ct_items dto))) UniqueConstraint) (\<lambda>_.
       bindM (writeM (\<lambda>s. s\<lparr>transfers := transfers s @
         [\<lparr>trf_id = i, trf_transferNumber = transferNumber, trf_fromLocationId = ct_fromLocationId dto,
           trf_toLocationId = ct_toLocationId dto, trf_status = DRAFT, trf_shippedAt = None,
           trf_receivedAt = None, trf_cancelledAt = None, trf_note = ct_note dto,
           trf_tenantId = tenantId, trf_createdById = Some userId, trf_createdAt = t,
           trf_items = items\<rparr>]\<rparr>)) (\<lambda>_.
       ret \<lparr>tr_transferId = i, tr_transferNumber = transferNumber\<rparr>)))))))) (\<lambda>res.
     bindM (if ct_status dto = Some IN_TRANSIT
            then ship E tenantId userId (tr_transferId res) None else ret ()) (\<lambda>_.
     ret res))))))"

section \<open>Receive\<close>

text \<open>\<^verbatim>\<open>new Map(dto.items.map(...))\<close>: a later entry for the same product replaces an earlier one.\<close>

definition item_map :: "receive_transfer_dto \<Rightarrow> id \<Rightarrow> receive_item_dto option" where
  "item_map dto = map_of (rev (map (\<lambda>x. (rc_productId x, x)) (rt_items dto)))"

definition receive_check :: "db \<Rightarrow> receive_transfer_dto \<Rightarrow> transfer_item \<Rightarrow> unit handler" where
  "receive_check s dto item =
     bindM (require (item_map dto (ti_productId item))
              (BadRequestException (MissingReceived (product_name s (ti_productId item))))) (\<lambda>received.
     bindM (throw_if (rc_receivedQuantity received > ti_shippedQuantity item)
              (BadRequestException (ReceivedTooMuch (product_name s (ti_productId item))
                 (ti_shippedQuantity item) (rc_receivedQuantity received)))) (\<lambda>_.
     let shortage = ti_shippedQuantity item - rc_receivedQuantity received in
     throw_if (0 < shortage \<and> (case rc_shortageReason received of None \<Rightarrow> True | Some r \<Rightarrow> r = []))
       (BadRequestException (ShortageReasonRequired (product_name s (ti_productId item))
          (ti_shippedQuantity item) (rc_receivedQuantity received) shortage))))"

definition bring_in ::
  "env \<Rightarrow> id \<Rightarrow> id \<Rightarrow> id \<Rightarrow> ReferenceType \<Rightarrow> string \<Rightarrow> string \<Rightarrow> id \<Rightarrow> int \<Rightarrow> money \<Rightarrow> id \<Rightarrow> unit handler" where
  "bring_in E tenantId userId transferId refType refId note1 productId quantity unitCost locationId =
     bindM (create_movement E (movement_row E IN quantity unitCost (unitCost * of_int quantity) refType
              (Some refId) (Some note1) productId locationId tenantId (Some userId) (Some transferId))) (\<lambda>movementId.
     bindM (createLayer E productId locationId tenantId quantity (fl unitCost) movementId None) (\<lambda>_.
     updateBalance productId locationId tenantId quantity))"

definition receive_transfer_item ::
  "env \<Rightarrow> id \<Rightarrow> id \<Rightarrow> stock_transfer \<Rightarrow> receive_transfer_dto \<Rightarrow> transfer_item \<Rightarrow> unit handler" where
  "receive_transfer_item E tenantId userId transfer dto item =
     bindM (require (item_map dto (ti_productId item)) RecordNotFound) (\<lambda>received.
     let receivedQty = rc_receivedQuantity received in
     bindM (update_transfer_item (ti_id item) (\<lambda>x. x\<lparr>ti_receivedQuantity := receivedQty,
              ti_shortageReason := (case rc_shortageReason received of None \<Rightarrow> ti_shortageReason x
                                    | Some r \<Rightarrow> Some r)\<rparr>)) (\<lambda>_.
     if 0 < receivedQty then
       bring_in E tenantId userId (trf_id transfer) TRANSFER (trf_transferNumber transfer)
         (''Transfer from '' @ trf_fromLocationId transfer) (ti_productId item) receivedQty
         (case ti_shippedUnitCost item of None \<Rightarrow> 0 | Some c \<Rightarrow> c) (trf_toLocationId transfer)
     else ret ()))"

definition receive_tx :: "env \<Rightarrow> id \<Rightarrow> id \<Rightarrow> receive_transfer_dto \<Rightarrow> stock_transfer \<Rightarrow> unit handler" where
  "receive_tx E tenantId userId dto transfer = transaction (
     bindM now (\<lambda>t.
     bindM (update_transfer (\<lambda>x. trf_id x = trf_id transfer) (\<lambda>x. x\<lparr>trf_status := COMPLETED,
              trf_receivedAt := Some t, trf_note := tagged_note ''Receive'' (trf_note transfer) (rt_note dto)\<rparr>)) (\<lambda>_.
     bindM (forM (trf_items transfer) (receive_transfer_item E tenantId userId transfer dto)) (\<lambda>_. ret ()))))"

definition receive :: "env \<Rightarrow> id \<Rightarrow> id \<Rightarrow> id \<Rightarrow> receive_transfer_dto \<Rightarrow> unit handler" where
  "receive E tenantId userId i dto =
     bindM (readM (find_transfer tenantId i)) (\<lambda>found.
     bindM (require found (NotFoundException TransferNotFound)) (\<lambda>transfer.
     bindM (throw_if (trf_status transfer \<noteq> IN_TRANSIT)
              (ConflictException (CannotReceive (trf_status transfer)))) (\<lambda>_.
     bindM (\<lambda>s. forM (trf_items transfer) (receive_check s dto) s) (\<lambda>_.
     receive_tx E tenantId userId dto transfer))))"

section \<open>Cancel\<close>

definition return_item :: "env \<Rightarrow> id \<Rightarrow> id \<Rightarrow> stock_transfer \<Rightarrow> transfer_item \<Rightarrow> unit handler" where
  "return_item E tenantId userId transfer item =
     (if 0 < ti_shippedQuantity item then
        bring_in E tenantId userId (trf_id transfer) ADJUSTMENT (''CANCEL-'' @ trf_transferNumber transfer)
          ''Transfer cancellation reversal'' (ti_productId item) (ti_shippedQuantity item)
          (case ti_shippedUnitCost item of None \<Rightarrow> 0 | Some c \<Rightarrow> c) (trf_fromLocationId transfer)
      else ret ())"

definition cancel_tx :: "env \<Rightarrow> id \<Rightarrow> id \<Rightarrow> stock_transfer \<Rightarrow> unit handler" where
  "cancel_tx E tenantId userId transfer = transaction (
     bindM (if trf_status transfer = IN_TRANSIT
            then bindM (forM (trf_items transfer) (return_item E tenantId userId transfer)) (\<lambda>_. ret ())
            else ret ()) (\<lambda>_.
     bindM now (\<lambda>t.
     update_transfer (\<lambda>x. trf_id x = trf_id transfer)
       (\<lambda>x. x\<lparr>trf_status := CANCELLED, trf_cancelledAt := Some t\<rparr>))))"

definition cancel :: "env \<Rightarrow> id \<Rightarrow> id \<Rightarrow> id \<Rightarrow> unit handler" where
  "cancel E tenantId userId i =
     bindM (readM (find_transfer tenantId i)) (\<lambda>found.
     bindM (require found (NotFoundException TransferNotFound)) (\<lambda>transfer.
     bindM (throw_if (trf_status transfer = COMPLETED) (ConflictException CannotCancelCompleted)) (\<lambda>_.
     bindM (throw_if (trf_status transfer = CANCELLED) (ConflictException AlreadyCancelled)) (\<lambda>_.
     cancel_tx E tenantId userId transfer))))"

section \<open>Queries\<close>

record transfer_response =
  tre_transfer :: stock_transfer
  tre_fromLocation :: "string option"
  tre_toLocation :: "string option"
  tre_itemCount :: nat
  tre_totalRequestedQuantity :: int

definition formatTransfer :: "db \<Rightarrow> stock_transfer \<Rightarrow> transfer_response" where
  "formatTransfer s x =
     \<lparr>tre_transfer = x,
      tre_fromLocation = map_option loc_name (List.find (\<lambda>l. loc_id l = trf_fromLocationId x) (locations s)),
      tre_toLocation = map_option loc_name (List.find (\<lambda>l. loc_id l = trf_toLocationId x) (locations s)),
      tre_itemCount = length (trf_items x),
      tre_totalRequestedQuantity = sum_list (map ti_requestedQuantity (trf_items x))\<rparr>"

record transfer_query =
  tq_fromLocationId :: "id option"
  tq_toLocationId :: "id option"
  tq_status :: "TransferStatus option"
  tq_search :: "string option"
  tq_dateFrom :: "instant option"
  tq_dateTo :: "instant option"

definition transfer_filter :: "env \<Rightarrow> id \<Rightarrow> transfer_query \<Rightarrow> stock_transfer \<Rightarrow> bool" where
  "transfer_filter E tenantId q x \<longleftrightarrow>
     trf_tenantId x = tenantId \<and>
     (case tq_fromLocationId q of None \<Rightarrow> True | Some l \<Rightarrow> trf_fromLocationId x = l) \<and>
     (case tq_toLocationId q of None \<Rightarrow> True | Some l \<Rightarrow> trf_toLocationId x = l) \<and>
     (case tq_status q of None \<Rightarrow> True | Some st \<Rightarrow> trf_status x = st) \<and>
     (case tq_search q of None \<Rightarrow> True
      | Some text \<Rightarrow> text = [] \<or> e_ilike E (js_trim text) (trf_transferNumber x)) \<and>
     (case tq_dateFrom q of None \<Rightarrow> True | Some d \<Rightarrow> d \<le> trf_createdAt x) \<and>
     (case tq_dateTo q of None \<Rightarrow> True | Some d \<Rightarrow> trf_createdAt x \<le> d)"

definition findAll_transfers ::
  "env \<Rightarrow> (string \<times> SortType \<Rightarrow> stock_transfer list \<Rightarrow> stock_transfer list) \<Rightarrow> id \<Rightarrow> page_query \<Rightarrow> transfer_query
   \<Rightarrow> (page_meta \<times> transfer_response list) handler" where
  "findAll_transfers E sorted_by tenantId pq q = readM (\<lambda>s.
     let w = getPagination pq;
         rows = filter (transfer_filter E tenantId q) (transfers s);
         page = page_rows (pw_skip w) (pw_take w) (sorted_by (pw_orderBy w) rows)
     in (generatePaginationMeta (pw_page w) (pw_take w) (int (length rows)) (pw_skip w),
         map (formatTransfer s) page))"

definition findOne_transfer :: "id \<Rightarrow> id \<Rightarrow> transfer_response handler" where
  "findOne_transfer tenantId i =
     bindM (readM (find_transfer tenantId i)) (\<lambda>found.
     bindM (require found (NotFoundException TransferNotFound)) (\<lambda>x.
     readM (\<lambda>s. formatTransfer s x)))"

section \<open>Lemmas: stock arriving\<close>

lemma bring_in_cases:
  assumes "bring_in E t u tid rt ri nt p q c l s = (r, s')"
  obtains s1 row where "createLayer E p l t q (fl c) (e_uuid E (nextId s)) None
      (s\<lparr>nextId := Suc (nextId s), movements := movements s @ [row]\<rparr>) = (Inr (), s1)"
    "updateBalance p l t q s1 = (Inr (), s')" "r = Inr ()"
    "mov_productId row = p" "mov_locationId row = l" "signed_quantity row = q"
proof -
  let ?row = "movement_row E IN q c (c * of_int q) rt (Some ri) (Some nt) p l t (Some u) (Some tid)
    (e_uuid E (nextId s)) (clock s)"
  obtain s1 where c: "createLayer E p l t q (fl c) (e_uuid E (nextId s)) None
      (s\<lparr>nextId := Suc (nextId s), movements := movements s @ [?row]\<rparr>) = (Inr (), s1)"
    by (simp add: createLayer_run)
  have "bring_in E t u tid rt ri nt p q c l s = updateBalance p l t q s1"
    using c by (simp add: bring_in_def bindM_def create_movement_run)
  with assms have "updateBalance p l t q s1 = (Inr (), s')" "r = Inr ()"
    by (simp_all add: updateBalance_run)
  then show thesis by (intro that [OF c]) simp_all
qed

lemma bring_in_effect:
  assumes "bring_in E t u tid rt ri nt p q c l s = (r, s')"
  shows "0 \<le> q \<Longrightarrow> on_hand p' l' s' = on_hand p' l' s + (if p' = p \<and> l' = l then q else 0)"
    and "ledger p' l' s' = ledger p' l' s + (if p' = p \<and> l' = l then q else 0)"
    and "layer_qty p' l' t' s' = layer_qty p' l' t' s + (if p' = p \<and> l' = l \<and> t' = t then q else 0)"
    and "stock_value p' l' t' s' = stock_value p' l' t' s +
      (if p' = p \<and> l' = l \<and> t' = t then e_col E (e_dec E (fl c)) * of_int q else 0)"
    and "reserved_at p' l' s' = reserved_at p' l' s"
    and "has_balance p' l' s \<Longrightarrow> has_balance p' l' s'"
    and "balances_wf s \<Longrightarrow> balances_wf s'"
    and "transfers s' = transfers s" "products s' = products s" "clock s' = clock s" "r = Inr ()"
proof -
  obtain s1 row where c: "createLayer E p l t q (fl c) (e_uuid E (nextId s)) None
      (s\<lparr>nextId := Suc (nextId s), movements := movements s @ [row]\<rparr>) = (Inr (), s1)"
    and u: "updateBalance p l t q s1 = (Inr (), s')" and r: "r = Inr ()"
    and row: "mov_productId row = p" "mov_locationId row = l" "signed_quantity row = q"
    by (rule bring_in_cases [OF assms])
  let ?s0 = "s\<lparr>nextId := Suc (nextId s), movements := movements s @ [row]\<rparr>"
  have b: "balances s1 = balances s" "movements s1 = movements s @ [row]" "transfers s1 = transfers s"
    "products s1 = products s" "clock s1 = clock s"
    using c by (auto simp: createLayer_run)
  have y: "layers s' = layers s1" "movements s' = movements s1" "transfers s' = transfers s1"
    "products s' = products s1" "clock s' = clock s1"
    using u by (auto simp: updateBalance_run)
  have l0: "layers ?s0 = layers s" by simp
  show "on_hand p' l' s' = on_hand p' l' s + (if p' = p \<and> l' = l then q else 0)" if "0 \<le> q"
    using that by (simp add: updateBalance_on_hand [OF u] on_hand_cong(1) [OF b(1)])
  show "ledger p' l' s' = ledger p' l' s + (if p' = p \<and> l' = l then q else 0)"
    using row by (auto simp: ledger_def y b)
  show "layer_qty p' l' t' s' = layer_qty p' l' t' s + (if p' = p \<and> l' = l \<and> t' = t then q else 0)"
    unfolding layer_cong(1) [OF y(1)] createLayer_qty [OF c] layer_cong(1) [OF l0] by (rule refl)
  show "stock_value p' l' t' s' = stock_value p' l' t' s +
      (if p' = p \<and> l' = l \<and> t' = t then e_col E (e_dec E (fl c)) * of_int q else 0)"
    unfolding layer_cong(2) [OF y(1)] createLayer_value [OF c] layer_cong(2) [OF l0] by (rule refl)
  show "reserved_at p' l' s' = reserved_at p' l' s"
    unfolding updateBalance_reserved [OF u] on_hand_cong(2) [OF b(1)] by (rule refl)
  show "has_balance p' l' s \<Longrightarrow> has_balance p' l' s'"
    unfolding updateBalance_has [OF u] on_hand_cong(3) [OF b(1)] by blast
  show "balances_wf s'" if "balances_wf s"
  proof -
    have "balances_wf s1" using that unfolding balances_wf_def b .
    then show ?thesis using u by (rule updateBalance_wf)
  qed
  show "transfers s' = transfers s" "products s' = products s" "clock s' = clock s" "r = Inr ()"
    using y b r by simp_all
qed

section \<open>Lemmas: items of a transfer\<close>

lemma list_ex_item: "list_ex (\<lambda>x. \<exists>y \<in> set (trf_items x). ti_id y = i) (transfers s) \<longleftrightarrow> item_exists i s"
  by (auto simp: item_exists_def list_ex_iff)

definition set_item :: "id \<Rightarrow> (transfer_item \<Rightarrow> transfer_item) \<Rightarrow> db \<Rightarrow> db" where
  "set_item i f s = s\<lparr>transfers := update_where (\<lambda>x. \<exists>y \<in> set (trf_items x). ti_id y = i)
     (\<lambda>x. x\<lparr>trf_items := update_where (\<lambda>y. ti_id y = i) f (trf_items x)\<rparr>) (transfers s)\<rparr>"

lemma update_transfer_item_run:
  "update_transfer_item i f s =
   (if item_exists i s then (Inr (), set_item i f s) else (Inl RecordNotFound, s))"
  by (simp add: update_transfer_item_def update_row_def list_ex_item set_item_def)

lemma item_exists_ids: "item_exists i s \<longleftrightarrow> i \<in> (\<Union>x \<in> set (transfers s). ti_id ` set (trf_items x))"
  by (auto simp: item_exists_def)

text \<open>Changing items keeps which items there are.\<close>

lemma item_exists_set_item:
  assumes "\<And>y. ti_id (f y) = ti_id y"
  shows "item_exists j (set_item i f s) \<longleftrightarrow> item_exists j s"
proof -
  have "ti_id ` set (trf_items (if \<exists>y \<in> set (trf_items x). ti_id y = i
      then x\<lparr>trf_items := update_where (\<lambda>y. ti_id y = i) f (trf_items x)\<rparr> else x)) = ti_id ` set (trf_items x)" for x
    using image_update_where [of "\<lambda>y. ti_id y = i" ti_id f "trf_items x"] assms by simp
  note ids = this
  have UN: "(\<Union>x \<in> set (map g xs). ti_id ` set (trf_items x)) = (\<Union>x \<in> set xs. ti_id ` set (trf_items x))"
    if "\<And>x. ti_id ` set (trf_items (g x)) = ti_id ` set (trf_items x)" for g and xs :: "stock_transfer list"
    using that by simp
  have "transfers (set_item i f s) = map (\<lambda>x. if \<exists>y \<in> set (trf_items x). ti_id y = i
      then x\<lparr>trf_items := update_where (\<lambda>y. ti_id y = i) f (trf_items x)\<rparr> else x) (transfers s)"
    by (simp add: set_item_def update_where_def)
  then show ?thesis unfolding item_exists_ids by (simp only: UN [OF ids])
qed

lemma item_exists_cong: "transfers s' = transfers s \<Longrightarrow> item_exists i s' = item_exists i s"
  by (simp add: item_exists_def)

lemma ship_item_cases:
  assumes "ship_item E t u tr x s = (r, s')" "item_exists (ti_id x) s"
  obtains w m s2 out s3 row where "r = Inr ()" "layers s2 = layers s"
    "calculateWAC E (ti_productId x) (trf_fromLocationId tr) t s = (Inr w, s)"
    "resolvePricingMethod (ti_productId x) t s = (Inr m, s)"
    "consumeLayers E (ti_productId x) (trf_fromLocationId tr) t (ti_requestedQuantity x) m s2 = (Inr out, s3)"
    "layers s' = layers s3" "movements s' = movements s @ [row]"
    "mov_productId row = ti_productId x" "mov_locationId row = trf_fromLocationId tr"
    "signed_quantity row = - ti_requestedQuantity x"
    "balances s' = balances (snd (updateBalance (ti_productId x) (trf_fromLocationId tr) t (- ti_requestedQuantity x) s))"
    "transfers s' = transfers (set_item (ti_id x)
       (\<lambda>y. y\<lparr>ti_shippedQuantity := ti_requestedQuantity x, ti_shippedUnitCost := Some (e_col E w)\<rparr>) s)"
    "products s' = products s" "tenants s' = tenants s" "reservations s' = reservations s"
proof -
  let ?p = "ti_productId x" and ?l = "trf_fromLocationId tr" and ?q = "ti_requestedQuantity x"
  obtain w where w: "calculateWAC E ?p ?l t s = (Inr w, s)" by (simp add: calculateWAC_def)
  let ?f = "\<lambda>y. y\<lparr>ti_shippedQuantity := ?q, ti_shippedUnitCost := Some (e_col E w)\<rparr>"
  let ?row = "movement_row E OUT ?q w (w * of_int ?q) TRANSFER (Some (trf_transferNumber tr))
               (Some (''Transfer to '' @ trf_toLocationId tr)) ?p ?l t (Some u) (Some (trf_id tr))
               (e_uuid E (nextId s)) (clock s)"
  let ?s1 = "set_item (ti_id x) ?f s"
  let ?s2 = "?s1\<lparr>nextId := Suc (nextId s), movements := movements s @ [?row]\<rparr>"
  have s1: "nextId ?s1 = nextId s" "movements ?s1 = movements s" "clock ?s1 = clock s" "layers ?s1 = layers s"
    "products ?s1 = products s" "tenants ?s1 = tenants s" "reservations ?s1 = reservations s" "balances ?s1 = balances s"
    by (simp_all add: set_item_def)
  obtain m where m: "resolvePricingMethod ?p t s = (Inr m, s)" by (rule resolve_run)
  have m2: "resolvePricingMethod ?p t ?s2 = (Inr m, ?s2)"
    using m by (simp add: resolvePricingMethod_def s1 cong: option.case_cong)
  obtain out s3 where c: "consumeLayers E ?p ?l t ?q m ?s2 = (Inr out, s3)" by (simp add: consumeLayers_run)
  obtain L where L: "s3 = ?s2\<lparr>layers := L\<rparr>" using consumeLayers_frame(1) [OF c] by blast
  have run: "ship_item E t u tr x s = updateBalance ?p ?l t (- ?q) s3"
    using assms(2) w m2 c
    by (simp add: ship_item_def Let_def bindM_def update_transfer_item_run create_movement_run s1)
  have s': "s' = snd (updateBalance ?p ?l t (- ?q) s3)" "r = Inr ()"
    using assms(1) unfolding run by (simp_all add: updateBalance_run)
  have e: "has_balance ?p ?l s3 = has_balance ?p ?l s" "balances s3 = balances s"
    by (simp_all add: L s1 has_balance_def find_balance_def)
  show thesis
    by (rule that [of ?s2 w m out s3 ?row, OF s'(2) _ w m c])
      (simp_all add: s' s1 updateBalance_run e, simp_all add: L s1)
qed

lemma ship_item_effect:
  assumes "ship_item E t u tr x s = (r, s')" "item_exists (ti_id x) s"
  shows "on_hand p' l' s' = on_hand p' l' s + (if p' = ti_productId x \<and> l' = trf_fromLocationId tr
      then (if has_balance (ti_productId x) (trf_fromLocationId tr) s then - ti_requestedQuantity x
            else max 0 (- ti_requestedQuantity x)) else 0)"
    and "ledger p' l' s' = ledger p' l' s +
      (if p' = ti_productId x \<and> l' = trf_fromLocationId tr then - ti_requestedQuantity x else 0)"
    and "has_balance p' l' s \<Longrightarrow> has_balance p' l' s'"
    and "reserved_at p' l' s' = reserved_at p' l' s"
    and "balances_wf s \<Longrightarrow> balances_wf s'"
    and "item_exists j s' = item_exists j s" and "products s' = products s"
    and "layers_wf s \<Longrightarrow> layers_wf s'"
    and "layers_wf s \<Longrightarrow> 0 \<le> ti_requestedQuantity x \<Longrightarrow> layer_qty p' l' t' s' = layer_qty p' l' t' s
      - (if p' = ti_productId x \<and> l' = trf_fromLocationId tr \<and> t' = t
         then min (ti_requestedQuantity x) (layer_qty (ti_productId x) (trf_fromLocationId tr) t s) else 0)"
proof -
  let ?p = "ti_productId x" and ?l = "trf_fromLocationId tr" and ?q = "ti_requestedQuantity x"
  obtain w m s2 out s3 row where l2: "layers s2 = layers s"
    and c: "consumeLayers E ?p ?l t ?q m s2 = (Inr out, s3)" and l3: "layers s' = layers s3"
    and mv: "movements s' = movements s @ [row]" "mov_productId row = ?p" "mov_locationId row = ?l"
      "signed_quantity row = - ?q"
    and b: "balances s' = balances (snd (updateBalance ?p ?l t (- ?q) s))"
    and trs: "transfers s' = transfers (set_item (ti_id x)
       (\<lambda>y. y\<lparr>ti_shippedQuantity := ?q, ti_shippedUnitCost := Some (e_col E w)\<rparr>) s)"
    and pr: "products s' = products s"
    by (rule ship_item_cases [OF assms])
  let ?s1 = "snd (updateBalance ?p ?l t (- ?q) s)"
  have u: "updateBalance ?p ?l t (- ?q) s = (fst (updateBalance ?p ?l t (- ?q) s), ?s1)" by simp
  show "on_hand p' l' s' = on_hand p' l' s + (if p' = ?p \<and> l' = ?l
      then (if has_balance ?p ?l s then - ?q else max 0 (- ?q)) else 0)"
    unfolding on_hand_cong(1) [OF b] by (rule updateBalance_on_hand [OF u])
  show "ledger p' l' s' = ledger p' l' s + (if p' = ?p \<and> l' = ?l then - ?q else 0)"
    using mv by (auto simp: ledger_def)
  show "has_balance p' l' s \<Longrightarrow> has_balance p' l' s'"
    unfolding on_hand_cong(3) [OF b] updateBalance_has [OF u] by blast
  show "reserved_at p' l' s' = reserved_at p' l' s"
    unfolding on_hand_cong(2) [OF b] by (rule updateBalance_reserved [OF u])
  show "balances_wf s'" if "balances_wf s"
    using updateBalance_wf [OF that u] unfolding balances_wf_def b .
  show "item_exists j s' = item_exists j s"
    unfolding item_exists_cong [OF trs] by (rule item_exists_set_item) simp
  show "products s' = products s" by (rule pr)
  show "layers_wf s'" if "layers_wf s"
    unfolding layer_cong(3) [OF l3] by (rule consumeLayers_wf [OF _ c]) (simp add: that layer_cong(3) [OF l2])
  show "layer_qty p' l' t' s' = layer_qty p' l' t' s
      - (if p' = ?p \<and> l' = ?l \<and> t' = t then min ?q (layer_qty ?p ?l t s) else 0)"
    if "layers_wf s" "0 \<le> ?q"
  proof -
    have "layers_wf s2" using that(1) unfolding layer_cong(3) [OF l2] .
    from consumeLayers_qty [OF this that(2) c] show ?thesis
      unfolding layer_cong(1) [OF l3] layer_cong(1) [OF l2] .
  qed
qed

section \<open>Shipping, receiving and returning post to balance and ledger\<close>

definition shippable_item :: "stock_transfer \<Rightarrow> transfer_item \<Rightarrow> db \<Rightarrow> bool" where
  "shippable_item tr x s \<longleftrightarrow> item_exists (ti_id x) s \<and> has_balance (ti_productId x) (trf_fromLocationId tr) s"

lemma ship_item_runs:
  assumes "item_exists (ti_id x) s"
  shows "\<exists>s'. ship_item E t u tr x s = (Inr (), s')"
proof -
  obtain r s' where run: "ship_item E t u tr x s = (r, s')" by force
  then have "r = Inr ()" using ship_item_cases [OF run assms] by blast
  with run show ?thesis by blast
qed

interpretation ship_stock: live_posting stock_count "ship_item E t u tr"
    "\<lambda>x. (ti_productId x, trf_fromLocationId tr)" "\<lambda>x. - ti_requestedQuantity x" "shippable_item tr"
  for E t u tr
proof unfold_locales
  fix x y s b s' k
  assume x: "shippable_item tr x s" and run: "ship_item E t u tr x s = (Inr b, s')"
  then have e: "item_exists (ti_id x) s" by (simp add: shippable_item_def)
  show "stock_count k s' = stock_count k s +
      (if (ti_productId x, trf_fromLocationId tr) = k then - ti_requestedQuantity x else 0)"
    using x unfolding stock_count_def ship_item_effect(1) [OF run e] by (cases k) (auto simp: shippable_item_def)
next
  fix x y s b s'
  assume "shippable_item tr x s" and run: "ship_item E t u tr x s = (Inr b, s')" and y: "shippable_item tr y s"
  then have e: "item_exists (ti_id x) s" by (simp add: shippable_item_def)
  show "shippable_item tr y s'"
    using y ship_item_effect(3,6) [OF run e] by (auto simp: shippable_item_def)
next
  fix x y s b s'
  assume run: "ship_item E t u tr x s = (Inr b, s')" and y: "shippable_item tr y s"
  have e: "item_exists (ti_id x) s"
  proof (rule ccontr)
    assume "\<not> item_exists (ti_id x) s"
    then have "ship_item E t u tr x s = (Inl RecordNotFound, s)"
      by (simp add: ship_item_def Let_def bindM_def calculateWAC_def update_transfer_item_run)
    with run show False by simp
  qed
  show "shippable_item tr y s'"
    using y ship_item_effect(3,6) [OF run e] by (auto simp: shippable_item_def)
next
  fix x s assume "shippable_item tr x s"
  then show "\<exists>b s'. ship_item E t u tr x s = (Inr b, s')"
    using ship_item_runs by (auto simp: shippable_item_def)
qed

interpretation ship_ledger: free_posting ledger_count "ship_item E t u tr"
    "\<lambda>x. (ti_productId x, trf_fromLocationId tr)" "\<lambda>x. - ti_requestedQuantity x"
    "\<lambda>x s. item_exists (ti_id x) s" for E t u tr
proof unfold_locales
  fix x s b s' k
  assume e: "item_exists (ti_id x) s" and run: "ship_item E t u tr x s = (Inr b, s')"
  show "ledger_count k s' = ledger_count k s +
      (if (ti_productId x, trf_fromLocationId tr) = k then - ti_requestedQuantity x else 0)"
    unfolding ledger_count_def ship_item_effect(2) [OF run e] by (cases k) auto
next
  fix x y s b s'
  assume e: "item_exists (ti_id x) s" "item_exists (ti_id y) s" and run: "ship_item E t u tr x s = (Inr b, s')"
  then show "item_exists (ti_id y) s'" by (simp add: ship_item_effect(6) [OF run])
next
  fix x y s b s'
  assume y: "item_exists (ti_id y) s" and run: "ship_item E t u tr x s = (Inr b, s')"
  have e: "item_exists (ti_id x) s"
  proof (rule ccontr)
    assume "\<not> item_exists (ti_id x) s"
    then have "ship_item E t u tr x s = (Inl RecordNotFound, s)"
      by (simp add: ship_item_def Let_def bindM_def calculateWAC_def update_transfer_item_run)
    with run show False by simp
  qed
  show "item_exists (ti_id y) s'" using y by (simp add: ship_item_effect(6) [OF run e])
qed

definition received_quantity :: "receive_transfer_dto \<Rightarrow> transfer_item \<Rightarrow> int" where
  "received_quantity dto x =
     (case item_map dto (ti_productId x) of None \<Rightarrow> 0 | Some r \<Rightarrow> max 0 (rc_receivedQuantity r))"

definition receivable_item :: "receive_transfer_dto \<Rightarrow> transfer_item \<Rightarrow> db \<Rightarrow> bool" where
  "receivable_item dto x s \<longleftrightarrow> item_exists (ti_id x) s \<and> item_map dto (ti_productId x) \<noteq> None"

lemma receive_item_Inr:
  assumes "receive_transfer_item E t u tr dto x s = (Inr b, s')"
  obtains r where "item_map dto (ti_productId x) = Some r" "item_exists (ti_id x) s"
  using assms
  by (auto simp: receive_transfer_item_def bindM_Inr Let_def update_transfer_item_run split: if_splits)

lemma receive_transfer_item_effect:
  assumes "receive_transfer_item E t u tr dto x s = (r, s')" "receivable_item dto x s"
  shows "on_hand p' l' s' = on_hand p' l' s +
      (if p' = ti_productId x \<and> l' = trf_toLocationId tr then received_quantity dto x else 0)"
    and "ledger p' l' s' = ledger p' l' s +
      (if p' = ti_productId x \<and> l' = trf_toLocationId tr then received_quantity dto x else 0)"
    and "layer_qty p' l' t' s' = layer_qty p' l' t' s +
      (if p' = ti_productId x \<and> l' = trf_toLocationId tr \<and> t' = t then received_quantity dto x else 0)"
    and "reserved_at p' l' s' = reserved_at p' l' s"
    and "balances_wf s \<Longrightarrow> balances_wf s'"
    and "item_exists j s' = item_exists j s" and "products s' = products s" and "r = Inr ()"
    and "\<exists>f. transfers s' = transfers (set_item (ti_id x) f s) \<and> (\<forall>y. ti_id (f y) = ti_id y)"
proof -
  from assms(2) obtain rc where rc: "item_map dto (ti_productId x) = Some rc" and e: "item_exists (ti_id x) s"
    by (auto simp: receivable_item_def)
  define f :: "transfer_item \<Rightarrow> transfer_item" where
    "f y = y\<lparr>ti_receivedQuantity := rc_receivedQuantity rc,
        ti_shortageReason := (case rc_shortageReason rc of None \<Rightarrow> ti_shortageReason y | Some v \<Rightarrow> Some v)\<rparr>" for y
  let ?s1 = "set_item (ti_id x) f s"
  let ?q = "rc_receivedQuantity rc"
  have s1: "balances ?s1 = balances s" "movements ?s1 = movements s" "layers ?s1 = layers s"
    "products ?s1 = products s" by (simp_all add: set_item_def)
  have f: "ti_id (f y) = ti_id y" for y by (simp add: f_def)
  have ex: "item_exists j ?s1 = item_exists j s" for j by (rule item_exists_set_item) (rule f)
  have run: "receive_transfer_item E t u tr dto x s = (if 0 < ?q then
       bring_in E t u (trf_id tr) TRANSFER (trf_transferNumber tr)
         (''Transfer from '' @ trf_fromLocationId tr) (ti_productId x) ?q
         (case ti_shippedUnitCost x of None \<Rightarrow> 0 | Some c \<Rightarrow> c) (trf_toLocationId tr) ?s1
     else (Inr (), ?s1))"
    using rc e by (simp add: receive_transfer_item_def bindM_def Let_def update_transfer_item_run f_def [abs_def] cong: if_cong)
  have "(on_hand p' l' s' = on_hand p' l' s + (if p' = ti_productId x \<and> l' = trf_toLocationId tr then received_quantity dto x else 0)) \<and>
    (ledger p' l' s' = ledger p' l' s + (if p' = ti_productId x \<and> l' = trf_toLocationId tr then received_quantity dto x else 0)) \<and>
    (layer_qty p' l' t' s' = layer_qty p' l' t' s +
      (if p' = ti_productId x \<and> l' = trf_toLocationId tr \<and> t' = t then received_quantity dto x else 0)) \<and>
    (reserved_at p' l' s' = reserved_at p' l' s) \<and> (balances_wf s \<longrightarrow> balances_wf s') \<and>
    transfers s' = transfers ?s1 \<and> products s' = products s \<and> r = Inr ()"
  proof (cases "0 < ?q")
    case True
    then have q: "received_quantity dto x = ?q" "0 \<le> ?q" using rc by (simp_all add: received_quantity_def)
    have b: "bring_in E t u (trf_id tr) TRANSFER (trf_transferNumber tr)
         (''Transfer from '' @ trf_fromLocationId tr) (ti_productId x) ?q
         (case ti_shippedUnitCost x of None \<Rightarrow> 0 | Some c \<Rightarrow> c) (trf_toLocationId tr) ?s1 = (r, s')"
      using assms(1) True unfolding run by simp
    have w: "balances_wf ?s1 = balances_wf s" by (simp add: balances_wf_def s1)
    show ?thesis
      unfolding q(1) bring_in_effect(1) [OF b q(2)] bring_in_effect(2,3,5,8,9) [OF b]
        on_hand_cong(1,2) [OF s1(1)] ledger_cong [OF s1(2)] layer_cong(1) [OF s1(3)] s1(4)
      using bring_in_effect(7) [OF b] bring_in_effect(11) [OF b] w by simp
  next
    case False
    then have q: "received_quantity dto x = 0" using rc by (simp add: received_quantity_def)
    have s': "s' = ?s1" "r = Inr ()" using assms(1) False unfolding run by simp_all
    have w: "balances_wf ?s1 = balances_wf s" by (simp add: balances_wf_def s1)
    show ?thesis
      unfolding s' q on_hand_cong(1,2) [OF s1(1)] ledger_cong [OF s1(2)] layer_cong(1) [OF s1(3)] s1(4) w by simp
  qed
  then show "on_hand p' l' s' = on_hand p' l' s +
      (if p' = ti_productId x \<and> l' = trf_toLocationId tr then received_quantity dto x else 0)"
    "ledger p' l' s' = ledger p' l' s +
      (if p' = ti_productId x \<and> l' = trf_toLocationId tr then received_quantity dto x else 0)"
    "layer_qty p' l' t' s' = layer_qty p' l' t' s +
      (if p' = ti_productId x \<and> l' = trf_toLocationId tr \<and> t' = t then received_quantity dto x else 0)"
    "reserved_at p' l' s' = reserved_at p' l' s"
    "balances_wf s \<Longrightarrow> balances_wf s'" "products s' = products s" "r = Inr ()"
    "item_exists j s' = item_exists j s"
    "\<exists>f. transfers s' = transfers (set_item (ti_id x) f s) \<and> (\<forall>y. ti_id (f y) = ti_id y)"
    using ex item_exists_cong [of s' ?s1] f by blast+
qed

interpretation receive_stock: live_posting stock_count "receive_transfer_item E t u tr dto"
    "\<lambda>x. (ti_productId x, trf_toLocationId tr)" "received_quantity dto" "receivable_item dto" for E t u tr dto
proof unfold_locales
  fix x s b s' k
  assume x: "receivable_item dto x s" and run: "receive_transfer_item E t u tr dto x s = (Inr b, s')"
  show "stock_count k s' = stock_count k s +
      (if (ti_productId x, trf_toLocationId tr) = k then received_quantity dto x else 0)"
    unfolding stock_count_def receive_transfer_item_effect(1) [OF run x] by (cases k) auto
next
  fix x y s b s'
  assume x: "receivable_item dto x s" and run: "receive_transfer_item E t u tr dto x s = (Inr b, s')"
    and y: "receivable_item dto y s"
  then show "receivable_item dto y s'" using receive_transfer_item_effect(6) [OF run x] by (simp add: receivable_item_def)
next
  fix x y s b s'
  assume run: "receive_transfer_item E t u tr dto x s = (Inr b, s')" and y: "receivable_item dto y s"
  have x: "receivable_item dto x s" by (rule receive_item_Inr [OF run]) (simp add: receivable_item_def)
  from y show "receivable_item dto y s'" using receive_transfer_item_effect(6) [OF run x] by (simp add: receivable_item_def)
next
  fix x s assume x: "receivable_item dto x s"
  obtain r s' where run: "receive_transfer_item E t u tr dto x s = (r, s')" by force
  then show "\<exists>b s'. receive_transfer_item E t u tr dto x s = (Inr b, s')"
    using receive_transfer_item_effect(8) [OF run x] by blast
qed

interpretation receive_ledger: free_posting ledger_count "receive_transfer_item E t u tr dto"
    "\<lambda>x. (ti_productId x, trf_toLocationId tr)" "received_quantity dto" "receivable_item dto" for E t u tr dto
proof unfold_locales
  fix x s b s' k
  assume x: "receivable_item dto x s" and run: "receive_transfer_item E t u tr dto x s = (Inr b, s')"
  show "ledger_count k s' = ledger_count k s +
      (if (ti_productId x, trf_toLocationId tr) = k then received_quantity dto x else 0)"
    unfolding ledger_count_def receive_transfer_item_effect(2) [OF run x] by (cases k) auto
qed (fact receive_stock.good_other receive_stock.good_stable)+

text \<open>Returning shipped stock.\<close>

lemma return_item_effect:
  assumes "return_item E t u tr x s = (r, s')"
  shows "on_hand p' l' s' = on_hand p' l' s +
      (if p' = ti_productId x \<and> l' = trf_fromLocationId tr then max 0 (ti_shippedQuantity x) else 0)"
    and "ledger p' l' s' = ledger p' l' s +
      (if p' = ti_productId x \<and> l' = trf_fromLocationId tr then max 0 (ti_shippedQuantity x) else 0)"
    and "layer_qty p' l' t' s' = layer_qty p' l' t' s +
      (if p' = ti_productId x \<and> l' = trf_fromLocationId tr \<and> t' = t then max 0 (ti_shippedQuantity x) else 0)"
    and "reserved_at p' l' s' = reserved_at p' l' s"
    and "balances_wf s \<Longrightarrow> balances_wf s'"
    and "transfers s' = transfers s" "products s' = products s" "r = Inr ()"
  using assms bring_in_effect
  by (auto simp: return_item_def split: if_splits)

interpretation return_stock: live_posting stock_count "return_item E t u tr"
    "\<lambda>x. (ti_productId x, trf_fromLocationId tr)" "\<lambda>x. max 0 (ti_shippedQuantity x)" "\<lambda>x s. True" for E t u tr
proof unfold_locales
  fix x s b s' k
  assume run: "return_item E t u tr x s = (Inr b, s')"
  show "stock_count k s' = stock_count k s +
      (if (ti_productId x, trf_fromLocationId tr) = k then max 0 (ti_shippedQuantity x) else 0)"
    unfolding stock_count_def return_item_effect(1) [OF run] by (cases k) auto
next
  fix x s
  obtain r s' where run: "return_item E t u tr x s = (r, s')" by force
  then show "\<exists>b s'. return_item E t u tr x s = (Inr b, s')" using return_item_effect(8) [OF run] by blast
qed simp_all

interpretation return_ledger: free_posting ledger_count "return_item E t u tr"
    "\<lambda>x. (ti_productId x, trf_fromLocationId tr)" "\<lambda>x. max 0 (ti_shippedQuantity x)" "\<lambda>x s. True" for E t u tr
proof unfold_locales
  fix x s b s' k
  assume run: "return_item E t u tr x s = (Inr b, s')"
  show "ledger_count k s' = ledger_count k s +
      (if (ti_productId x, trf_fromLocationId tr) = k then max 0 (ti_shippedQuantity x) else 0)"
    unfolding ledger_count_def return_item_effect(2) [OF run] by (cases k) auto
qed simp_all

section \<open>Lemmas: the rows of the transfers\<close>

text \<open>Each transfer and each item has its own identifier.\<close>

definition transfers_wf :: "db \<Rightarrow> bool" where
  "transfers_wf s \<longleftrightarrow> distinct (map trf_id (transfers s)) \<and>
     distinct (map ti_id (concat (map trf_items (transfers s))))"

definition edit_transfer :: "id \<Rightarrow> (stock_transfer \<Rightarrow> stock_transfer) \<Rightarrow> db \<Rightarrow> db" where
  "edit_transfer i f s = s\<lparr>transfers := update_where (\<lambda>x. trf_id x = i) f (transfers s)\<rparr>"

lemma find_transfer_some:
  "find_transfer t i s = Some tr \<Longrightarrow> tr \<in> set (transfers s) \<and> trf_id tr = i \<and> trf_tenantId tr = t"
  by (auto simp: find_transfer_def dest: find_SomeD)

lemma update_transfer_run:
  assumes "tr \<in> set (transfers s)"
  shows "update_transfer (\<lambda>x. trf_id x = trf_id tr) f s = (Inr (), edit_transfer (trf_id tr) f s)"
  using assms by (auto simp: update_row_def edit_transfer_def list_ex_iff)

lemma edit_transfer_frame:
  "balances (edit_transfer i f s) = balances s" "movements (edit_transfer i f s) = movements s"
  "layers (edit_transfer i f s) = layers s" "products (edit_transfer i f s) = products s"
  "clock (edit_transfer i f s) = clock s" "tenants (edit_transfer i f s) = tenants s"
  by (simp_all add: edit_transfer_def)

lemma find_transfer_edit:
  assumes "find_transfer t i s = Some tr" "\<And>x. trf_id (f x) = trf_id x" "\<And>x. trf_tenantId (f x) = trf_tenantId x"
  shows "find_transfer t i (edit_transfer i f s) = Some (f tr)"
proof -
  have "List.find (\<lambda>x. trf_id x = i \<and> trf_tenantId x = t) (update_where (\<lambda>x. trf_id x = i) f (transfers s)) =
      map_option (\<lambda>x. if trf_id x = i then f x else x) (List.find (\<lambda>x. trf_id x = i \<and> trf_tenantId x = t) (transfers s))"
    by (rule find_update_where) (simp add: assms(2,3))
  with assms(1) find_transfer_some [OF assms(1)] show ?thesis
    by (simp add: find_transfer_def edit_transfer_def)
qed

text \<open>Rewriting items one by one, seen from the transfers.\<close>

definition map_items :: "(transfer_item \<Rightarrow> transfer_item) \<Rightarrow> db \<Rightarrow> db" where
  "map_items g s = s\<lparr>transfers := map (\<lambda>x. x\<lparr>trf_items := map g (trf_items x)\<rparr>) (transfers s)\<rparr>"

lemma set_item_map_items: "set_item i f s = map_items (\<lambda>y. if ti_id y = i then f y else y) s"
proof -
  have "(if \<exists>y \<in> set (trf_items x). ti_id y = i
      then x\<lparr>trf_items := update_where (\<lambda>y. ti_id y = i) f (trf_items x)\<rparr> else x) =
      x\<lparr>trf_items := map (\<lambda>y. if ti_id y = i then f y else y) (trf_items x)\<rparr>" for x
  proof (cases "\<exists>y \<in> set (trf_items x). ti_id y = i")
    case False
    then have "map (\<lambda>y. if ti_id y = i then f y else y) (trf_items x) = trf_items x"
      by (intro map_idI) auto
    with False show ?thesis by simp
  qed (simp add: update_where_def)
  note eq = this
  have "update_where (\<lambda>x. \<exists>y \<in> set (trf_items x). ti_id y = i)
     (\<lambda>x. x\<lparr>trf_items := update_where (\<lambda>y. ti_id y = i) f (trf_items x)\<rparr>) (transfers s) =
    map (\<lambda>x. x\<lparr>trf_items := map (\<lambda>y. if ti_id y = i then f y else y) (trf_items x)\<rparr>) (transfers s)"
    unfolding update_where_def [of "\<lambda>x. \<exists>y \<in> set (trf_items x). ti_id y = i"] by (intro map_cong refl eq)
  then show ?thesis by (simp add: set_item_def map_items_def)
qed

lemma find_transfer_map_items:
  "find_transfer t i s = Some tr \<Longrightarrow>
   find_transfer t i (map_items g s) = Some (tr\<lparr>trf_items := map g (trf_items tr)\<rparr>)"
proof -
  have "List.find P (map f xs) = map_option f (List.find P xs)" if "\<And>x. P (f x) = P x"
    for P and f :: "stock_transfer \<Rightarrow> stock_transfer" and xs
    using that by (induction xs) auto
  then show "find_transfer t i s = Some tr \<Longrightarrow> ?thesis"
    by (simp add: find_transfer_def map_items_def)
qed

lemma forM_ship_items:
  assumes "distinct (map ti_id xs)" "\<forall>x \<in> set xs. item_exists (ti_id x) s"
    and "forM xs (ship_item E t u tr) s = (Inr us, s')"
  shows "\<exists>g. transfers s' = transfers (map_items g s) \<and>
    (\<forall>y. ti_id (g y) = ti_id y \<and> ti_productId (g y) = ti_productId y \<and>
         ti_requestedQuantity (g y) = ti_requestedQuantity y) \<and>
    (\<forall>x \<in> set xs. \<forall>y. ti_id y = ti_id x \<longrightarrow> ti_shippedQuantity (g y) = ti_requestedQuantity x) \<and>
    (\<forall>y. ti_id y \<notin> ti_id ` set xs \<longrightarrow> g y = y)"
  using assms
proof (induction xs arbitrary: s us)
  case Nil
  then show ?case by (intro exI [of _ "\<lambda>y. y"]) (simp add: map_items_def)
next
  case (Cons x xs)
  from Cons.prems(3) obtain b s1 us' where x: "ship_item E t u tr x s = (Inr b, s1)"
    and xs: "forM xs (ship_item E t u tr) s1 = (Inr us', s')" by (auto simp: bindM_Inr)
  have e: "item_exists (ti_id x) s" using Cons.prems(2) by simp
  obtain w where "transfers s1 = transfers (set_item (ti_id x)
      (\<lambda>y. y\<lparr>ti_shippedQuantity := ti_requestedQuantity x, ti_shippedUnitCost := Some (e_col E w)\<rparr>) s)"
    by (rule ship_item_cases [OF x e])
  then obtain f where f: "transfers s1 = transfers (map_items f s)"
    and ff: "\<forall>y. ti_id (f y) = ti_id y \<and> ti_productId (f y) = ti_productId y \<and>
         ti_requestedQuantity (f y) = ti_requestedQuantity y"
      "\<forall>y. ti_id y = ti_id x \<longrightarrow> ti_shippedQuantity (f y) = ti_requestedQuantity x"
      "\<forall>y. ti_id y \<noteq> ti_id x \<longrightarrow> f y = y"
    unfolding set_item_map_items by force
  have "\<forall>y \<in> set xs. item_exists (ti_id y) s1"
    using Cons.prems(2) ship_item_effect(6) [OF x e] by simp
  from Cons.IH [OF _ this xs] Cons.prems(1) obtain g where g: "transfers s' = transfers (map_items g s1)"
    and gg: "\<forall>y. ti_id (g y) = ti_id y \<and> ti_productId (g y) = ti_productId y \<and>
         ti_requestedQuantity (g y) = ti_requestedQuantity y"
      "\<forall>x \<in> set xs. \<forall>y. ti_id y = ti_id x \<longrightarrow> ti_shippedQuantity (g y) = ti_requestedQuantity x"
      "\<forall>y. ti_id y \<notin> ti_id ` set xs \<longrightarrow> g y = y"
    by auto
  have new: "ti_id x \<notin> ti_id ` set xs" using Cons.prems(1) by simp
  show ?case
  proof (intro exI [of _ "g \<circ> f"] conjI allI ballI impI)
    show "transfers s' = transfers (map_items (g \<circ> f) s)" unfolding g by (simp add: map_items_def f)
    fix z y :: transfer_item assume z: "z \<in> set (x # xs)" and y: "ti_id y = ti_id z"
    show "ti_shippedQuantity ((g \<circ> f) y) = ti_requestedQuantity z"
    proof (cases "z = x")
      case True
      with y new ff gg(3) have "g (f y) = f y" by simp
      with True y ff(2) show ?thesis by simp
    next
      case False
      with z have z: "z \<in> set xs" by simp
      with new have "ti_id z \<noteq> ti_id x" by (metis imageI)
      with y ff(3) gg(2) z show ?thesis by simp
    qed
  next
    fix y :: transfer_item assume "ti_id y \<notin> ti_id ` set (x # xs)"
    with ff(3) gg(3) show "(g \<circ> f) y = y" by simp
  qed (use ff(1) gg(1) in simp_all)
qed

section \<open>Lemmas: the requests as a whole\<close>

definition item_quantities :: "stock_transfer \<Rightarrow> (transfer_item \<Rightarrow> int) \<Rightarrow> id \<Rightarrow> int" where
  "item_quantities tr q p = (\<Sum>x\<leftarrow>trf_items tr. if ti_productId x = p then q x else 0)"

lemma item_quantities_key:
  "(\<Sum>x\<leftarrow>trf_items tr. if (ti_productId x, l) = (p', l') then q x else 0) =
   (if l' = l then item_quantities tr q p' else 0)"
  by (auto simp: item_quantities_def)

definition shippable :: "id \<Rightarrow> db \<Rightarrow> stock_transfer \<Rightarrow> bool" where
  "shippable t s tr \<longleftrightarrow> trf_status tr = DRAFT \<and>
     (\<forall>x \<in> set (trf_items tr). ti_requestedQuantity x \<le> tenant_available t (ti_productId x) (trf_fromLocationId tr) s)"

definition requests_positive :: "stock_transfer \<Rightarrow> bool" where
  "requests_positive tr \<longleftrightarrow> (\<forall>x \<in> set (trf_items tr). 1 \<le> ti_requestedQuantity x)"

lemma items_exist: "tr \<in> set (transfers s) \<Longrightarrow> x \<in> set (trf_items tr) \<Longrightarrow> item_exists (ti_id x) s"
  by (auto simp: item_exists_def)

lemma item_exists_edit:
  assumes "\<And>x. trf_items (f x) = trf_items x"
  shows "item_exists j (edit_transfer i f s) = item_exists j s"
  unfolding item_exists_ids edit_transfer_def update_where_def by (auto simp: assms)

lemma distinct_map_concat_member:
  "distinct (map k (concat (map f xs))) \<Longrightarrow> x \<in> set xs \<Longrightarrow> distinct (map k (f x))"
  by (induction xs) auto

lemma shippable_has_balance:
  assumes "shippable t s tr" "requests_positive tr" "balances_wf s" "x \<in> set (trf_items tr)"
  shows "has_balance (ti_productId x) (trf_fromLocationId tr) s"
proof -
  have "tenant_available t (ti_productId x) (trf_fromLocationId tr) s \<noteq> 0"
    using assms(1,2,4) by (force simp: shippable_def requests_positive_def)
  then show ?thesis using assms(3) by (rule tenant_available_le(1))
qed

lemma ship_run:
  assumes "find_transfer t i s = Some tr"
  shows "shippable t s tr \<Longrightarrow> ship E t u i n s = ship_tx E t u n tr s"
    and "\<not> shippable t s tr \<Longrightarrow> \<exists>e. ship E t u i n s = (Inl e, s)"
proof -
  let ?items = "map (\<lambda>x. (ti_productId x, ti_requestedQuantity x)) (trf_items tr)"
  have avail: "(\<exists>a. validateStockAvailability t (trf_fromLocationId tr) ?items s = (Inr a, s)) \<longleftrightarrow>
      (\<forall>x \<in> set (trf_items tr). ti_requestedQuantity x \<le> tenant_available t (ti_productId x) (trf_fromLocationId tr) s)"
    unfolding validateStockAvailability_ok by auto
  note checked = checked_run [OF readonly_validateStockAvailability avail, of "\<lambda>_. ship_tx E t u n tr"]
  have ship: "ship E t u i n s = (if trf_status tr \<noteq> DRAFT then (Inl (ConflictException (CannotShip (trf_status tr))), s)
      else bindM (validateStockAvailability t (trf_fromLocationId tr) ?items) (\<lambda>_. ship_tx E t u n tr) s)"
    using assms by (simp add: ship_def run_simps bindM_def)
  show "ship E t u i n s = ship_tx E t u n tr s" if "shippable t s tr"
    using that checked(1) unfolding ship shippable_def by auto
  show "\<exists>e. ship E t u i n s = (Inl e, s)" if "\<not> shippable t s tr"
    using that checked(2) unfolding ship shippable_def by auto
qed

definition ship_mark :: "string option \<Rightarrow> stock_transfer \<Rightarrow> instant \<Rightarrow> stock_transfer \<Rightarrow> stock_transfer" where
  "ship_mark n tr d x = x\<lparr>trf_status := IN_TRANSIT, trf_shippedAt := Some d,
     trf_note := tagged_note ''Ship'' (trf_note tr) n\<rparr>"

lemma ship_tx_effect:
  assumes "find_transfer t i s = Some tr" "transfers_wf s"
  shows "\<exists>s'. ship_tx E t u n tr s = (Inr (), s') \<and>
    (\<exists>tr'. find_transfer t i s' = Some tr' \<and> trf_status tr' = IN_TRANSIT \<and>
       trf_fromLocationId tr' = trf_fromLocationId tr \<and> trf_toLocationId tr' = trf_toLocationId tr \<and>
       trf_transferNumber tr' = trf_transferNumber tr \<and>
       map ti_productId (trf_items tr') = map ti_productId (trf_items tr) \<and>
       map ti_id (trf_items tr') = map ti_id (trf_items tr) \<and>
       map ti_shippedQuantity (trf_items tr') = map ti_requestedQuantity (trf_items tr)) \<and>
    (\<forall>p l. ledger p l s' = ledger p l s
       - (if l = trf_fromLocationId tr then item_quantities tr ti_requestedQuantity p else 0) \<and>
       reserved_at p l s' = reserved_at p l s) \<and>
    ((\<forall>x \<in> set (trf_items tr). has_balance (ti_productId x) (trf_fromLocationId tr) s) \<longrightarrow>
      (\<forall>p l. on_hand p l s' = on_hand p l s
       - (if l = trf_fromLocationId tr then item_quantities tr ti_requestedQuantity p else 0))) \<and>
    (balances_wf s \<longrightarrow> balances_wf s') \<and> (layers_wf s \<longrightarrow> layers_wf s') \<and> products s' = products s"
proof -
  note tr = find_transfer_some [OF assms(1)]
  let ?mark = "ship_mark n tr (clock s)"
  let ?s0 = "edit_transfer i ?mark s"
  have mark: "trf_id (?mark x) = trf_id x" "trf_tenantId (?mark x) = trf_tenantId x" "trf_items (?mark x) = trf_items x" for x
    by (simp_all add: ship_mark_def)
  note f0 = edit_transfer_frame [of i ?mark s]
  have ex: "\<forall>x \<in> set (trf_items tr). item_exists (ti_id x) ?s0"
    unfolding item_exists_edit [of ?mark, OF mark(3)] using tr items_exist by blast
  have "\<exists>us s'. forM (trf_items tr) (ship_item E t u tr) ?s0 = (Inr us, s')"
  proof -
    have "\<exists>us s'. forM xs (ship_item E t u tr) z = (Inr us, s')" if "\<forall>x \<in> set xs. item_exists (ti_id x) z" for xs z
      using that
    proof (induction xs arbitrary: z)
      case (Cons x xs)
      then obtain z' where z': "ship_item E t u tr x z = (Inr (), z')" using ship_item_runs by (metis list.set_intros(1))
      then have "\<forall>y \<in> set xs. item_exists (ti_id y) z'"
        using Cons.prems by (simp add: ship_item_effect(6) [OF z'])
      from Cons.IH [OF this] z' show ?case by (auto simp: bindM_Inr)
    qed simp
    then show ?thesis using ex .
  qed
  then obtain us s' where loop: "forM (trf_items tr) (ship_item E t u tr) ?s0 = (Inr us, s')" by blast
  have run: "ship_tx E t u n tr s = (Inr (), s')"
    using update_transfer_run [of tr s ?mark] tr loop
    by (simp add: ship_tx_def transaction_def bindM_def ship_mark_def [abs_def])
  have d: "distinct (map ti_id (trf_items tr))"
    using assms(2) tr by (auto simp: transfers_wf_def distinct_map_concat_member)
  from forM_ship_items [OF d ex loop] obtain g where g: "transfers s' = transfers (map_items g ?s0)"
    "\<forall>y. ti_id (g y) = ti_id y \<and> ti_productId (g y) = ti_productId y \<and> ti_requestedQuantity (g y) = ti_requestedQuantity y"
    "\<forall>x \<in> set (trf_items tr). \<forall>y. ti_id y = ti_id x \<longrightarrow> ti_shippedQuantity (g y) = ti_requestedQuantity x"
    by blast
  have "find_transfer t i s' = find_transfer t i (map_items g ?s0)" by (simp add: find_transfer_def g(1))
  also have "\<dots> = Some ((?mark tr)\<lparr>trf_items := map g (trf_items tr)\<rparr>)"
    using find_transfer_map_items [OF find_transfer_edit [OF assms(1) mark(1,2)], of g] by (simp add: mark(3))
  finally have found: "find_transfer t i s' = Some ((?mark tr)\<lparr>trf_items := map g (trf_items tr)\<rparr>)" .
  have led: "ledger p l s' = ledger p l s
       - (if l = trf_fromLocationId tr then item_quantities tr ti_requestedQuantity p else 0)" for p l
  proof -
    from ship_ledger.forM_post [OF ex loop, of "(p, l)"] show ?thesis
      unfolding ledger_count_def sum_if_uminus item_quantities_key ledger_cong [OF f0(2)] fst_conv snd_conv by auto
  qed
  have stock: "on_hand p l s' = on_hand p l s
       - (if l = trf_fromLocationId tr then item_quantities tr ti_requestedQuantity p else 0)"
    if "\<forall>x \<in> set (trf_items tr). has_balance (ti_productId x) (trf_fromLocationId tr) s" for p l
  proof -
    have "\<forall>x \<in> set (trf_items tr). shippable_item tr x ?s0"
      using that ex unfolding shippable_item_def on_hand_cong(3) [OF f0(1)] by blast
    from ship_stock.forM_post [OF this loop, of "(p, l)"] show ?thesis
      unfolding stock_count_def sum_if_uminus item_quantities_key on_hand_cong(1) [OF f0(1)] fst_conv snd_conv by auto
  qed
  have inv: "I s'" if base: "I ?s0" and step: "\<And>x z r z'. item_exists (ti_id x) z \<Longrightarrow> I z \<Longrightarrow> ship_item E t u tr x z = (r, z') \<Longrightarrow> I z'" for I
  proof -
    have "I s' \<and> (\<forall>x \<in> set (trf_items tr). item_exists (ti_id x) s')"
      if "\<forall>x \<in> set (trf_items tr). item_exists (ti_id x) z" "I z" "forM xs (ship_item E t u tr) z = (Inr vs, s')"
        "set xs \<subseteq> set (trf_items tr)" for xs z vs
      using that
    proof (induction xs arbitrary: z vs)
      case (Cons x xs)
      then obtain z' vs' where x: "ship_item E t u tr x z = (Inr (), z')" and xs: "forM xs (ship_item E t u tr) z' = (Inr vs', s')"
        by (auto simp: bindM_Inr)
      have e: "item_exists (ti_id x) z" using Cons.prems(1,4) by auto
      show ?case
        by (rule Cons.IH [OF _ step [OF e Cons.prems(2) x] xs])
          (use Cons.prems(1,4) ship_item_effect(6) [OF x e] in auto)
    qed simp
    from this [OF ex base loop subset_refl] show "I s'" ..
  qed
  have wf: "balances_wf s'" if "balances_wf s"
  proof (rule inv)
    show "balances_wf ?s0" using that by (simp add: balances_wf_def f0)
  qed (rule ship_item_effect(5))
  have lwf: "layers_wf s'" if "layers_wf s"
  proof (rule inv)
    show "layers_wf ?s0" using that unfolding layer_cong(3) [OF f0(3)] .
  qed (rule ship_item_effect(8))
  have pr: "products s' = products s"
  proof (rule inv)
    show "products ?s0 = products s" by (rule f0)
  qed (simp add: ship_item_effect(7))
  have res: "reserved_at p l s' = reserved_at p l s" for p l
  proof (rule inv)
    show "reserved_at p l ?s0 = reserved_at p l s" by (rule on_hand_cong(2) [OF f0(1)])
  qed (simp add: ship_item_effect(4))
  show ?thesis
  proof (intro exI [of _ s'] conjI)
    show "\<exists>tr'. find_transfer t i s' = Some tr' \<and> trf_status tr' = IN_TRANSIT \<and>
       trf_fromLocationId tr' = trf_fromLocationId tr \<and> trf_toLocationId tr' = trf_toLocationId tr \<and>
       trf_transferNumber tr' = trf_transferNumber tr \<and>
       map ti_productId (trf_items tr') = map ti_productId (trf_items tr) \<and>
       map ti_id (trf_items tr') = map ti_id (trf_items tr) \<and>
       map ti_shippedQuantity (trf_items tr') = map ti_requestedQuantity (trf_items tr)"
      by (rule exI, rule conjI [OF found]) (use g(2,3) in \<open>simp add: ship_mark_def o_def\<close>)
  qed (use run led res stock wf lwf pr in blast)+
qed

text \<open>What a receipt must say about every item.\<close>

definition accounted :: "receive_transfer_dto \<Rightarrow> transfer_item \<Rightarrow> bool" where
  "accounted dto x \<longleftrightarrow> (\<exists>r. item_map dto (ti_productId x) = Some r \<and>
     rc_receivedQuantity r \<le> ti_shippedQuantity x \<and>
     (rc_receivedQuantity r < ti_shippedQuantity x \<longrightarrow> \<not> empty_string (rc_shortageReason r)))"

lemma receive_check_iff: "receive_check s0 dto x s1 = (Inr (), s2) \<longleftrightarrow> s2 = s1 \<and> accounted dto x"
  by (cases "item_map dto (ti_productId x)")
    (auto simp: receive_check_def bindM_def accounted_def empty_string_def Let_def split: option.splits)

lemma readonly_receive_check: "readonly (receive_check s0 dto x)"
  unfolding receive_check_def Let_def by (intro svc_intros)

definition transfer_receivable :: "receive_transfer_dto \<Rightarrow> stock_transfer \<Rightarrow> bool" where
  "transfer_receivable dto tr \<longleftrightarrow> trf_status tr = IN_TRANSIT \<and> (\<forall>x \<in> set (trf_items tr). accounted dto x)"

lemma receive_run:
  assumes "find_transfer t i s = Some tr"
  shows "transfer_receivable dto tr \<Longrightarrow> receive E t u i dto s = receive_tx E t u dto tr s"
    and "\<not> transfer_receivable dto tr \<Longrightarrow> \<exists>e. receive E t u i dto s = (Inl e, s)"
proof -
  have ro: "readonly (forM (trf_items tr) (receive_check s dto))"
    by (intro readonly_forM readonly_receive_check)
  have ok: "(\<exists>a. forM (trf_items tr) (receive_check s dto) s = (Inr a, s)) \<longleftrightarrow> (\<forall>x \<in> set (trf_items tr). accounted dto x)"
    using forM_unit_iff [of "receive_check s dto" "accounted dto", OF receive_check_iff, of "trf_items tr" s s] by simp
  note checked = checked_run [OF ro ok, of "\<lambda>_. receive_tx E t u dto tr"]
  have here: "bindM (\<lambda>s. forM (trf_items tr) (receive_check s dto) s) f s =
      bindM (forM (trf_items tr) (receive_check s dto)) f s" for f :: "unit list \<Rightarrow> unit handler"
    by (simp add: bindM_def)
  have rec: "receive E t u i dto s = (if trf_status tr \<noteq> IN_TRANSIT
      then (Inl (ConflictException (CannotReceive (trf_status tr))), s)
      else bindM (\<lambda>s. forM (trf_items tr) (receive_check s dto) s) (\<lambda>_. receive_tx E t u dto tr) s)"
    using assms by (simp add: receive_def run_simps bindM_def)
  show "receive E t u i dto s = receive_tx E t u dto tr s" if "transfer_receivable dto tr"
    using that checked(1) unfolding rec here transfer_receivable_def by auto
  show "\<exists>e. receive E t u i dto s = (Inl e, s)" if "\<not> transfer_receivable dto tr"
    using that checked(2) unfolding rec here transfer_receivable_def by auto
qed

definition has_status :: "id \<Rightarrow> id \<Rightarrow> TransferStatus \<Rightarrow> db \<Rightarrow> bool" where
  "has_status t i st s \<longleftrightarrow> (\<exists>tr. find_transfer t i s = Some tr \<and> trf_status tr = st)"

lemma has_status_set_item:
  assumes "has_status t i st s" "transfers s' = transfers (set_item j f s)"
  shows "has_status t i st s'"
proof -
  from assms(1) obtain tr where tr: "find_transfer t i s = Some tr" "trf_status tr = st"
    by (auto simp: has_status_def)
  have "find_transfer t i s' = find_transfer t i (map_items (\<lambda>y. if ti_id y = j then f y else y) s)"
    using assms(2) by (simp add: find_transfer_def set_item_map_items)
  with find_transfer_map_items [OF tr(1)] tr(2) show ?thesis by (simp add: has_status_def)
qed

lemma receive_tx_effect:
  assumes "find_transfer t i s = Some tr" "\<forall>x \<in> set (trf_items tr). item_map dto (ti_productId x) \<noteq> None"
  shows "\<exists>s'. receive_tx E t u dto tr s = (Inr (), s') \<and> has_status t i COMPLETED s' \<and>
    (\<forall>p l. let d = (if l = trf_toLocationId tr then item_quantities tr (received_quantity dto) p else 0) in
       on_hand p l s' = on_hand p l s + d \<and> ledger p l s' = ledger p l s + d \<and>
       reserved_at p l s' = reserved_at p l s) \<and>
    (balances_wf s \<longrightarrow> balances_wf s') \<and> products s' = products s"
proof -
  note tr = find_transfer_some [OF assms(1)]
  define mark :: "stock_transfer \<Rightarrow> stock_transfer" where
    "mark x = x\<lparr>trf_status := COMPLETED, trf_receivedAt := Some (clock s),
       trf_note := tagged_note ''Receive'' (trf_note tr) (rt_note dto)\<rparr>" for x
  let ?s0 = "edit_transfer i mark s"
  have mark: "trf_id (mark x) = trf_id x" "trf_tenantId (mark x) = trf_tenantId x" "trf_items (mark x) = trf_items x" for x
    by (simp_all add: mark_def)
  note f0 = edit_transfer_frame [of i mark s]
  have good: "\<forall>x \<in> set (trf_items tr). receivable_item dto x ?s0"
    unfolding receivable_item_def item_exists_edit [of mark, OF mark(3)] using tr items_exist assms(2) by blast
  from receive_stock.forM_runs [OF this] obtain us s' where
    loop: "forM (trf_items tr) (receive_transfer_item E t u tr dto) ?s0 = (Inr us, s')" by blast
  have run: "receive_tx E t u dto tr s = (Inr (), s')"
    using update_transfer_run [of tr s mark] tr loop
    by (simp add: receive_tx_def transaction_def bindM_def mark_def [abs_def])
  have inv: "I s'" if base: "I ?s0"
    and step: "\<And>x z r z'. receivable_item dto x z \<Longrightarrow> I z \<Longrightarrow> receive_transfer_item E t u tr dto x z = (r, z') \<Longrightarrow> I z'" for I
  proof (rule forM_preserves [where I = I, OF _ base loop])
    fix x z r z'
    assume I: "I z" and run: "receive_transfer_item E t u tr dto x z = (r, z')"
    show "I z'"
    proof (cases "receivable_item dto x z")
      case True
      then show ?thesis using I run by (rule step)
    next
      case False
      then have "receive_transfer_item E t u tr dto x z = (Inl RecordNotFound, z)"
        by (cases "item_map dto (ti_productId x)")
          (simp_all add: receivable_item_def receive_transfer_item_def bindM_def Let_def update_transfer_item_run)
      with run have "z' = z" by simp
      with I show ?thesis by simp
    qed
  qed
  have "has_status t i COMPLETED s'"
  proof (rule inv)
    show "has_status t i COMPLETED ?s0"
      unfolding has_status_def find_transfer_edit [OF assms(1) mark(1,2)] by (simp add: mark_def [of tr])
  qed (use receive_transfer_item_effect(9) has_status_set_item in blast)
  moreover have "on_hand p l s' = on_hand p l s + (if l = trf_toLocationId tr then item_quantities tr (received_quantity dto) p else 0)" for p l
    using receive_stock.forM_post [OF good loop, of "(p, l)"]
    unfolding stock_count_def item_quantities_key on_hand_cong(1) [OF f0(1)] fst_conv snd_conv .
  moreover have "ledger p l s' = ledger p l s + (if l = trf_toLocationId tr then item_quantities tr (received_quantity dto) p else 0)" for p l
    using receive_ledger.forM_post [OF good loop, of "(p, l)"]
    unfolding ledger_count_def item_quantities_key ledger_cong [OF f0(2)] fst_conv snd_conv .
  moreover have "reserved_at p l s' = reserved_at p l s" for p l
  proof (rule inv)
    show "reserved_at p l ?s0 = reserved_at p l s" by (rule on_hand_cong(2) [OF f0(1)])
  qed (simp add: receive_transfer_item_effect(4))
  moreover have "balances_wf s'" if "balances_wf s"
  proof (rule inv)
    show "balances_wf ?s0" using that by (simp add: balances_wf_def f0)
  qed (rule receive_transfer_item_effect(5))
  moreover have "products s' = products s"
  proof (rule inv)
    show "products ?s0 = products s" by (rule f0)
  qed (simp add: receive_transfer_item_effect(7))
  ultimately show ?thesis using run unfolding Let_def by blast
qed

lemma cancel_run:
  assumes "find_transfer t i s = Some tr"
  shows "trf_status tr \<in> {DRAFT, IN_TRANSIT} \<Longrightarrow> cancel E t u i s = cancel_tx E t u tr s"
    and "trf_status tr \<notin> {DRAFT, IN_TRANSIT} \<Longrightarrow> \<exists>e. cancel E t u i s = (Inl e, s)"
  using assms by (cases "trf_status tr"; simp add: cancel_def run_simps bindM_def)+

lemma cancel_tx_effect:
  assumes "find_transfer t i s = Some tr"
  shows "\<exists>s'. cancel_tx E t u tr s = (Inr (), s') \<and> has_status t i CANCELLED s' \<and>
    (\<forall>p l. let d = (if trf_status tr = IN_TRANSIT \<and> l = trf_fromLocationId tr
                    then item_quantities tr (\<lambda>x. max 0 (ti_shippedQuantity x)) p else 0) in
       on_hand p l s' = on_hand p l s + d \<and> ledger p l s' = ledger p l s + d \<and>
       reserved_at p l s' = reserved_at p l s) \<and>
    (balances_wf s \<longrightarrow> balances_wf s') \<and> products s' = products s"
proof -
  note tr = find_transfer_some [OF assms]
  let ?mark = "\<lambda>d x. x\<lparr>trf_status := CANCELLED, trf_cancelledAt := Some d\<rparr>"
  have "\<exists>s1. (if trf_status tr = IN_TRANSIT
            then bindM (forM (trf_items tr) (return_item E t u tr)) (\<lambda>_. ret ()) else ret ()) s = (Inr (), s1) \<and>
    transfers s1 = transfers s \<and> (balances_wf s \<longrightarrow> balances_wf s1) \<and> products s1 = products s \<and>
    (\<forall>p l. let d = (if trf_status tr = IN_TRANSIT \<and> l = trf_fromLocationId tr
                    then item_quantities tr (\<lambda>x. max 0 (ti_shippedQuantity x)) p else 0) in
       on_hand p l s1 = on_hand p l s + d \<and> ledger p l s1 = ledger p l s + d \<and>
       reserved_at p l s1 = reserved_at p l s)"
  proof (cases "trf_status tr = IN_TRANSIT")
    case True
    have good: "\<forall>x \<in> set (trf_items tr). True" by simp
    from return_stock.forM_runs [OF good] obtain us s1 where
      loop: "forM (trf_items tr) (return_item E t u tr) s = (Inr us, s1)" by blast
    note inv = forM_preserves [OF _ _ loop]
    have "transfers s1 = transfers s \<and> products s1 = products s"
      by (rule inv) (simp_all add: return_item_effect(6,7))
    moreover have "balances_wf s1" if "balances_wf s"
      by (rule inv [of balances_wf, OF _ that]) (rule return_item_effect(5))
    moreover have "reserved_at p l s1 = reserved_at p l s" for p l
      by (rule inv [of "\<lambda>z. reserved_at p l z = reserved_at p l s"]) (simp_all add: return_item_effect(4))
    moreover have "on_hand p l s1 = on_hand p l s +
        (if l = trf_fromLocationId tr then item_quantities tr (\<lambda>x. max 0 (ti_shippedQuantity x)) p else 0)" for p l
      using return_stock.forM_post [OF good loop, of "(p, l)"]
      unfolding stock_count_def item_quantities_key fst_conv snd_conv .
    moreover have "ledger p l s1 = ledger p l s +
        (if l = trf_fromLocationId tr then item_quantities tr (\<lambda>x. max 0 (ti_shippedQuantity x)) p else 0)" for p l
      using return_ledger.forM_post [OF good loop, of "(p, l)"]
      unfolding ledger_count_def item_quantities_key fst_conv snd_conv .
    ultimately show ?thesis using True loop by (simp add: bindM_def)
  next
    case False
    then show ?thesis by simp
  qed
  then obtain s1 where s1: "(if trf_status tr = IN_TRANSIT
            then bindM (forM (trf_items tr) (return_item E t u tr)) (\<lambda>_. ret ()) else ret ()) s = (Inr (), s1)"
    and trs: "transfers s1 = transfers s" and wf: "balances_wf s \<longrightarrow> balances_wf s1" "products s1 = products s"
    and eff: "\<forall>p l. let d = (if trf_status tr = IN_TRANSIT \<and> l = trf_fromLocationId tr
                    then item_quantities tr (\<lambda>x. max 0 (ti_shippedQuantity x)) p else 0) in
       on_hand p l s1 = on_hand p l s + d \<and> ledger p l s1 = ledger p l s + d \<and>
       reserved_at p l s1 = reserved_at p l s"
    by blast
  let ?s' = "edit_transfer i (?mark (clock s1)) s1"
  note f0 = edit_transfer_frame [of i "?mark (clock s1)" s1]
  have "update_transfer (\<lambda>x. trf_id x = trf_id tr) (?mark (clock s1)) s1 = (Inr (), ?s')"
    using update_transfer_run [of tr s1] tr trs by simp
  then have run: "cancel_tx E t u tr s = (Inr (), ?s')"
    by (simp add: cancel_tx_def transaction_def bindM_def s1)
  have "find_transfer t i s1 = Some tr" using assms trs by (simp add: find_transfer_def)
  then have "has_status t i CANCELLED ?s'"
    using find_transfer_edit [of t i s1 tr "?mark (clock s1)"] by (simp add: has_status_def)
  moreover have "balances_wf s \<longrightarrow> balances_wf ?s'" using wf(1) by (simp add: balances_wf_def f0)
  ultimately show ?thesis
    using run eff wf(2) f0(4)
    unfolding on_hand_cong(1,2) [OF f0(1), symmetric] ledger_cong [OF f0(2), symmetric]
    by (intro exI [of _ ?s'] conjI) simp_all
qed

section \<open>Lemmas: the books of the transfers\<close>

text \<open>What no request on a transfer changes: its identifier, its items and what they ask for.\<close>

definition transfer_keys :: "db \<Rightarrow> (id \<times> (id \<times> int) list) list" where
  "transfer_keys s = map (\<lambda>x. (trf_id x, map (\<lambda>y. (ti_id y, ti_requestedQuantity y)) (trf_items x))) (transfers s)"

definition transfers_ok :: "db \<Rightarrow> bool" where
  "transfers_ok s \<longleftrightarrow> distinct (map fst (transfer_keys s)) \<and>
     distinct (concat (map (map fst \<circ> snd) (transfer_keys s))) \<and>
     (\<forall>(i, ys) \<in> set (transfer_keys s). \<forall>(j, q) \<in> set ys. 1 \<le> q)"

lemma transfers_ok_wf: "transfers_ok s \<Longrightarrow> transfers_wf s"
proof -
  have "map fst (transfer_keys s) = map trf_id (transfers s)" by (simp add: transfer_keys_def o_def)
  moreover have "concat (map (map fst \<circ> snd) (transfer_keys s)) = map ti_id (concat (map trf_items (transfers s)))"
    by (simp add: transfer_keys_def o_def map_concat)
  ultimately show "transfers_ok s \<Longrightarrow> transfers_wf s" by (simp add: transfers_ok_def transfers_wf_def)
qed

lemma transfers_ok_positive: "transfers_ok s \<Longrightarrow> tr \<in> set (transfers s) \<Longrightarrow> requests_positive tr"
  by (force simp: transfers_ok_def transfer_keys_def requests_positive_def)

lemma transfers_ok_keys: "transfer_keys s' = transfer_keys s \<Longrightarrow> transfers_ok s' = transfers_ok s"
  by (simp add: transfers_ok_def)

lemma transfer_keys_cong: "transfers s' = transfers s \<Longrightarrow> transfer_keys s' = transfer_keys s"
  by (simp add: transfer_keys_def)

lemma transfer_keys_edit:
  assumes "\<And>x. trf_id (f x) = trf_id x" "\<And>x. trf_items (f x) = trf_items x"
  shows "transfer_keys (edit_transfer i f s) = transfer_keys s"
  unfolding transfer_keys_def edit_transfer_def by (simp add: map_update_where assms)

lemma transfer_keys_map_items:
  assumes "\<And>y. ti_id (g y) = ti_id y" "\<And>y. ti_requestedQuantity (g y) = ti_requestedQuantity y"
  shows "transfer_keys (map_items g s) = transfer_keys s"
  by (simp add: transfer_keys_def map_items_def o_def assms)

lemma ship_item_keys:
  assumes "ship_item E t u tr x s = (r, s')"
  shows "transfer_keys s' = transfer_keys s"
proof (cases "item_exists (ti_id x) s")
  case True
  obtain w where "transfers s' = transfers (set_item (ti_id x)
      (\<lambda>y. y\<lparr>ti_shippedQuantity := ti_requestedQuantity x, ti_shippedUnitCost := Some (e_col E w)\<rparr>) s)"
    by (rule ship_item_cases [OF assms True])
  from transfer_keys_cong [OF this] show ?thesis
    unfolding set_item_map_items by (simp add: transfer_keys_map_items)
next
  case False
  then have "ship_item E t u tr x s = (Inl RecordNotFound, s)"
    by (simp add: ship_item_def Let_def bindM_def calculateWAC_def update_transfer_item_run)
  with assms show ?thesis by simp
qed

lemma receive_item_keys:
  assumes "receive_transfer_item E t u tr dto x s = (r, s')"
  shows "transfer_keys s' = transfer_keys s"
proof (cases "item_map dto (ti_productId x)")
  case None
  with assms show ?thesis by (simp add: receive_transfer_item_def bindM_def)
next
  case (Some rc)
  let ?f = "\<lambda>x. x\<lparr>ti_receivedQuantity := rc_receivedQuantity rc, ti_shortageReason :=
     (case rc_shortageReason rc of None \<Rightarrow> ti_shortageReason x | Some r \<Rightarrow> Some r)\<rparr>"
  show ?thesis
  proof (cases "item_exists (ti_id x) s")
    case True
    have "transfers s' = transfers (set_item (ti_id x) ?f s)"
    proof (cases "0 < rc_receivedQuantity rc")
      case True
      with assms Some \<open>item_exists (ti_id x) s\<close>
      have "bring_in E t u (trf_id tr) TRANSFER (trf_transferNumber tr)
         (''Transfer from '' @ trf_fromLocationId tr) (ti_productId x) (rc_receivedQuantity rc)
         (case ti_shippedUnitCost x of None \<Rightarrow> 0 | Some c \<Rightarrow> c) (trf_toLocationId tr) (set_item (ti_id x) ?f s) = (r, s')"
        by (simp add: receive_transfer_item_def bindM_def Let_def update_transfer_item_run)
      then show ?thesis by (rule bring_in_effect(8))
    next
      case False
      with assms Some \<open>item_exists (ti_id x) s\<close> show ?thesis
        by (simp add: receive_transfer_item_def bindM_def Let_def update_transfer_item_run)
    qed
    from transfer_keys_cong [OF this] show ?thesis
      unfolding set_item_map_items by (simp add: transfer_keys_map_items)
  next
    case False
    with assms Some show ?thesis
      by (simp add: receive_transfer_item_def bindM_def Let_def update_transfer_item_run)
  qed
qed

lemma keeps_transfer_keys:
  "keeps transfer_keys (ship_tx E t u n tr)" "keeps transfer_keys (receive_tx E t u dto tr)"
  "keeps transfer_keys (cancel_tx E t u tr)"
proof -
  have upd: "keeps transfer_keys (update_transfer (\<lambda>x. trf_id x = i) f)"
    if "\<And>x. trf_id (f x) = trf_id x" "\<And>x. trf_items (f x) = trf_items x" for i f
    unfolding keeps_def update_row_def using transfer_keys_edit [of f, OF that] by (auto simp: edit_transfer_def)
  have items: "keeps transfer_keys (ship_item E t u tr x)" "keeps transfer_keys (receive_transfer_item E t u tr dto x)"
    "keeps transfer_keys (return_item E t u tr x)" for x
    unfolding keeps_def
    by (blast intro: ship_item_keys receive_item_keys transfer_keys_cong return_item_effect(6))+
  show "keeps transfer_keys (ship_tx E t u n tr)" "keeps transfer_keys (receive_tx E t u dto tr)"
    unfolding ship_tx_def receive_tx_def by (intro svc_intros upd items; simp)+
  show "keeps transfer_keys (cancel_tx E t u tr)"
    unfolding cancel_tx_def by (intro svc_intros upd items; simp)
qed

text \<open>Every request on a transfer, in one place.\<close>

datatype transfer_request = Ship "string option" | Receive receive_transfer_dto | Cancel

fun run_transfer :: "env \<Rightarrow> id \<Rightarrow> id \<Rightarrow> id \<Rightarrow> transfer_request \<Rightarrow> unit handler" where
  "run_transfer E t u i (Ship n) = ship E t u i n"
| "run_transfer E t u i (Receive dto) = receive E t u i dto"
| "run_transfer E t u i Cancel = cancel E t u i"

lemma no_transfer: "find_transfer t i s = None \<Longrightarrow> run_transfer E t u i rq s = (Inl (NotFoundException TransferNotFound), s)"
  by (cases rq) (simp_all add: ship_def receive_def cancel_def bindM_def)

text \<open>A request either throws and changes nothing, or runs its transaction to the end.\<close>

lemma run_transfer_cases:
  assumes "run_transfer E t u i rq s = (r, s')" "transfers_wf s"
  obtains (thrown) e where "r = Inl e" "s' = s"
  | (shipped) n tr where "rq = Ship n" "find_transfer t i s = Some tr" "shippable t s tr" "r = Inr ()"
      "ship_tx E t u n tr s = (Inr (), s')"
  | (received) dto tr where "rq = Receive dto" "find_transfer t i s = Some tr" "transfer_receivable dto tr" "r = Inr ()"
      "receive_tx E t u dto tr s = (Inr (), s')"
  | (cancelled) tr where "rq = Cancel" "find_transfer t i s = Some tr" "trf_status tr \<in> {DRAFT, IN_TRANSIT}" "r = Inr ()"
      "cancel_tx E t u tr s = (Inr (), s')"
proof (cases "find_transfer t i s")
  case None
  with assms(1) show thesis by (intro that(1)) (auto simp: no_transfer)
next
  case f: (Some tr)
  show thesis
  proof (cases rq)
    case (Ship n)
    show thesis
    proof (cases "shippable t s tr")
      case True
      obtain z where "ship_tx E t u n tr s = (Inr (), z)" using ship_tx_effect [OF f assms(2)] by blast
      with assms(1) Ship ship_run(1) [OF f True] show thesis by (intro that(2) [OF Ship f True]) auto
    next
      case False
      then obtain e where "ship E t u i n s = (Inl e, s)" using ship_run(2) [OF f] by blast
      with assms(1) Ship show thesis by (intro that(1) [of e]) auto
    qed
  next
    case (Receive dto)
    show thesis
    proof (cases "transfer_receivable dto tr")
      case True
      then have "\<forall>x \<in> set (trf_items tr). item_map dto (ti_productId x) \<noteq> None"
        by (auto simp: transfer_receivable_def accounted_def)
      then obtain z where "receive_tx E t u dto tr s = (Inr (), z)" using receive_tx_effect [OF f] by blast
      with assms(1) Receive receive_run(1) [OF f True] show thesis by (intro that(3) [OF Receive f True]) auto
    next
      case False
      then obtain e where "receive E t u i dto s = (Inl e, s)" using receive_run(2) [OF f] by blast
      with assms(1) Receive show thesis by (intro that(1) [of e]) auto
    qed
  next
    case Cancel
    show thesis
    proof (cases "trf_status tr \<in> {DRAFT, IN_TRANSIT}")
      case True
      obtain z where "cancel_tx E t u tr s = (Inr (), z)" using cancel_tx_effect [OF f] by blast
      with assms(1) Cancel cancel_run(1) [OF f True] show thesis by (intro that(4) [OF Cancel f True]) auto
    next
      case False
      then obtain e where "cancel E t u i s = (Inl e, s)" using cancel_run(2) [OF f] by blast
      with assms(1) Cancel show thesis by (intro that(1) [of e]) auto
    qed
  qed
qed

lemma run_transfer_books:
  assumes "books_ok s" "transfers_ok s" "run_transfer E t u i rq s = (r, s')"
  shows "books_ok s'" "transfers_ok s'"
proof -
  note wf = transfers_ok_wf [OF assms(2)]
  have "books_ok s' \<and> transfers_ok s'"
    using assms(3) wf
  proof (cases rule: run_transfer_cases)
    case thrown
    with assms(1,2) show ?thesis by simp
  next
    case (shipped n tr)
    have "requests_positive tr"
      by (rule transfers_ok_positive [OF assms(2)]) (use find_transfer_some [OF shipped(2)] in blast)
    then have "\<forall>x \<in> set (trf_items tr). has_balance (ti_productId x) (trf_fromLocationId tr) s"
      using shippable_has_balance [OF shipped(3)] assms(1) by (simp add: books_ok_def)
    moreover obtain z where z: "ship_tx E t u n tr s = (Inr (), z)" "\<forall>p l. ledger p l z = ledger p l s
       - (if l = trf_fromLocationId tr then item_quantities tr ti_requestedQuantity p else 0)"
      "(\<forall>x \<in> set (trf_items tr). has_balance (ti_productId x) (trf_fromLocationId tr) s) \<longrightarrow>
        (\<forall>p l. on_hand p l z = on_hand p l s
         - (if l = trf_fromLocationId tr then item_quantities tr ti_requestedQuantity p else 0))"
      "balances_wf s \<longrightarrow> balances_wf z" "products z = products s"
      using ship_tx_effect [OF shipped(2) wf, of E u n] by blast
    moreover have "z = s'" using z(1) shipped(5) by simp
    ultimately have "books_ok s'" using assms(1) by (simp add: books_ok_def books_balance_def)
    moreover have "transfer_keys s' = transfer_keys s" by (rule keepsD [OF keeps_transfer_keys(1) shipped(5)])
    ultimately show ?thesis using assms(2) transfers_ok_keys by blast
  next
    case (received dto tr)
    then have "\<forall>x \<in> set (trf_items tr). item_map dto (ti_productId x) \<noteq> None"
      by (auto simp: transfer_receivable_def accounted_def)
    then obtain z where z: "receive_tx E t u dto tr s = (Inr (), z)" "balances_wf s \<longrightarrow> balances_wf z"
      "products z = products s"
      "\<forall>p l. on_hand p l z = on_hand p l s + (if l = trf_toLocationId tr then item_quantities tr (received_quantity dto) p else 0) \<and>
        ledger p l z = ledger p l s + (if l = trf_toLocationId tr then item_quantities tr (received_quantity dto) p else 0)"
      using receive_tx_effect [OF received(2), of dto E u] unfolding Let_def by blast
    moreover have "z = s'" using z(1) received(5) by simp
    ultimately have "books_ok s'" using assms(1) by (simp add: books_ok_def books_balance_def)
    moreover have "transfer_keys s' = transfer_keys s" by (rule keepsD [OF keeps_transfer_keys(2) received(5)])
    ultimately show ?thesis using assms(2) transfers_ok_keys by blast
  next
    case (cancelled tr)
    obtain z where z: "cancel_tx E t u tr s = (Inr (), z)" "balances_wf s \<longrightarrow> balances_wf z"
      "products z = products s"
      "\<forall>p l. on_hand p l z = on_hand p l s + (if trf_status tr = IN_TRANSIT \<and> l = trf_fromLocationId tr
          then item_quantities tr (\<lambda>x. max 0 (ti_shippedQuantity x)) p else 0) \<and>
        ledger p l z = ledger p l s + (if trf_status tr = IN_TRANSIT \<and> l = trf_fromLocationId tr
          then item_quantities tr (\<lambda>x. max 0 (ti_shippedQuantity x)) p else 0)"
      using cancel_tx_effect [OF cancelled(2), of E u] unfolding Let_def by blast
    moreover have "z = s'" using z(1) cancelled(5) by simp
    ultimately have "books_ok s'" using assms(1) by (simp add: books_ok_def books_balance_def)
    moreover have "transfer_keys s' = transfer_keys s" by (rule keepsD [OF keeps_transfer_keys(3) cancelled(5)])
    ultimately show ?thesis using assms(2) transfers_ok_keys by blast
  qed
  then show "books_ok s'" "transfers_ok s'" by blast+
qed

end
