(* ===== verification/TransferSafety.thy ===== *)
theory TransferSafety
  imports StockTransfer
begin

text \<open>
  What the requests of \<^verbatim>\<open>transfer.service.ts\<close> promise together: the status machine they follow,
  what shipping followed by cancelling or receiving does to the stock, and what happens when a
  transfer that is to be shipped at once cannot be.
\<close>

section \<open>The status machine\<close>

text \<open>The documented life of a transfer: DRAFT is shipped, IN_TRANSIT is received, and either may be
  cancelled.\<close>

fun transfer_move :: "TransferStatus \<Rightarrow> transfer_request \<Rightarrow> TransferStatus option" where
  "transfer_move DRAFT (Ship n) = Some IN_TRANSIT"
| "transfer_move IN_TRANSIT (Receive dto) = Some COMPLETED"
| "transfer_move DRAFT Cancel = Some CANCELLED"
| "transfer_move IN_TRANSIT Cancel = Some CANCELLED"
| "transfer_move st rq = None"

lemma ship_tx_status:
  assumes "find_transfer t i s = Some tr" "transfers_wf s" "ship_tx E t u n tr s = (Inr (), s')"
  shows "has_status t i IN_TRANSIT s'"
  using ship_tx_effect [OF assms(1,2), of E u n] assms(3) by (auto simp: has_status_def)

lemma receive_tx_status:
  assumes "find_transfer t i s = Some tr" "transfer_receivable dto tr" "receive_tx E t u dto tr s = (Inr (), s')"
  shows "has_status t i COMPLETED s'"
proof -
  have "\<forall>x \<in> set (trf_items tr). item_map dto (ti_productId x) \<noteq> None"
    using assms(2) by (auto simp: transfer_receivable_def accounted_def)
  then obtain z where "receive_tx E t u dto tr s = (Inr (), z)" "has_status t i COMPLETED z"
    using receive_tx_effect [OF assms(1)] by blast
  with assms(3) show ?thesis by simp
qed

lemma cancel_tx_status:
  assumes "find_transfer t i s = Some tr" "cancel_tx E t u tr s = (Inr (), s')"
  shows "has_status t i CANCELLED s'"
proof -
  obtain z where "cancel_tx E t u tr s = (Inr (), z)" "has_status t i CANCELLED z"
    using cancel_tx_effect [OF assms(1)] by blast
  with assms(2) show ?thesis by simp
qed

text \<open>C12: the transfer service implements the status machine. A request on a transfer that succeeds
  makes the move the machine allows from its status and leaves the transfer in the new status; every
  other request throws, and a request that throws changes nothing at all.\<close>

theorem transfer_status_machine:
  assumes "transfers_wf s" "find_transfer t i s = Some tr" "run_transfer E t u i rq s = (r, s')"
  shows "case r of
     Inr _ \<Rightarrow> (\<exists>st. transfer_move (trf_status tr) rq = Some st \<and> has_status t i st s')
   | Inl e \<Rightarrow> s' = s \<and> find_transfer t i s' = Some tr"
  using assms(3,1)
proof (cases rule: run_transfer_cases)
  case (thrown e)
  with assms(2) show ?thesis by simp
next
  case (shipped n tr')
  then have "trf_status tr = DRAFT" using assms(2) by (simp add: shippable_def)
  with shipped ship_tx_status [OF shipped(2) assms(1) shipped(5)] show ?thesis by simp
next
  case (received dto tr')
  then have "trf_status tr = IN_TRANSIT" using assms(2) by (simp add: transfer_receivable_def)
  with received receive_tx_status [OF received(2,3,5)] show ?thesis by simp
next
  case (cancelled tr')
  then have "transfer_move (trf_status tr) Cancel = Some CANCELLED" using assms(2) by auto
  with cancelled cancel_tx_status [OF cancelled(2,5)] show ?thesis by simp
qed

section \<open>A concrete transfer\<close>

definition draft_transfer :: stock_transfer where
  "draft_transfer = \<lparr>trf_id = ''t1'', trf_transferNumber = ''TRF-2026-0001'', trf_fromLocationId = ''L'',
     trf_toLocationId = ''M'', trf_status = DRAFT, trf_shippedAt = None, trf_receivedAt = None,
     trf_cancelledAt = None, trf_note = None, trf_tenantId = ''t'', trf_createdById = None,
     trf_createdAt = 0,
     trf_items = [\<lparr>ti_id = ''i1'', ti_productId = ''p'', ti_requestedQuantity = 4, ti_shippedQuantity = 0,
       ti_receivedQuantity = 0, ti_shippedUnitCost = None, ti_shortageReason = None\<rparr>]\<rparr>"

definition transfer_db :: db where
  "transfer_db = db0\<lparr>
     products := [(sample_product ''p'' ''Pen'' ''S'' ''t'' SIMPLE None 0)\<lparr>prod_pricingMethod := Some FIFO\<rparr>],
     locations := [sample_location ''L'' ''Shop'' ''t'', sample_location ''M'' ''Store'' ''t''],
     balances := [\<lparr>bal_productId = ''p'', bal_locationId = ''L'', bal_tenantId = ''t'',
       bal_onHandQuantity = 10, bal_reservedQuantity = 3\<rparr>],
     movements := [\<lparr>mov_id = ''m'', mov_movementType = IN, mov_quantity = 10, mov_unitCost = 2,
       mov_totalCost = 20, mov_referenceType = PURCHASE, mov_referenceId = None, mov_status = MovCompleted,
       mov_note = None, mov_productId = ''p'', mov_locationId = ''L'', mov_tenantId = ''t'',
       mov_createdById = None, mov_transferId = None, mov_createdAt = 0\<rparr>],
     transfers := [draft_transfer]\<rparr>"

lemma transfer_db_ok: "transfers_ok transfer_db" "balances_wf transfer_db" "books_ok transfer_db"
proof -
  show "transfers_ok transfer_db"
    by (simp add: transfers_ok_def transfer_keys_def transfer_db_def draft_transfer_def)
  show wf: "balances_wf transfer_db"
    by (simp add: balances_wf_def transfer_db_def db0_def)
  show "books_ok transfer_db"
    using wf by (simp add: books_ok_def books_balance_def on_hand_def find_balance_def bal_key_def ledger_def
        signed_quantity_def transfer_db_def db0_def)
qed

lemma transfer_db_find: "find_transfer ''t'' ''t1'' transfer_db = Some draft_transfer"
  by (simp add: find_transfer_def transfer_db_def draft_transfer_def)

lemma transfer_db_shippable: "shippable ''t'' transfer_db draft_transfer"
  by (simp add: shippable_def draft_transfer_def tenant_available_def transfer_db_def)

theorem transfer_status_machine_witness:
  "case run_transfer env0 ''t'' ''u'' ''t1'' Cancel transfer_db of
     (Inr _, s') \<Rightarrow> has_status ''t'' ''t1'' CANCELLED s' | (Inl e, s') \<Rightarrow> False"
proof -
  have st: "trf_status draft_transfer = DRAFT" by (simp add: draft_transfer_def)
  obtain z where "cancel_tx env0 ''t'' ''u'' draft_transfer transfer_db = (Inr (), z)"
    using cancel_tx_effect [OF transfer_db_find] by blast
  with cancel_run(1) [OF transfer_db_find, of env0 "''u''"] st
  have z: "run_transfer env0 ''t'' ''u'' ''t1'' Cancel transfer_db = (Inr (), z)" by simp
  from transfer_status_machine [OF transfers_ok_wf [OF transfer_db_ok(1)] transfer_db_find z] z st
  show ?thesis by simp
qed

section \<open>Shipping, then cancelling or receiving\<close>

lemma item_quantities_zip:
  "item_quantities tr q p =
   (\<Sum>(k, n)\<leftarrow>zip (map ti_productId (trf_items tr)) (map q (trf_items tr)). if k = p then n else 0)"
proof -
  have "(\<Sum>x\<leftarrow>xs. if ti_productId x = p then q x else 0) =
      (\<Sum>(k, n)\<leftarrow>zip (map ti_productId xs) (map q xs). if k = p then n else 0)" for xs
    by (induction xs) auto
  then show ?thesis by (simp add: item_quantities_def)
qed

lemma item_quantities_eq:
  assumes "map ti_productId (trf_items tr') = map ti_productId (trf_items tr)"
    and "map f (trf_items tr') = map g (trf_items tr)"
  shows "item_quantities tr' f p = item_quantities tr g p"
  unfolding item_quantities_zip assms by (rule refl)

text \<open>What a successful shipment tells about the state before and after it.\<close>

lemma ship_success:
  assumes "transfers_ok s" "balances_wf s" "ship E t u i n s = (Inr (), s1)"
  obtains tr tr' where "find_transfer t i s = Some tr" "shippable t s tr" "requests_positive tr"
    "find_transfer t i s1 = Some tr'" "trf_status tr' = IN_TRANSIT"
    "trf_fromLocationId tr' = trf_fromLocationId tr" "trf_toLocationId tr' = trf_toLocationId tr"
    "map ti_productId (trf_items tr') = map ti_productId (trf_items tr)"
    "map ti_shippedQuantity (trf_items tr') = map ti_requestedQuantity (trf_items tr)"
    "\<And>p l. on_hand p l s1 = on_hand p l s
       - (if l = trf_fromLocationId tr then item_quantities tr ti_requestedQuantity p else 0)"
    "\<And>p l. ledger p l s1 = ledger p l s
       - (if l = trf_fromLocationId tr then item_quantities tr ti_requestedQuantity p else 0)"
    "\<And>p l. reserved_at p l s1 = reserved_at p l s"
proof -
  note wf = transfers_ok_wf [OF assms(1)]
  have "find_transfer t i s \<noteq> None"
    using assms(3) no_transfer [of t i s E u "Ship n"] by auto
  then obtain tr where f: "find_transfer t i s = Some tr" by blast
  have sh: "shippable t s tr" using ship_run(2) [OF f, of E u n] assms(3) by fastforce
  have pos: "requests_positive tr"
    using transfers_ok_positive [OF assms(1)] find_transfer_some [OF f] by blast
  have has: "\<forall>x \<in> set (trf_items tr). has_balance (ti_productId x) (trf_fromLocationId tr) s"
    using shippable_has_balance [OF sh pos assms(2)] by blast
  have run: "ship_tx E t u n tr s = (Inr (), s1)" using ship_run(1) [OF f sh] assms(3) by simp
  obtain z tr' where z: "ship_tx E t u n tr s = (Inr (), z)" and f': "find_transfer t i z = Some tr'"
    and tr': "trf_status tr' = IN_TRANSIT"
      "trf_fromLocationId tr' = trf_fromLocationId tr" "trf_toLocationId tr' = trf_toLocationId tr"
      "map ti_productId (trf_items tr') = map ti_productId (trf_items tr)"
      "map ti_shippedQuantity (trf_items tr') = map ti_requestedQuantity (trf_items tr)"
    and led: "\<And>p l. ledger p l z = ledger p l s
       - (if l = trf_fromLocationId tr then item_quantities tr ti_requestedQuantity p else 0)"
    and res: "\<And>p l. reserved_at p l z = reserved_at p l s"
    and oh: "\<And>p l. on_hand p l z = on_hand p l s
       - (if l = trf_fromLocationId tr then item_quantities tr ti_requestedQuantity p else 0)"
    using ship_tx_effect [OF f wf, of E u n] has by (elim exE conjE) (drule mp, assumption, blast)
  from z run have "z = s1" by simp
  show thesis
    by (rule that [OF f sh pos]) (use f' tr' led res oh \<open>z = s1\<close> in simp_all)
qed

text \<open>C13: cancelling a shipped transfer undoes the shipment: it always succeeds, leaves the transfer
  CANCELLED, and afterwards every product has at every location exactly the quantity on hand, the
  quantity in the ledger and the quantity reserved that it had before it was shipped.\<close>

theorem ship_then_cancel_restores:
  assumes "transfers_ok s" "balances_wf s" "ship E t u i n s = (Inr (), s1)"
  shows "\<exists>s2. cancel E t u i s1 = (Inr (), s2) \<and> has_status t i CANCELLED s2 \<and>
    (\<forall>p l. on_hand p l s2 = on_hand p l s \<and> ledger p l s2 = ledger p l s \<and>
           reserved_at p l s2 = reserved_at p l s)"
proof (rule ship_success [OF assms])
  fix tr tr'
  assume pos: "requests_positive tr" and f': "find_transfer t i s1 = Some tr'"
    and tr': "trf_status tr' = IN_TRANSIT" "trf_fromLocationId tr' = trf_fromLocationId tr"
      "map ti_productId (trf_items tr') = map ti_productId (trf_items tr)"
      "map ti_shippedQuantity (trf_items tr') = map ti_requestedQuantity (trf_items tr)"
    and one: "\<And>p l. on_hand p l s1 = on_hand p l s
       - (if l = trf_fromLocationId tr then item_quantities tr ti_requestedQuantity p else 0)"
      "\<And>p l. ledger p l s1 = ledger p l s
       - (if l = trf_fromLocationId tr then item_quantities tr ti_requestedQuantity p else 0)"
      "\<And>p l. reserved_at p l s1 = reserved_at p l s"
  have "map (\<lambda>x. max 0 (ti_shippedQuantity x)) (trf_items tr') = map (max 0) (map ti_requestedQuantity (trf_items tr))"
    by (simp flip: tr'(4) add: o_def)
  also have "\<dots> = map ti_requestedQuantity (trf_items tr)"
    using pos by (auto simp: requests_positive_def)
  finally have same: "item_quantities tr' (\<lambda>x. max 0 (ti_shippedQuantity x)) p =
      item_quantities tr ti_requestedQuantity p" for p
    by (rule item_quantities_eq [OF tr'(3)])
  have "cancel E t u i s1 = cancel_tx E t u tr' s1" using cancel_run(1) [OF f'] tr'(1) by simp
  then show ?thesis
    using cancel_tx_effect [OF f', of E u] tr'(1,2) unfolding Let_def same by (auto simp: one)
qed

lemma transfer_db_ship:
  obtains s1 where "ship env0 ''t'' ''u'' ''t1'' None transfer_db = (Inr (), s1)"
  using ship_run(1) [OF transfer_db_find transfer_db_shippable, of env0 "''u''" None]
    ship_tx_effect [OF transfer_db_find transfers_ok_wf [OF transfer_db_ok(1)], of env0 "''u''" None] by auto

theorem ship_then_cancel_restores_witness:
  "\<exists>s1 s2. ship env0 ''t'' ''u'' ''t1'' None transfer_db = (Inr (), s1) \<and>
     cancel env0 ''t'' ''u'' ''t1'' s1 = (Inr (), s2) \<and> on_hand ''p'' ''L'' s2 = 10"
proof -
  obtain s1 where s1: "ship env0 ''t'' ''u'' ''t1'' None transfer_db = (Inr (), s1)"
    by (rule transfer_db_ship)
  have "on_hand ''p'' ''L'' transfer_db = 10"
    by (simp add: on_hand_def find_balance_def bal_key_def transfer_db_def)
  with s1 ship_then_cancel_restores [OF transfer_db_ok(1,2) s1] show ?thesis by metis
qed

text \<open>C14: a shipped transfer that is received moves stock. If every item is accounted for (no more
  received than was shipped, and a reason given for what is missing), the receipt succeeds, leaves
  the transfer COMPLETED, and compared with the state before the shipment the source has lost what
  was requested and the destination gained what was received, on the balances and in the ledger
  alike, and nothing else has moved.\<close>

theorem ship_then_receive_moves:
  assumes "transfers_ok s" "balances_wf s" "ship E t u i n s = (Inr (), s1)"
    and "find_transfer t i s = Some tr"
    and "\<forall>x \<in> set (trf_items tr). \<exists>r. item_map dto (ti_productId x) = Some r \<and>
      rc_receivedQuantity r \<le> ti_requestedQuantity x \<and>
      (rc_receivedQuantity r < ti_requestedQuantity x \<longrightarrow> \<not> empty_string (rc_shortageReason r))"
  shows "\<exists>s2. receive E t u i dto s1 = (Inr (), s2) \<and> has_status t i COMPLETED s2 \<and>
    (\<forall>p l. let moved = (if l = trf_toLocationId tr then item_quantities tr (received_quantity dto) p else 0)
                     - (if l = trf_fromLocationId tr then item_quantities tr ti_requestedQuantity p else 0) in
       on_hand p l s2 = on_hand p l s + moved \<and> ledger p l s2 = ledger p l s + moved \<and>
       reserved_at p l s2 = reserved_at p l s)"
proof (rule ship_success [OF assms(1-3)])
  fix tr0 tr'
  assume "find_transfer t i s = Some tr0" and f': "find_transfer t i s1 = Some tr'"
    and tr0: "trf_status tr' = IN_TRANSIT" "trf_toLocationId tr' = trf_toLocationId tr0"
      "map ti_productId (trf_items tr') = map ti_productId (trf_items tr0)"
      "map ti_shippedQuantity (trf_items tr') = map ti_requestedQuantity (trf_items tr0)"
    and one0: "\<And>p l. on_hand p l s1 = on_hand p l s
       - (if l = trf_fromLocationId tr0 then item_quantities tr0 ti_requestedQuantity p else 0)"
      "\<And>p l. ledger p l s1 = ledger p l s
       - (if l = trf_fromLocationId tr0 then item_quantities tr0 ti_requestedQuantity p else 0)"
      "\<And>p l. reserved_at p l s1 = reserved_at p l s"
  then have "tr0 = tr" using assms(4) by simp
  note tr' = tr0 [unfolded \<open>tr0 = tr\<close>] and one = one0 [unfolded \<open>tr0 = tr\<close>]
  have acc: "accounted dto y" if "y \<in> set (trf_items tr')" for y
  proof -
    from that obtain k where k: "k < length (trf_items tr')" "y = trf_items tr' ! k"
      by (auto simp: in_set_conv_nth)
    let ?x = "trf_items tr ! k"
    have len: "length (trf_items tr') = length (trf_items tr)" using map_eq_imp_length_eq [OF tr'(3)] .
    have x: "?x \<in> set (trf_items tr)" using k(1) len by simp
    have "ti_productId y = ti_productId ?x" "ti_shippedQuantity y = ti_requestedQuantity ?x"
      using arg_cong [OF tr'(3), of "\<lambda>ys. ys ! k"] arg_cong [OF tr'(4), of "\<lambda>ys. ys ! k"] k len by simp_all
    with assms(5) x show ?thesis by (auto simp: accounted_def)
  qed
  have same: "item_quantities tr' (received_quantity dto) p = item_quantities tr (received_quantity dto) p" for p
  proof (rule item_quantities_eq [OF tr'(3)])
    define h where "h k = (case item_map dto k of None \<Rightarrow> 0 | Some r \<Rightarrow> max 0 (rc_receivedQuantity r))" for k
    have "received_quantity dto = h \<circ> ti_productId" by (auto simp: received_quantity_def h_def)
    then show "map (received_quantity dto) (trf_items tr') = map (received_quantity dto) (trf_items tr)"
      using arg_cong [OF tr'(3), of "map h"] by simp
  qed
  have rec: "transfer_receivable dto tr'" using tr'(1) acc by (simp add: transfer_receivable_def)
  then have "\<forall>x \<in> set (trf_items tr'). item_map dto (ti_productId x) \<noteq> None"
    by (auto simp: transfer_receivable_def accounted_def)
  from receive_tx_effect [OF f' this, of E u] receive_run(1) [OF f' rec, of E u]
  show ?thesis unfolding Let_def same tr'(2) one by auto
qed

definition partial_receipt :: receive_transfer_dto where
  "partial_receipt = \<lparr>rt_items = [\<lparr>rc_productId = ''p'', rc_receivedQuantity = 3, rc_shortageReason = Some ''lost''\<rparr>],
     rt_note = None\<rparr>"

theorem ship_then_receive_moves_witness:
  "\<exists>s1 s2. ship env0 ''t'' ''u'' ''t1'' None transfer_db = (Inr (), s1) \<and>
     receive env0 ''t'' ''u'' ''t1'' partial_receipt s1 = (Inr (), s2) \<and>
     on_hand ''p'' ''L'' s2 = 6 \<and> on_hand ''p'' ''M'' s2 = 3"
proof -
  obtain s1 where s1: "ship env0 ''t'' ''u'' ''t1'' None transfer_db = (Inr (), s1)"
    by (rule transfer_db_ship)
  have items: "\<forall>x \<in> set (trf_items draft_transfer). \<exists>r. item_map partial_receipt (ti_productId x) = Some r \<and>
      rc_receivedQuantity r \<le> ti_requestedQuantity x \<and>
      (rc_receivedQuantity r < ti_requestedQuantity x \<longrightarrow> \<not> empty_string (rc_shortageReason r))"
    by (simp add: draft_transfer_def partial_receipt_def item_map_def empty_string_def)
  have q: "item_quantities draft_transfer ti_requestedQuantity ''p'' = 4"
    "item_quantities draft_transfer (received_quantity partial_receipt) ''p'' = 3"
    "trf_toLocationId draft_transfer = ''M''" "trf_fromLocationId draft_transfer = ''L''"
    "on_hand ''p'' ''L'' transfer_db = 10" "on_hand ''p'' ''M'' transfer_db = 0"
    by (simp_all add: item_quantities_def draft_transfer_def received_quantity_def partial_receipt_def item_map_def
        on_hand_def find_balance_def bal_key_def transfer_db_def)
  obtain s2 where s2: "receive env0 ''t'' ''u'' ''t1'' partial_receipt s1 = (Inr (), s2)"
    and m: "\<And>p l. on_hand p l s2 = on_hand p l transfer_db
       + ((if l = trf_toLocationId draft_transfer then item_quantities draft_transfer (received_quantity partial_receipt) p else 0)
       - (if l = trf_fromLocationId draft_transfer then item_quantities draft_transfer ti_requestedQuantity p else 0))"
    using ship_then_receive_moves [OF transfer_db_ok(1,2) s1 transfer_db_find items]
    unfolding Let_def by blast
  show ?thesis using s1 s2 by (intro exI conjI) (assumption | simp add: m q)+
qed

section \<open>Creating a transfer\<close>

lemma validateLocations_ok: "(\<exists>x. validateLocations t ls s = (Inr x, s)) \<longleftrightarrow> (\<forall>l \<in> set ls. location_open t s l)"
proof -
  let ?found = "filter (\<lambda>l. loc_id l \<in> set (js_unique ls) \<and> loc_tenantId l = t \<and> loc_status l = LocActive) (locations s)"
  let ?check = "\<lambda>i. throw_if (i \<notin> fst ` set (map (\<lambda>l. (loc_id l, l)) ?found)) (NotFoundException (LocationIdNotFound i))"
  have "(\<exists>x. validateLocations t ls s = (Inr x, s)) \<longleftrightarrow> (\<exists>us. forM (js_unique ls) ?check s = (Inr us, s))"
  proof -
    have "readonly (forM (js_unique ls) ?check)" by (intro svc_intros)
    then show ?thesis
      by (auto simp: validateLocations_def Let_def bindM_Inr run_simps dest: readonlyD)
  qed
  also have "\<dots> \<longleftrightarrow> (\<forall>i \<in> set (js_unique ls). i \<in> fst ` set (map (\<lambda>l. (loc_id l, l)) ?found))"
    by (subst forM_unit_iff [of _ "\<lambda>i. i \<in> fst ` set (map (\<lambda>l. (loc_id l, l)) ?found)"]) (simp_all, blast?)
  also have "\<dots> \<longleftrightarrow> (\<forall>l \<in> set ls. location_open t s l)"
    by (auto simp: location_open_def image_iff Bex_def)
  finally show ?thesis .
qed

lemma forM_fresh_ids:
  "forM xs (\<lambda>x. bindM (fresh_id E) (\<lambda>j. ret (f j x))) s =
   (Inr (map2 f (map (e_uuid E) [nextId s..<nextId s + length xs]) xs), s\<lparr>nextId := nextId s + length xs\<rparr>)"
proof (induction xs arbitrary: s)
  case (Cons x xs)
  have ids: "[nextId s..<nextId s + length (x # xs)] = nextId s # [Suc (nextId s)..<Suc (nextId s) + length xs]"
    by (simp add: upt_conv_Cons del: upt_Suc)
  show ?case unfolding ids using Cons.IH [of "s\<lparr>nextId := Suc (nextId s)\<rparr>"] by (simp add: bindM_def)
qed simp

definition new_item :: "id \<Rightarrow> transfer_item_dto \<Rightarrow> transfer_item" where
  "new_item j x = \<lparr>ti_id = j, ti_productId = tdi_productId x, ti_requestedQuantity = tdi_requestedQuantity x,
     ti_shippedQuantity = 0, ti_receivedQuantity = 0, ti_shippedUnitCost = None, ti_shortageReason = None\<rparr>"

definition transfer_number :: "env \<Rightarrow> id \<Rightarrow> db \<Rightarrow> string" where
  "transfer_number E t s = next_number (year_prefix ''TRF'' (e_year E (clock s))) 4
     (map trf_transferNumber (filter (\<lambda>x. trf_tenantId x = t) (transfers s)))"

definition new_transfer :: "env \<Rightarrow> id \<Rightarrow> id \<Rightarrow> create_transfer_dto \<Rightarrow> db \<Rightarrow> stock_transfer" where
  "new_transfer E t u dto s =
     \<lparr>trf_id = e_uuid E (nextId s), trf_transferNumber = transfer_number E t s,
      trf_fromLocationId = ct_fromLocationId dto, trf_toLocationId = ct_toLocationId dto, trf_status = DRAFT,
      trf_shippedAt = None, trf_receivedAt = None, trf_cancelledAt = None, trf_note = ct_note dto,
      trf_tenantId = t, trf_createdById = Some u, trf_createdAt = clock s,
      trf_items = map2 new_item
        (map (e_uuid E) [Suc (nextId s)..<Suc (nextId s) + length (ct_items dto)]) (ct_items dto)\<rparr>"

definition drafted :: "env \<Rightarrow> id \<Rightarrow> id \<Rightarrow> create_transfer_dto \<Rightarrow> db \<Rightarrow> db" where
  "drafted E t u dto s = s\<lparr>nextId := Suc (nextId s) + length (ct_items dto),
     transfers := transfers s @ [new_transfer E t u dto s]\<rparr>"

definition creatable :: "env \<Rightarrow> id \<Rightarrow> db \<Rightarrow> create_transfer_dto \<Rightarrow> bool" where
  "creatable E t s dto \<longleftrightarrow> ct_fromLocationId dto \<noteq> ct_toLocationId dto \<and>
     location_open t s (ct_fromLocationId dto) \<and> location_open t s (ct_toLocationId dto) \<and>
     (\<forall>x \<in> set (ct_items dto). stockable t s (tdi_productId x)) \<and>
     distinct (map tdi_productId (ct_items dto)) \<and>
     (\<forall>x \<in> set (transfers s). trf_tenantId x = t \<longrightarrow> trf_transferNumber x \<noteq> transfer_number E t s)"

definition create_tx :: "env \<Rightarrow> id \<Rightarrow> id \<Rightarrow> create_transfer_dto \<Rightarrow> transfer_result handler" where
  "create_tx E tenantId userId dto =
     bindM (generateTransferNumber E tenantId) (\<lambda>transferNumber.
     bindM (transaction (
       bindM (fresh_id E) (\<lambda>i.
       bindM (forM (ct_items dto) (\<lambda>x. bindM (fresh_id E) (\<lambda>j. ret (new_item j x)))) (\<lambda>items.
       bindM now (\<lambda>t.
       bindM (readM (\<lambda>s. \<exists>x \<in> set (transfers s). trf_transferNumber x = transferNumber \<and>
                trf_tenantId x = tenantId)) (\<lambda>taken.
       bindM (throw_if (taken \<or> \<not> distinct (map tdi_productId (ct_items dto))) UniqueConstraint) (\<lambda>_.
       bindM (writeM (\<lambda>s. s\<lparr>transfers := transfers s @
         [\<lparr>trf_id = i, trf_transferNumber = transferNumber, trf_fromLocationId = ct_fromLocationId dto,
           trf_toLocationId = ct_toLocationId dto, trf_status = DRAFT, trf_shippedAt = None,
           trf_receivedAt = None, trf_cancelledAt = None, trf_note = ct_note dto,
           trf_tenantId = tenantId, trf_createdById = Some userId, trf_createdAt = t,
           trf_items = items\<rparr>]\<rparr>)) (\<lambda>_.
       ret \<lparr>tr_transferId = i, tr_transferNumber = transferNumber\<rparr>)))))))) (\<lambda>res.
     bindM (if ct_status dto = Some IN_TRANSIT
            then ship E tenantId userId (tr_transferId res) None else ret ()) (\<lambda>_.
     ret res)))"

lemma create_tx_run:
  "create_tx E t u dto s =
    (if (\<exists>x \<in> set (transfers s). trf_transferNumber x = transfer_number E t s \<and> trf_tenantId x = t) \<or>
        \<not> distinct (map tdi_productId (ct_items dto))
     then (Inl UniqueConstraint, s)
     else bindM (if ct_status dto = Some IN_TRANSIT then ship E t u (e_uuid E (nextId s)) None else ret ())
      (\<lambda>_. ret \<lparr>tr_transferId = e_uuid E (nextId s), tr_transferNumber = transfer_number E t s\<rparr>) (drafted E t u dto s))"
proof -
  have num: "generateTransferNumber E t s = (Inr (transfer_number E t s), s)"
    by (simp add: generateTransferNumber_def transfer_number_def run_simps)
  note run = create_tx_def bindM_ok [where m = "generateTransferNumber E t", OF num] transaction_def forM_fresh_ids
    run_simps bindM_def [of "forM xs f" for xs f] bindM_def [of "\<lambda>s. (case p s of (a, b) \<Rightarrow> q a b)" for p q]
    drafted_def new_transfer_def
  let ?taken = "\<exists>x \<in> set (transfers s). trf_transferNumber x = transfer_number E t s \<and> trf_tenantId x = t"
  show ?thesis
  proof (cases "?taken \<or> \<not> distinct (map tdi_productId (ct_items dto))")
    case True
    then show ?thesis by (simp only: if_True) (simp add: run cong: if_cong)
  next
    case False
    then have "\<not> ?taken" "distinct (map tdi_productId (ct_items dto))" by blast+
    then show ?thesis unfolding if_not_P [OF False] by (simp add: run)
  qed
qed

text \<open>The checks in front of the creation, and the handler as a whole.\<close>

lemma create_transfer_run:
  assumes "distinct (map prod_id (products s))"
  shows "creatable E t s dto \<Longrightarrow> create_transfer E t u dto s =
      bindM (if ct_status dto = Some IN_TRANSIT then ship E t u (e_uuid E (nextId s)) None else ret ())
        (\<lambda>_. ret \<lparr>tr_transferId = e_uuid E (nextId s), tr_transferNumber = transfer_number E t s\<rparr>) (drafted E t u dto s)"
    and "\<not> creatable E t s dto \<Longrightarrow> \<exists>e. create_transfer E t u dto s = (Inl e, s)"
proof -
  let ?ls = "[ct_fromLocationId dto, ct_toLocationId dto]" and ?ps = "map tdi_productId (ct_items dto)"
  have unfold: "create_transfer E t u dto = bindM (throw_if (ct_fromLocationId dto = ct_toLocationId dto)
      (BadRequestException SameLocations)) (\<lambda>_. bindM (validateLocations t ?ls) (\<lambda>_.
      bindM (validateProducts t ?ps) (\<lambda>_. create_tx E t u dto)))"
    unfolding create_transfer_def create_tx_def new_item_def by (rule refl)
  note checks = two_checks_run [OF readonly_checks(3) [of t ?ls] validateLocations_ok
      readonly_checks(1) [of t ?ps] validateProducts_ok [OF assms], where f = "create_tx E t u dto"]
  let ?P = "(\<forall>l \<in> set ?ls. location_open t s l) \<and> (\<forall>i \<in> set ?ps. stockable t s i)"
  show "create_transfer E t u dto s =
      bindM (if ct_status dto = Some IN_TRANSIT then ship E t u (e_uuid E (nextId s)) None else ret ())
        (\<lambda>_. ret \<lparr>tr_transferId = e_uuid E (nextId s), tr_transferNumber = transfer_number E t s\<rparr>) (drafted E t u dto s)"
    if c: "creatable E t s dto"
  proof -
    from c have P: ?P and d: "ct_fromLocationId dto \<noteq> ct_toLocationId dto" "distinct ?ps"
      and free: "\<forall>x \<in> set (transfers s). trf_tenantId x = t \<longrightarrow> trf_transferNumber x \<noteq> transfer_number E t s"
      by (simp_all add: creatable_def)
    show ?thesis
      unfolding unfold bindM_run if_not_P [OF d(1)] checks(1) [OF P] create_tx_run
      by (rule if_not_P) (use free d(2) in blast)
  qed
  show "\<exists>e. create_transfer E t u dto s = (Inl e, s)" if no: "\<not> creatable E t s dto"
  proof (cases "ct_fromLocationId dto = ct_toLocationId dto")
    case True
    then show ?thesis unfolding unfold by (simp add: run_simps)
  next
    case False
    show ?thesis
    proof (cases ?P)
      case P: True
      with no False have clash: "\<not> distinct ?ps \<or>
          (\<exists>x \<in> set (transfers s). trf_transferNumber x = transfer_number E t s \<and> trf_tenantId x = t)"
        by (auto simp: creatable_def)
      then have "create_tx E t u dto s = (Inl UniqueConstraint, s)" unfolding create_tx_run by (intro if_P) blast
      with False show ?thesis unfolding unfold by (simp add: run_simps checks(1) [OF P])
    next
      case P: False
      with False checks(2) [OF P] show ?thesis unfolding unfold by (simp add: run_simps)
    qed
  qed
qed

lemma find_transfer_drafted:
  assumes "\<forall>y \<in> set (transfers s). trf_id y \<noteq> e_uuid E (nextId s)"
  shows "find_transfer t (e_uuid E (nextId s)) (drafted E t u dto s) = Some (new_transfer E t u dto s)"
proof -
  have "List.find (\<lambda>x. trf_id x = e_uuid E (nextId s) \<and> trf_tenantId x = t) (transfers s) = None"
    using assms by (auto simp: find_None_iff')
  then show ?thesis by (simp add: find_transfer_def drafted_def find_append new_transfer_def)
qed

lemma drafted_frame:
  "balances (drafted E t u dto s) = balances s" "movements (drafted E t u dto s) = movements s"
  "layers (drafted E t u dto s) = layers s" "products (drafted E t u dto s) = products s"
  "locations (drafted E t u dto s) = locations s" "reservations (drafted E t u dto s) = reservations s"
  "jobs (drafted E t u dto s) = jobs s" "clock (drafted E t u dto s) = clock s"
  by (simp_all add: drafted_def)

lemma tenant_available_cong: "balances s' = balances s \<Longrightarrow> tenant_available t p l s' = tenant_available t p l s"
  by (simp add: tenant_available_def)

lemma map2_new_item:
  "length js = length xs \<Longrightarrow> map ti_productId (map2 new_item js xs) = map tdi_productId xs \<and>
   map ti_requestedQuantity (map2 new_item js xs) = map tdi_requestedQuantity xs \<and>
   map ti_id (map2 new_item js xs) = js"
  by (induction js xs rule: list_induct2) (simp_all add: new_item_def)

lemma new_transfer_items:
  "map ti_productId (trf_items (new_transfer E t u dto s)) = map tdi_productId (ct_items dto)"
  "map ti_requestedQuantity (trf_items (new_transfer E t u dto s)) = map tdi_requestedQuantity (ct_items dto)"
  "map ti_id (trf_items (new_transfer E t u dto s)) =
     map (e_uuid E) [Suc (nextId s)..<Suc (nextId s) + length (ct_items dto)]"
  using map2_new_item [of "map (e_uuid E) [Suc (nextId s)..<Suc (nextId s) + length (ct_items dto)]" "ct_items dto"]
  by (simp_all add: new_transfer_def del: upt_Suc)

text \<open>creating a transfer that is to be shipped at once is not atomic. When every check of the
  creation passes but some item asks for more than is available, the request throws, as the caller
  expects, yet the DRAFT transfer it could not ship stays in the database; no stock has moved.\<close>

theorem create_and_ship_not_atomic:
  assumes "distinct (map prod_id (products s))" "creatable E t s dto" "ct_status dto = Some IN_TRANSIT"
    and "\<forall>y \<in> set (transfers s). trf_id y \<noteq> e_uuid E (nextId s)"
    and "x \<in> set (ct_items dto)"
      "tenant_available t (tdi_productId x) (ct_fromLocationId dto) s < tdi_requestedQuantity x"
  shows "\<exists>e s' tr. create_transfer E t u dto s = (Inl e, s') \<and> transfers s' = transfers s @ [tr] \<and>
    trf_status tr = DRAFT \<and> balances s' = balances s \<and> movements s' = movements s"
proof -
  let ?d = "drafted E t u dto s" and ?tr = "new_transfer E t u dto s"
  obtain k where k: "k < length (ct_items dto)" "x = ct_items dto ! k" using assms(5) by (auto simp: in_set_conv_nth)
  have len: "length (trf_items ?tr) = length (ct_items dto)"
    using map_eq_imp_length_eq [OF new_transfer_items(1)] .
  let ?y = "trf_items ?tr ! k"
  have y: "?y \<in> set (trf_items ?tr)" "ti_productId ?y = tdi_productId x" "ti_requestedQuantity ?y = tdi_requestedQuantity x"
    using arg_cong [OF new_transfer_items(1) [of E t u dto s], of "\<lambda>ys. ys ! k"]
      arg_cong [OF new_transfer_items(2) [of E t u dto s], of "\<lambda>ys. ys ! k"] k len
    by simp_all
  have src: "trf_fromLocationId ?tr = ct_fromLocationId dto" by (simp add: new_transfer_def)
  have "\<not> shippable t ?d ?tr"
    using y assms(6) unfolding shippable_def tenant_available_cong [OF drafted_frame(1)] src by force
  then obtain e where "ship E t u (e_uuid E (nextId s)) None ?d = (Inl e, ?d)"
    using ship_run(2) [OF find_transfer_drafted [OF assms(4)]] by blast
  then have "create_transfer E t u dto s = (Inl e, ?d)"
    unfolding create_transfer_run(1) [OF assms(1,2)] using assms(3) by (simp add: bindM_def)
  then show ?thesis
    by (intro exI [of _ e] exI [of _ ?d] exI [of _ ?tr]) (simp add: drafted_def, simp add: new_transfer_def)
qed

definition rushed :: create_transfer_dto where
  "rushed = \<lparr>ct_fromLocationId = ''L'', ct_toLocationId = ''M'',
     ct_items = [\<lparr>tdi_productId = ''p'', tdi_requestedQuantity = 8\<rparr>], ct_status = Some IN_TRANSIT, ct_note = None\<rparr>"


end
