(* ===== verification/Slug.thy ===== *)
theory Slug
  imports Db Numbering Balance
begin

text \<open>
  \<^verbatim>\<open>src/src/common/utils/slug.utils.ts\<close> and \<^verbatim>\<open>sku.utils.ts\<close>: turning a name into a URL-friendly
  slug or an article number, and making it unique by counting a suffix up.

  Texts are ASCII. The regular expressions are written out as list functions: \<^verbatim>\<open>\w\<close> is a
  letter, a digit or an underscore, \<^verbatim>\<open>\s\<close> is white space, and a global replacement of
  \<^verbatim>\<open>x+\<close> turns every maximal run into one character.
\<close>

section \<open>Characters and replacements\<close>

definition to_lower :: "char \<Rightarrow> char" where
  "to_lower c = (if CHR ''A'' \<le> c \<and> c \<le> CHR ''Z'' then char_of (of_char c + (32::nat)) else c)"

definition to_upper :: "char \<Rightarrow> char" where
  "to_upper c = (if CHR ''a'' \<le> c \<and> c \<le> CHR ''z'' then char_of (of_char c - (32::nat)) else c)"

abbreviation char_range :: "char \<Rightarrow> char \<Rightarrow> char \<Rightarrow> bool" where
  "char_range first final c \<equiv> first \<le> c \<and> c \<le> final"

definition word_char :: "char \<Rightarrow> bool" where
  "word_char c \<longleftrightarrow> c = CHR ''_'' \<or> char_range CHR ''0'' CHR ''9'' c \<or>
     char_range CHR ''A'' CHR ''Z'' c \<or> char_range CHR ''a'' CHR ''z'' c"

abbreviation hyphen :: char where "hyphen \<equiv> CHR ''-''"

text \<open>\<^verbatim>\<open>replace(/P+/g, d)\<close>: each maximal run of characters satisfying \<open>P\<close> becomes one \<open>d\<close>.\<close>

function replace_runs :: "(char \<Rightarrow> bool) \<Rightarrow> char \<Rightarrow> string \<Rightarrow> string" where
  "replace_runs P d [] = []"
| "replace_runs P d (c # cs) =
     (if P c then d # replace_runs P d (dropWhile P cs) else c # replace_runs P d cs)"
  by pat_completeness auto
termination
  by (relation "measure (\<lambda>(P, d, cs). length cs)") (simp_all add: le_imp_less_Suc length_dropWhile_le)

text \<open>\<^verbatim>\<open>replace(/^-|-$/g, '')\<close>: a hyphen at the start and one at the end go.\<close>

definition strip_hyphens :: "string \<Rightarrow> string" where
  "strip_hyphens x =
     (let y = (if x \<noteq> [] \<and> hd x = hyphen then tl x else x)
      in if y \<noteq> [] \<and> last y = hyphen then butlast y else y)"

definition generateSlug :: "string \<Rightarrow> string" where
  "generateSlug text =
     strip_hyphens
       (replace_runs (\<lambda>c. c = hyphen) hyphen
         (replace_runs js_space hyphen
           (filter (\<lambda>c. word_char c \<or> js_space c \<or> c = hyphen)
             (js_trim (map to_lower text)))))"

definition sanitizeSku :: "string \<Rightarrow> string" where
  "sanitizeSku sku =
     strip_hyphens
       (replace_runs (\<lambda>c. c = hyphen) hyphen
         (map (\<lambda>c. if word_char c \<or> c = hyphen then c else hyphen)
           (js_trim (map to_upper sku))))"

definition generateSkuFromName :: "string \<Rightarrow> string" where
  "generateSkuFromName text = sanitizeSku text"

record sku_attribute =
  att_key :: string
  att_values :: "string list"

definition js_join :: "string \<Rightarrow> string list \<Rightarrow> string" where
  "js_join sep xs = (case xs of [] \<Rightarrow> [] | y # ys \<Rightarrow> y @ concat (map (\<lambda>z. sep @ z) ys))"

definition generateVariantSkuSuffix :: "sku_attribute list \<Rightarrow> nat \<Rightarrow> string" where
  "generateVariantSkuSuffix attrs index =
     (if attrs = [] then ''V'' @ show_nat (index + 1)
      else js_join ''-'' (map (\<lambda>a. sanitizeSku (take 3 (case att_values a of [] \<Rightarrow> [] | v # _ \<Rightarrow> v))) attrs))"

section \<open>Counting the suffix up\<close>

text \<open>The loop of \<^verbatim>\<open>ensureUnique\<close> and \<^verbatim>\<open>ensureUniqueWithSuffix\<close>, on the names that are
  taken. It ends because different counters give different names.\<close>

lemma digit_inj: "a < 10 \<Longrightarrow> b < 10 \<Longrightarrow> digit a = digit b \<Longrightarrow> a = b"
  by (drule arg_cong [of _ _ digit_value]) (simp add: digit_value_digit)

lemma show_nat_inj: "show_nat a = show_nat b \<longleftrightarrow> a = b"
proof (induction a arbitrary: b rule: show_nat.induct)
  case (1 a)
  have ne: "show_nat n \<noteq> []" for n by (subst show_nat.simps) simp
  show ?case
  proof (cases "a < 10 \<or> b < 10")
    case True
    then show ?thesis
      using ne digit_inj [of a b] ne [of "a div 10"] ne [of "b div 10"]
      by (subst (1 2) show_nat.simps) (auto simp: append_eq_Cons_conv Cons_eq_append_conv)
  next
    case False
    then have "show_nat a = show_nat b \<longleftrightarrow>
        show_nat (a div 10) = show_nat (b div 10) \<and> digit (a mod 10) = digit (b mod 10)"
      by (subst (1 2) show_nat.simps) simp
    also have "\<dots> \<longleftrightarrow> a div 10 = b div 10 \<and> a mod 10 = b mod 10"
      using False 1 digit_inj [of "a mod 10" "b mod 10"] by auto
    also have "\<dots> \<longleftrightarrow> a = b" by (metis div_mult_mod_eq)
    finally show ?thesis .
  qed
qed

definition suffixed :: "string \<Rightarrow> nat \<Rightarrow> string" where
  "suffixed base k = base @ hyphen # show_nat k"

lemma suffixed_inj: "suffixed base a = suffixed base b \<longleftrightarrow> a = b"
  by (simp add: suffixed_def show_nat_inj)

lemma finite_taken: "finite {k. c \<le> k \<and> suffixed base k \<in> set taken}"
proof -
  have "inj_on (suffixed base) {k. c \<le> k \<and> suffixed base k \<in> set taken}"
    by (simp add: inj_on_def suffixed_inj)
  moreover have "finite (suffixed base ` {k. c \<le> k \<and> suffixed base k \<in> set taken})"
    by (rule finite_subset [of _ "set taken"]) auto
  ultimately show ?thesis by (simp add: finite_image_iff)
qed

function unique_loop :: "string list \<Rightarrow> string \<Rightarrow> string \<Rightarrow> nat \<Rightarrow> string" where
  "unique_loop taken base candidate counter =
     (if candidate \<in> set taken then unique_loop taken base (suffixed base counter) (Suc counter)
      else candidate)"
  by pat_completeness auto

lemma card_taken:
  "card {k. c \<le> k \<and> suffixed base k \<in> set taken} =
   card {k. Suc c \<le> k \<and> suffixed base k \<in> set taken} + (if suffixed base c \<in> set taken then 1 else 0)"
proof (cases "suffixed base c \<in> set taken")
  case True
  then have "{k. c \<le> k \<and> suffixed base k \<in> set taken} =
      insert c {k. Suc c \<le> k \<and> suffixed base k \<in> set taken}"
    by (auto simp: le_eq_less_or_eq Suc_le_eq)
  with True show ?thesis by (simp add: finite_taken)
next
  case False
  then have "{k. c \<le> k \<and> suffixed base k \<in> set taken} = {k. Suc c \<le> k \<and> suffixed base k \<in> set taken}"
    by (auto simp: Suc_le_eq intro: le_neq_implies_less)
  with False show ?thesis by simp
qed

termination unique_loop
proof (relation "measure (\<lambda>(taken, base, candidate, counter).
    card {k. counter \<le> k \<and> suffixed base k \<in> set taken} + (if candidate \<in> set taken then 1 else 0))")
  fix taken :: "string list" and base candidate :: string and counter :: nat
  assume "candidate \<in> set taken"
  then show "((taken, base, suffixed base counter, Suc counter), taken, base, candidate, counter) \<in>
      measure (\<lambda>(taken, base, candidate, counter).
        card {k. counter \<le> k \<and> suffixed base k \<in> set taken} + (if candidate \<in> set taken then 1 else 0))"
    using card_taken [of counter base taken] by simp
qed simp

declare unique_loop.simps [simp del]

text \<open>The slugs and article numbers of a tenant's rows, deleted ones included, without the row that is
  being updated.\<close>

datatype SlugModel = SlugProductCategory | SlugProduct

definition not_excluded :: "id option \<Rightarrow> id \<Rightarrow> bool" where
  "not_excluded excludeId i \<longleftrightarrow> (case excludeId of None \<Rightarrow> True | Some x \<Rightarrow> x = [] \<or> i \<noteq> x)"

definition taken_slugs :: "SlugModel \<Rightarrow> id \<Rightarrow> id option \<Rightarrow> db \<Rightarrow> string list" where
  "taken_slugs model tenantId excludeId s = (case model of
      SlugProductCategory \<Rightarrow> map cat_slug (filter (\<lambda>c. cat_tenantId c = tenantId \<and>
          not_excluded excludeId (cat_id c)) (categories s))
    | SlugProduct \<Rightarrow> List.map_filter prod_slug (filter (\<lambda>p. prod_tenantId p = tenantId \<and>
          not_excluded excludeId (prod_id p)) (products s)))"

definition ensureUniqueSlug :: "SlugModel \<Rightarrow> string \<Rightarrow> id \<Rightarrow> id option \<Rightarrow> string handler" where
  "ensureUniqueSlug model slug tenantId excludeId =
     readM (\<lambda>s. unique_loop (taken_slugs model tenantId excludeId s) slug slug 1)"

definition createSlug :: "SlugModel \<Rightarrow> id \<Rightarrow> string option \<Rightarrow> string option \<Rightarrow> id option \<Rightarrow> string handler" where
  "createSlug model tenantId slug name excludeId =
     bindM (throw_if (empty_string slug \<and> empty_string name) (PlainError SlugOrNameRequired)) (\<lambda>_.
     let baseSlug = (if empty_string slug then generateSlug (the name) else generateSlug (the slug)) in
     ensureUniqueSlug model baseSlug tenantId excludeId)"

definition taken_skus :: "id \<Rightarrow> id option \<Rightarrow> db \<Rightarrow> string list" where
  "taken_skus tenantId excludeId s =
     map prod_sku (filter (\<lambda>p. prod_tenantId p = tenantId \<and> not_excluded excludeId (prod_id p)) (products s))"

definition ensureUniqueWithSuffix :: "id \<Rightarrow> string \<Rightarrow> id option \<Rightarrow> string handler" where
  "ensureUniqueWithSuffix tenantId baseSku excludeId =
     readM (\<lambda>s. unique_loop (taken_skus tenantId excludeId s) baseSku baseSku 1)"

definition createSku :: "id \<Rightarrow> string \<Rightarrow> id option \<Rightarrow> string handler" where
  "createSku tenantId baseSku excludeId = ensureUniqueWithSuffix tenantId (sanitizeSku baseSku) excludeId"

definition createVariantSku :: "id \<Rightarrow> string \<Rightarrow> sku_attribute list \<Rightarrow> nat \<Rightarrow> id option \<Rightarrow> string handler" where
  "createVariantSku tenantId parentSku attrs index excludeId =
     ensureUniqueWithSuffix tenantId (parentSku @ hyphen # generateVariantSkuSuffix attrs index) excludeId"

definition ensureSkuUnique :: "id \<Rightarrow> string \<Rightarrow> id option \<Rightarrow> unit handler" where
  "ensureSkuUnique tenantId sku excludeId =
     bindM (readM (\<lambda>s. sku \<in> set (taken_skus tenantId excludeId s))) (\<lambda>ex.
     throw_if ex (ConflictException SkuTaken))"

definition findExistingSkus :: "id \<Rightarrow> string list \<Rightarrow> id list \<Rightarrow> string list handler" where
  "findExistingSkus tenantId skus excludeIds =
     readM (\<lambda>s. map prod_sku (filter (\<lambda>p. prod_tenantId p = tenantId \<and> prod_sku p \<in> set skus \<and>
        prod_id p \<notin> set excludeIds) (products s)))"

section \<open>Lemmas: the shape of a slug\<close>

text \<open>Characters of \<open>P\<close> and single hyphens between them.\<close>

definition single_hyphens :: "string \<Rightarrow> bool" where
  "single_hyphens x \<longleftrightarrow> successively (\<lambda>a b. \<not> (a = hyphen \<and> b = hyphen)) x"

definition canonical :: "(char \<Rightarrow> bool) \<Rightarrow> string \<Rightarrow> bool" where
  "canonical P x \<longleftrightarrow> list_all (\<lambda>c. P c \<or> c = hyphen) x \<and> single_hyphens x \<and>
     (x = [] \<or> hd x \<noteq> hyphen \<and> last x \<noteq> hyphen)"

definition slug_char :: "char \<Rightarrow> bool" where
  "slug_char c \<longleftrightarrow> word_char c \<and> \<not> (CHR ''A'' \<le> c \<and> c \<le> CHR ''Z'')"

definition sku_char :: "char \<Rightarrow> bool" where
  "sku_char c \<longleftrightarrow> word_char c \<and> \<not> (CHR ''a'' \<le> c \<and> c \<le> CHR ''z'')"

lemma set_replace_runs: "set (replace_runs P d x) \<subseteq> insert d {c \<in> set x. \<not> P c}"
  by (induction P d x rule: replace_runs.induct) (auto dest: set_dropWhileD)

lemma replace_runs_none: "(\<And>c. c \<in> set x \<Longrightarrow> \<not> P c) \<Longrightarrow> replace_runs P d x = x"
  by (induction x) auto

lemma hd_replace_runs: "x \<noteq> [] \<Longrightarrow> replace_runs P d x \<noteq> [] \<and> hd (replace_runs P d x) = (if P (hd x) then d else hd x)"
  by (cases x) auto

lemma collapse_single: "single_hyphens (replace_runs (\<lambda>c. c = hyphen) hyphen x)"
proof (induction "\<lambda>c. c = hyphen" hyphen x rule: replace_runs.induct)
  case 1
  then show ?case by (simp add: single_hyphens_def)
next
  case (2 c cs)
  show ?case
  proof (cases "c = hyphen")
    case True
    define rest where "rest = dropWhile (\<lambda>c. c = hyphen) cs"
    define out where "out = replace_runs (\<lambda>c. c = hyphen) hyphen rest"
    have "rest \<noteq> [] \<Longrightarrow> hd rest \<noteq> hyphen" unfolding rest_def by (rule hd_dropWhile)
    then have "out = [] \<or> hd out \<noteq> hyphen"
      using hd_replace_runs [of rest "\<lambda>c. c = hyphen" hyphen] by (cases "rest = []") (simp_all add: out_def)
    moreover have "single_hyphens out" using 2(1) [OF True] by (simp only: out_def rest_def)
    moreover have "replace_runs (\<lambda>c. c = hyphen) hyphen (c # cs) = hyphen # out"
      using True by (simp add: out_def rest_def)
    ultimately show ?thesis by (cases out) (simp_all add: single_hyphens_def)
  next
    case False
    define out where "out = replace_runs (\<lambda>c. c = hyphen) hyphen cs"
    have "single_hyphens out" using 2(2) [OF False] by (simp only: out_def)
    moreover have "replace_runs (\<lambda>c. c = hyphen) hyphen (c # cs) = c # out"
      using False by (simp only: out_def replace_runs.simps if_False)
    ultimately show ?thesis using False by (cases out) (simp_all add: single_hyphens_def)
  qed
qed

lemma collapse_id: "single_hyphens x \<Longrightarrow> replace_runs (\<lambda>c. c = hyphen) hyphen x = x"
proof (induction x)
  case (Cons c x)
  then have "dropWhile (\<lambda>c. c = hyphen) x = x" if "c = hyphen"
    using that by (cases x) (auto simp: single_hyphens_def)
  moreover have "single_hyphens x" using Cons.prems by (auto simp: single_hyphens_def successively_Cons)
  ultimately show ?case using Cons.IH by simp
qed simp

lemma strip_canonical:
  assumes "single_hyphens x" "list_all (\<lambda>c. P c \<or> c = hyphen) x"
  shows "canonical P (strip_hyphens x)"
proof -
  define y where "y = (if x \<noteq> [] \<and> hd x = hyphen then tl x else x)"
  have y: "single_hyphens y" "list_all (\<lambda>c. P c \<or> c = hyphen) y" "y = [] \<or> hd y \<noteq> hyphen"
    using assms by (cases x; auto simp: y_def single_hyphens_def successively_Cons)+
  have strip: "strip_hyphens x = (if y \<noteq> [] \<and> last y = hyphen then butlast y else y)"
    by (simp add: strip_hyphens_def y_def)
  show ?thesis
  proof (cases "y \<noteq> [] \<and> last y = hyphen")
    case False
    with y strip show ?thesis by (auto simp: canonical_def)
  next
    case True
    then have eq: "y = butlast y @ [hyphen]" by (metis append_butlast_last_id)
    have "single_hyphens (butlast y @ [hyphen])" "list_all (\<lambda>c. P c \<or> c = hyphen) (butlast y @ [hyphen])"
      using y(1,2) eq by simp_all
    then have "single_hyphens (butlast y)" "list_all (\<lambda>c. P c \<or> c = hyphen) (butlast y)"
      "butlast y = [] \<or> last (butlast y) \<noteq> hyphen"
      by (auto simp: single_hyphens_def successively_append_iff)
    moreover have "butlast y = [] \<or> hd (butlast y) \<noteq> hyphen"
      using y(3) eq by (metis hd_append2 list.distinct(1) True)
    ultimately show ?thesis using True strip unfolding canonical_def by auto
  qed
qed

lemma strip_id: "canonical P x \<Longrightarrow> strip_hyphens x = x"
  by (auto simp: canonical_def strip_hyphens_def)

lemma trim_id: "(\<And>c. c \<in> set x \<Longrightarrow> \<not> js_space c) \<Longrightarrow> js_trim x = x"
proof -
  assume x: "\<And>c. c \<in> set x \<Longrightarrow> \<not> js_space c"
  have "dropWhile js_space ys = ys" if "set ys = set x" for ys
    using that x by (cases ys) auto
  then show "js_trim x = x" by (simp add: js_trim_def)
qed

lemma set_trim: "set (js_trim x) \<subseteq> set x"
proof
  fix c assume "c \<in> set (js_trim x)"
  then have "c \<in> set (dropWhile js_space (rev (dropWhile js_space x)))" by (simp add: js_trim_def)
  then have "c \<in> set (rev (dropWhile js_space x))" by (blast dest: set_dropWhileD)
  then show "c \<in> set x" by (auto dest: set_dropWhileD)
qed

lemma word_not_space: "word_char c \<Longrightarrow> \<not> js_space c"
  by (auto simp: word_char_def js_space_def)

lemma hyphen_plain [simp]: "to_lower hyphen = hyphen" "to_upper hyphen = hyphen" "\<not> js_space hyphen"
  "\<not> word_char hyphen"
  by code_simp+

lemma slug_char_word: "slug_char c \<Longrightarrow> word_char c" "slug_char c \<Longrightarrow> \<not> js_space c"
  by (simp_all add: slug_char_def word_not_space)

lemma slug_char_lower: "slug_char c \<Longrightarrow> to_lower c = c"
  unfolding slug_char_def to_lower_def by (simp only: if_False)

lemma sku_char_word: "sku_char c \<Longrightarrow> word_char c" "sku_char c \<Longrightarrow> \<not> js_space c"
  by (simp_all add: sku_char_def word_not_space)

lemma sku_char_upper: "sku_char c \<Longrightarrow> to_upper c = c"
  unfolding sku_char_def to_upper_def by (simp only: if_False)

lemma lower_not_upper: "\<not> (CHR ''A'' \<le> to_lower c \<and> to_lower c \<le> CHR ''Z'')"
  by (auto simp: to_lower_def less_eq_char_def)

lemma upper_not_lower: "\<not> (CHR ''a'' \<le> to_upper c \<and> to_upper c \<le> CHR ''z'')"
  by (auto simp: to_upper_def less_eq_char_def)

lemma generateSlug_canonical_shape: "canonical slug_char (generateSlug x)"
proof -
  let ?f = "filter (\<lambda>c. word_char c \<or> js_space c \<or> c = hyphen) (js_trim (map to_lower x))"
  have low: "slug_char c \<or> js_space c \<or> c = hyphen" if "c \<in> set ?f" for c
  proof -
    from that have c: "c \<in> set (js_trim (map to_lower x))" "word_char c \<or> js_space c \<or> c = hyphen" by auto
    then obtain a where "c = to_lower a" using set_trim [of "map to_lower x"] by auto
    then have "\<not> (CHR ''A'' \<le> c \<and> c \<le> CHR ''Z'')" using lower_not_upper [of a] by (simp only: not_False_eq_True)
    with c(2) show ?thesis unfolding slug_char_def by blast
  qed
  have "slug_char c \<or> c = hyphen" if "c \<in> set (replace_runs (\<lambda>c. c = hyphen) hyphen (replace_runs js_space hyphen ?f))" for c
    using that set_replace_runs [of "\<lambda>c. c = hyphen" hyphen "replace_runs js_space hyphen ?f"]
      set_replace_runs [of js_space hyphen ?f] low [of c] by blast
  then show ?thesis
    unfolding generateSlug_def by (intro strip_canonical collapse_single) (simp add: list_all_iff)
qed

lemma generateSlug_id:
  assumes "canonical slug_char x"
  shows "generateSlug x = x"
proof -
  have c: "word_char c \<or> c = hyphen" "to_lower c = c" "\<not> js_space c" if "c \<in> set x" for c
  proof -
    have "slug_char c \<or> c = hyphen" using that assms by (simp add: canonical_def list_all_iff)
    then show "word_char c \<or> c = hyphen" "to_lower c = c" "\<not> js_space c"
      using slug_char_word [of c] slug_char_lower [of c] by (elim disjE; simp)+
  qed
  have "js_trim (map to_lower x) = x" using c by (simp add: trim_id map_idI)
  moreover have "filter (\<lambda>c. word_char c \<or> js_space c \<or> c = hyphen) x = x" using c(1) by (auto intro: filter_True)
  moreover have "replace_runs js_space hyphen x = x" using c(3) by (rule replace_runs_none)
  moreover have "replace_runs (\<lambda>c. c = hyphen) hyphen x = x" using assms by (simp add: canonical_def collapse_id)
  ultimately show ?thesis using assms by (simp add: generateSlug_def strip_id)
qed

lemma sanitizeSku_canonical_shape: "canonical sku_char (sanitizeSku x)"
proof -
  let ?m = "map (\<lambda>c. if word_char c \<or> c = hyphen then c else hyphen) (js_trim (map to_upper x))"
  have up: "sku_char c \<or> c = hyphen" if "c \<in> set ?m" for c
  proof -
    from that obtain b where b: "b \<in> set (js_trim (map to_upper x))"
      "c = (if word_char b \<or> b = hyphen then b else hyphen)" by auto
    then obtain a where "b = to_upper a" using set_trim [of "map to_upper x"] by auto
    then have "\<not> (CHR ''a'' \<le> b \<and> b \<le> CHR ''z'')" using upper_not_lower [of a] by (simp only: not_False_eq_True)
    with b(2) show ?thesis unfolding sku_char_def by (cases "word_char b \<or> b = hyphen") auto
  qed
  have "sku_char c \<or> c = hyphen" if "c \<in> set (replace_runs (\<lambda>c. c = hyphen) hyphen ?m)" for c
    using that set_replace_runs [of "\<lambda>c. c = hyphen" hyphen ?m] up [of c] by blast
  then show ?thesis
    unfolding sanitizeSku_def by (intro strip_canonical collapse_single) (simp add: list_all_iff)
qed

lemma sanitizeSku_id:
  assumes "canonical sku_char x"
  shows "sanitizeSku x = x"
proof -
  have c: "word_char c \<or> c = hyphen" "to_upper c = c" "\<not> js_space c" if "c \<in> set x" for c
  proof -
    have "sku_char c \<or> c = hyphen" using that assms by (simp add: canonical_def list_all_iff)
    then show "word_char c \<or> c = hyphen" "to_upper c = c" "\<not> js_space c"
      using sku_char_word [of c] sku_char_upper [of c] by (elim disjE; simp)+
  qed
  have "js_trim (map to_upper x) = x" using c by (simp add: trim_id map_idI)
  moreover have "map (\<lambda>c. if word_char c \<or> c = hyphen then c else hyphen) x = x" using c(1) by (auto intro: map_idI)
  moreover have "replace_runs (\<lambda>c. c = hyphen) hyphen x = x" using assms by (simp add: canonical_def collapse_id)
  ultimately show ?thesis using assms by (simp add: sanitizeSku_def strip_id)
qed

section \<open>Lemmas: the loop\<close>

lemma unique_loop_least:
  assumes "candidate \<in> set taken"
  shows "unique_loop taken base candidate c =
     suffixed base (LEAST k. c \<le> k \<and> suffixed base k \<notin> set taken)"
  using assms
proof (induction taken base candidate c rule: unique_loop.induct)
  case (1 taken base candidate c)
  show ?case
  proof (cases "suffixed base c \<in> set taken")
    case True
    then have "(c \<le> k \<and> suffixed base k \<notin> set taken) = (Suc c \<le> k \<and> suffixed base k \<notin> set taken)" for k
      by (cases "k = c") auto
    moreover have "unique_loop taken base candidate c = unique_loop taken base (suffixed base c) (Suc c)"
      using 1(2) unique_loop.simps [of taken base candidate c] by simp
    ultimately show ?thesis using 1(1) [OF 1(2) True] by simp
  next
    case False
    then have "(LEAST k. c \<le> k \<and> suffixed base k \<notin> set taken) = c" by (intro Least_equality) auto
    moreover have "unique_loop taken base candidate c = suffixed base c"
      using 1(2) False unique_loop.simps [of taken base candidate c]
        unique_loop.simps [of taken base "suffixed base c" "Suc c"] by simp
    ultimately show ?thesis by simp
  qed
qed

lemma some_free: "\<exists>k. c \<le> k \<and> suffixed base k \<notin> set taken"
proof (rule ccontr)
  assume "\<not> (\<exists>k. c \<le> k \<and> suffixed base k \<notin> set taken)"
  then have "{k. c \<le> k \<and> suffixed base k \<in> set taken} = {c..}" by auto
  with finite_taken [of c base taken] show False by (simp add: infinite_Ici)
qed

lemma unique_loop_result:
  "unique_loop taken base base 1 = (if base \<in> set taken
     then suffixed base (LEAST k. 1 \<le> k \<and> suffixed base k \<notin> set taken) else base)"
  "unique_loop taken base base 1 \<notin> set taken"
proof -
  show eq: "unique_loop taken base base 1 = (if base \<in> set taken
     then suffixed base (LEAST k. 1 \<le> k \<and> suffixed base k \<notin> set taken) else base)"
    using unique_loop_least [of base taken base 1] unique_loop.simps [of taken base base 1] by auto
  have "suffixed base (LEAST k. 1 \<le> k \<and> suffixed base k \<notin> set taken) \<notin> set taken"
    using LeastI_ex [OF some_free [of 1 base taken]] by blast
  then show "unique_loop taken base base 1 \<notin> set taken" unfolding eq by simp
qed

lemma digit_slug_char: "d < 10 \<Longrightarrow> slug_char (digit d) \<and> digit d \<noteq> hyphen"
  by (drule all_digits, elim insertE emptyE; hypsubst; code_simp)

lemma show_nat_shape: "show_nat k \<noteq> [] \<and> list_all (\<lambda>c. slug_char c \<and> c \<noteq> hyphen) (show_nat k)"
proof (induction k rule: show_nat.induct)
  case (1 k)
  show ?case
  proof (cases "k < 10")
    case True
    then show ?thesis using digit_slug_char [of k] by (simp add: show_nat.simps [of k])
  next
    case False
    then show ?thesis using 1 digit_slug_char [of "k mod 10"] by (simp add: show_nat.simps [of k])
  qed
qed

lemma no_hyphen_single: "list_all (\<lambda>c. P c \<and> c \<noteq> hyphen) x \<Longrightarrow> single_hyphens x"
  by (induction x rule: induct_list012) (auto simp: single_hyphens_def)

text \<open>A number after a hyphen leaves a proper slug a proper slug.\<close>

lemma suffixed_canonical:
  assumes "canonical slug_char base" "base \<noteq> []"
  shows "canonical slug_char (suffixed base k)"
proof -
  have n: "show_nat k \<noteq> []" "list_all (\<lambda>c. slug_char c \<and> c \<noteq> hyphen) (show_nat k)"
    using show_nat_shape [of k] by simp_all
  then have "hd (show_nat k) \<noteq> hyphen" "last (show_nat k) \<noteq> hyphen"
    using hd_in_set [of "show_nat k"] last_in_set [of "show_nat k"] by (auto simp: list_all_iff)
  moreover have "list_all (\<lambda>c. slug_char c \<or> c = hyphen) (show_nat k)"
    using n(2) by (simp add: list_all_iff)
  moreover have "single_hyphens (show_nat k)" using n(2) by (rule no_hyphen_single)
  ultimately show ?thesis
    using assms n(1) unfolding canonical_def suffixed_def single_hyphens_def
    by (simp add: successively_append_iff successively_Cons)
qed

lemma createSlug_run:
  assumes "\<not> (empty_string slug \<and> empty_string name)"
  shows "createSlug model t slug name excludeId s =
    (Inr (let base = generateSlug (if empty_string slug then the name else the slug)
          in unique_loop (taken_slugs model t excludeId s) base base 1), s)"
  using assms by (auto simp: createSlug_def ensureUniqueSlug_def Let_def bindM_def)

section \<open>Properties\<close>

text \<open>A generated slug holds lower-case word characters and single hyphens only, with no hyphen at
  either end, and generating the slug of a slug changes nothing; the same for article numbers, with upper
  case.\<close>

theorem generated_texts_normal:
  "canonical slug_char (generateSlug x) \<and> generateSlug (generateSlug x) = generateSlug x \<and>
   canonical sku_char (sanitizeSku y) \<and> sanitizeSku (sanitizeSku y) = sanitizeSku y"
  using generateSlug_canonical_shape [of x] sanitizeSku_canonical_shape [of y]
    generateSlug_id [of "generateSlug x"] sanitizeSku_id [of "sanitizeSku y"] by blast

text \<open>The search for a free slug always ends. It returns the slug of the text when no other row of
  the tenant has it, and otherwise that slug with the smallest counter from 1 that is still free; the
  result is never taken.\<close>

theorem createSlug_unique:
  assumes "\<not> (empty_string slug \<and> empty_string name)"
    and base: "base = generateSlug (if empty_string slug then the name else the slug)"
    and taken: "taken = set (taken_slugs model t excludeId s)"
  shows "\<exists>r. createSlug model t slug name excludeId s = (Inr r, s) \<and> r \<notin> taken \<and>
    r = (if base \<in> taken then suffixed base (LEAST k. 1 \<le> k \<and> suffixed base k \<notin> taken) else base)"
  using createSlug_run [OF assms(1), of model t excludeId s]
    unique_loop_result [of "taken_slugs model t excludeId s" base]
  unfolding base taken Let_def by blast

definition sample_cat :: "string \<Rightarrow> string \<Rightarrow> category" where
  "sample_cat i slug = \<lparr>cat_id = i, cat_name = slug, cat_slug = slug, cat_description = None, cat_image = None,
     cat_status = ProdActive, cat_parentId = None, cat_tenantId = ''t1'', cat_deletedAt = None\<rparr>"

definition slug_db :: db where
  "slug_db = db0\<lparr>categories := [sample_cat ''c1'' ''hot-tea'', sample_cat ''c2'' ''hot-tea-1'']\<rparr>"

lemma slug_db_taken: "taken_slugs SlugProductCategory ''t1'' None slug_db = [''hot-tea'', ''hot-tea-1'']"
  "taken_slugs SlugProductCategory ''t1'' (Some ''c2'') slug_db = [''hot-tea'']"
  by code_simp+


text \<open>Handing the slug of a row back when the row is updated keeps it: as long as no other row took it,
  a slug that \<open>createSlug\<close> made, and that came from a text with at least one word character, is
  returned unchanged.\<close>

theorem createSlug_stable:
  assumes "createSlug model t slug name excludeId s = (Inr r, s')"
    and "generateSlug (if empty_string slug then the name else the slug) \<noteq> []"
    and "r \<notin> set (taken_slugs model t (Some i) s2)"
  shows "createSlug model t (Some r) name' (Some i) s2 = (Inr r, s2)"
proof -
  define base where "base = generateSlug (if empty_string slug then the name else the slug)"
  have ne: "\<not> (empty_string slug \<and> empty_string name)"
    using assms(1) by (auto simp: createSlug_def bindM_def)
  then have "r = unique_loop (taken_slugs model t excludeId s) base base 1"
    using assms(1) unfolding createSlug_run [OF ne, of model t excludeId s] base_def Let_def by blast
  then have "r = base \<or> (\<exists>k. r = suffixed base k)"
    using unique_loop_result(1) [of "taken_slugs model t excludeId s" base] by auto
  moreover have "canonical slug_char base" "base \<noteq> []"
    using generateSlug_canonical_shape assms(2) by (simp_all add: base_def)
  ultimately have r: "canonical slug_char r" "r \<noteq> []"
    using suffixed_canonical [of base] by (auto simp: suffixed_def)
  then have "\<not> (empty_string (Some r) \<and> empty_string name')" "\<not> empty_string (Some r)"
    by (simp_all add: empty_string_def)
  then show ?thesis
    using createSlug_run [of "Some r" name' model t "Some i" s2] generateSlug_id [OF r(1)]
      unique_loop_result(1) [of "taken_slugs model t (Some i) s2" r] assms(3) by (simp add: Let_def)
qed


text \<open>A name without a single ASCII letter, digit, underscore or hyphen, such as one in Bengali script, has
  the empty slug; from the second such name on the slug is a bare counter with a hyphen before it, which
  the generator itself would not accept: it maps \<^verbatim>\<open>-1\<close> to \<^verbatim>\<open>1\<close>.\<close>

theorem symbol_names_empty_slug:
  "generateSlug ''!! % &'' = [] \<and>
   createSlug SlugProductCategory ''t1'' None (Some ''%&!'') None (slug_db\<lparr>categories := [sample_cat ''c1'' []]\<rparr>) =
     (Inr ''-1'', slug_db\<lparr>categories := [sample_cat ''c1'' []]\<rparr>) \<and>
   generateSlug ''-1'' = ''1''"
  by code_simp

end
