(* ===== verification/Category.thy ===== *)
theory Category
  imports Slug Pagination
begin

text \<open>
  \<^verbatim>\<open>src/src/modules/category/category.service.ts\<close>: the tree of product categories of a tenant.
  Creating, moving and deleting a category, and the queries.

  Moving a category walks up the tree from the new parent to see whether it meets the category itself.
  The loop ends only if the tree has no cycle, so it is a \<open>partial_function\<close> whose value \<open>None\<close> means
  that the request never returns; an update has the type \<open>async\<close>, a handler that may not return. It is
  written as its parts: the checks, the walk, the write.
\<close>

section \<open>Identifiers: \<^verbatim>\<open>src/src/common/utils/uuid.utils.ts\<close>\<close>

datatype identifier_type = Uuid | SlugText

definition hex_char :: "char \<Rightarrow> bool" where
  "hex_char c \<longleftrightarrow> char_range CHR ''0'' CHR ''9'' c \<or> char_range CHR ''a'' CHR ''f'' c \<or>
     char_range CHR ''A'' CHR ''F'' c"

definition isUUID :: "string \<Rightarrow> bool" where
  "isUUID v \<longleftrightarrow> length v = 36 \<and>
     list_all (\<lambda>i. if i \<in> {8, 13, 18, 23} then v ! i = hyphen else hex_char (v ! i)) [0..<36]"

definition isUUIDv4 :: "string \<Rightarrow> bool" where
  "isUUIDv4 v \<longleftrightarrow> isUUID v \<and> v ! 14 = CHR ''4'' \<and> v ! 19 \<in> set ''89abAB''"

definition getIdentifierType :: "string \<Rightarrow> identifier_type" where
  "getIdentifierType v = (if isUUID v then Uuid else SlugText)"

section \<open>Requests and responses\<close>

record create_category_dto =
  cc_name :: string
  cc_slug :: "string option"
  cc_description :: "string option"
  cc_image :: "string option"
  cc_status :: "ProductStatus option"
  cc_parentId :: "id option"

text \<open>In an update a nullable field may be absent, \<^verbatim>\<open>null\<close> or a value.\<close>

record update_category_dto =
  uc_name :: "string option"
  uc_slug :: "string option"
  uc_description :: "string option option"
  uc_image :: "string option option"
  uc_status :: "ProductStatus option"
  uc_parentId :: "id option option"

record category_query =
  cq_search :: "string option"
  cq_status :: "ProductStatus option"
  cq_parentId :: "id option"
  cq_rootOnly :: "bool option"

record parent_summary =
  ps_id :: id
  ps_name :: string
  ps_slug :: string

record child_summary =
  cs_id :: id
  cs_name :: string
  cs_slug :: string
  cs_status :: ProductStatus

record category_response =
  cr_category :: category
  cr_parent :: "parent_summary option"

record category_with_count =
  cw_response :: category_response
  cw_children :: nat
  cw_products :: nat

record category_detail =
  cd_response :: category_response
  cd_children :: "child_summary list"
  cd_products :: nat

section \<open>Reading\<close>

abbreviation update_category_row :: "(category \<Rightarrow> bool) \<Rightarrow> (category \<Rightarrow> category) \<Rightarrow> unit handler" where
  "update_category_row \<equiv> update_row categories (\<lambda>rows s. s\<lparr>categories := rows\<rparr>) RecordNotFound"

definition find_category :: "id \<Rightarrow> id \<Rightarrow> db \<Rightarrow> category option" where
  "find_category tenantId i s =
     List.find (\<lambda>c. cat_id c = i \<and> cat_tenantId c = tenantId \<and> cat_deletedAt c = None) (categories s)"

text \<open>\<^verbatim>\<open>include: { parent }\<close>, and the counts of live children and of live products.\<close>

definition with_parent :: "db \<Rightarrow> category \<Rightarrow> category_response" where
  "with_parent s c = \<lparr>cr_category = c,
     cr_parent = (case cat_parentId c of None \<Rightarrow> None
       | Some p \<Rightarrow> map_option (\<lambda>q. \<lparr>ps_id = cat_id q, ps_name = cat_name q, ps_slug = cat_slug q\<rparr>)
           (List.find (\<lambda>q. cat_id q = p) (categories s)))\<rparr>"

definition live_children :: "db \<Rightarrow> id \<Rightarrow> category list" where
  "live_children s i = filter (\<lambda>c. cat_parentId c = Some i \<and> cat_deletedAt c = None) (categories s)"

definition live_products :: "db \<Rightarrow> id \<Rightarrow> nat" where
  "live_products s i = length (filter (\<lambda>(p, c). c = i \<and>
     list_ex (\<lambda>r. prod_id r = p \<and> prod_deletedAt r = None) (products s)) (productCategories s))"

definition validateCategoryIds :: "id \<Rightarrow> id list \<Rightarrow> unit handler" where
  "validateCategoryIds tenantId categoryIds =
     (if categoryIds = [] then ret ()
      else
        let uniqueIds = js_unique categoryIds in
        bindM (readM (\<lambda>s. map cat_id (filter (\<lambda>c. cat_id c \<in> set uniqueIds \<and> cat_tenantId c = tenantId \<and>
                 cat_deletedAt c = None) (categories s)))) (\<lambda>found.
        throw_if (length found \<noteq> length uniqueIds)
          (NotFoundException (CategoriesNotFound (filter (\<lambda>i. i \<notin> set found) uniqueIds)))))"

definition category_filter :: "env \<Rightarrow> id \<Rightarrow> category_query \<Rightarrow> category \<Rightarrow> bool" where
  "category_filter E tenantId q c \<longleftrightarrow>
     cat_tenantId c = tenantId \<and> cat_deletedAt c = None \<and>
     (case cq_status q of None \<Rightarrow> True | Some v \<Rightarrow> cat_status c = v) \<and>
     (if cq_rootOnly q = Some True then cat_parentId c = None
      else empty_string (cq_parentId q) \<or> cat_parentId c = cq_parentId q) \<and>
     (empty_string (cq_search q) \<or>
        e_ilike E (the (cq_search q)) (cat_name c) \<or>
        (case cat_description c of None \<Rightarrow> False | Some d \<Rightarrow> e_ilike E (the (cq_search q)) d) \<or>
        e_ilike E (the (cq_search q)) (cat_slug c))"

definition findAll_categories ::
  "env \<Rightarrow> (string \<times> SortType \<Rightarrow> category list \<Rightarrow> category list) \<Rightarrow> id \<Rightarrow> page_query \<Rightarrow> category_query
   \<Rightarrow> (page_meta \<times> category_with_count list) handler" where
  "findAll_categories E sorted_by tenantId pq q = readM (\<lambda>s.
     let w = getPagination pq;
         rows = filter (category_filter E tenantId q) (categories s);
         page = page_rows (pw_skip w) (pw_take w) (sorted_by (pw_orderBy w) rows)
     in (generatePaginationMeta (pw_page w) (pw_take w) (int (length rows)) (pw_skip w),
         map (\<lambda>c. \<lparr>cw_response = with_parent s c, cw_children = length (live_children s (cat_id c)),
                   cw_products = live_products s (cat_id c)\<rparr>) page))"

definition findOne_category :: "id \<Rightarrow> string \<Rightarrow> category_detail handler" where
  "findOne_category tenantId identifier =
     bindM (readM (\<lambda>s. List.find (\<lambda>c. cat_tenantId c = tenantId \<and> cat_deletedAt c = None \<and>
              (if isUUID identifier then cat_id c = identifier else cat_slug c = identifier))
              (categories s))) (\<lambda>found.
     bindM (require found (NotFoundException CategoryNotFound)) (\<lambda>c.
     readM (\<lambda>s. \<lparr>cd_response = with_parent s c,
        cd_children = map (\<lambda>k. \<lparr>cs_id = cat_id k, cs_name = cat_name k, cs_slug = cat_slug k,
            cs_status = cat_status k\<rparr>) (live_children s (cat_id c)),
        cd_products = live_products s (cat_id c)\<rparr>)))"

section \<open>Writing\<close>

text \<open>The foreign key of \<^verbatim>\<open>parentId\<close>: the row it names must exist.\<close>

definition parent_key_ok :: "id option \<Rightarrow> db \<Rightarrow> bool" where
  "parent_key_ok parentId s \<longleftrightarrow> (case parentId of None \<Rightarrow> True
     | Some p \<Rightarrow> list_ex (\<lambda>c. cat_id c = p) (categories s))"

definition create_category :: "env \<Rightarrow> id \<Rightarrow> create_category_dto \<Rightarrow> category_response handler" where
  "create_category E tenantId dto =
     bindM (if empty_string (cc_parentId dto) then ret ()
            else bindM (readM (find_category tenantId (the (cc_parentId dto)))) (\<lambda>parent.
                 throw_if (parent = None) (NotFoundException ParentCategoryNotFound))) (\<lambda>_.
     bindM (createSlug SlugProductCategory tenantId (cc_slug dto) (Some (cc_name dto)) None) (\<lambda>slug.
     bindM (readM (parent_key_ok (cc_parentId dto))) (\<lambda>ok.
     bindM (throw_if (\<not> ok) ForeignKeyConstraint) (\<lambda>_.
     bindM (fresh_id E) (\<lambda>i.
     let c = \<lparr>cat_id = i, cat_name = cc_name dto, cat_slug = slug, cat_description = cc_description dto,
              cat_image = cc_image dto,
              cat_status = (case cc_status dto of None \<Rightarrow> ProdDraft | Some v \<Rightarrow> v),
              cat_parentId = cc_parentId dto, cat_tenantId = tenantId, cat_deletedAt = None\<rparr> in
     bindM (writeM (\<lambda>s. s\<lparr>categories := categories s @ [c]\<rparr>)) (\<lambda>_.
     readM (\<lambda>s. with_parent s c)))))))"

text \<open>\<^verbatim>\<open>checkCircularReference\<close>: up the tree from \<open>currentId\<close>.\<close>

partial_function (option) checkCircularReference ::
  "db \<Rightarrow> id \<Rightarrow> id \<Rightarrow> id option \<Rightarrow> bool option" where
  "checkCircularReference s tenantId categoryId currentId =
     (if empty_string currentId then Some False
      else if the currentId = categoryId then Some True
      else checkCircularReference s tenantId categoryId
             (case find_category tenantId (the currentId) s of None \<Rightarrow> None | Some c \<Rightarrow> cat_parentId c))"

type_synonym 'a async = "db \<Rightarrow> ((exn + 'a) \<times> db) option"

text \<open>The checks of an update: the category, then a parent, if one is given.\<close>

definition new_parent :: "update_category_dto \<Rightarrow> id option" where
  "new_parent dto = (case uc_parentId dto of Some (Some p) \<Rightarrow> if p = [] then None else Some p | _ \<Rightarrow> None)"

definition update_category_checks :: "id \<Rightarrow> id \<Rightarrow> update_category_dto \<Rightarrow> unit handler" where
  "update_category_checks tenantId i dto =
     bindM (readM (find_category tenantId i)) (\<lambda>found.
     bindM (require found (NotFoundException CategoryNotFound)) (\<lambda>_.
     case new_parent dto of None \<Rightarrow> ret ()
     | Some p \<Rightarrow>
         bindM (throw_if (p = i) (BadRequestException SelfParent)) (\<lambda>_.
         bindM (readM (find_category tenantId p)) (\<lambda>parent.
         throw_if (parent = None) (NotFoundException ParentCategoryNotFound)))))"

definition patch_category :: "update_category_dto \<Rightarrow> string option \<Rightarrow> category \<Rightarrow> category" where
  "patch_category dto slug c = c\<lparr>
     cat_name := (if empty_string (uc_name dto) then cat_name c else the (uc_name dto)),
     cat_slug := (if empty_string slug then cat_slug c else the slug),
     cat_description := (case uc_description dto of None \<Rightarrow> cat_description c | Some v \<Rightarrow> v),
     cat_image := (case uc_image dto of None \<Rightarrow> cat_image c | Some v \<Rightarrow> v),
     cat_status := (case uc_status dto of None \<Rightarrow> cat_status c | Some v \<Rightarrow> v),
     cat_parentId := (case uc_parentId dto of None \<Rightarrow> cat_parentId c | Some v \<Rightarrow> v)\<rparr>"

definition update_category_write :: "id \<Rightarrow> id \<Rightarrow> update_category_dto \<Rightarrow> category_response handler" where
  "update_category_write tenantId i dto =
     bindM (if empty_string (uc_slug dto) \<and> empty_string (uc_name dto) then ret None
            else bindM (createSlug SlugProductCategory tenantId (uc_slug dto) (uc_name dto) (Some i))
                   (\<lambda>slug. ret (Some slug))) (\<lambda>slug.
     bindM (readM (\<lambda>s. case uc_parentId dto of None \<Rightarrow> True | Some p \<Rightarrow> parent_key_ok p s)) (\<lambda>ok.
     bindM (throw_if (\<not> ok) ForeignKeyConstraint) (\<lambda>_.
     bindM (update_category_row (\<lambda>c. cat_id c = i) (patch_category dto slug)) (\<lambda>_.
     bindM (readM (\<lambda>s. List.find (\<lambda>c. cat_id c = i) (categories s))) (\<lambda>row.
     bindM (require row RecordNotFound) (\<lambda>c.
     readM (\<lambda>s. with_parent s c)))))))"

definition update_category :: "id \<Rightarrow> id \<Rightarrow> update_category_dto \<Rightarrow> category_response async" where
  "update_category tenantId i dto s =
     (case update_category_checks tenantId i dto s of
        (Inl e, s1) \<Rightarrow> Some (Inl e, s1)
      | (Inr _, s1) \<Rightarrow>
          (case new_parent dto of None \<Rightarrow> Some (update_category_write tenantId i dto s1)
           | Some p \<Rightarrow>
               (case checkCircularReference s1 tenantId i (Some p) of
                  None \<Rightarrow> None
                | Some True \<Rightarrow> Some (Inl (BadRequestException CircularParent), s1)
                | Some False \<Rightarrow> Some (update_category_write tenantId i dto s1))))"

definition remove_category :: "id \<Rightarrow> id \<Rightarrow> unit handler" where
  "remove_category tenantId i =
     bindM (readM (find_category tenantId i)) (\<lambda>found.
     bindM (require found (NotFoundException CategoryNotFound)) (\<lambda>_.
     bindM (readM (\<lambda>s. length (live_children s i))) (\<lambda>children.
     bindM (throw_if (0 < children) (ConflictException CategoryHasChildren)) (\<lambda>_.
     bindM (readM (\<lambda>s. live_products s i)) (\<lambda>prods.
     bindM (throw_if (0 < prods) (ConflictException CategoryHasProducts)) (\<lambda>_.
     bindM now (\<lambda>t.
     update_category_row (\<lambda>c. cat_id c = i) (\<lambda>c. c\<lparr>cat_deletedAt := Some t\<rparr>))))))))"

inductive category_step :: "env \<Rightarrow> db \<Rightarrow> db \<Rightarrow> bool" for E where
  create_step: "create_category E t dto s = (r, s') \<Longrightarrow> category_step E s s'"
| update_step: "update_category t i upd s = Some (r, s') \<Longrightarrow> category_step E s s'"
| remove_step: "remove_category t i s = (r', s') \<Longrightarrow> category_step E s s'"

section \<open>Lemmas: the walk up the tree\<close>

text \<open>The parent relation of the live categories of a tenant.\<close>

definition parents :: "id \<Rightarrow> db \<Rightarrow> (id \<times> id) set" where
  "parents t s = {(cat_id c, p) | c p. c \<in> set (categories s) \<and> cat_tenantId c = t \<and>
     cat_deletedAt c = None \<and> cat_parentId c = Some p}"

lemma finite_parents: "finite (parents t s)"
proof (rule finite_subset)
  show "parents t s \<subseteq> (\<lambda>c. (cat_id c, the (cat_parentId c))) ` set (categories s)"
    by (force simp: parents_def)
qed simp

lemma find_category_Some:
  assumes "distinct (map cat_id (categories s))"
  shows "find_category t i s = Some c \<longleftrightarrow>
    c \<in> set (categories s) \<and> cat_id c = i \<and> cat_tenantId c = t \<and> cat_deletedAt c = None"
proof
  assume "find_category t i s = Some c"
  then show "c \<in> set (categories s) \<and> cat_id c = i \<and> cat_tenantId c = t \<and> cat_deletedAt c = None"
    unfolding find_category_def by (auto dest: find_SomeD)
next
  assume c: "c \<in> set (categories s) \<and> cat_id c = i \<and> cat_tenantId c = t \<and> cat_deletedAt c = None"
  then obtain d where d: "find_category t i s = Some d"
    unfolding find_category_def by (cases "List.find (\<lambda>c. cat_id c = i \<and> cat_tenantId c = t \<and>
      cat_deletedAt c = None) (categories s)") (auto simp: find_None_iff')
  then have "d \<in> set (categories s)" "cat_id d = i" unfolding find_category_def by (auto dest: find_SomeD)
  with c assms have "d = c" by (metis (no_types, lifting) distinct_map inj_onD)
  with d show "find_category t i s = Some c" by simp
qed

lemma parents_out:
  assumes "distinct (map cat_id (categories s))"
  shows "(i, p) \<in> parents t s \<longleftrightarrow>
    (case find_category t i s of None \<Rightarrow> None | Some c \<Rightarrow> cat_parentId c) = Some p"
proof (cases "find_category t i s")
  case None
  then have "(i, p) \<notin> parents t s" by (auto simp: parents_def find_category_def find_None_iff')
  with None show ?thesis by simp
next
  case (Some c)
  then have c: "c \<in> set (categories s)" "cat_id c = i" "cat_tenantId c = t" "cat_deletedAt c = None"
    using find_category_Some [OF assms] by auto
  have uniq: "d = c" if "d \<in> set (categories s)" "cat_id d = i" for d
    using that c assms by (metis (no_types, lifting) distinct_map inj_onD)
  show ?thesis
  proof
    assume "(i, p) \<in> parents t s"
    then obtain d where "d \<in> set (categories s)" "cat_id d = i" "cat_parentId d = Some p"
      unfolding parents_def by blast
    with uniq [of d] Some show "(case find_category t i s of None \<Rightarrow> None | Some c \<Rightarrow> cat_parentId c) = Some p" by simp
  next
    assume "(case find_category t i s of None \<Rightarrow> None | Some c \<Rightarrow> cat_parentId c) = Some p"
    with Some have "cat_parentId c = Some p" by simp
    with c show "(i, p) \<in> parents t s" unfolding parents_def by blast
  qed
qed

text \<open>In a tree the walk ends, and says whether the category is above the starting point.\<close>

lemma walk_decides:
  assumes "distinct (map cat_id (categories s))" "acyclic (parents t s)" "[] \<notin> Range (parents t s)"
    and "i \<noteq> []"
  shows "checkCircularReference s t c (Some i) = Some ((i, c) \<in> (parents t s)\<^sup>*)"
proof -
  have "wf ((parents t s)\<inverse>)" using finite_parents assms(2) by (rule finite_acyclic_wf_converse)
  then show ?thesis using assms(4)
  proof (induction i)
    case (less i)
    let ?next = "case find_category t i s of None \<Rightarrow> None | Some c \<Rightarrow> cat_parentId c"
    have step: "checkCircularReference s t c (Some i) =
        (if i = c then Some True else checkCircularReference s t c ?next)"
      using less.prems checkCircularReference.simps [of s t c "Some i"] by (simp add: empty_string_def)
    show ?case
    proof (cases "i = c")
      case True
      with step show ?thesis by simp
    next
      case False
      show ?thesis
      proof (cases ?next)
        case None
        then have "(i, p) \<notin> parents t s" for p using parents_out [OF assms(1)] by simp
        then have "(i, c) \<notin> (parents t s)\<^sup>*" using False by (auto elim: converse_rtranclE)
        moreover have "checkCircularReference s t c None = Some False"
          by (simp add: checkCircularReference.simps [of s t c None] empty_string_def)
        ultimately show ?thesis using step None False by simp
      next
        case (Some p)
        then have p: "(i, p) \<in> parents t s" using parents_out [OF assms(1)] by simp
        with assms(3) have "p \<noteq> []" by auto
        with less.IH [of p] p have "checkCircularReference s t c (Some p) = Some ((p, c) \<in> (parents t s)\<^sup>*)" by simp
        moreover have "(i, c) \<in> (parents t s)\<^sup>* \<longleftrightarrow> (p, c) \<in> (parents t s)\<^sup>*"
        proof
          assume "(i, c) \<in> (parents t s)\<^sup>*"
          with False obtain q where "(i, q) \<in> parents t s" "(q, c) \<in> (parents t s)\<^sup>*"
            by (auto elim: converse_rtranclE)
          with Some show "(p, c) \<in> (parents t s)\<^sup>*" using parents_out [OF assms(1)] by simp
        qed (use p in \<open>rule converse_rtrancl_into_rtrancl\<close>)
        ultimately show ?thesis using step Some False by simp
      qed
    qed
  qed
qed

text \<open>Once on a cycle that does not go through the category, the walk never ends.\<close>

lemma walk_on_cycle:
  assumes cycle: "\<And>i. i \<in> C \<Longrightarrow> i \<noteq> [] \<and> i \<noteq> c \<and>
      (\<exists>q p. find_category t i s = Some q \<and> cat_parentId q = Some p \<and> p \<in> C)"
    and "i \<in> C"
  shows "checkCircularReference s t c (Some i) = None"
proof (rule ccontr)
  assume "checkCircularReference s t c (Some i) \<noteq> None"
  then obtain y where "checkCircularReference s t c (Some i) = Some y" by blast
  moreover have "s' = s \<longrightarrow> t' = t \<longrightarrow> c' = c \<longrightarrow> (\<forall>i \<in> C. cur \<noteq> Some i)"
    if "checkCircularReference s' t' c' cur = Some y" for s' t' c' cur y
    using that
  proof (rule checkCircularReference.raw_induct
      [where P = "\<lambda>s' t' c' cur y. s' = s \<longrightarrow> t' = t \<longrightarrow> c' = c \<longrightarrow> (\<forall>i \<in> C. cur \<noteq> Some i)", rotated])
    fix walk s' t' c' cur y
    assume 1: "\<And>s' t' c' cur y. walk s' t' c' cur = Some y \<Longrightarrow>
        s' = s \<longrightarrow> t' = t \<longrightarrow> c' = c \<longrightarrow> (\<forall>i \<in> C. cur \<noteq> Some i)"
      "(if empty_string cur then Some False else if the cur = c' then Some True
        else walk s' t' c' (case find_category t' (the cur) s' of None \<Rightarrow> None | Some c \<Rightarrow> cat_parentId c)) = Some y"
    show "s' = s \<longrightarrow> t' = t \<longrightarrow> c' = c \<longrightarrow> (\<forall>i \<in> C. cur \<noteq> Some i)"
    proof (intro impI ballI notI)
      fix i assume eq: "s' = s" "t' = t" "c' = c" and i: "i \<in> C" "cur = Some i"
      from cycle [OF i(1)] obtain q p where q: "find_category t i s = Some q" "cat_parentId q = Some p" "p \<in> C"
        and ne: "i \<noteq> []" "i \<noteq> c" by blast
      from 1(2) have "walk s t c (Some p) = Some y"
        using eq i(2) ne q(1,2) by (simp add: empty_string_def)
      from 1(1) [OF this] q(3) show False by blast
    qed
  qed
  ultimately show False using assms(2) by blast
qed

section \<open>Lemmas: the tree as an invariant\<close>

text \<open>What a tenant's categories always are: rows with distinct identifiers from the generator, slugs
  distinct within a tenant, every live category under a live category of the same tenant or at the
  root, and no cycle.\<close>

definition category_tree :: "env \<Rightarrow> db \<Rightarrow> bool" where
  "category_tree E s \<longleftrightarrow>
     [] \<notin> range (e_uuid E) \<and> ids_used E s (cat_id ` set (categories s)) \<and>
     distinct (map cat_id (categories s)) \<and>
     distinct (map (\<lambda>c. (cat_tenantId c, cat_slug c)) (categories s)) \<and>
     (\<forall>t. Range (parents t s) \<subseteq> {i. find_category t i s \<noteq> None}) \<and>
     (\<forall>t. acyclic (parents t s))"

lemma category_treeD:
  assumes "category_tree E s"
  shows "distinct (map cat_id (categories s))" "acyclic (parents t s)" "[] \<notin> Range (parents t s)"
    "[] \<notin> cat_id ` set (categories s)"
proof -
  show d: "distinct (map cat_id (categories s))" "acyclic (parents t s)" using assms by (simp_all add: category_tree_def)
  show ne: "[] \<notin> cat_id ` set (categories s)" using assms unfolding category_tree_def ids_used_def by blast
  have "c \<notin> set (categories s)" if "cat_id c = []" for c using ne that by (metis imageI)
  then have "find_category t [] s = None" using find_category_Some [OF d(1), of t "[]"]
    by (cases "find_category t [] s") auto
  then show "[] \<notin> Range (parents t s)" using assms unfolding category_tree_def by blast
qed

lemma tree_range: "category_tree E s \<Longrightarrow> q \<in> Range (parents t s) \<Longrightarrow> find_category t q s \<noteq> None"
  unfolding category_tree_def by blast

lemma readonly_createSlug [svc_intros]: "readonly (createSlug m t slug name x)"
  unfolding createSlug_def ensureUniqueSlug_def Let_def by (intro svc_intros)

lemma createSlug_free:
  "createSlug m t slug name x s = (Inr r, s') \<Longrightarrow> s' = s \<and> r \<notin> set (taken_slugs m t x s)"
  unfolding createSlug_def ensureUniqueSlug_def Let_def bindM_Inr
  by (auto simp: unique_loop_result(2) [unfolded One_nat_def] split: if_splits)

section \<open>Lemmas: every request keeps the tree\<close>

lemma patch_category_simps [simp]:
  "cat_id (patch_category dto slug c) = cat_id c" "cat_tenantId (patch_category dto slug c) = cat_tenantId c"
  "cat_deletedAt (patch_category dto slug c) = cat_deletedAt c"
  "cat_slug (patch_category dto slug c) = (if empty_string slug then cat_slug c else the slug)"
  "cat_parentId (patch_category dto slug c) = (case uc_parentId dto of None \<Rightarrow> cat_parentId c | Some v \<Rightarrow> v)"
  by (simp_all add: patch_category_def)

lemma find_category_isSome:
  "find_category t i s \<noteq> None \<longleftrightarrow>
   (\<exists>c \<in> set (categories s). cat_id c = i \<and> cat_tenantId c = t \<and> cat_deletedAt c = None)"
  unfolding find_category_def by (auto simp: find_None_iff')

lemma taken_category_slugs:
  "r \<notin> set (taken_slugs SlugProductCategory t x s) \<Longrightarrow> c \<in> set (categories s) \<Longrightarrow>
   not_excluded x (cat_id c) \<Longrightarrow> (cat_tenantId c, cat_slug c) \<noteq> (t, r)"
  by (auto simp: taken_slugs_def)

text \<open>A new row.\<close>

lemma tree_append:
  assumes tree: "category_tree E s"
    and c: "cat_id c = e_uuid E (nextId s)" "cat_tenantId c = t" "cat_deletedAt c = None"
    and parent: "\<And>p. cat_parentId c = Some p \<Longrightarrow> find_category t p s \<noteq> None"
    and slug: "cat_slug c \<notin> set (taken_slugs SlugProductCategory t None s)"
  shows "category_tree E (s\<lparr>nextId := Suc (nextId s), categories := categories s @ [c]\<rparr>)"
    (is "category_tree E ?s'")
proof -
  note d = category_treeD [OF tree]
  have fresh: "cat_id c \<notin> cat_id ` set (categories s)"
    using tree c(1) ids_used_fresh unfolding category_tree_def by metis
  have p: "parents t' ?s' \<subseteq> parents t' s \<union> {(cat_id c, q) | q. cat_parentId c = Some q \<and> t' = t}" for t'
    using c by (auto simp: parents_def)
  have live: "find_category t' i s \<noteq> None \<Longrightarrow> find_category t' i ?s' \<noteq> None" for t' i
    unfolding find_category_isSome by auto
  have "acyclic (parents t' ?s')" for t'
  proof (cases "cat_parentId c")
    case None
    then show ?thesis using acyclic_subset [OF d(2) [of t'], of "parents t' ?s'"] p [of t'] by simp
  next
    case (Some q)
    have "(q, cat_id c) \<notin> (parents t s)\<^sup>*"
    proof
      assume "(q, cat_id c) \<in> (parents t s)\<^sup>*"
      then have "q = cat_id c \<or> cat_id c \<in> Range (parents t s)" by (auto elim: rtranclE)
      then have "find_category t (cat_id c) s \<noteq> None"
        using parent [OF Some] tree unfolding category_tree_def by blast
      then show False using fresh unfolding find_category_isSome by (metis imageI)
    qed
    then have "acyclic (insert (cat_id c, q) (parents t s))" using d(2) [of t] by (simp add: acyclic_insert)
    moreover have "parents t' ?s' \<subseteq> (if t' = t then insert (cat_id c, q) (parents t s) else parents t' s)"
      using p [of t'] Some by auto
    ultimately show ?thesis using d(2) [of t'] by (cases "t' = t") (auto intro: acyclic_subset)
  qed
  moreover have "Range (parents t' ?s') \<subseteq> {i. find_category t' i ?s' \<noteq> None}" for t'
  proof -
    have "Range (parents t' ?s') \<subseteq> Range (parents t' s) \<union> {q. cat_parentId c = Some q \<and> t' = t}" using p [of t'] by auto
    then show ?thesis using live [of t'] parent tree_range [OF tree, of _ t'] by blast
  qed
  moreover have "ids_used E ?s' (cat_id ` set (categories ?s'))"
    using tree c(1) unfolding category_tree_def by (auto intro: ids_used_mono)
  moreover have "distinct (map cat_id (categories ?s'))" using d(1) fresh by simp
  moreover have "distinct (map (\<lambda>c. (cat_tenantId c, cat_slug c)) (categories ?s'))"
  proof -
    have "(t, cat_slug c) \<noteq> (cat_tenantId b, cat_slug b)" if "b \<in> set (categories s)" for b
      using taken_category_slugs [OF slug that] by (auto simp: not_excluded_def)
    then show ?thesis using tree c(2) unfolding category_tree_def by auto
  qed
  ultimately show ?thesis using tree unfolding category_tree_def by blast
qed

text \<open>A changed row.\<close>

lemma distinct_update_where:
  assumes "distinct (map k rows)" "distinct (map g rows)"
    and "\<And>r b. r \<in> set rows \<Longrightarrow> k r = i \<Longrightarrow> b \<in> set rows \<Longrightarrow> k b \<noteq> i \<Longrightarrow> g b \<noteq> g (f r)"
  shows "distinct (map g (update_where (\<lambda>c. k c = i) f rows))"
  using assms
proof (induction rows)
  case (Cons r rows)
  have IH: "distinct (map g (update_where (\<lambda>c. k c = i) f rows))"
    using Cons.prems by (intro Cons.IH) auto
  show ?case
  proof (cases "k r = i")
    case True
    with Cons.prems(1) have "update_where (\<lambda>c. k c = i) f rows = rows"
      by (intro update_where_none) (auto simp: image_iff)
    moreover have "g (f r) \<notin> g ` set rows"
    proof
      assume "g (f r) \<in> g ` set rows"
      then obtain b where "b \<in> set rows" "g b = g (f r)" by auto
      moreover from this Cons.prems(1) True have "k b \<noteq> i" by (metis distinct.simps(2) image_eqI list.set_map list.simps(9))
      ultimately show False using Cons.prems(3) [of r b] True by simp
    qed
    ultimately show ?thesis using True IH by simp
  next
    case False
    have "g r \<noteq> g (f b)" if "b \<in> set rows" "k b = i" for b
      using Cons.prems(3) [of b r] that False by simp
    then have "g r \<notin> g ` set (update_where (\<lambda>c. k c = i) f rows)"
      using Cons.prems(2) by (auto simp: set_update_where)
    with False IH show ?thesis by simp
  qed
qed simp

lemma tree_patch:
  assumes tree: "category_tree E s" and found: "find_category t i s \<noteq> None"
    and parent: "\<And>p. uc_parentId dto = Some (Some p) \<Longrightarrow>
      find_category t p s \<noteq> None \<and> (p, i) \<notin> (parents t s)\<^sup>*"
    and slug: "\<And>r. slug = Some r \<Longrightarrow> r \<notin> set (taken_slugs SlugProductCategory t (Some i) s)"
  shows "category_tree E
    (s\<lparr>categories := update_where (\<lambda>c. cat_id c = i) (patch_category dto slug) (categories s)\<rparr>)"
    (is "category_tree E ?s'")
proof -
  note d = category_treeD [OF tree]
  have row: "cat_tenantId c = t \<and> cat_deletedAt c = None" if "c \<in> set (categories s)" "cat_id c = i" for c
  proof -
    obtain b where "b \<in> set (categories s)" "cat_id b = i" "cat_tenantId b = t" "cat_deletedAt b = None"
      using found unfolding find_category_isSome by blast
    moreover from this have "b = c" using that d(1) by (metis (no_types, lifting) distinct_map inj_onD)
    ultimately show ?thesis by simp
  qed
  have live: "find_category t' j ?s' \<noteq> None \<longleftrightarrow> find_category t' j s \<noteq> None" for t' j
    unfolding find_category_def by (simp add: find_update_where)
  have p: "parents t' ?s' \<subseteq> parents t' s \<union> {(i, q) | q. uc_parentId dto = Some (Some q) \<and> t' = t}" for t'
    unfolding parents_def using row by (fastforce simp: set_update_where split: option.splits)
  have "acyclic (parents t' ?s')" for t'
  proof (cases "\<exists>q. uc_parentId dto = Some (Some q) \<and> t' = t")
    case False
    then show ?thesis using acyclic_subset [OF d(2) [of t'], of "parents t' ?s'"] p [of t'] by auto
  next
    case True
    then obtain q where q: "uc_parentId dto = Some (Some q)" "t' = t" by blast
    have "acyclic (insert (i, q) (parents t s))" using d(2) [of t] parent [OF q(1)] by (simp add: acyclic_insert)
    then show ?thesis by (rule acyclic_subset) (use p [of t] q in auto)
  qed
  moreover have "Range (parents t' ?s') \<subseteq> {j. find_category t' j ?s' \<noteq> None}" for t'
  proof -
    have "Range (parents t' ?s') \<subseteq> Range (parents t' s) \<union> {q. uc_parentId dto = Some (Some q) \<and> t' = t}"
      using p [of t'] by auto
    then show ?thesis using live [of t'] parent tree_range [OF tree, of _ t'] by blast
  qed
  moreover have ids: "map cat_id (categories ?s') = map cat_id (categories s)"
    by (simp add: map_update_where)
  moreover have "distinct (map (\<lambda>c. (cat_tenantId c, cat_slug c)) (categories ?s'))"
  proof -
    have "(cat_tenantId b, cat_slug b) \<noteq> (t, r)"
      if "b \<in> set (categories s)" "cat_id b \<noteq> i" "slug = Some r" for b r
      using taken_category_slugs [OF slug [OF that(3)] that(1)] that(2) by (simp add: not_excluded_def)
    moreover have "(cat_tenantId b, cat_slug b) \<noteq> (cat_tenantId r, cat_slug r)"
      if "r \<in> set (categories s)" "cat_id r = i" "b \<in> set (categories s)" "cat_id b \<noteq> i" for b r
      using that tree unfolding category_tree_def by (auto simp: distinct_map dest: inj_onD)
    ultimately show ?thesis
      using tree unfolding category_tree_def simp_thms
      by (simp, intro distinct_update_where) (use row in \<open>auto simp: empty_string_def split: option.splits\<close>)
  qed
  moreover have "cat_id ` set (categories ?s') = cat_id ` set (categories s)" using ids by (metis list.set_map)
  ultimately show ?thesis using tree d(1) unfolding category_tree_def by (auto intro: ids_used_mono)
qed

text \<open>A deleted row without live children.\<close>

lemma tree_delete:
  assumes tree: "category_tree E s" and none: "live_children s i = []"
  shows "category_tree E (s\<lparr>categories := update_where (\<lambda>c. cat_id c = i) (\<lambda>c. c\<lparr>cat_deletedAt := Some u\<rparr>) (categories s)\<rparr>)"
    (is "category_tree E ?s'")
proof -
  note d = category_treeD [OF tree]
  have p: "parents t ?s' \<subseteq> parents t s" for t
    unfolding parents_def by (auto simp: set_update_where)
  have "acyclic (parents t ?s')" for t using d(2) [of t] p by (rule acyclic_subset)
  moreover have "find_category t q ?s' \<noteq> None" if "q \<in> Range (parents t ?s')" for t q
  proof -
    have q: "q \<in> Range (parents t s)" using that p by blast
    then obtain c where "c \<in> set (categories s)" "cat_parentId c = Some q" "cat_deletedAt c = None"
      unfolding parents_def by blast
    with none have "q \<noteq> i" unfolding live_children_def by (auto simp: filter_empty_conv)
    moreover obtain b where "b \<in> set (categories s)" "cat_id b = q" "cat_tenantId b = t" "cat_deletedAt b = None"
      using tree_range [OF tree q] unfolding find_category_isSome by blast
    ultimately show ?thesis unfolding find_category_isSome by (auto simp: set_update_where)
  qed
  moreover have ids: "map cat_id (categories ?s') = map cat_id (categories s)"
    "map (\<lambda>c. (cat_tenantId c, cat_slug c)) (categories ?s') = map (\<lambda>c. (cat_tenantId c, cat_slug c)) (categories s)"
    by (simp_all add: map_update_where)
  moreover have "cat_id ` set (categories ?s') = cat_id ` set (categories s)" using ids(1) by (metis list.set_map)
  moreover have "ids_used E ?s' (cat_id ` set (categories s))"
    using tree unfolding category_tree_def by (auto intro: ids_used_mono)
  ultimately show ?thesis using tree unfolding category_tree_def by (metis (mono_tags, lifting) mem_Collect_eq subsetI)
qed

lemma create_category_cases:
  assumes "create_category E t dto s = (r, s')"
  obtains "s' = s"
  | c where "s' = s\<lparr>nextId := Suc (nextId s), categories := categories s @ [c]\<rparr>"
      "cat_id c = e_uuid E (nextId s)" "cat_tenantId c = t" "cat_deletedAt c = None"
      "cat_parentId c = cc_parentId dto" "cat_slug c \<notin> set (taken_slugs SlugProductCategory t None s)"
      "parent_key_ok (cc_parentId dto) s"
      "\<And>p. cc_parentId dto = Some p \<Longrightarrow> p \<noteq> [] \<Longrightarrow> find_category t p s \<noteq> None"
proof (use assms [unfolded create_category_def] in \<open>cases rule: bindM_cases\<close>)
  case (stops e)
  have "s' = s" by (rule readonlyD [rotated], rule stops(1)) (intro svc_intros)
  then show ?thesis by (rule that(1))
next
  case (goes_on u s1)
  have s1: "s1 = s" by (rule readonlyD [rotated], rule goes_on(1)) (intro svc_intros)
  have p: "find_category t p s \<noteq> None" if "cc_parentId dto = Some p" "p \<noteq> []" for p
    using goes_on(1) that by (auto simp: empty_string_def bindM_run split: if_splits)
  from goes_on(2) show ?thesis unfolding s1
  proof (cases rule: bindM_cases)
    case (stops e)
    then show ?thesis using readonlyD [OF readonly_createSlug stops(1)] that(1) by blast
  next
    case (goes_on slug s2)
    then have "s2 = s" "slug \<notin> set (taken_slugs SlugProductCategory t None s)"
      using createSlug_free by blast+
    note rest = goes_on(2) [unfolded \<open>s2 = s\<close>]
    show ?thesis
    proof (cases "parent_key_ok (cc_parentId dto) s")
      case False
      with rest have "s' = s" by (simp add: bindM_run)
      then show ?thesis by (rule that(1))
    next
      case True
      with rest have "s' = s\<lparr>nextId := Suc (nextId s), categories := categories s @ [\<lparr>cat_id = e_uuid E (nextId s),
          cat_name = cc_name dto, cat_slug = slug, cat_description = cc_description dto, cat_image = cc_image dto,
          cat_status = (case cc_status dto of None \<Rightarrow> ProdDraft | Some v \<Rightarrow> v),
          cat_parentId = cc_parentId dto, cat_tenantId = t, cat_deletedAt = None\<rparr>]\<rparr>"
        by (simp add: bindM_run bindM_fresh_id Let_def)
      then show ?thesis by (rule that(2)) (use p True \<open>slug \<notin> _\<close> in simp_all)
    qed
  qed
qed

lemma create_category_tree:
  assumes tree: "category_tree E s" and run: "create_category E t dto s = (r, s')"
  shows "category_tree E s'"
  using run
proof (cases rule: create_category_cases)
  case (2 c)
  have "find_category t p s \<noteq> None" if "cat_parentId c = Some p" for p
  proof -
    have "\<exists>b \<in> set (categories s). cat_id b = p" using 2(7) that [unfolded 2(5)] by (simp add: parent_key_ok_def list_ex_iff)
    then have "p \<noteq> []" using category_treeD(4) [OF tree] by (metis imageI)
    with 2(5,8) that show ?thesis by simp
  qed
  with tree_append [OF tree 2(2-4) _ 2(6)] 2(1) show ?thesis by simp
qed (use tree in simp)

lemma new_parent_Some: "uc_parentId dto = Some (Some p) \<Longrightarrow> p \<noteq> [] \<Longrightarrow> new_parent dto = Some p"
  by (simp add: new_parent_def)

lemma new_parent_nonempty: "new_parent dto = Some p \<Longrightarrow> p \<noteq> []"
  by (auto simp: new_parent_def split: option.splits if_splits)

lemma update_write_cases:
  assumes "update_category_write t i dto s = (r, s')"
  obtains "s' = s"
  | slug where "s' = s\<lparr>categories := update_where (\<lambda>c. cat_id c = i) (patch_category dto slug) (categories s)\<rparr>"
      "\<And>u. slug = Some u \<Longrightarrow> u \<notin> set (taken_slugs SlugProductCategory t (Some i) s)"
      "\<And>p. uc_parentId dto = Some p \<Longrightarrow> parent_key_ok p s"
proof (use assms [unfolded update_category_write_def] in \<open>cases rule: bindM_cases\<close>)
  case (stops e)
  have "s' = s" by (rule readonlyD [rotated], rule stops(1)) (intro svc_intros)
  then show ?thesis by (rule that(1))
next
  case (goes_on slug s1)
  have s1: "s1 = s" by (rule readonlyD [rotated], rule goes_on(1)) (intro svc_intros)
  have slug: "u \<notin> set (taken_slugs SlugProductCategory t (Some i) s)" if "slug = Some u" for u
    using goes_on(1) that createSlug_free by (auto simp: bindM_Inr split: if_splits)
  note rest = goes_on(2) [unfolded s1]
  show ?thesis
  proof (cases "(case uc_parentId dto of None \<Rightarrow> True | Some p \<Rightarrow> parent_key_ok p s) \<and>
      list_ex (\<lambda>c. cat_id c = i) (categories s)")
    case False
    with rest have "s' = s" by (auto simp: bindM_run bindM_update_row split: if_splits)
    then show ?thesis by (rule that(1))
  next
    case True
    with rest have "s' = s\<lparr>categories := update_where (\<lambda>c. cat_id c = i) (patch_category dto slug) (categories s)\<rparr>"
      by (cases "List.find (\<lambda>c. cat_id c = i)
          (update_where (\<lambda>c. cat_id c = i) (patch_category dto slug) (categories s))")
        (simp_all add: bindM_run bindM_update_row, simp_all add: bindM_def)
    then show ?thesis by (rule that(2)) (use slug True in simp_all)
  qed
qed

lemma update_write_atomic:
  assumes "update_category_write t i dto s = (Inl e, s')"
  shows "s' = s"
proof (use assms [unfolded update_category_write_def] in \<open>cases rule: bindM_cases\<close>)
  case (stops e)
  show ?thesis by (rule readonlyD [rotated], rule stops(1)) (intro svc_intros)
next
  case (goes_on slug s1)
  have s1: "s1 = s" by (rule readonlyD [rotated], rule goes_on(1)) (intro svc_intros)
  note rest = goes_on(2) [unfolded s1]
  show ?thesis
  proof (cases "list_ex (\<lambda>c. cat_id c = i) (categories s)")
    case False
    with rest show ?thesis by (auto simp: bindM_run bindM_update_row split: if_splits)
  next
    case True
    then obtain c where "List.find (\<lambda>c. cat_id c = i) (categories s) = Some c"
      by (cases "List.find (\<lambda>c. cat_id c = i) (categories s)") (auto simp: find_None_iff' list_ex_iff)
    with rest True show ?thesis
      by (auto simp: bindM_run bindM_update_row find_update_where split: if_splits) (simp_all add: bindM_def)
  qed
qed

lemma update_write_tree:
  assumes tree: "category_tree E s" and found: "find_category t i s \<noteq> None"
    and parent: "\<And>p. new_parent dto = Some p \<Longrightarrow> find_category t p s \<noteq> None \<and> (p, i) \<notin> (parents t s)\<^sup>*"
    and run: "update_category_write t i dto s = (r, s')"
  shows "category_tree E s'"
  using run
proof (cases rule: update_write_cases)
  case (2 slug)
  have "find_category t p s \<noteq> None \<and> (p, i) \<notin> (parents t s)\<^sup>*" if p: "uc_parentId dto = Some (Some p)" for p
  proof -
    have "\<exists>b \<in> set (categories s). cat_id b = p" using 2(3) [OF p] by (simp add: parent_key_ok_def list_ex_iff)
    then have "p \<noteq> []" using category_treeD(4) [OF tree] by (metis imageI)
    with parent new_parent_Some [OF p] show ?thesis by blast
  qed
  with tree_patch [OF tree found _ 2(2)] 2(1) show ?thesis by blast
qed (use tree in simp)

lemma update_checks:
  "update_category_checks t i dto s = (Inr u, s') \<longleftrightarrow> s' = s \<and> find_category t i s \<noteq> None \<and>
    (\<forall>p. new_parent dto = Some p \<longrightarrow> p \<noteq> i \<and> find_category t p s \<noteq> None)"
  "update_category_checks t i dto s = (Inl e, s') \<Longrightarrow> s' = s"
  unfolding update_category_checks_def
  by (auto simp: bindM_Inr bindM_Inl split: option.splits if_splits)

lemma update_category_returns_run:
  assumes "category_tree E s"
  shows "update_category t i dto s =
    (case update_category_checks t i dto s of
       (Inl e, s1) \<Rightarrow> Some (Inl e, s)
     | (Inr _, s1) \<Rightarrow>
         Some (if \<exists>p. new_parent dto = Some p \<and> (p, i) \<in> (parents t s)\<^sup>*
               then (Inl (BadRequestException CircularParent), s) else update_category_write t i dto s))"
proof (cases "update_category_checks t i dto s")
  case (Pair v s1)
  note d = category_treeD [OF assms]
  show ?thesis
  proof (cases v)
    case (Inl e)
    with Pair update_checks(2) [of t i dto s e s1] show ?thesis by (simp add: update_category_def)
  next
    case (Inr u)
    with Pair update_checks(1) [of t i dto s u s1] have "s1 = s" by simp
    moreover have "checkCircularReference s t i (Some p) = Some ((p, i) \<in> (parents t s)\<^sup>*)" if "new_parent dto = Some p" for p
      using walk_decides [OF d(1) d(2) d(3) new_parent_nonempty [OF that]] .
    ultimately show ?thesis using Pair Inr
      by (cases "new_parent dto") (auto simp: update_category_def)
  qed
qed

lemma update_category_tree:
  assumes tree: "category_tree E s" and run: "update_category t i dto s = Some (r, s')"
  shows "category_tree E s'"
proof (cases "update_category_checks t i dto s")
  case (Pair v s1)
  show ?thesis
  proof (cases v)
    case (Inl e)
    with Pair run tree show ?thesis by (simp add: update_category_returns_run [OF tree])
  next
    case (Inr u)
    note ok = update_checks(1) [of t i dto s u s1, THEN iffD1, OF Pair [unfolded Inr]]
    show ?thesis
    proof (cases "\<exists>p. new_parent dto = Some p \<and> (p, i) \<in> (parents t s)\<^sup>*")
      case True
      with Pair Inr run tree show ?thesis by (simp add: update_category_returns_run [OF tree])
    next
      case False
      then have "update_category_write t i dto s = (r, s')"
        using Pair Inr run by (simp only: update_category_returns_run [OF tree] prod.case sum.case if_False option.inject)
      with update_write_tree [OF tree, of t i dto r s'] ok False show ?thesis by blast
    qed
  qed
qed

lemma remove_category_tree:
  assumes tree: "category_tree E s" and run: "remove_category t i s = (r, s')"
  shows "category_tree E s'"
proof -
  have "s' = s \<or> live_children s i = [] \<and>
      (\<exists>u. s' = s\<lparr>categories := update_where (\<lambda>c. cat_id c = i) (\<lambda>c. c\<lparr>cat_deletedAt := Some u\<rparr>) (categories s)\<rparr>)"
    using run unfolding remove_category_def
    by (cases "find_category t i s") (auto simp: bindM_run bindM_def update_row_run split: if_splits)
  with tree tree_delete [OF tree, of i] show ?thesis by blast
qed

section \<open>Properties\<close>

text \<open>C38: Whatever requests arrive, one after the other, the categories of every tenant stay a forest: a live
  category's parent is a live category of the same tenant, no chain of parents returns to its start, and
  no two rows of a tenant have the same slug.\<close>

theorem category_requests_keep_forest:
  assumes "category_tree E s" and "(category_step E)\<^sup>*\<^sup>* s s'"
  shows "category_tree E s'"
  using assms(2)
proof (induction rule: rtranclp_induct)
  case base
  show ?case by (rule assms(1))
next
  case (step s1 s2)
  from step(2) show ?case
    by (cases rule: category_step.cases)
      (use step(3) create_category_tree update_category_tree remove_category_tree in blast)+
qed

lemma parents_rows:
  "parents t s = set (List.map_filter (\<lambda>c. if cat_tenantId c = t \<and> cat_deletedAt c = None
     then map_option (Pair (cat_id c)) (cat_parentId c) else None) (categories s))"
  by (force simp: parents_def List.map_filter_def)

text \<open>A tree of two levels, and a second root.\<close>

definition tree_row :: "nat \<Rightarrow> string \<Rightarrow> id option \<Rightarrow> category" where
  "tree_row n slug parent = (sample_cat (nat_id n) slug)\<lparr>cat_parentId := parent\<rparr>"

definition tree_db :: db where
  "tree_db = db0\<lparr>categories := [tree_row 0 ''food'' None, tree_row 1 ''tea'' (Some (nat_id 0)), tree_row 2 ''paper'' None],
     nextId := 3\<rparr>"

definition move_under :: "id option \<Rightarrow> update_category_dto" where
  "move_under p = \<lparr>uc_name = None, uc_slug = None, uc_description = None, uc_image = None, uc_status = None,
     uc_parentId = Some p\<rparr>"

lemma tree_db_tree: "category_tree env0 tree_db"
proof -
  have edges: "parents t tree_db = (if t = ''t1'' then {(nat_id 1, nat_id 0)} else {})" for t
    by (simp add: parents_rows List.map_filter_def tree_db_def db0_def tree_row_def sample_cat_def)
  have "[] \<notin> range nat_id" by (auto simp: nat_id_def)
  moreover have "cat_id ` set (categories tree_db) \<subseteq> nat_id ` {..<3}"
    by (auto simp: tree_db_def db0_def tree_row_def sample_cat_def)
  moreover have "find_category ''t1'' (nat_id 0) tree_db \<noteq> None"
    unfolding find_category_isSome by (simp add: tree_db_def db0_def tree_row_def sample_cat_def)
  moreover have "acyclic (parents t tree_db)" for t
    by (simp add: edges acyclic_insert) (simp add: acyclic_def)
  ultimately show ?thesis
    unfolding category_tree_def ids_used_def
    by (simp add: edges inj_nat_id env0_def) (simp add: tree_db_def db0_def tree_row_def sample_cat_def)
qed

theorem category_requests_keep_forest_witness:
  "\<exists>s'. category_step env0 tree_db s' \<and> category_tree env0 s' \<and> length (categories s') = 3"
proof -
  let ?s' = "snd (remove_category ''t1'' (nat_id 2) tree_db)"
  have "category_step env0 tree_db ?s'" by (rule category_step.remove_step) (rule surjective_pairing)
  moreover from this have "category_tree env0 ?s'"
    by (intro category_requests_keep_forest [OF tree_db_tree]) (rule r_into_rtranclp)
  moreover have "length (categories ?s') = 3" by code_simp
  ultimately show ?thesis by blast
qed

text \<open>C39: On a forest an update always returns. It refuses a parent that is the category itself or one of
  its descendants, and a refused update changes nothing.\<close>

theorem update_category_returns:
  assumes "category_tree E s"
  shows "\<exists>r s'. update_category t i dto s = Some (r, s') \<and> (\<forall>e. r \<noteq> Inl e \<or> s' = s) \<and>
    (\<forall>p. new_parent dto \<noteq> Some p \<or> (p, i) \<notin> (parents t s)\<^sup>* \<or> (\<exists>e. r = Inl e))"
proof (cases "update_category_checks t i dto s")
  case (Pair v s1)
  show ?thesis
  proof (cases v)
    case (Inl e)
    with Pair show ?thesis by (auto simp: update_category_returns_run [OF assms])
  next
    case (Inr u)
    obtain r s' where run: "update_category_write t i dto s = (r, s')" by fastforce
    have "r \<noteq> Inl e \<or> s' = s" for e using update_write_atomic run by metis
    with Pair Inr run show ?thesis by (auto simp: update_category_returns_run [OF assms])
  qed
qed

theorem update_category_returns_witness:
  "(nat_id 1, nat_id 0) \<in> (parents ''t1'' tree_db)\<^sup>* \<and>
   (\<exists>e. update_category ''t1'' (nat_id 0) (move_under (Some (nat_id 1))) tree_db = Some (Inl e, tree_db))"
proof -
  have below: "(nat_id 1, nat_id 0) \<in> parents ''t1'' tree_db"
    by (simp add: parents_rows List.map_filter_def tree_db_def db0_def tree_row_def sample_cat_def)
  have np: "new_parent (move_under (Some (nat_id 1))) = Some (nat_id 1)" by code_simp
  obtain r s' where run: "update_category ''t1'' (nat_id 0) (move_under (Some (nat_id 1))) tree_db = Some (r, s')"
    and same: "\<forall>e. r \<noteq> Inl e \<or> s' = tree_db"
    and bad: "\<forall>p. new_parent (move_under (Some (nat_id 1))) \<noteq> Some p \<or> (p, nat_id 0) \<notin> (parents ''t1'' tree_db)\<^sup>* \<or> (\<exists>e. r = Inl e)"
    using update_category_returns [OF tree_db_tree, of "''t1''" "nat_id 0" "move_under (Some (nat_id 1))"]
    by (elim exE conjE) (rule that)
  from bad [rule_format, of "nat_id 1"] np below obtain e where "r = Inl e" by auto
  with run same below show ?thesis by auto
qed


end
