(* ===== verification/Reservation.thy ===== *)
theory Reservation
  imports Movement
begin

text \<open>
  \<^verbatim>\<open>src/src/modules/stock/services/reservation.service.ts\<close> and \<^verbatim>\<open>src/src/modules/stock/queue\<close>:
  reservations hold stock for a while. Creating one raises the reserved quantity of the balance,
  releasing or expiring it lowers it again; a delayed job expires it when its time has come.

  The abstract view: the reserved quantity of a product at a location is the sum of its ACTIVE
  reservations (\<open>reserved_ok\<close>); ACTIVE is the only status a reservation can leave.

  The job queue (BullMQ) is a list of jobs keyed by their \<^verbatim>\<open>jobId\<close>. What is relied on of it:
  adding a job whose id is present does nothing, removing one takes it out, and a job is run, at
  least once, when its time has come (\<open>due_jobs\<close>).
\<close>

section \<open>Requests\<close>

record create_reservation_dto =
  cr_productId :: id
  cr_locationId :: id
  cr_quantity :: int
  cr_expiresAt :: instant
  cr_referenceType :: "string option"
  cr_referenceId :: "string option"

record update_reservation_dto =
  ur_quantity :: "int option"
  ur_expiresAt :: "instant option"
  ur_referenceType :: "string option"
  ur_referenceId :: "string option"

definition create_reservation_valid :: "create_reservation_dto \<Rightarrow> bool" where
  "create_reservation_valid dto \<longleftrightarrow> 1 \<le> cr_quantity dto"

definition update_reservation_valid :: "update_reservation_dto \<Rightarrow> bool" where
  "update_reservation_valid dto \<longleftrightarrow> (case ur_quantity dto of None \<Rightarrow> True | Some q \<Rightarrow> 1 \<le> q)"

record reservation_response =
  rr_reservation :: reservation
  rr_productName :: "string option"
  rr_locationName :: "string option"

definition formatReservation :: "db \<Rightarrow> reservation \<Rightarrow> reservation_response" where
  "formatReservation s r =
     \<lparr>rr_reservation = r,
      rr_productName = map_option prod_name (List.find (\<lambda>p. prod_id p = res_productId r) (products s)),
      rr_locationName = map_option loc_name (List.find (\<lambda>l. loc_id l = res_locationId r) (locations s))\<rparr>"

section \<open>The expiry queue\<close>

definition scheduleExpiry :: "id \<Rightarrow> id \<Rightarrow> instant \<Rightarrow> unit handler" where
  "scheduleExpiry reservationId tenantId expiresAt =
     bindM now (\<lambda>t.
     let delay = expiresAt - t in
     writeM (\<lambda>s. if \<exists>j \<in> set (jobs s). job_reservationId j = reservationId then s
       else s\<lparr>jobs := jobs s @ [\<lparr>job_reservationId = reservationId, job_tenantId = tenantId,
                                 job_runAt = t + max 0 delay\<rparr>]\<rparr>))"

definition cancelExpiry :: "id \<Rightarrow> unit handler" where
  "cancelExpiry reservationId =
     writeM (\<lambda>s. s\<lparr>jobs := filter (\<lambda>j. job_reservationId j \<noteq> reservationId) (jobs s)\<rparr>)"

definition rescheduleExpiry :: "id \<Rightarrow> id \<Rightarrow> instant \<Rightarrow> unit handler" where
  "rescheduleExpiry reservationId tenantId newExpiresAt =
     bindM (cancelExpiry reservationId) (\<lambda>_. scheduleExpiry reservationId tenantId newExpiresAt)"

definition due_jobs :: "db \<Rightarrow> expiry_job list" where
  "due_jobs s = filter (\<lambda>j. job_runAt j \<le> clock s) (jobs s)"

text \<open>The worker, \<^verbatim>\<open>ReservationQueueProcessor.process\<close>.\<close>

definition process_expiry :: "id \<Rightarrow> id \<Rightarrow> unit handler" where
  "process_expiry reservationId tenantId =
     bindM (readM (\<lambda>s. List.find (\<lambda>r. res_id r = reservationId \<and> res_tenantId r = tenantId \<and>
              res_status r = ACTIVE) (reservations s))) (\<lambda>found.
     case found of None \<Rightarrow> ret ()
     | Some r \<Rightarrow>
         bindM now (\<lambda>t.
         if res_expiresAt r > t then ret ()
         else transaction (
           bindM (update_reservation (\<lambda>x. res_id x = reservationId)
                    (\<lambda>x. x\<lparr>res_status := EXPIRED\<rparr>)) (\<lambda>_.
           update_balance (bal_key (res_productId r) (res_locationId r))
             (\<lambda>b. b\<lparr>bal_reservedQuantity := bal_reservedQuantity b - res_quantity r\<rparr>)))))"

section \<open>The service\<close>

definition create_reservation ::
  "env \<Rightarrow> id \<Rightarrow> id \<Rightarrow> create_reservation_dto \<Rightarrow> reservation_response handler" where
  "create_reservation E tenantId userId dto =
     bindM (readM (\<lambda>s. List.find (\<lambda>p. prod_id p = cr_productId dto \<and> prod_tenantId p = tenantId \<and>
              prod_deletedAt p = None) (products s))) (\<lambda>prod.
     bindM (require prod (NotFoundException ProductNotFound)) (\<lambda>_.
     bindM (readM (\<lambda>s. List.find (\<lambda>l. loc_id l = cr_locationId dto \<and> loc_tenantId l = tenantId)
              (locations s))) (\<lambda>loc.
     bindM (require loc (NotFoundException LocationNotFound)) (\<lambda>_.
     bindM (readM (find_balance (cr_productId dto) (cr_locationId dto))) (\<lambda>bal.
     let onHand = (case bal of None \<Rightarrow> 0 | Some b \<Rightarrow> bal_onHandQuantity b);
         reserved = (case bal of None \<Rightarrow> 0 | Some b \<Rightarrow> bal_reservedQuantity b);
         available = onHand - reserved in
     bindM (throw_if (available < cr_quantity dto)
              (BadRequestException (InsufficientStock [] onHand reserved available (cr_quantity dto)))) (\<lambda>_.
     bindM now (\<lambda>t.
     bindM (throw_if (cr_expiresAt dto \<le> t) (BadRequestException ExpiryInPast)) (\<lambda>_.
     bindM (transaction (
       bindM (fresh_id E) (\<lambda>i.
       let r = \<lparr>res_id = i, res_quantity = cr_quantity dto, res_expiresAt = cr_expiresAt dto,
                res_status = ACTIVE, res_referenceType = cr_referenceType dto,
                res_referenceId = cr_referenceId dto, res_productId = cr_productId dto,
                res_locationId = cr_locationId dto, res_tenantId = tenantId,
                res_createdById = Some userId\<rparr> in
       bindM (writeM (\<lambda>s. s\<lparr>reservations := reservations s @ [r]\<rparr>)) (\<lambda>_.
       bindM (upsert_balance (cr_productId dto) (cr_locationId dto)
                \<lparr>bal_productId = cr_productId dto, bal_locationId = cr_locationId dto,
                 bal_tenantId = tenantId, bal_onHandQuantity = 0,
                 bal_reservedQuantity = cr_quantity dto\<rparr>
                (\<lambda>b. b\<lparr>bal_reservedQuantity := bal_reservedQuantity b + cr_quantity dto\<rparr>)) (\<lambda>_.
       ret r))))) (\<lambda>r.
     bindM (scheduleExpiry (res_id r) tenantId (cr_expiresAt dto)) (\<lambda>_.
     readM (\<lambda>s. formatReservation s r)))))))))))"

definition update_reservation_by ::
  "id \<Rightarrow> id \<Rightarrow> update_reservation_dto \<Rightarrow> reservation_response handler" where
  "update_reservation_by tenantId i dto =
     bindM (throw_if ((case ur_quantity dto of None \<Rightarrow> True | Some q \<Rightarrow> q = 0) \<and> ur_expiresAt dto = None \<and>
              empty_string (ur_referenceType dto) \<and> empty_string (ur_referenceId dto))
              (BadRequestException NothingToUpdate)) (\<lambda>_.
     bindM (readM (\<lambda>s. List.find (\<lambda>r. res_id r = i \<and> res_tenantId r = tenantId) (reservations s))) (\<lambda>found.
     bindM (require found (NotFoundException ReservationNotFound)) (\<lambda>r.
     bindM (throw_if (res_status r \<noteq> ACTIVE)
              (BadRequestException (CannotUpdateReservation (res_status r)))) (\<lambda>_.
     bindM now (\<lambda>t.
     bindM (throw_if (case ur_expiresAt dto of None \<Rightarrow> False | Some d \<Rightarrow> d \<le> t)
              (BadRequestException ExpiryInPast)) (\<lambda>_.
     let quantityDiff = (case ur_quantity dto of None \<Rightarrow> 0 | Some q \<Rightarrow> q - res_quantity r);
         upd = (\<lambda>x. x\<lparr>res_expiresAt := (case ur_expiresAt dto of None \<Rightarrow> res_expiresAt x | Some d \<Rightarrow> d),
                       res_referenceType := (case ur_referenceType dto of None \<Rightarrow> res_referenceType x | Some v \<Rightarrow> Some v),
                       res_referenceId := (case ur_referenceId dto of None \<Rightarrow> res_referenceId x | Some v \<Rightarrow> Some v),
                       res_quantity := (case ur_quantity dto of None \<Rightarrow> res_quantity x | Some q \<Rightarrow> q)\<rparr>) in
     bindM (transaction (
       bindM (if 0 < quantityDiff then
                bindM (readM (find_balance (res_productId r) (res_locationId r))) (\<lambda>bal.
                let onHand = (case bal of None \<Rightarrow> 0 | Some b \<Rightarrow> bal_onHandQuantity b);
                    reserved = (case bal of None \<Rightarrow> 0 | Some b \<Rightarrow> bal_reservedQuantity b);
                    available = onHand - reserved in
                throw_if (available < quantityDiff)
                  (BadRequestException (InsufficientAvailable available quantityDiff)))
              else ret ()) (\<lambda>_.
       bindM (update_reservation (\<lambda>x. res_id x = i) upd) (\<lambda>_.
       bindM (if quantityDiff \<noteq> 0
              then update_balance (bal_key (res_productId r) (res_locationId r))
                     (\<lambda>b. b\<lparr>bal_reservedQuantity := bal_reservedQuantity b + quantityDiff\<rparr>)
              else ret ()) (\<lambda>_.
       ret (upd r)))))) (\<lambda>updated.
     bindM (case ur_expiresAt dto of None \<Rightarrow> ret () | Some d \<Rightarrow> rescheduleExpiry i tenantId d) (\<lambda>_.
     readM (\<lambda>s. formatReservation s updated)))))))))"

definition release_reservation :: "id \<Rightarrow> id \<Rightarrow> unit handler" where
  "release_reservation tenantId i =
     bindM (readM (\<lambda>s. List.find (\<lambda>r. res_id r = i \<and> res_tenantId r = tenantId) (reservations s))) (\<lambda>found.
     bindM (require found (NotFoundException ReservationNotFound)) (\<lambda>r.
     bindM (throw_if (res_status r \<noteq> ACTIVE)
              (BadRequestException (CannotReleaseReservation (res_status r)))) (\<lambda>_.
     bindM (transaction (
       bindM (update_reservation (\<lambda>x. res_id x = i) (\<lambda>x. x\<lparr>res_status := RELEASED\<rparr>)) (\<lambda>_.
       update_balance (bal_key (res_productId r) (res_locationId r))
         (\<lambda>b. b\<lparr>bal_reservedQuantity := bal_reservedQuantity b - res_quantity r\<rparr>)))) (\<lambda>_.
     cancelExpiry i))))"

definition findOne_reservation :: "id \<Rightarrow> id \<Rightarrow> reservation_response handler" where
  "findOne_reservation tenantId i =
     bindM (readM (\<lambda>s. List.find (\<lambda>r. res_id r = i \<and> res_tenantId r = tenantId) (reservations s))) (\<lambda>found.
     bindM (require found (NotFoundException ReservationNotFound)) (\<lambda>r.
     readM (\<lambda>s. formatReservation s r)))"

record reservation_query =
  rq_productId :: "id option"
  rq_locationId :: "id option"
  rq_status :: "ReservationStatus option"
  rq_referenceType :: "string option"

definition reservation_filter :: "id \<Rightarrow> reservation_query \<Rightarrow> reservation \<Rightarrow> bool" where
  "reservation_filter tenantId q r \<longleftrightarrow>
     res_tenantId r = tenantId \<and>
     (case rq_productId q of None \<Rightarrow> True | Some p \<Rightarrow> res_productId r = p) \<and>
     (case rq_locationId q of None \<Rightarrow> True | Some l \<Rightarrow> res_locationId r = l) \<and>
     (case rq_status q of None \<Rightarrow> True | Some st \<Rightarrow> res_status r = st) \<and>
     (case rq_referenceType q of None \<Rightarrow> True
      | Some y \<Rightarrow> y = [] \<or> res_referenceType r = Some y)"

definition reservation_orderBy :: "page_query \<Rightarrow> string \<times> SortType" where
  "reservation_orderBy pq =
     (let sortBy = (case q_sortBy pq of None \<Rightarrow> [] | Some f \<Rightarrow> f)
      in (if sortBy \<in> {''createdAt'', ''expiresAt'', ''quantity'', ''status''} then sortBy else ''createdAt'',
          case q_sort pq of None \<Rightarrow> DESC | Some d \<Rightarrow> d))"

definition findAll_reservations ::
  "(string \<times> SortType \<Rightarrow> reservation list \<Rightarrow> reservation list) \<Rightarrow> id \<Rightarrow> page_query \<Rightarrow> reservation_query
   \<Rightarrow> (page_meta \<times> reservation_response list) handler" where
  "findAll_reservations sorted_by tenantId pq q = readM (\<lambda>s.
     let w = getPagination pq;
         rows = filter (reservation_filter tenantId q) (reservations s);
         page = page_rows (pw_skip w) (pw_take w) (sorted_by (reservation_orderBy pq) rows)
     in (generatePaginationMeta (pw_page w) (pw_take w) (int (length rows)) (pw_skip w),
         map (formatReservation s) page))"

section \<open>Lemmas: reserved quantities\<close>

definition active_at :: "id \<Rightarrow> id \<Rightarrow> reservation \<Rightarrow> bool" where
  "active_at p l r \<longleftrightarrow> res_status r = ACTIVE \<and> res_productId r = p \<and> res_locationId r = l"

definition active_reserved :: "id \<Rightarrow> id \<Rightarrow> db \<Rightarrow> int" where
  "active_reserved p l s = sum_where (active_at p l) res_quantity (reservations s)"

text \<open>The books of the reservations: the balance shows the sum of the ACTIVE ones, and every ACTIVE
  one has a balance row to show it.\<close>

definition reserved_ok :: "db \<Rightarrow> bool" where
  "reserved_ok s \<longleftrightarrow> distinct (map res_id (reservations s)) \<and>
     (\<forall>p l. reserved_at p l s = active_reserved p l s) \<and>
     (\<forall>r \<in> set (reservations s). res_status r = ACTIVE \<longrightarrow> has_balance (res_productId r) (res_locationId r) s)"

text \<open>What is available is never negative.\<close>

definition covered :: "db \<Rightarrow> bool" where
  "covered s \<longleftrightarrow> (\<forall>p l. reserved_at p l s \<le> on_hand p l s)"

definition shift_reserved :: "id \<Rightarrow> id \<Rightarrow> int \<Rightarrow> db \<Rightarrow> db" where
  "shift_reserved p l d s = s\<lparr>balances := update_where (bal_key p l)
     (\<lambda>b. b\<lparr>bal_reservedQuantity := bal_reservedQuantity b + d\<rparr>) (balances s)\<rparr>"

lemma find_balance_shift:
  "find_balance p' l' (shift_reserved p l d s) = (if p' = p \<and> l' = l
     then map_option (\<lambda>b. b\<lparr>bal_reservedQuantity := bal_reservedQuantity b + d\<rparr>) (find_balance p l s)
     else find_balance p' l' s)"
  unfolding shift_reserved_def by (rule find_balance_update) simp

lemma shift_reserved_effect:
  "has_balance p l s \<Longrightarrow> reserved_at p' l' (shift_reserved p l d s) =
     reserved_at p' l' s + (if p' = p \<and> l' = l then d else 0)"
  "on_hand p' l' (shift_reserved p l d s) = on_hand p' l' s"
  "has_balance p' l' (shift_reserved p l d s) = has_balance p' l' s"
  by (auto simp: reserved_at_def on_hand_def has_balance_def find_balance_shift split: option.splits)

lemma shift_reserved_frame:
  "reservations (shift_reserved p l d s) = reservations s"
  "movements (shift_reserved p l d s) = movements s" "layers (shift_reserved p l d s) = layers s"
  "jobs (shift_reserved p l d s) = jobs s" "clock (shift_reserved p l d s) = clock s"
  "products (shift_reserved p l d s) = products s" "nextId (shift_reserved p l d s) = nextId s"
  by (simp_all add: shift_reserved_def)

lemma balances_wf_shift: "balances_wf (shift_reserved p l d s) = balances_wf s"
  by (simp add: balances_wf_def shift_reserved_def map_update_where)

text \<open>Reservations only change where they name their table.\<close>

lemma active_cong: "reservations s' = reservations s \<Longrightarrow> active_reserved p l s' = active_reserved p l s"
  by (simp add: active_reserved_def)

lemma reserved_ok_cong:
  assumes "reservations s' = reservations s" "balances s' = balances s"
  shows "reserved_ok s' = reserved_ok s"
  unfolding reserved_ok_def on_hand_cong(2,3) [OF assms(2)] active_cong [OF assms(1)] assms(1) by (rule refl)

section \<open>Lemmas: closing a reservation\<close>

text \<open>Releasing and expiring run the same two statements, with their own status.\<close>

definition close_as :: "ReservationStatus \<Rightarrow> reservation \<Rightarrow> db \<Rightarrow> db" where
  "close_as st r s = (shift_reserved (res_productId r) (res_locationId r) (- res_quantity r) s)
     \<lparr>reservations := update_where (\<lambda>x. res_id x = res_id r) (\<lambda>x. x\<lparr>res_status := st\<rparr>) (reservations s)\<rparr>"

definition closing :: "ReservationStatus \<Rightarrow> reservation \<Rightarrow> unit handler" where
  "closing st r = transaction (
     bindM (update_reservation (\<lambda>x. res_id x = res_id r) (\<lambda>x. x\<lparr>res_status := st\<rparr>)) (\<lambda>_.
     update_balance (bal_key (res_productId r) (res_locationId r))
       (\<lambda>b. b\<lparr>bal_reservedQuantity := bal_reservedQuantity b - res_quantity r\<rparr>)))"

lemma closing_run:
  assumes "r \<in> set (reservations s)" "has_balance (res_productId r) (res_locationId r) s"
  shows "closing st r s = (Inr (), close_as st r s)"
proof -
  have "list_ex (\<lambda>x. res_id x = res_id r) (reservations s)" using assms(1) by (auto simp: list_ex_iff)
  moreover have "list_ex (bal_key (res_productId r) (res_locationId r)) (balances s)"
    using assms(2) by (simp add: list_ex_bal_key)
  ultimately show ?thesis
    by (simp add: closing_def transaction_def run_simps close_as_def shift_reserved_def)
qed

lemma close_as_effect:
  assumes "reserved_ok s" "r \<in> set (reservations s)" "res_status r = ACTIVE" "st \<noteq> ACTIVE"
  shows "reserved_at p l (close_as st r s) =
      reserved_at p l s - (if p = res_productId r \<and> l = res_locationId r then res_quantity r else 0)"
    and "on_hand p l (close_as st r s) = on_hand p l s"
    and "reserved_ok (close_as st r s)"
proof -
  let ?s1 = "shift_reserved (res_productId r) (res_locationId r) (- res_quantity r) s"
  have has: "has_balance (res_productId r) (res_locationId r) s" using assms by (simp add: reserved_ok_def)
  have b: "balances (close_as st r s) = balances ?s1" by (simp add: close_as_def)
  show res: "reserved_at p l (close_as st r s) =
      reserved_at p l s - (if p = res_productId r \<and> l = res_locationId r then res_quantity r else 0)" for p l
    unfolding on_hand_cong(2) [OF b] shift_reserved_effect(1) [OF has] by simp
  show "on_hand p l (close_as st r s) = on_hand p l s"
    unfolding on_hand_cong(1) [OF b] by (rule shift_reserved_effect(2))
  have d: "distinct (map res_id (reservations s))" using assms(1) by (simp add: reserved_ok_def)
  have act: "active_reserved p l (close_as st r s) = active_reserved p l s
      - (if p = res_productId r \<and> l = res_locationId r then res_quantity r else 0)" for p l
    unfolding active_reserved_def close_as_def
    using sum_where_update_key [OF d assms(2), of "\<lambda>x. x\<lparr>res_status := st\<rparr>" "active_at p l" res_quantity] assms(3,4)
    by (auto simp: active_at_def)
  have bal: "has_balance p l (close_as st r s) = has_balance p l s" for p l
    unfolding on_hand_cong(3) [OF b] by (rule shift_reserved_effect(3))
  show "reserved_ok (close_as st r s)"
    using assms(1,4) d unfolding reserved_ok_def res act bal
    by (auto simp: close_as_def set_update_where map_update_where)
qed


lemma release_run:
  assumes "reserved_ok s"
  shows "release_reservation t i s =
    (case List.find (\<lambda>r. res_id r = i \<and> res_tenantId r = t) (reservations s) of
       None \<Rightarrow> (Inl (NotFoundException ReservationNotFound), s)
     | Some r \<Rightarrow>
         if res_status r \<noteq> ACTIVE
         then (Inl (BadRequestException (CannotReleaseReservation (res_status r))), s)
         else (Inr (), (close_as RELEASED r s)\<lparr>jobs := filter (\<lambda>j. job_reservationId j \<noteq> i) (jobs s)\<rparr>))"
proof (cases "List.find (\<lambda>r. res_id r = i \<and> res_tenantId r = t) (reservations s)")
  case None
  then show ?thesis by (simp add: release_reservation_def bindM_def)
next
  case (Some r)
  then have r: "r \<in> set (reservations s)" "res_id r = i" by (auto dest: find_SomeD)
  show ?thesis
  proof (cases "res_status r = ACTIVE")
    case True
    then have "closing RELEASED r s = (Inr (), close_as RELEASED r s)"
      using assms r by (intro closing_run) (auto simp: reserved_ok_def)
    then have "transaction (
       bindM (update_reservation (\<lambda>x. res_id x = i) (\<lambda>x. x\<lparr>res_status := RELEASED\<rparr>)) (\<lambda>_.
       update_balance (bal_key (res_productId r) (res_locationId r))
         (\<lambda>b. b\<lparr>bal_reservedQuantity := bal_reservedQuantity b - res_quantity r\<rparr>))) s =
      (Inr (), close_as RELEASED r s)" by (simp add: closing_def r)
    with Some True show ?thesis
      by (simp add: release_reservation_def bindM_def cancelExpiry_def close_as_def shift_reserved_def)
  next
    case False
    with Some show ?thesis by (simp add: release_reservation_def bindM_def)
  qed
qed

lemma process_run:
  assumes "reserved_ok s"
  shows "process_expiry i t s =
    (case List.find (\<lambda>r. res_id r = i \<and> res_tenantId r = t \<and> res_status r = ACTIVE) (reservations s) of
       None \<Rightarrow> (Inr (), s)
     | Some r \<Rightarrow> (Inr (), if clock s < res_expiresAt r then s else close_as EXPIRED r s))"
proof (cases "List.find (\<lambda>r. res_id r = i \<and> res_tenantId r = t \<and> res_status r = ACTIVE) (reservations s)")
  case None
  then show ?thesis by (simp add: process_expiry_def bindM_def)
next
  case (Some r)
  then have r: "r \<in> set (reservations s)" "res_id r = i" "res_status r = ACTIVE" by (auto dest: find_SomeD)
  then have "closing EXPIRED r s = (Inr (), close_as EXPIRED r s)"
    using assms by (intro closing_run) (auto simp: reserved_ok_def)
  with Some r(2) show ?thesis by (simp add: process_expiry_def bindM_def closing_def)
qed

section \<open>Lemmas: creating and changing a reservation\<close>

definition new_reservation :: "env \<Rightarrow> id \<Rightarrow> id \<Rightarrow> create_reservation_dto \<Rightarrow> db \<Rightarrow> reservation" where
  "new_reservation E t u dto s =
     \<lparr>res_id = e_uuid E (nextId s), res_quantity = cr_quantity dto, res_expiresAt = cr_expiresAt dto,
      res_status = ACTIVE, res_referenceType = cr_referenceType dto, res_referenceId = cr_referenceId dto,
      res_productId = cr_productId dto, res_locationId = cr_locationId dto, res_tenantId = t,
      res_createdById = Some u\<rparr>"

definition reservable :: "id \<Rightarrow> db \<Rightarrow> create_reservation_dto \<Rightarrow> bool" where
  "reservable t s dto \<longleftrightarrow> cr_productId dto \<in> live_products t s \<and>
     (\<exists>l \<in> set (locations s). loc_id l = cr_locationId dto \<and> loc_tenantId l = t) \<and>
     cr_quantity dto \<le> on_hand (cr_productId dto) (cr_locationId dto) s
       - reserved_at (cr_productId dto) (cr_locationId dto) s \<and>
     clock s < cr_expiresAt dto"

definition reserved_state :: "env \<Rightarrow> id \<Rightarrow> id \<Rightarrow> create_reservation_dto \<Rightarrow> db \<Rightarrow> db" where
  "reserved_state E t u dto s =
     (let p = cr_productId dto; l = cr_locationId dto; i = e_uuid E (nextId s)
      in s\<lparr>nextId := Suc (nextId s),
           reservations := reservations s @ [new_reservation E t u dto s],
           balances := (if has_balance p l s
             then update_where (bal_key p l)
                    (\<lambda>b. b\<lparr>bal_reservedQuantity := bal_reservedQuantity b + cr_quantity dto\<rparr>) (balances s)
             else balances s @ [\<lparr>bal_productId = p, bal_locationId = l, bal_tenantId = t,
                                 bal_onHandQuantity = 0, bal_reservedQuantity = cr_quantity dto\<rparr>]),
           jobs := (if \<exists>j \<in> set (jobs s). job_reservationId j = i then jobs s
             else jobs s @ [\<lparr>job_reservationId = i, job_tenantId = t,
                             job_runAt = clock s + max 0 (cr_expiresAt dto - clock s)\<rparr>])\<rparr>)"

lemma live_products_find:
  "i \<in> live_products t s \<longleftrightarrow>
   (\<exists>p. List.find (\<lambda>p. prod_id p = i \<and> prod_tenantId p = t \<and> prod_deletedAt p = None) (products s) = Some p)"
  by (cases "List.find (\<lambda>p. prod_id p = i \<and> prod_tenantId p = t \<and> prod_deletedAt p = None) (products s)")
    (auto simp: find_None_iff' live_products_def dest: find_SomeD)

lemma location_find:
  "(\<exists>l \<in> set (locations s). loc_id l = i \<and> loc_tenantId l = t) \<longleftrightarrow>
   (\<exists>l. List.find (\<lambda>l. loc_id l = i \<and> loc_tenantId l = t) (locations s) = Some l)"
  by (cases "List.find (\<lambda>l. loc_id l = i \<and> loc_tenantId l = t) (locations s)")
    (auto simp: find_None_iff' dest: find_SomeD)

lemma create_run:
  shows "reservable t s dto \<Longrightarrow> create_reservation E t u dto s =
      (Inr (formatReservation (reserved_state E t u dto s) (new_reservation E t u dto s)),
       reserved_state E t u dto s)"
    and "\<not> reservable t s dto \<Longrightarrow> \<exists>e. create_reservation E t u dto s = (Inl e, s)"
proof -
  let ?p = "cr_productId dto" and ?l = "cr_locationId dto"
  let ?prod = "List.find (\<lambda>p. prod_id p = ?p \<and> prod_tenantId p = t \<and> prod_deletedAt p = None) (products s)"
  let ?loc = "List.find (\<lambda>l. loc_id l = ?l \<and> loc_tenantId l = t) (locations s)"
  have quantities: "(case find_balance ?p ?l s of None \<Rightarrow> 0 | Some b \<Rightarrow> bal_onHandQuantity b) = on_hand ?p ?l s"
    "(case find_balance ?p ?l s of None \<Rightarrow> 0 | Some b \<Rightarrow> bal_reservedQuantity b) = reserved_at ?p ?l s"
    by (simp_all add: on_hand_def reserved_at_def)
  have ex: "list_ex (bal_key ?p ?l) (balances s) = has_balance ?p ?l s" by (rule list_ex_bal_key)
  show "create_reservation E t u dto s =
      (Inr (formatReservation (reserved_state E t u dto s) (new_reservation E t u dto s)),
       reserved_state E t u dto s)" if "reservable t s dto"
  proof -
    from that obtain p l where p: "?prod = Some p" and l: "?loc = Some l"
      and q: "\<not> on_hand ?p ?l s - reserved_at ?p ?l s < cr_quantity dto" "\<not> cr_expiresAt dto \<le> clock s"
      unfolding reservable_def live_products_find location_find by auto
    show ?thesis
    proof (cases "has_balance ?p ?l s")
      case True
      with p l q show ?thesis
        by (simp add: create_reservation_def bindM_def Let_def transaction_def quantities upsert_balance_def
            ex scheduleExpiry_def reserved_state_def new_reservation_def)
    next
      case False
      with p l q show ?thesis
        by (simp add: create_reservation_def bindM_def Let_def transaction_def quantities upsert_balance_def
            ex scheduleExpiry_def reserved_state_def new_reservation_def)
    qed
  qed
  show "\<exists>e. create_reservation E t u dto s = (Inl e, s)" if no: "\<not> reservable t s dto"
  proof (cases ?prod)
    case None
    then show ?thesis by (simp add: create_reservation_def bindM_def)
  next
    case p: (Some p)
    show ?thesis
    proof (cases ?loc)
      case None
      with p show ?thesis by (simp add: create_reservation_def bindM_def)
    next
      case l: (Some l)
      have "on_hand ?p ?l s - reserved_at ?p ?l s < cr_quantity dto \<or> cr_expiresAt dto \<le> clock s"
        using no p l unfolding reservable_def live_products_find location_find by auto
      with p l show ?thesis
        by (auto simp: create_reservation_def bindM_def Let_def quantities)
    qed
  qed
qed

lemma reserved_state_effect:
  shows "reserved_at p l (reserved_state E t u dto s) = reserved_at p l s
      + (if p = cr_productId dto \<and> l = cr_locationId dto then cr_quantity dto else 0)"
    and "on_hand p l (reserved_state E t u dto s) = on_hand p l s"
    and "has_balance p l (reserved_state E t u dto s) \<longleftrightarrow>
      has_balance p l s \<or> (p = cr_productId dto \<and> l = cr_locationId dto)"
    and "active_reserved p l (reserved_state E t u dto s) = active_reserved p l s
      + (if p = cr_productId dto \<and> l = cr_locationId dto then cr_quantity dto else 0)"
proof -
  let ?p = "cr_productId dto" and ?l = "cr_locationId dto"
  let ?row = "\<lparr>bal_productId = ?p, bal_locationId = ?l, bal_tenantId = t, bal_onHandQuantity = 0,
    bal_reservedQuantity = cr_quantity dto\<rparr>"
  have b: "balances (reserved_state E t u dto s) = (if has_balance ?p ?l s
      then balances (shift_reserved ?p ?l (cr_quantity dto) s) else balances (s\<lparr>balances := balances s @ [?row]\<rparr>))"
    by (simp add: reserved_state_def Let_def shift_reserved_def)
  show "active_reserved p l (reserved_state E t u dto s) = active_reserved p l s
      + (if p = ?p \<and> l = ?l then cr_quantity dto else 0)"
    by (auto simp: active_reserved_def reserved_state_def Let_def new_reservation_def active_at_def)
  have "reserved_at p l (reserved_state E t u dto s) = reserved_at p l s
        + (if p = ?p \<and> l = ?l then cr_quantity dto else 0) \<and>
      on_hand p l (reserved_state E t u dto s) = on_hand p l s \<and>
      (has_balance p l (reserved_state E t u dto s) \<longleftrightarrow> has_balance p l s \<or> (p = ?p \<and> l = ?l))"
  proof (cases "has_balance ?p ?l s")
    case True
    then have b1: "balances (reserved_state E t u dto s) = balances (shift_reserved ?p ?l (cr_quantity dto) s)"
      using b by simp
    show ?thesis
      using True unfolding on_hand_cong [OF b1] shift_reserved_effect(1) [OF True] shift_reserved_effect(2,3)
      by auto
  next
    case False
    then have b1: "balances (reserved_state E t u dto s) = balances (s\<lparr>balances := balances s @ [?row]\<rparr>)"
      using b by simp
    have none: "find_balance ?p ?l s = None" using False by (simp add: has_balance_def)
    have f: "find_balance p l (s\<lparr>balances := balances s @ [?row]\<rparr>) =
        (if p = ?p \<and> l = ?l then Some ?row else find_balance p l s)"
      unfolding find_balance_append using none by (auto simp: bal_key_def split: option.splits)
    show ?thesis
      unfolding on_hand_cong [OF b1]
      using none by (auto simp: on_hand_def reserved_at_def has_balance_def f split: if_splits)
  qed
  then show "reserved_at p l (reserved_state E t u dto s) = reserved_at p l s
        + (if p = ?p \<and> l = ?l then cr_quantity dto else 0)"
      "on_hand p l (reserved_state E t u dto s) = on_hand p l s"
      "has_balance p l (reserved_state E t u dto s) \<longleftrightarrow> has_balance p l s \<or> (p = ?p \<and> l = ?l)"
    by blast+
qed

abbreviation reservation_ids_used :: "env \<Rightarrow> db \<Rightarrow> bool" where
  "reservation_ids_used E s \<equiv> ids_used E s (res_id ` set (reservations s))"

lemma reserved_state_ok:
  assumes "reserved_ok s" "reservation_ids_used E s"
  shows "reserved_ok (reserved_state E t u dto s)" "reservation_ids_used E (reserved_state E t u dto s)"
proof -
  have rs: "reservations (reserved_state E t u dto s) = reservations s @ [new_reservation E t u dto s]"
    "nextId (reserved_state E t u dto s) = Suc (nextId s)"
    by (simp_all add: reserved_state_def Let_def)
  have new: "e_uuid E (nextId s) \<notin> res_id ` set (reservations s)" by (rule ids_used_fresh [OF assms(2)])
  show "reserved_ok (reserved_state E t u dto s)"
    using assms(1) new unfolding reserved_ok_def reserved_state_effect rs
    by (auto simp: new_reservation_def)
  show "reservation_ids_used E (reserved_state E t u dto s)"
    by (rule ids_used_mono [OF assms(2)]) (auto simp: rs new_reservation_def)
qed

text \<open>Creating reservations posts to the reserved quantities.\<close>

definition reserved_count :: "id \<times> id \<Rightarrow> db \<Rightarrow> int" where
  "reserved_count k s = reserved_at (fst k) (snd k) s"

lemma create_Inr:
  assumes "create_reservation E t u dto s = (Inr res, s')"
  shows "reservable t s dto" "s' = reserved_state E t u dto s" "rr_reservation res = new_reservation E t u dto s"
proof -
  show r: "reservable t s dto"
  proof (rule ccontr)
    assume "\<not> reservable t s dto"
    from create_run(2) [OF this, of E u] assms show False by auto
  qed
  from assms show "s' = reserved_state E t u dto s" "rr_reservation res = new_reservation E t u dto s"
    unfolding create_run(1) [OF r] by (auto simp: formatReservation_def)
qed

interpretation reserve: free_posting reserved_count "create_reservation E t u"
    "\<lambda>dto. (cr_productId dto, cr_locationId dto)" cr_quantity "\<lambda>dto s. True" for E t u
proof unfold_locales
  fix x s b s' k
  assume "create_reservation E t u x s = (Inr b, s')"
  then have "s' = reserved_state E t u x s" by (rule create_Inr)
  then show "reserved_count k s' = reserved_count k s +
      (if (cr_productId x, cr_locationId x) = k then cr_quantity x else 0)"
    by (cases k) (auto simp: reserved_count_def reserved_state_effect)
qed simp_all

definition updated_row :: "update_reservation_dto \<Rightarrow> reservation \<Rightarrow> reservation" where
  "updated_row dto x =
     x\<lparr>res_expiresAt := (case ur_expiresAt dto of None \<Rightarrow> res_expiresAt x | Some d \<Rightarrow> d),
       res_referenceType := (case ur_referenceType dto of None \<Rightarrow> res_referenceType x | Some v \<Rightarrow> Some v),
       res_referenceId := (case ur_referenceId dto of None \<Rightarrow> res_referenceId x | Some v \<Rightarrow> Some v),
       res_quantity := (case ur_quantity dto of None \<Rightarrow> res_quantity x | Some q \<Rightarrow> q)\<rparr>"

definition quantity_diff :: "update_reservation_dto \<Rightarrow> reservation \<Rightarrow> int" where
  "quantity_diff dto r = (case ur_quantity dto of None \<Rightarrow> 0 | Some q \<Rightarrow> q - res_quantity r)"

definition updatable :: "id \<Rightarrow> db \<Rightarrow> id \<Rightarrow> update_reservation_dto \<Rightarrow> reservation \<Rightarrow> bool" where
  "updatable t s i dto r \<longleftrightarrow>
     \<not> ((case ur_quantity dto of None \<Rightarrow> True | Some q \<Rightarrow> q = 0) \<and> ur_expiresAt dto = None \<and>
        empty_string (ur_referenceType dto) \<and> empty_string (ur_referenceId dto)) \<and>
     List.find (\<lambda>r. res_id r = i \<and> res_tenantId r = t) (reservations s) = Some r \<and>
     res_status r = ACTIVE \<and>
     (case ur_expiresAt dto of None \<Rightarrow> True | Some d \<Rightarrow> clock s < d) \<and>
     (0 < quantity_diff dto r \<longrightarrow> quantity_diff dto r \<le>
        on_hand (res_productId r) (res_locationId r) s - reserved_at (res_productId r) (res_locationId r) s)"

definition updated_state :: "id \<Rightarrow> id \<Rightarrow> update_reservation_dto \<Rightarrow> reservation \<Rightarrow> db \<Rightarrow> db" where
  "updated_state t i dto r s =
     (shift_reserved (res_productId r) (res_locationId r) (quantity_diff dto r) s)
     \<lparr>reservations := update_where (\<lambda>x. res_id x = i) (updated_row dto) (reservations s),
      jobs := (case ur_expiresAt dto of None \<Rightarrow> jobs s
        | Some d \<Rightarrow> filter (\<lambda>j. job_reservationId j \<noteq> i) (jobs s) @
            [\<lparr>job_reservationId = i, job_tenantId = t, job_runAt = clock s + max 0 (d - clock s)\<rparr>])\<rparr>"

lemma shift_reserved_0: "shift_reserved p l 0 s = s"
proof -
  have "update_where (bal_key p l) (\<lambda>b. b\<lparr>bal_reservedQuantity := bal_reservedQuantity b + 0\<rparr>) (balances s) = balances s"
    unfolding update_where_def by (intro map_idI) simp
  then show ?thesis by (simp add: shift_reserved_def)
qed

text \<open>The transaction of an update, on a reservation that has its balance row.\<close>

definition update_tx :: "id \<Rightarrow> update_reservation_dto \<Rightarrow> reservation \<Rightarrow> reservation handler" where
  "update_tx i dto r = transaction (
       bindM (if 0 < quantity_diff dto r then
                bindM (readM (find_balance (res_productId r) (res_locationId r))) (\<lambda>bal.
                let onHand = (case bal of None \<Rightarrow> 0 | Some b \<Rightarrow> bal_onHandQuantity b);
                    reserved = (case bal of None \<Rightarrow> 0 | Some b \<Rightarrow> bal_reservedQuantity b);
                    available = onHand - reserved in
                throw_if (available < quantity_diff dto r)
                  (BadRequestException (InsufficientAvailable available (quantity_diff dto r))))
              else ret ()) (\<lambda>_.
       bindM (update_reservation (\<lambda>x. res_id x = i) (updated_row dto)) (\<lambda>_.
       bindM (if quantity_diff dto r \<noteq> 0
              then update_balance (bal_key (res_productId r) (res_locationId r))
                     (\<lambda>b. b\<lparr>bal_reservedQuantity := bal_reservedQuantity b + quantity_diff dto r\<rparr>)
              else ret ()) (\<lambda>_.
       ret (updated_row dto r)))))"

lemma update_tx_run:
  assumes "r \<in> set (reservations s)" "res_id r = i" "has_balance (res_productId r) (res_locationId r) s"
  shows "update_tx i dto r s =
    (let available = on_hand (res_productId r) (res_locationId r) s - reserved_at (res_productId r) (res_locationId r) s
     in if 0 < quantity_diff dto r \<and> available < quantity_diff dto r
        then (Inl (BadRequestException (InsufficientAvailable available (quantity_diff dto r))), s)
        else (Inr (updated_row dto r),
              (shift_reserved (res_productId r) (res_locationId r) (quantity_diff dto r) s)
              \<lparr>reservations := update_where (\<lambda>x. res_id x = i) (updated_row dto) (reservations s)\<rparr>))"
proof -
  have ex: "list_ex (bal_key (res_productId r) (res_locationId r)) (balances s)"
    "list_ex (\<lambda>x. res_id x = i) (reservations s)"
    using assms(1,2) by (auto simp: list_ex_bal_key assms(3)) (auto simp: list_ex_iff)
  have quantities: "(case find_balance p l s of None \<Rightarrow> 0 | Some b \<Rightarrow> bal_onHandQuantity b) = on_hand p l s"
    "(case find_balance p l s of None \<Rightarrow> 0 | Some b \<Rightarrow> bal_reservedQuantity b) = reserved_at p l s" for p l
    by (simp_all add: on_hand_def reserved_at_def)
  consider "0 < quantity_diff dto r" | "quantity_diff dto r < 0" | "quantity_diff dto r = 0" by linarith
  then show ?thesis
  proof cases
    case 1
    then show ?thesis
      by (simp add: update_tx_def transaction_def bindM_def update_row_def Let_def quantities ex shift_reserved_def)
  next
    case 2
    then show ?thesis
      by (simp add: update_tx_def transaction_def bindM_def update_row_def Let_def ex shift_reserved_def)
  next
    case 3
    then show ?thesis
      by (simp add: update_tx_def transaction_def bindM_def update_row_def Let_def ex shift_reserved_0)
  qed
qed

lemma throw_if_passes: "\<not> c \<Longrightarrow> bindM (throw_if c e) f s = f () s"
  by (simp add: bindM_def)

lemma update_unfold:
  "update_reservation_by t i dto =
     bindM (throw_if ((case ur_quantity dto of None \<Rightarrow> True | Some q \<Rightarrow> q = 0) \<and> ur_expiresAt dto = None \<and>
              empty_string (ur_referenceType dto) \<and> empty_string (ur_referenceId dto))
              (BadRequestException NothingToUpdate)) (\<lambda>_.
     bindM (readM (\<lambda>s. List.find (\<lambda>r. res_id r = i \<and> res_tenantId r = t) (reservations s))) (\<lambda>found.
     bindM (require found (NotFoundException ReservationNotFound)) (\<lambda>r.
     bindM (throw_if (res_status r \<noteq> ACTIVE)
              (BadRequestException (CannotUpdateReservation (res_status r)))) (\<lambda>_.
     bindM now (\<lambda>now.
     bindM (throw_if (case ur_expiresAt dto of None \<Rightarrow> False | Some d \<Rightarrow> d \<le> now)
              (BadRequestException ExpiryInPast)) (\<lambda>_.
     bindM (update_tx i dto r) (\<lambda>updated.
     bindM (case ur_expiresAt dto of None \<Rightarrow> ret () | Some d \<Rightarrow> rescheduleExpiry i t d) (\<lambda>_.
     readM (\<lambda>s. formatReservation s updated)))))))))"
  unfolding update_reservation_by_def update_tx_def quantity_diff_def updated_row_def Let_def by (rule refl)

lemma update_run:
  assumes "reserved_ok s"
  shows "updatable t s i dto r \<Longrightarrow> update_reservation_by t i dto s =
      (Inr (formatReservation (updated_state t i dto r s) (updated_row dto r)), updated_state t i dto r s)"
    and "\<nexists>r. updatable t s i dto r \<Longrightarrow> \<exists>e. update_reservation_by t i dto s = (Inl e, s)"
proof -
  let ?nothing = "(case ur_quantity dto of None \<Rightarrow> True | Some q \<Rightarrow> q = 0) \<and> ur_expiresAt dto = None \<and>
              empty_string (ur_referenceType dto) \<and> empty_string (ur_referenceId dto)"
  let ?found = "List.find (\<lambda>r. res_id r = i \<and> res_tenantId r = t) (reservations s)"
  let ?past = "case ur_expiresAt dto of None \<Rightarrow> False | Some d \<Rightarrow> d \<le> clock s"
  have past: "?past \<longleftrightarrow> \<not> (case ur_expiresAt dto of None \<Rightarrow> True | Some d \<Rightarrow> clock s < d)"
    by (auto split: option.splits)
  note tx = update_tx_run [of _ s i]
  have has: "r \<in> set (reservations s)" "res_id r = i"
    "res_status r = ACTIVE \<Longrightarrow> has_balance (res_productId r) (res_locationId r) s" if "?found = Some r" for r
    using that assms by (auto simp: reserved_ok_def dest: find_SomeD)
  show "update_reservation_by t i dto s =
      (Inr (formatReservation (updated_state t i dto r s) (updated_row dto r)), updated_state t i dto r s)"
    if u: "updatable t s i dto r"
  proof -
    from u have something: "\<not> ?nothing" and f: "?found = Some r" and a: "res_status r = ACTIVE" and p: "\<not> ?past"
      unfolding updatable_def past by blast+
    have t: "update_tx i dto r s = (Inr (updated_row dto r),
              (shift_reserved (res_productId r) (res_locationId r) (quantity_diff dto r) s)
              \<lparr>reservations := update_where (\<lambda>x. res_id x = i) (updated_row dto) (reservations s)\<rparr>)"
      unfolding tx [OF has(1,2) [OF f] has(3) [OF f a]] Let_def using u by (auto simp: updatable_def)
    show ?thesis
      unfolding update_unfold throw_if_passes [OF something]
      by (cases "ur_expiresAt dto")
        (use f a p in \<open>simp_all add: bindM_def t rescheduleExpiry_def cancelExpiry_def
          scheduleExpiry_def updated_state_def shift_reserved_def Let_def\<close>)
  qed
  show "\<exists>e. update_reservation_by t i dto s = (Inl e, s)" if no: "\<nexists>r. updatable t s i dto r"
  proof (cases "?nothing")
    case True
    then show ?thesis by (simp add: update_unfold bindM_def)
  next
    case something: False
    show ?thesis
    proof (cases ?found)
      case None
      with something show ?thesis by (auto simp: update_unfold bindM_def)
    next
      case f: (Some r)
      show ?thesis
      proof (cases "res_status r = ACTIVE \<and> \<not> ?past")
        case True
        then have a: "res_status r = ACTIVE" and p: "\<not> ?past" by blast+
        have "\<not> updatable t s i dto r" using no by blast
        then have "update_tx i dto r s = (Inl (BadRequestException (InsufficientAvailable
            (on_hand (res_productId r) (res_locationId r) s - reserved_at (res_productId r) (res_locationId r) s)
            (quantity_diff dto r))), s)"
          unfolding tx [OF has(1,2) [OF f] has(3) [OF f a]] Let_def
          using something f a p unfolding updatable_def past by (auto split: option.splits)
        with something f a p show ?thesis by (auto simp: update_unfold bindM_def)
      next
        case False
        with something f show ?thesis by (auto simp: update_unfold bindM_def)
      qed
    qed
  qed
qed

lemma updated_state_effect:
  assumes "reserved_ok s" "r \<in> set (reservations s)" "res_id r = i" "res_status r = ACTIVE"
  shows "reserved_at p l (updated_state t i dto r s) = reserved_at p l s
      + (if p = res_productId r \<and> l = res_locationId r then quantity_diff dto r else 0)"
    and "on_hand p l (updated_state t i dto r s) = on_hand p l s"
    and "reserved_ok (updated_state t i dto r s)"
proof -
  let ?s1 = "shift_reserved (res_productId r) (res_locationId r) (quantity_diff dto r) s"
  let ?s' = "updated_state t i dto r s"
  have has: "has_balance (res_productId r) (res_locationId r) s" using assms by (simp add: reserved_ok_def)
  have b: "balances ?s' = balances ?s1" by (simp add: updated_state_def)
  show res: "reserved_at p l ?s' = reserved_at p l s
      + (if p = res_productId r \<and> l = res_locationId r then quantity_diff dto r else 0)" for p l
    unfolding on_hand_cong(2) [OF b] by (rule shift_reserved_effect(1) [OF has])
  show "on_hand p l ?s' = on_hand p l s"
    unfolding on_hand_cong(1) [OF b] by (rule shift_reserved_effect(2))
  have d: "distinct (map res_id (reservations s))" using assms(1) by (simp add: reserved_ok_def)
  have key: "(\<lambda>x. res_id x = i) = (\<lambda>x. res_id x = res_id r)" using assms(3) by simp
  have act: "active_reserved p l ?s' = active_reserved p l s
      + (if p = res_productId r \<and> l = res_locationId r then quantity_diff dto r else 0)" for p l
  proof -
    have "active_reserved p l ?s' = active_reserved p l s
        - (if active_at p l r then res_quantity r else 0)
        + (if active_at p l (updated_row dto r) then res_quantity (updated_row dto r) else 0)"
      unfolding active_reserved_def updated_state_def key
      by (simp add: sum_where_update_key [OF d assms(2)] updated_row_def)
    then show ?thesis
      using assms(4) by (auto simp: active_at_def updated_row_def quantity_diff_def split: option.splits)
  qed
  have bal: "has_balance p l ?s' = has_balance p l s" for p l
    unfolding on_hand_cong(3) [OF b] by (rule shift_reserved_effect(3))
  show "reserved_ok ?s'"
    using assms(1) d unfolding reserved_ok_def res act bal
    by (auto simp: updated_state_def set_update_where map_update_where updated_row_def)
qed

section \<open>The life of the reservations\<close>

text \<open>A job that ran to its end is removed (\<^verbatim>\<open>removeOnComplete\<close>).\<close>

definition run_job :: "expiry_job \<Rightarrow> unit handler" where
  "run_job j = bindM (process_expiry (job_reservationId j) (job_tenantId j)) (\<lambda>_.
     writeM (\<lambda>s. s\<lparr>jobs := filter (\<lambda>k. job_reservationId k \<noteq> job_reservationId j) (jobs s)\<rparr>))"

text \<open>Everything that happens to reservations in the stock module: requests, the worker running a
  job whose time has come (or running it again, after it died before removing it), and time.\<close>

inductive res_step :: "env \<Rightarrow> db \<Rightarrow> db \<Rightarrow> bool" for E where
  create: "create_reservation_valid dto \<Longrightarrow> create_reservation E t u dto s = (r, s') \<Longrightarrow> res_step E s s'"
| update: "update_reservation_valid dto \<Longrightarrow> update_reservation_by t i dto s = (r', s') \<Longrightarrow> res_step E s s'"
| release: "release_reservation t i s = (r'', s') \<Longrightarrow> res_step E s s'"
| expire: "j \<in> set (due_jobs s) \<Longrightarrow> run_job j s = (r'', s') \<Longrightarrow> res_step E s s'"
| redo: "j \<in> set (due_jobs s) \<Longrightarrow> process_expiry (job_reservationId j) (job_tenantId j) s = (r'', s') \<Longrightarrow>
    res_step E s s'"
| tick: "0 \<le> d \<Longrightarrow> res_step E s (s\<lparr>clock := clock s + d\<rparr>)"

inductive_cases res_stepE: "res_step E s s'"

text \<open>Each ACTIVE reservation has its one job, due when it expires.\<close>

definition job_for :: "reservation \<Rightarrow> expiry_job \<Rightarrow> bool" where
  "job_for r j \<longleftrightarrow> job_reservationId j = res_id r \<and> job_tenantId j = res_tenantId r \<and>
     job_runAt j = res_expiresAt r"

definition scheduled_ok :: "db \<Rightarrow> bool" where
  "scheduled_ok s \<longleftrightarrow> distinct (map job_reservationId (jobs s)) \<and>
     job_reservationId ` set (jobs s) \<subseteq> res_id ` set (reservations s) \<and>
     (\<forall>r \<in> set (reservations s). res_status r = ACTIVE \<longrightarrow> (\<exists>j \<in> set (jobs s). job_for r j))"

lemma job_unique:
  "scheduled_ok s \<Longrightarrow> j \<in> set (jobs s) \<Longrightarrow> k \<in> set (jobs s) \<Longrightarrow>
   job_reservationId j = job_reservationId k \<Longrightarrow> j = k"
  by (auto simp: scheduled_ok_def distinct_map dest: inj_onD)

definition positive_ok :: "db \<Rightarrow> bool" where
  "positive_ok s \<longleftrightarrow> (\<forall>r \<in> set (reservations s). 1 \<le> res_quantity r)"

definition res_inv :: "env \<Rightarrow> db \<Rightarrow> bool" where
  "res_inv E s \<longleftrightarrow> reserved_ok s \<and> reservation_ids_used E s \<and> scheduled_ok s \<and> positive_ok s"

lemma res_id_unique:
  "reserved_ok s \<Longrightarrow> x \<in> set (reservations s) \<Longrightarrow> y \<in> set (reservations s) \<Longrightarrow> res_id x = res_id y \<Longrightarrow> x = y"
  by (auto simp: reserved_ok_def distinct_map dest: inj_onD)

lemma set_close_as:
  "x \<in> set (reservations (close_as st r s)) \<longleftrightarrow>
     (x \<in> set (reservations s) \<and> res_id x \<noteq> res_id r) \<or>
     (\<exists>y \<in> set (reservations s). res_id y = res_id r \<and> x = y\<lparr>res_status := st\<rparr>)"
  by (auto simp: close_as_def set_update_where)

lemma close_as_frame:
  "jobs (close_as st r s) = jobs s" "clock (close_as st r s) = clock s" "nextId (close_as st r s) = nextId s"
  "res_id ` set (reservations (close_as st r s)) = res_id ` set (reservations s)"
  by (simp_all add: close_as_def shift_reserved_def image_update_where)

lemma reservation_jobs_cong:
  assumes "reservations s' = reservations s" "balances s' = balances s" "nextId s' = nextId s"
  shows "reserved_ok s' = reserved_ok s" "reservation_ids_used E s' = reservation_ids_used E s"
    "positive_ok s' = positive_ok s"
  using reserved_ok_cong [OF assms(1,2)] by (simp_all add: ids_used_def positive_ok_def assms)

lemma close_as_inv:
  assumes "res_inv E s" "r \<in> set (reservations s)" "res_status r = ACTIVE" "st \<noteq> ACTIVE"
  shows "res_inv E (close_as st r s)"
    and "res_inv E ((close_as st r s)\<lparr>jobs := filter (\<lambda>j. job_reservationId j \<noteq> res_id r) (jobs s)\<rparr>)"
proof -
  let ?s1 = "close_as st r s"
  let ?s2 = "?s1\<lparr>jobs := filter (\<lambda>j. job_reservationId j \<noteq> res_id r) (jobs s)\<rparr>"
  have inv: "reserved_ok s" "reservation_ids_used E s" "scheduled_ok s" "positive_ok s"
    using assms(1) by (simp_all add: res_inv_def)
  have ok: "reserved_ok ?s1" by (rule close_as_effect(3) [OF inv(1) assms(2-4)])
  have ids: "reservation_ids_used E ?s1"
    using inv(2) unfolding ids_used_def close_as_frame .
  have pos: "positive_ok ?s1"
    using inv(4) unfolding positive_ok_def by (auto simp: set_close_as)
  have active: "x \<in> set (reservations s) \<and> res_id x \<noteq> res_id r"
    if "x \<in> set (reservations ?s1)" "res_status x = ACTIVE" for x
    using that assms(4) by (auto simp: set_close_as)
  have sched: "scheduled_ok ?s1"
    using inv(3) active unfolding scheduled_ok_def close_as_frame by blast
  show "res_inv E ?s1" using ok ids pos sched by (simp add: res_inv_def)
  have same: "reservations ?s2 = reservations ?s1" "balances ?s2 = balances ?s1" "nextId ?s2 = nextId ?s1"
    by simp_all
  have "scheduled_ok ?s2"
    unfolding scheduled_ok_def
  proof (intro conjI ballI impI)
    show "distinct (map job_reservationId (jobs ?s2))"
      using inv(3) by (simp add: scheduled_ok_def distinct_map_filter)
    show "job_reservationId ` set (jobs ?s2) \<subseteq> res_id ` set (reservations ?s2)"
      using inv(3) unfolding scheduled_ok_def same close_as_frame by auto
    fix x assume "x \<in> set (reservations ?s2)" "res_status x = ACTIVE"
    then have x: "x \<in> set (reservations s)" "res_id x \<noteq> res_id r" "res_status x = ACTIVE"
      using active same by auto
    with inv(3) obtain j where "j \<in> set (jobs s)" "job_for x j" by (auto simp: scheduled_ok_def)
    with x(2) show "\<exists>j \<in> set (jobs ?s2). job_for x j" by (intro bexI [of _ j]) (auto simp: job_for_def)
  qed
  then show "res_inv E ?s2"
    using ok ids pos unfolding res_inv_def reservation_jobs_cong [OF same] by blast
qed

lemma release_inv:
  assumes "res_inv E s" "release_reservation t i s = (r, s')"
  shows "res_inv E s'"
proof -
  have ok: "reserved_ok s" using assms(1) by (simp add: res_inv_def)
  show ?thesis
  proof (cases "List.find (\<lambda>r. res_id r = i \<and> res_tenantId r = t) (reservations s)")
    case None
    with assms show ?thesis by (simp add: release_run [OF ok])
  next
    case (Some x)
    then have x: "x \<in> set (reservations s)" "res_id x = i" by (auto dest: find_SomeD)
    show ?thesis
    proof (cases "res_status x = ACTIVE")
      case True
      with assms Some have "s' = (close_as RELEASED x s)\<lparr>jobs := filter (\<lambda>j. job_reservationId j \<noteq> res_id x) (jobs s)\<rparr>"
        by (simp add: release_run [OF ok] x(2))
      with close_as_inv(2) [OF assms(1) x(1) True] show ?thesis by simp
    next
      case False
      with assms Some show ?thesis by (simp add: release_run [OF ok])
    qed
  qed
qed

lemma process_inv:
  assumes "res_inv E s" "process_expiry i t s = (r, s')"
  shows "res_inv E s'"
proof -
  have ok: "reserved_ok s" using assms(1) by (simp add: res_inv_def)
  show ?thesis
  proof (cases "List.find (\<lambda>r. res_id r = i \<and> res_tenantId r = t \<and> res_status r = ACTIVE) (reservations s)")
    case None
    with assms show ?thesis by (simp add: process_run [OF ok])
  next
    case (Some x)
    then have "x \<in> set (reservations s)" "res_status x = ACTIVE" by (auto dest: find_SomeD)
    with assms Some show ?thesis
      using close_as_inv(1) [OF assms(1), of x EXPIRED] by (auto simp: process_run [OF ok] split: if_splits)
  qed
qed

text \<open>A due job expires its reservation if that is still ACTIVE; nothing else needs the job.\<close>

lemma run_job_state:
  assumes "res_inv E s" "j \<in> set (due_jobs s)"
  obtains "\<forall>x \<in> set (reservations s). res_id x = job_reservationId j \<longrightarrow> res_status x \<noteq> ACTIVE"
      "run_job j s = (Inr (), s\<lparr>jobs := filter (\<lambda>k. job_reservationId k \<noteq> job_reservationId j) (jobs s)\<rparr>)"
  | r where "r \<in> set (reservations s)" "res_status r = ACTIVE" "res_id r = job_reservationId j"
      "run_job j s = (Inr (), (close_as EXPIRED r s)\<lparr>jobs := filter (\<lambda>k. job_reservationId k \<noteq> res_id r) (jobs s)\<rparr>)"
proof -
  have ok: "reserved_ok s" and sched: "scheduled_ok s" using assms(1) by (simp_all add: res_inv_def)
  have j: "j \<in> set (jobs s)" "job_runAt j \<le> clock s" using assms(2) by (auto simp: due_jobs_def)
  have mine: "job_for x j" if "x \<in> set (reservations s)" "res_id x = job_reservationId j" "res_status x = ACTIVE" for x
  proof -
    from that sched obtain k where k: "k \<in> set (jobs s)" "job_for x k" by (auto simp: scheduled_ok_def)
    with that j sched have "k = j"
      by (auto simp: scheduled_ok_def distinct_map job_for_def dest: inj_onD)
    with k show ?thesis by simp
  qed
  show thesis
  proof (cases "List.find (\<lambda>r. res_id r = job_reservationId j \<and> res_tenantId r = job_tenantId j \<and> res_status r = ACTIVE) (reservations s)")
    case None
    have "\<forall>x \<in> set (reservations s). res_id x = job_reservationId j \<longrightarrow> res_status x \<noteq> ACTIVE"
    proof (intro ballI impI notI)
      fix x assume x: "x \<in> set (reservations s)" "res_id x = job_reservationId j" "res_status x = ACTIVE"
      then have "res_tenantId x = job_tenantId j" using mine by (simp add: job_for_def)
      with None x show False by (auto simp: find_None_iff')
    qed
    moreover have "run_job j s = (Inr (), s\<lparr>jobs := filter (\<lambda>k. job_reservationId k \<noteq> job_reservationId j) (jobs s)\<rparr>)"
      using None by (simp add: run_job_def bindM_def process_run [OF ok])
    ultimately show thesis by (rule that(1))
  next
    case (Some x)
    then have x: "x \<in> set (reservations s)" "res_id x = job_reservationId j" "res_status x = ACTIVE"
      by (auto dest: find_SomeD)
    then have "\<not> clock s < res_expiresAt x" using mine [OF x] j(2) by (simp add: job_for_def)
    with Some x(2) have "run_job j s = (Inr (), (close_as EXPIRED x s)\<lparr>jobs := filter (\<lambda>k. job_reservationId k \<noteq> res_id x) (jobs s)\<rparr>)"
      by (simp add: run_job_def bindM_def process_run [OF ok] close_as_frame)
    with x show thesis by (intro that(2))
  qed
qed

lemma drop_job_inv:
  assumes "res_inv E s" "\<forall>x \<in> set (reservations s). res_id x = i \<longrightarrow> res_status x \<noteq> ACTIVE"
  shows "res_inv E (s\<lparr>jobs := filter (\<lambda>k. job_reservationId k \<noteq> i) (jobs s)\<rparr>)"
proof -
  let ?s' = "s\<lparr>jobs := filter (\<lambda>k. job_reservationId k \<noteq> i) (jobs s)\<rparr>"
  have same: "reservations ?s' = reservations s" "balances ?s' = balances s" "nextId ?s' = nextId s" by simp_all
  have sched: "scheduled_ok s" using assms(1) by (simp add: res_inv_def)
  have "scheduled_ok ?s'"
    unfolding scheduled_ok_def
  proof (intro conjI ballI impI)
    show "distinct (map job_reservationId (jobs ?s'))"
      using sched by (simp add: scheduled_ok_def distinct_map_filter)
    show "job_reservationId ` set (jobs ?s') \<subseteq> res_id ` set (reservations ?s')"
      using sched by (auto simp: scheduled_ok_def)
    fix x assume x: "x \<in> set (reservations ?s')" "res_status x = ACTIVE"
    with sched obtain j where j: "j \<in> set (jobs s)" "job_for x j" by (auto simp: scheduled_ok_def)
    moreover have "res_id x \<noteq> i" using assms(2) x by auto
    ultimately show "\<exists>j \<in> set (jobs ?s'). job_for x j" by (intro bexI [of _ j]) (auto simp: job_for_def)
  qed
  then show ?thesis using assms(1) unfolding res_inv_def reservation_jobs_cong [OF same] by blast
qed

lemma run_job_inv:
  assumes "res_inv E s" "j \<in> set (due_jobs s)" "run_job j s = (r, s')"
  shows "res_inv E s'"
proof (cases rule: run_job_state [OF assms(1,2)])
  case 1
  with assms(1,3) show ?thesis by (auto intro: drop_job_inv)
next
  case (2 x)
  with assms(3) close_as_inv(2) [OF assms(1) 2(1,2), of EXPIRED] show ?thesis by simp
qed

lemma create_inv:
  assumes "res_inv E s" "create_reservation_valid dto" "create_reservation E t u dto s = (r, s')"
  shows "res_inv E s'"
proof (cases "reservable t s dto")
  case False
  from create_run(2) [OF this, of E u] assms(1,3) show ?thesis by auto
next
  case True
  let ?s = "reserved_state E t u dto s" and ?n = "new_reservation E t u dto s"
  have s': "s' = ?s" using assms(3) by (simp add: create_run(1) [OF True])
  have inv: "reserved_ok s" "reservation_ids_used E s" "scheduled_ok s" "positive_ok s"
    using assms(1) by (simp_all add: res_inv_def)
  have rs: "reservations ?s = reservations s @ [?n]" by (simp add: reserved_state_def Let_def)
  have new: "e_uuid E (nextId s) \<notin> res_id ` set (reservations s)" by (rule ids_used_fresh [OF inv(2)])
  then have nojob: "\<not> (\<exists>j \<in> set (jobs s). job_reservationId j = e_uuid E (nextId s))"
    using inv(3) unfolding scheduled_ok_def by (metis image_eqI subsetD)
  have js: "jobs ?s = jobs s @ [\<lparr>job_reservationId = e_uuid E (nextId s), job_tenantId = t,
      job_runAt = cr_expiresAt dto\<rparr>]"
    using nojob True by (simp add: reserved_state_def Let_def reservable_def)
  have "scheduled_ok ?s"
    using inv(3) nojob unfolding scheduled_ok_def rs js
    by (auto simp: job_for_def new_reservation_def)
  moreover have "positive_ok ?s"
    using inv(4) assms(2) unfolding positive_ok_def rs
    by (auto simp: new_reservation_def create_reservation_valid_def)
  ultimately show ?thesis
    unfolding s' using reserved_state_ok [OF inv(1,2)] by (simp add: res_inv_def)
qed

lemma updatable_row:
  "updatable t s i dto r \<Longrightarrow> r \<in> set (reservations s) \<and> res_id r = i \<and> res_tenantId r = t \<and> res_status r = ACTIVE"
  by (auto simp: updatable_def dest: find_SomeD)

lemma update_Inr:
  assumes "reserved_ok s" "update_reservation_by t i dto s = (Inr x, s')"
  obtains r where "updatable t s i dto r" "s' = updated_state t i dto r s"
proof (cases "\<exists>r. updatable t s i dto r")
  case True
  then obtain r where r: "updatable t s i dto r" ..
  with assms(2) show thesis by (intro that [OF r]) (simp add: update_run(1) [OF assms(1) r])
next
  case False
  from update_run(2) [OF assms(1) False] assms(2) show thesis by auto
qed

lemma updated_row_simps [simp]:
  "res_id (updated_row dto r) = res_id r" "res_status (updated_row dto r) = res_status r"
  "res_tenantId (updated_row dto r) = res_tenantId r" "res_productId (updated_row dto r) = res_productId r"
  "res_locationId (updated_row dto r) = res_locationId r"
  by (simp_all add: updated_row_def)

lemma set_updated_state:
  "x \<in> set (reservations (updated_state t i dto r s)) \<longleftrightarrow>
     (x \<in> set (reservations s) \<and> res_id x \<noteq> i) \<or>
     (\<exists>y \<in> set (reservations s). res_id y = i \<and> x = updated_row dto y)"
  by (auto simp: updated_state_def set_update_where)

lemma update_inv:
  assumes "res_inv E s" "update_reservation_valid dto" "update_reservation_by t i dto s = (x, s')"
  shows "res_inv E s'"
proof -
  have inv: "reserved_ok s" "reservation_ids_used E s" "scheduled_ok s" "positive_ok s"
    using assms(1) by (simp_all add: res_inv_def)
  show ?thesis
  proof (cases "\<exists>r. updatable t s i dto r")
    case False
    from update_run(2) [OF inv(1) False] assms(1,3) show ?thesis by auto
  next
    case True
    then obtain r where u: "updatable t s i dto r" ..
    note r = updatable_row [OF u, THEN conjunct1] updatable_row [OF u, THEN conjunct2]
    let ?s = "updated_state t i dto r s"
    have s': "s' = ?s" using assms(3) by (simp add: update_run(1) [OF inv(1) u])
    have ok: "reserved_ok ?s" using updated_state_effect(3) [OF inv(1) r(1)] r(2) by blast
    have idset: "res_id ` set (reservations ?s) = res_id ` set (reservations s)"
      by (simp add: updated_state_def image_update_where)
    have ids: "reservation_ids_used E ?s"
      using inv(2) unfolding ids_used_def idset by (simp add: updated_state_def shift_reserved_def)
    have pos: "positive_ok ?s"
      using inv(4) assms(2) unfolding positive_ok_def
      by (auto simp: set_updated_state updated_row_def update_reservation_valid_def split: option.splits)
    have sched: "scheduled_ok ?s"
    proof (cases "ur_expiresAt dto")
      case None
      then have js: "jobs ?s = jobs s" by (simp add: updated_state_def)
      have "job_for (updated_row dto y) j = job_for y j" for y j
        using None by (simp add: job_for_def updated_row_def)
      then show ?thesis
        using inv(3) unfolding scheduled_ok_def idset js by (auto simp: set_updated_state)
    next
      case (Some d)
      let ?j = "\<lparr>job_reservationId = i, job_tenantId = t, job_runAt = d\<rparr>"
      have js: "jobs ?s = filter (\<lambda>j. job_reservationId j \<noteq> i) (jobs s) @ [?j]"
        using Some u by (simp add: updated_state_def updatable_def)
      show ?thesis
        unfolding scheduled_ok_def idset js
      proof (intro conjI ballI impI)
        show "distinct (map job_reservationId (filter (\<lambda>j. job_reservationId j \<noteq> i) (jobs s) @ [?j]))"
          using inv(3) by (auto simp: scheduled_ok_def distinct_map_filter)
        show "job_reservationId ` set (filter (\<lambda>j. job_reservationId j \<noteq> i) (jobs s) @ [?j]) \<subseteq> res_id ` set (reservations s)"
          using inv(3) r by (auto simp: scheduled_ok_def)
        fix x assume x: "x \<in> set (reservations ?s)" "res_status x = ACTIVE"
        show "\<exists>j \<in> set (filter (\<lambda>j. job_reservationId j \<noteq> i) (jobs s) @ [?j]). job_for x j"
        proof (cases "res_id x = i")
          case True
          with x obtain y where y: "y \<in> set (reservations s)" "res_id y = i" "x = updated_row dto y"
            by (auto simp: set_updated_state)
          with r have "y = r" by (intro res_id_unique [OF inv(1)]) auto
          with y r Some have "job_for x ?j" by (simp add: job_for_def updated_row_def)
          then show ?thesis by simp
        next
          case False
          with x have "x \<in> set (reservations s)" by (auto simp: set_updated_state)
          with x inv(3) obtain j where "j \<in> set (jobs s)" "job_for x j" by (auto simp: scheduled_ok_def)
          with False show ?thesis by (intro bexI [of _ j]) (auto simp: job_for_def)
        qed
      qed
    qed
    show ?thesis unfolding s' using ok ids pos sched by (simp add: res_inv_def)
  qed
qed

lemma tick_inv: "res_inv E s \<Longrightarrow> res_inv E (s\<lparr>clock := d\<rparr>)"
proof -
  have same: "reservations (s\<lparr>clock := d\<rparr>) = reservations s" "balances (s\<lparr>clock := d\<rparr>) = balances s"
    "nextId (s\<lparr>clock := d\<rparr>) = nextId s" by simp_all
  show "res_inv E s \<Longrightarrow> res_inv E (s\<lparr>clock := d\<rparr>)"
    unfolding res_inv_def reservation_jobs_cong [OF same] by (simp add: scheduled_ok_def)
qed

lemma res_step_inv: "res_step E s s' \<Longrightarrow> res_inv E s \<Longrightarrow> res_inv E s'"
  by (erule res_stepE) (blast intro: create_inv update_inv release_inv run_job_inv process_inv tick_inv)+

lemma res_steps_inv: "(res_step E)\<^sup>*\<^sup>* s s' \<Longrightarrow> res_inv E s \<Longrightarrow> res_inv E s'"
  by (induction rule: rtranclp_induct) (auto intro: res_step_inv)

text \<open>How one step changes the row of a reservation and the quantities.\<close>

inductive row_change :: "db \<Rightarrow> db \<Rightarrow> bool" where
  same: "reservations s' = reservations s \<Longrightarrow> balances s' = balances s \<Longrightarrow> row_change s s'"
| add: "cr_quantity dto \<le> on_hand (cr_productId dto) (cr_locationId dto) s
      - reserved_at (cr_productId dto) (cr_locationId dto) s \<Longrightarrow> row_change s (reserved_state E t u dto s)"
| edit: "updatable t s i dto r \<Longrightarrow> row_change s (updated_state t i dto r s)"
| close: "r \<in> set (reservations s) \<Longrightarrow> res_status r = ACTIVE \<Longrightarrow> st \<noteq> ACTIVE \<Longrightarrow>
    reservations s' = reservations (close_as st r s) \<Longrightarrow> balances s' = balances (close_as st r s) \<Longrightarrow> row_change s s'"

lemma process_change:
  assumes "reserved_ok s" "process_expiry i t s = (x, s')"
  shows "row_change s s'"
proof (cases "List.find (\<lambda>r. res_id r = i \<and> res_tenantId r = t \<and> res_status r = ACTIVE) (reservations s)")
  case None
  with assms(2) show ?thesis by (intro same) (simp_all add: process_run [OF assms(1)])
next
  case (Some r)
  then have r: "r \<in> set (reservations s)" "res_status r = ACTIVE" by (auto dest: find_SomeD)
  show ?thesis
  proof (cases "clock s < res_expiresAt r")
    case True
    with assms(2) Some show ?thesis by (intro same) (simp_all add: process_run [OF assms(1)])
  next
    case False
    with assms(2) Some show ?thesis
      by (intro close [OF r, of EXPIRED]) (simp_all add: process_run [OF assms(1)])
  qed
qed

lemma release_change:
  assumes "reserved_ok s" "release_reservation t i s = (x, s')"
  shows "row_change s s'"
proof (cases "List.find (\<lambda>r. res_id r = i \<and> res_tenantId r = t) (reservations s)")
  case None
  with assms(2) show ?thesis by (intro same) (simp_all add: release_run [OF assms(1)])
next
  case (Some r)
  then have r: "r \<in> set (reservations s)" by (auto dest: find_SomeD)
  show ?thesis
  proof (cases "res_status r = ACTIVE")
    case True
    with assms(2) Some show ?thesis
      by (intro close [OF r True, of RELEASED]) (auto simp: release_run [OF assms(1)])
  next
    case False
    with assms(2) Some show ?thesis by (intro same) (simp_all add: release_run [OF assms(1)])
  qed
qed

lemma res_step_change:
  assumes "res_step E s s'" "res_inv E s"
  shows "row_change s s'"
proof -
  have ok: "reserved_ok s" using assms(2) by (simp add: res_inv_def)
  from assms(1) show ?thesis
  proof cases
    case (create dto t u r)
    show ?thesis
    proof (cases "reservable t s dto")
      case True
      with create(2) show ?thesis by (auto simp: create_run(1) reservable_def intro: row_change.add)
    next
      case False
      from create_run(2) [OF this, of E u] create(2) show ?thesis by (auto intro: same)
    qed
  next
    case (update dto t i x)
    show ?thesis
    proof (cases "\<exists>r. updatable t s i dto r")
      case True
      then obtain r where "updatable t s i dto r" ..
      with update(2) show ?thesis by (auto simp: update_run(1) [OF ok] intro: edit)
    next
      case False
      from update_run(2) [OF ok False] update(2) show ?thesis by (auto intro: same)
    qed
  next
    case (release t i x)
    then show ?thesis using ok by (blast intro: release_change)
  next
    case (expire j x)
    from expire(1) assms(2) show ?thesis
    proof (cases rule: run_job_state [OF assms(2) expire(1)])
      case 1
      with expire(2) show ?thesis by (intro same) auto
    next
      case (2 r)
      with expire(2) show ?thesis by (intro close [OF 2(1,2), of EXPIRED]) auto
    qed
  next
    case (redo j x)
    then show ?thesis using ok by (blast intro: process_change)
  next
    case (tick d)
    then show ?thesis by (intro same) simp_all
  qed
qed

lemma row_change_covered:
  assumes "row_change s s'" "reserved_ok s" "positive_ok s" "covered s"
  shows "covered s'"
  using assms(1)
proof cases
  case same
  then show ?thesis using assms(4) by (simp add: covered_def on_hand_cong(1,2) [OF same(2)])
next
  case (add dto E t u)
  then show ?thesis using assms(4) by (auto simp: covered_def reserved_state_effect)
next
  case (edit t i dto r)
  note r = updatable_row [OF edit(2), THEN conjunct1] updatable_row [OF edit(2), THEN conjunct2]
  have "quantity_diff dto r \<le> on_hand (res_productId r) (res_locationId r) s
      - reserved_at (res_productId r) (res_locationId r) s"
  proof (cases "0 < quantity_diff dto r")
    case True
    with edit(2) show ?thesis by (simp add: updatable_def)
  next
    case False
    moreover have "reserved_at (res_productId r) (res_locationId r) s \<le> on_hand (res_productId r) (res_locationId r) s"
      using assms(4) by (simp add: covered_def)
    ultimately show ?thesis by linarith
  qed
  then show ?thesis
    using assms(4) r(2) updated_state_effect(1,2) [OF assms(2) r(1)]
    unfolding edit(1) covered_def by auto
next
  case (close r st)
  have "1 \<le> res_quantity r" using assms(3) close(1) by (simp add: positive_ok_def)
  then have "0 \<le> res_quantity r" by simp
  show ?thesis
    unfolding covered_def on_hand_cong(1,2) [OF close(5)] close_as_effect(1,2) [OF assms(2) close(1-3)]
  proof (intro allI)
    fix p l
    have "reserved_at p l s \<le> on_hand p l s" using assms(4) by (simp add: covered_def)
    with \<open>0 \<le> res_quantity r\<close>
    show "reserved_at p l s - (if p = res_productId r \<and> l = res_locationId r then res_quantity r else 0) \<le> on_hand p l s"
      by (cases "p = res_productId r \<and> l = res_locationId r") auto
  qed
qed

lemma row_change_closed:
  assumes "row_change s s'" "reserved_ok s" "x \<in> set (reservations s)" "res_status x \<noteq> ACTIVE"
  shows "x \<in> set (reservations s')"
  using assms(1)
proof cases
  case same
  then show ?thesis using assms(3) by simp
next
  case (add dto E t u)
  then show ?thesis using assms(3) by (simp add: reserved_state_def Let_def)
next
  case (edit t i dto r)
  note r = updatable_row [OF edit(2)]
  have "res_id x \<noteq> i" using r assms(3,4) res_id_unique [OF assms(2), of x r] by auto
  then show ?thesis using assms(3) edit(1) by (simp add: set_updated_state)
next
  case (close r st)
  have "res_id x \<noteq> res_id r" using close(1,2) assms(3,4) res_id_unique [OF assms(2), of x r] by auto
  then show ?thesis using assms(3) close(4) by (simp add: set_close_as)
qed

section \<open>Properties\<close>

definition res_db :: db where
  "res_db = bal_db\<lparr>reservations :=
     [\<lparr>res_id = nat_id 0, res_quantity = 2, res_expiresAt = 50, res_status = ACTIVE,
       res_referenceType = None, res_referenceId = None, res_productId = ''p'', res_locationId = ''l'',
       res_tenantId = ''t'', res_createdById = None\<rparr>],
     jobs := [\<lparr>job_reservationId = nat_id 0, job_tenantId = ''t'', job_runAt = 50\<rparr>]\<rparr>"

lemma res_db_counts:
  "reserved_at ''p'' ''l'' res_db = 2" "on_hand ''p'' ''l'' res_db = 7" "clock res_db = 30"
  "''p'' \<in> live_products ''t'' res_db" "layers res_db = layers bal_db"
  by (simp_all add: res_db_def bal_db_def reserved_at_def on_hand_def find_balance_def bal_key_def live_products_find)

lemma res_db_inv: "res_inv env0 res_db"
proof -
  have active: "active_at p l x \<longleftrightarrow> p = ''p'' \<and> l = ''l''" if "x \<in> set (reservations res_db)" for p l x
    using that by (auto simp: res_db_def active_at_def)
  have "reserved_at p l res_db = active_reserved p l res_db" for p l
    by (auto simp: res_db_def bal_db_def reserved_at_def find_balance_def bal_key_def active_reserved_def
        active_at_def)
  then have "reserved_ok res_db"
    by (auto simp: reserved_ok_def res_db_def bal_db_def has_balance_def find_balance_def bal_key_def)
  moreover have "reservation_ids_used env0 res_db"
    by (auto simp: ids_used_def inj_nat_id res_db_def bal_db_def)
  ultimately show ?thesis
    by (simp add: res_inv_def scheduled_ok_def positive_ok_def job_for_def res_db_def)
qed

lemma res_db_covered: "covered res_db"
  by (auto simp: covered_def res_db_def bal_db_def reserved_at_def on_hand_def find_balance_def bal_key_def)

text \<open>C1: the reserved quantity of every balance is the sum of the ACTIVE reservations of its product
  and location, and every ACTIVE reservation has its one expiry job, due exactly when it expires;
  no sequence of requests, expiries, repeated expiries and passing time breaks this.\<close>

theorem reservation_books:
  assumes "res_inv E s" "(res_step E)\<^sup>*\<^sup>* s s'"
  shows "(\<forall>p l. reserved_at p l s' = active_reserved p l s') \<and> scheduled_ok s'"
  using res_steps_inv [OF assms(2,1)] by (simp add: res_inv_def reserved_ok_def)

definition hold :: create_reservation_dto where
  "hold = \<lparr>cr_productId = ''p'', cr_locationId = ''l'', cr_quantity = 5, cr_expiresAt = 60,
     cr_referenceType = None, cr_referenceId = None\<rparr>"

lemma reservable_hold: "reservable ''t'' res_db hold"
  by (simp add: reservable_def hold_def res_db_counts) (simp add: res_db_def bal_db_def)

lemma hold_step: "res_step env0 res_db (reserved_state env0 ''t'' ''u'' hold res_db)"
  by (rule res_step.create [OF _ create_run(1) [OF reservable_hold]])
    (simp add: create_reservation_valid_def hold_def)

theorem reservation_books_witness:
  "res_inv env0 res_db \<and>
   (\<exists>s'. (res_step env0)\<^sup>*\<^sup>* res_db s' \<and> reserved_at ''p'' ''l'' s' = 7 \<and> active_reserved ''p'' ''l'' s' = 7)"
proof -
  let ?s = "reserved_state env0 ''t'' ''u'' hold res_db"
  have steps: "(res_step env0)\<^sup>*\<^sup>* res_db ?s" using hold_step by blast
  have "reserved_at ''p'' ''l'' ?s = 7" by (simp add: reserved_state_effect res_db_counts) (simp add: hold_def)
  with reservation_books [OF res_db_inv steps] steps res_db_inv show ?thesis by metis
qed

text \<open>C7: reservations never oversell: if no product at any location has more reserved than on hand,
  that stays so through every sequence of reservation requests, expiries and passing time.\<close>

theorem reservations_never_oversell:
  assumes "res_inv E s" "covered s" "(res_step E)\<^sup>*\<^sup>* s s'"
  shows "covered s'"
proof -
  have "covered s' \<and> res_inv E s'"
    using assms(3)
  proof (induction rule: rtranclp_induct)
    case base
    show ?case using assms(1,2) by simp
  next
    case (step y z)
    then have inv: "res_inv E y" and "covered y" by simp_all
    with row_change_covered [OF res_step_change [OF step(2) inv]] res_step_inv [OF step(2) inv]
    show ?case by (simp add: res_inv_def)
  qed
  then show ?thesis ..
qed

theorem reservations_never_oversell_witness:
  "res_inv env0 res_db \<and> covered res_db \<and>
   (\<exists>s'. (res_step env0)\<^sup>*\<^sup>* res_db s' \<and> reserved_at ''p'' ''l'' s' = 7 \<and> covered s')"
proof -
  let ?s = "reserved_state env0 ''t'' ''u'' hold res_db"
  have steps: "(res_step env0)\<^sup>*\<^sup>* res_db ?s" using hold_step by blast
  have "reserved_at ''p'' ''l'' ?s = 7" by (simp add: reserved_state_effect res_db_counts) (simp add: hold_def)
  with reservations_never_oversell [OF res_db_inv res_db_covered steps] steps res_db_inv res_db_covered
  show ?thesis by blast
qed

text \<open>ACTIVE is the only status a reservation leaves: once RELEASED, EXPIRED or FULFILLED, its row
  is never changed again by any sequence of reservation requests and expiries.\<close>

theorem closed_reservation_is_final:
  assumes "res_inv E s" "r \<in> set (reservations s)" "res_status r \<noteq> ACTIVE" "(res_step E)\<^sup>*\<^sup>* s s'"
  shows "r \<in> set (reservations s')"
proof -
  have "r \<in> set (reservations s') \<and> res_inv E s'"
    using assms(4)
  proof (induction rule: rtranclp_induct)
    case base
    show ?case using assms(1,2) by simp
  next
    case (step y z)
    then have inv: "res_inv E y" and r: "r \<in> set (reservations y)" by simp_all
    with row_change_closed [OF res_step_change [OF step(2) inv] _ r assms(3)] res_step_inv [OF step(2) inv]
    show ?case by (simp add: res_inv_def)
  qed
  then show ?thesis ..
qed

text \<open>A reservation that was released.\<close>

definition released_db :: db where
  "released_db = (close_as RELEASED (hd (reservations res_db)) res_db)\<lparr>jobs := []\<rparr>"

lemma release_run_db: "release_reservation ''t'' (nat_id 0) res_db = (Inr (), released_db)"
proof -
  have "reserved_ok res_db" using res_db_inv by (simp add: res_inv_def)
  then show ?thesis by (simp add: release_run) (simp add: released_db_def res_db_def)
qed


text \<open>Running an expiry job is safe to repeat and never early: the first run never throws, a
  second run right after it changes nothing, before the expiry time nothing changes at all, and
  from the expiry time on an ACTIVE reservation becomes EXPIRED and gives its quantity back.\<close>

theorem expiry_idempotent:
  assumes "reserved_ok s"
  shows "\<exists>s1. process_expiry i t s = (Inr (), s1) \<and> process_expiry i t s1 = (Inr (), s1) \<and>
    (\<forall>r. List.find (\<lambda>r. res_id r = i \<and> res_tenantId r = t \<and> res_status r = ACTIVE) (reservations s) = Some r \<longrightarrow>
       (if clock s < res_expiresAt r then s1 = s
        else reserved_at (res_productId r) (res_locationId r) s1 =
               reserved_at (res_productId r) (res_locationId r) s - res_quantity r \<and>
             r\<lparr>res_status := EXPIRED\<rparr> \<in> set (reservations s1)))"
proof (cases "List.find (\<lambda>r. res_id r = i \<and> res_tenantId r = t \<and> res_status r = ACTIVE) (reservations s)")
  case None
  then show ?thesis by (simp add: process_run [OF assms])
next
  case (Some r)
  then have r: "r \<in> set (reservations s)" "res_status r = ACTIVE" "res_id r = i" by (auto dest: find_SomeD)
  show ?thesis
  proof (cases "clock s < res_expiresAt r")
    case True
    with Some show ?thesis by (simp add: process_run [OF assms])
  next
    case False
    let ?s1 = "close_as EXPIRED r s"
    note effect = close_as_effect [OF assms r(1,2), of EXPIRED]
    have ok: "reserved_ok ?s1" using effect(3) by simp
    have "List.find (\<lambda>r. res_id r = i \<and> res_tenantId r = t \<and> res_status r = ACTIVE) (reservations ?s1) = None"
      using r(3) by (auto simp: find_None_iff' set_close_as)
    then have again: "process_expiry i t ?s1 = (Inr (), ?s1)" by (simp add: process_run [OF ok])
    have "process_expiry i t s = (Inr (), ?s1)" using Some False by (simp add: process_run [OF assms])
    moreover have "r\<lparr>res_status := EXPIRED\<rparr> \<in> set (reservations ?s1)" using r(1) by (auto simp: set_close_as)
    ultimately show ?thesis using again Some False effect(1) by simp
  qed
qed


text \<open>C10: no reservation is forgotten: running the jobs that are due never throws and leaves no
  ACTIVE reservation whose time has come, and the ones that are not due are still ACTIVE.\<close>

theorem due_jobs_expire_everything:
  assumes "res_inv E s"
  shows "\<exists>us s'. forM (due_jobs s) run_job s = (Inr us, s') \<and>
    (\<forall>r \<in> set (reservations s'). res_status r = ACTIVE \<longrightarrow> clock s' < res_expiresAt r) \<and>
    (\<forall>r \<in> set (reservations s). res_status r = ACTIVE \<and> clock s < res_expiresAt r \<longrightarrow> r \<in> set (reservations s'))"
proof -
  have one: "\<exists>us s'. forM js run_job s = (Inr us, s') \<and> res_inv E s' \<and> clock s' = clock s \<and>
      jobs s' = filter (\<lambda>k. job_reservationId k \<notin> job_reservationId ` set js) (jobs s) \<and>
      (\<forall>r \<in> set (reservations s). res_id r \<notin> job_reservationId ` set js \<longrightarrow> r \<in> set (reservations s'))"
    if "res_inv E s" "set js \<subseteq> set (due_jobs s)" "distinct (map job_reservationId js)" for js s
    using that
  proof (induction js arbitrary: s)
    case Nil
    then show ?case by simp
  next
    case (Cons j js)
    have due: "j \<in> set (due_jobs s)" using Cons.prems(2) by simp
    obtain s1 where s1: "run_job j s = (Inr (), s1)"
      "jobs s1 = filter (\<lambda>k. job_reservationId k \<noteq> job_reservationId j) (jobs s)" "clock s1 = clock s"
      "\<forall>r \<in> set (reservations s). res_id r \<noteq> job_reservationId j \<longrightarrow> r \<in> set (reservations s1)"
      by (cases rule: run_job_state [OF Cons.prems(1) due]) (auto simp: close_as_frame set_close_as)
    have inv: "res_inv E s1" by (rule run_job_inv [OF Cons.prems(1) due s1(1)])
    have sub: "set js \<subseteq> set (due_jobs s1)"
    proof
      fix k assume k: "k \<in> set js"
      with Cons.prems(2) have "k \<in> set (jobs s)" "job_runAt k \<le> clock s" by (auto simp: due_jobs_def)
      moreover have "job_reservationId k \<noteq> job_reservationId j" using k Cons.prems(3) by (auto simp: image_iff)
      ultimately show "k \<in> set (due_jobs s1)" by (simp add: due_jobs_def s1)
    qed
    have "distinct (map job_reservationId js)" using Cons.prems(3) by simp
    from Cons.IH [OF inv sub this] obtain us s' where IH: "forM js run_job s1 = (Inr us, s')" "res_inv E s'"
      "clock s' = clock s1" "jobs s' = filter (\<lambda>k. job_reservationId k \<notin> job_reservationId ` set js) (jobs s1)"
      "\<forall>r \<in> set (reservations s1). res_id r \<notin> job_reservationId ` set js \<longrightarrow> r \<in> set (reservations s')"
      by blast
    have "forM (j # js) run_job s = (Inr (() # us), s')" using s1(1) IH(1) by (simp add: bindM_def)
    moreover have "jobs s' = filter (\<lambda>k. job_reservationId k \<notin> job_reservationId ` set (j # js)) (jobs s)"
      using s1(2) IH(4) by (auto intro: filter_cong)
    ultimately show ?case using IH(2,3,5) s1(3,4) by (intro exI conjI) auto
  qed
  have sched: "scheduled_ok s" using assms by (simp add: res_inv_def)
  have "distinct (map job_reservationId (due_jobs s))"
    using sched by (simp add: due_jobs_def scheduled_ok_def distinct_map_filter)
  from one [OF assms subset_refl this] obtain us s' where run: "forM (due_jobs s) run_job s = (Inr us, s')"
    and inv: "res_inv E s'" and c: "clock s' = clock s"
    and js: "jobs s' = filter (\<lambda>k. job_reservationId k \<notin> job_reservationId ` set (due_jobs s)) (jobs s)"
    and keep: "\<forall>r \<in> set (reservations s). res_id r \<notin> job_reservationId ` set (due_jobs s) \<longrightarrow> r \<in> set (reservations s')"
    by blast
  have "clock s' < res_expiresAt r" if r: "r \<in> set (reservations s')" "res_status r = ACTIVE" for r
  proof -
    from inv r obtain j where j: "j \<in> set (jobs s')" "job_for r j" by (auto simp: res_inv_def scheduled_ok_def)
    then have "j \<in> set (jobs s)" "j \<notin> set (due_jobs s)" unfolding js by auto
    then have "clock s < job_runAt j" by (auto simp: due_jobs_def)
    with j(2) c show ?thesis by (simp add: job_for_def)
  qed
  moreover have "r \<in> set (reservations s')"
    if r: "r \<in> set (reservations s)" "res_status r = ACTIVE" "clock s < res_expiresAt r" for r
  proof -
    from sched r obtain j where j: "j \<in> set (jobs s)" "job_for r j" by (auto simp: scheduled_ok_def)
    have "res_id r \<notin> job_reservationId ` set (due_jobs s)"
    proof
      assume "res_id r \<in> job_reservationId ` set (due_jobs s)"
      then obtain k where k: "k \<in> set (due_jobs s)" "job_reservationId k = res_id r" by auto
      then have "k = j" using j by (intro job_unique [OF sched]) (auto simp: due_jobs_def job_for_def)
      with j(2) k(1) r(3) show False by (simp add: due_jobs_def job_for_def)
    qed
    with keep r(1) show ?thesis by blast
  qed
  ultimately show ?thesis using run by blast
qed

theorem due_jobs_expire_everything_witness:
  "res_inv env0 (res_db\<lparr>clock := 50\<rparr>) \<and>
   (\<exists>us s'. forM (due_jobs (res_db\<lparr>clock := 50\<rparr>)) run_job (res_db\<lparr>clock := 50\<rparr>) = (Inr us, s') \<and>
     filter (\<lambda>r. res_status r = ACTIVE \<and> res_expiresAt r \<le> clock s') (reservations s') = [])"
proof -
  note inv = tick_inv [OF res_db_inv, of 50]
  obtain us s' where "forM (due_jobs (res_db\<lparr>clock := 50\<rparr>)) run_job (res_db\<lparr>clock := 50\<rparr>) = (Inr us, s')"
    "\<forall>r \<in> set (reservations s'). res_status r = ACTIVE \<longrightarrow> clock s' < res_expiresAt r"
    using due_jobs_expire_everything [OF inv] by blast
  with inv show ?thesis by (force simp: filter_empty_conv)
qed

text \<open>a reservation is accepted exactly when its product is live, its location is of the tenant,
  its quantity is available and its expiry is in the future; otherwise it throws and changes
  nothing. An accepted one adds one ACTIVE row, raises the reserved quantity by its quantity,
  touches no on-hand quantity, and leaves the stock covered.\<close>

theorem create_reservation_effect:
  assumes "res_inv E s"
  shows "if reservable t s dto
    then \<exists>res s'. create_reservation E t u dto s = (Inr res, s') \<and>
      reservations s' = reservations s @ [rr_reservation res] \<and> res_status (rr_reservation res) = ACTIVE \<and>
      (\<forall>p l. reserved_at p l s' = reserved_at p l s
         + (if p = cr_productId dto \<and> l = cr_locationId dto then cr_quantity dto else 0) \<and>
         on_hand p l s' = on_hand p l s) \<and>
      reserved_at (cr_productId dto) (cr_locationId dto) s' \<le> on_hand (cr_productId dto) (cr_locationId dto) s' \<and>
      (\<exists>j \<in> set (jobs s'). job_for (rr_reservation res) j)
    else \<exists>e. create_reservation E t u dto s = (Inl e, s)"
proof (cases "reservable t s dto")
  case True
  let ?s = "reserved_state E t u dto s" and ?n = "new_reservation E t u dto s"
  have "e_uuid E (nextId s) \<notin> res_id ` set (reservations s)"
    using assms by (intro ids_used_fresh) (simp add: res_inv_def)
  then have nojob: "\<not> (\<exists>j \<in> set (jobs s). job_reservationId j = e_uuid E (nextId s))"
    using assms unfolding res_inv_def scheduled_ok_def by (metis image_eqI subsetD)
  have "\<exists>j \<in> set (jobs ?s). job_for ?n j"
    using nojob True by (simp add: reserved_state_def Let_def reservable_def job_for_def new_reservation_def)
  moreover have "reservations ?s = reservations s @ [?n]" "res_status ?n = ACTIVE"
    by (simp_all add: reserved_state_def Let_def new_reservation_def)
  moreover have "reserved_at (cr_productId dto) (cr_locationId dto) ?s \<le> on_hand (cr_productId dto) (cr_locationId dto) ?s"
    using True by (simp add: reserved_state_effect reservable_def)
  ultimately show ?thesis
    unfolding if_P [OF True] create_run(1) [OF True]
    by (intro exI [of _ "formatReservation ?s ?n"] exI [of _ ?s])
      (simp add: formatReservation_def reserved_state_effect(1,2))
next
  case False
  then show ?thesis using create_run(2) [OF False] by simp
qed


end
