(* ===== verification/Cart.thy ===== *)
theory Cart
  imports Reservation Numbering
begin

text \<open>
  The cart of the point of sale: \<^verbatim>\<open>src/src/modules/pos/services/cart.service.ts\<close>, the numbers of sales
  (\<^verbatim>\<open>pos/utils/sale-number.generator.ts\<close>) and the removal of abandoned carts
  (\<^verbatim>\<open>cart-cleanup.service.ts\<close>).

  A cart is a sale in status DRAFT with its items. Adding an item first reserves its stock for thirty
  minutes, in a call of the reservation service with its own transaction, and then writes the item and the
  new totals in another transaction; what fails in between stays as it is.

  Prices in requests are JavaScript numbers, and the line totals are computed in them; the sums are
  decimals. Quantities are integers: the column and the reservation refuse others. The
  foreign keys to users and customers, whose tables are not modelled, are taken to hold.
\<close>

section \<open>Requests and responses\<close>

record create_cart_dto =
  ncd_locationId :: id
  ncd_terminalId :: "id option"
  ncd_customerId :: "id option"
  ncd_sessionId :: "id option"
  ncd_notes :: "string option"

record add_cart_item_dto =
  aci_productId :: id
  aci_quantity :: int
  aci_unitPrice :: "rat option"
  aci_discountAmount :: "rat option"
  aci_notes :: "string option"

record update_cart_item_dto =
  uci_quantity :: int
  uci_unitPrice :: "rat option"
  uci_discountAmount :: "rat option"
  uci_notes :: "string option"

definition add_cart_item_valid :: "add_cart_item_dto \<Rightarrow> bool" where
  "add_cart_item_valid dto \<longleftrightarrow> 1 \<le> aci_quantity dto \<and>
     (case aci_unitPrice dto of None \<Rightarrow> True | Some x \<Rightarrow> 0 \<le> x) \<and>
     (case aci_discountAmount dto of None \<Rightarrow> True | Some x \<Rightarrow> 0 \<le> x)"

definition update_cart_item_valid :: "update_cart_item_dto \<Rightarrow> bool" where
  "update_cart_item_valid dto \<longleftrightarrow> 1 \<le> uci_quantity dto \<and>
     (case uci_unitPrice dto of None \<Rightarrow> True | Some x \<Rightarrow> 0 \<le> x) \<and>
     (case uci_discountAmount dto of None \<Rightarrow> True | Some x \<Rightarrow> 0 \<le> x)"

record cart_item_response =
  cir_id :: id
  cir_productId :: id
  cir_productName :: string
  cir_quantity :: int
  cir_unitPrice :: rat
  cir_discountAmount :: rat
  cir_lineTotal :: rat

record cart_response =
  crt_id :: id
  crt_saleNumber :: string
  crt_status :: SaleStatus
  crt_locationId :: id
  crt_customerId :: "id option"
  crt_subtotal :: rat
  crt_discountAmount :: rat
  crt_taxAmount :: rat
  crt_totalAmount :: rat
  crt_items :: "cart_item_response list"

section \<open>Reading a cart\<close>

text \<open>\<^verbatim>\<open>include: { items }\<close>.\<close>

definition items_of :: "id \<Rightarrow> db \<Rightarrow> sale_item list" where
  "items_of saleId s = filter (\<lambda>x. si_saleId x = saleId) (saleItems s)"

definition find_sale :: "id \<Rightarrow> id \<Rightarrow> db \<Rightarrow> sale option" where
  "find_sale tenantId i s = List.find (\<lambda>x. sale_id x = i \<and> sale_tenantId x = tenantId) (sales s)"

definition getCartOrThrow :: "id \<Rightarrow> id \<Rightarrow> sale handler" where
  "getCartOrThrow tenantId cartId =
     bindM (readM (\<lambda>s. List.find (\<lambda>x. sale_id x = cartId \<and> sale_tenantId x = tenantId \<and>
              sale_status x = SaleDraft) (sales s))) (\<lambda>cart.
     require cart (NotFoundException CartNotFound))"

text \<open>\<^verbatim>\<open>Number(decimal)\<close> is the nearest JavaScript number.\<close>

definition cart_item_of :: "sale_item \<Rightarrow> cart_item_response" where
  "cart_item_of x = \<lparr>cir_id = si_id x, cir_productId = si_productId x, cir_productName = si_productName x,
     cir_quantity = si_quantity x, cir_unitPrice = fl (si_unitPrice x),
     cir_discountAmount = fl (si_discountAmount x), cir_lineTotal = fl (si_lineTotal x)\<rparr>"

definition formatCart :: "db \<Rightarrow> sale \<Rightarrow> cart_response" where
  "formatCart s x = \<lparr>crt_id = sale_id x, crt_saleNumber = sale_saleNumber x, crt_status = sale_status x,
     crt_locationId = sale_locationId x, crt_customerId = sale_customerId x,
     crt_subtotal = fl (sale_subtotal x), crt_discountAmount = fl (sale_discountAmount x),
     crt_taxAmount = fl (sale_taxAmount x), crt_totalAmount = fl (sale_totalAmount x),
     crt_items = map cart_item_of (items_of (sale_id x) s)\<rparr>"

definition getCart :: "id \<Rightarrow> id \<Rightarrow> cart_response handler" where
  "getCart tenantId cartId = bindM (getCartOrThrow tenantId cartId) (\<lambda>cart. readM (\<lambda>s. formatCart s cart))"

section \<open>Creating a cart\<close>

definition generateSaleNumber :: "env \<Rightarrow> id \<Rightarrow> string handler" where
  "generateSaleNumber E tenantId =
     bindM now (\<lambda>t.
     readM (\<lambda>s. next_number (year_prefix ''INV'' (e_year E t)) 5
       (map sale_saleNumber (filter (\<lambda>x. sale_tenantId x = tenantId) (sales s)))))"

text \<open>\<^verbatim>\<open>sale.create\<close>, with the unique index on number and tenant and the foreign keys of location,
  terminal and session.\<close>

definition sale_keys_ok :: "sale \<Rightarrow> db \<Rightarrow> bool" where
  "sale_keys_ok x s \<longleftrightarrow> list_ex (\<lambda>l. loc_id l = sale_locationId x) (locations s) \<and>
     (case sale_terminalId x of None \<Rightarrow> True | Some i \<Rightarrow> list_ex (\<lambda>r. term_id r = i) (terminals s)) \<and>
     (case sale_sessionId x of None \<Rightarrow> True | Some i \<Rightarrow> list_ex (\<lambda>r. ses_id r = i) (sessions s))"

definition insert_sale :: "env \<Rightarrow> (id \<Rightarrow> instant \<Rightarrow> sale) \<Rightarrow> sale handler" where
  "insert_sale E row =
     bindM (fresh_id E) (\<lambda>i. bindM now (\<lambda>t.
     bindM (readM (\<lambda>s. list_ex (\<lambda>x. sale_saleNumber x = sale_saleNumber (row i t) \<and>
              sale_tenantId x = sale_tenantId (row i t)) (sales s))) (\<lambda>taken.
     bindM (throw_if taken UniqueConstraint) (\<lambda>_.
     bindM (readM (sale_keys_ok (row i t))) (\<lambda>ok.
     bindM (throw_if (\<not> ok) ForeignKeyConstraint) (\<lambda>_.
     bindM (writeM (\<lambda>s. s\<lparr>sales := sales s @ [row i t]\<rparr>)) (\<lambda>_.
     ret (row i t))))))))"

definition empty_cart :: "id \<Rightarrow> id \<Rightarrow> create_cart_dto \<Rightarrow> string \<Rightarrow> id \<Rightarrow> instant \<Rightarrow> sale" where
  "empty_cart tenantId userId dto saleNumber i t =
     \<lparr>sale_id = i, sale_saleNumber = saleNumber, sale_subtotal = 0, sale_discountAmount = 0,
      sale_taxAmount = 0, sale_totalAmount = 0, sale_paidAmount = 0, sale_changeAmount = 0,
      sale_status = SaleDraft, sale_customerId = ncd_customerId dto, sale_locationId = ncd_locationId dto,
      sale_terminalId = ncd_terminalId dto, sale_sessionId = ncd_sessionId dto, sale_cashierId = userId,
      sale_notes = ncd_notes dto, sale_createdAt = t, sale_completedAt = None, sale_voidedAt = None,
      sale_voidedById = None, sale_voidReason = None, sale_tenantId = tenantId\<rparr>"

definition createCart :: "env \<Rightarrow> id \<Rightarrow> id \<Rightarrow> create_cart_dto \<Rightarrow> cart_response handler" where
  "createCart E tenantId userId dto =
     bindM (transaction (
       bindM (generateSaleNumber E tenantId) (\<lambda>saleNumber.
       insert_sale E (empty_cart tenantId userId dto saleNumber)))) (\<lambda>cart.
     readM (\<lambda>s. formatCart s cart))"

section \<open>Changing a cart\<close>

text \<open>Thirty minutes, in milliseconds.\<close>

definition hold_time :: int where "hold_time = 30 * 60 * 1000"

definition cart_hold :: "id \<Rightarrow> sale \<Rightarrow> id \<Rightarrow> int \<Rightarrow> instant \<Rightarrow> create_reservation_dto" where
  "cart_hold cartId cart productId quantity t =
     \<lparr>cr_productId = productId, cr_locationId = sale_locationId cart, cr_quantity = quantity,
      cr_expiresAt = t + hold_time, cr_referenceType = Some ''SALE'', cr_referenceId = Some cartId\<rparr>"

definition recalculateCart :: "env \<Rightarrow> id \<Rightarrow> unit handler" where
  "recalculateCart E cartId =
     bindM (readM (items_of cartId)) (\<lambda>items.
     bindM (readM (\<lambda>s. List.find (\<lambda>x. sale_id x = cartId) (sales s))) (\<lambda>currentSale.
     let globalDiscount = (case currentSale of None \<Rightarrow> 0 | Some x \<Rightarrow> sale_discountAmount x);
         subtotal = sum_list (map si_lineTotal items);
         taxAmount = 0;
         totalAmount = subtotal - globalDiscount + taxAmount in
     update_sale (\<lambda>x. sale_id x = cartId)
       (\<lambda>x. x\<lparr>sale_subtotal := e_col E subtotal, sale_totalAmount := e_col E totalAmount\<rparr>)))"

definition js_line_total :: "rat \<Rightarrow> rat \<Rightarrow> int \<Rightarrow> rat" where
  "js_line_total unitPrice discountAmount quantity =
     js_sub (js_mul unitPrice (of_int quantity)) (js_mul discountAmount (of_int quantity))"

definition stored :: "env \<Rightarrow> rat \<Rightarrow> money" where
  "stored E x = e_col E (e_dec E x)"

text \<open>The item is added to the line of the same product, if there is one, and is a new line otherwise.\<close>

definition put_item ::
  "env \<Rightarrow> id \<Rightarrow> add_cart_item_dto \<Rightarrow> product \<Rightarrow> rat \<Rightarrow> rat \<Rightarrow> rat \<Rightarrow> sale_item option \<Rightarrow> unit handler" where
  "put_item E cartId dto product unitPrice discountAmount lineTotal existingItem =
     (case existingItem of
        Some x \<Rightarrow>
          let newQty = si_quantity x + aci_quantity dto;
              newTotal = js_line_total (fl (si_unitPrice x)) (fl (si_discountAmount x)) newQty in
          update_sale_item (\<lambda>y. si_id y = si_id x)
            (\<lambda>y. y\<lparr>si_quantity := newQty, si_lineTotal := stored E newTotal\<rparr>)
      | None \<Rightarrow>
          bindM (fresh_id E) (\<lambda>i.
          writeM (\<lambda>s. s\<lparr>saleItems := saleItems s @
            [\<lparr>si_id = i, si_saleId = cartId, si_productId = aci_productId dto,
              si_productName = prod_name product, si_productSku = prod_sku product,
              si_quantity = aci_quantity dto, si_unitPrice = stored E unitPrice, si_unitCost = 0,
              si_discountAmount = stored E discountAmount, si_lineTotal = stored E lineTotal,
              si_notes = aci_notes dto\<rparr>]\<rparr>)))"

definition addItem :: "env \<Rightarrow> id \<Rightarrow> id \<Rightarrow> id \<Rightarrow> add_cart_item_dto \<Rightarrow> cart_response handler" where
  "addItem E tenantId userId cartId dto =
     bindM (getCartOrThrow tenantId cartId) (\<lambda>cart.
     bindM (readM (\<lambda>s. List.find (\<lambda>p. prod_id p = aci_productId dto \<and> prod_tenantId p = tenantId)
              (products s))) (\<lambda>found.
     bindM (require found (NotFoundException ProductNotFound)) (\<lambda>product.
     bindM now (\<lambda>t.
     bindM (create_reservation E tenantId userId
              (cart_hold cartId cart (aci_productId dto) (aci_quantity dto) t)) (\<lambda>_.
     let unitPrice = (case aci_unitPrice dto of Some x \<Rightarrow> x
           | None \<Rightarrow> fl (case prod_minSellingPrice product of Some x \<Rightarrow> x | None \<Rightarrow> 0));
         discountAmount = (case aci_discountAmount dto of Some x \<Rightarrow> x | None \<Rightarrow> 0);
         lineTotal = js_line_total unitPrice discountAmount (aci_quantity dto) in
     bindM (readM (\<lambda>s. List.find (\<lambda>x. si_saleId x = cartId \<and> si_productId x = aci_productId dto)
              (saleItems s))) (\<lambda>existingItem.
     bindM (transaction (
       bindM (put_item E cartId dto product unitPrice discountAmount lineTotal existingItem) (\<lambda>_.
       recalculateCart E cartId))) (\<lambda>_.
     getCart tenantId cartId)))))))"

definition releaseReservations :: "id \<Rightarrow> id \<Rightarrow> id \<Rightarrow> unit handler" where
  "releaseReservations tenantId cartId productId =
     bindM (readM (\<lambda>s. filter (\<lambda>r. res_tenantId r = tenantId \<and> res_referenceId r = Some cartId \<and>
              res_referenceType r = Some ''SALE'' \<and> res_productId r = productId \<and>
              res_status r = ACTIVE) (reservations s))) (\<lambda>rs.
     bindM (forM rs (\<lambda>r. release_reservation tenantId (res_id r))) (\<lambda>_. ret ()))"

definition find_item :: "id \<Rightarrow> id \<Rightarrow> db \<Rightarrow> sale_item option" where
  "find_item cartId itemId s = List.find (\<lambda>x. si_id x = itemId \<and> si_saleId x = cartId) (saleItems s)"

definition patch_item :: "env \<Rightarrow> update_cart_item_dto \<Rightarrow> rat \<Rightarrow> rat \<Rightarrow> rat \<Rightarrow> sale_item \<Rightarrow> sale_item" where
  "patch_item E dto unitPrice discountAmount lineTotal y =
     y\<lparr>si_quantity := uci_quantity dto, si_unitPrice := stored E unitPrice,
       si_discountAmount := stored E discountAmount, si_lineTotal := stored E lineTotal,
       si_notes := (case uci_notes dto of None \<Rightarrow> si_notes y | Some v \<Rightarrow> Some v)\<rparr>"

definition updateItem :: "env \<Rightarrow> id \<Rightarrow> id \<Rightarrow> id \<Rightarrow> id \<Rightarrow> update_cart_item_dto \<Rightarrow> cart_response handler" where
  "updateItem E tenantId userId cartId itemId dto =
     bindM (getCartOrThrow tenantId cartId) (\<lambda>cart.
     bindM (readM (find_item cartId itemId)) (\<lambda>found.
     bindM (require found (NotFoundException CartItemNotFound)) (\<lambda>item.
     bindM (releaseReservations tenantId cartId (si_productId item)) (\<lambda>_.
     bindM now (\<lambda>t.
     bindM (create_reservation E tenantId userId
              (cart_hold cartId cart (si_productId item) (uci_quantity dto) t)) (\<lambda>_.
     let unitPrice = (case uci_unitPrice dto of Some x \<Rightarrow> x | None \<Rightarrow> fl (si_unitPrice item));
         discountAmount = (case uci_discountAmount dto of Some x \<Rightarrow> x | None \<Rightarrow> fl (si_discountAmount item));
         lineTotal = js_line_total unitPrice discountAmount (uci_quantity dto) in
     bindM (transaction (
       bindM (update_sale_item (\<lambda>y. si_id y = itemId)
                (patch_item E dto unitPrice discountAmount lineTotal)) (\<lambda>_.
       recalculateCart E cartId))) (\<lambda>_.
     getCart tenantId cartId)))))))"

definition delete_sale_item :: "id \<Rightarrow> unit handler" where
  "delete_sale_item i =
     bindM (readM (\<lambda>s. list_ex (\<lambda>x. si_id x = i) (saleItems s))) (\<lambda>ex.
     bindM (throw_if (\<not> ex) RecordNotFound) (\<lambda>_.
     writeM (\<lambda>s. s\<lparr>saleItems := filter (\<lambda>x. si_id x \<noteq> i) (saleItems s)\<rparr>)))"

definition removeItem :: "env \<Rightarrow> id \<Rightarrow> id \<Rightarrow> id \<Rightarrow> cart_response handler" where
  "removeItem E tenantId cartId itemId =
     bindM (getCartOrThrow tenantId cartId) (\<lambda>_.
     bindM (readM (find_item cartId itemId)) (\<lambda>found.
     bindM (require found (NotFoundException CartItemNotFound)) (\<lambda>item.
     bindM (releaseReservations tenantId cartId (si_productId item)) (\<lambda>_.
     bindM (transaction (
       bindM (delete_sale_item itemId) (\<lambda>_. recalculateCart E cartId))) (\<lambda>_.
     getCart tenantId cartId)))))"

section \<open>Abandoned carts\<close>

text \<open>Twenty-four hours of wall-clock time before \<open>t\<close>, ignoring changes of daylight saving.\<close>

definition cart_max_age :: int where "cart_max_age = 24 * 60 * 60 * 1000"

text \<open>The map of \<^verbatim>\<open>releaseReservedQuantities\<close>: one entry per product and location, in order of first
  occurrence, with the tenant of that occurrence and the sum of the quantities.\<close>

definition add_release :: "((id \<times> id) \<times> id \<times> int) list \<Rightarrow> reservation \<Rightarrow> ((id \<times> id) \<times> id \<times> int) list" where
  "add_release us r =
     (let k = (res_productId r, res_locationId r) in
      if k \<in> fst ` set us
      then map (\<lambda>(k', t, q). if k' = k then (k', t, q + res_quantity r) else (k', t, q)) us
      else us @ [(k, res_tenantId r, res_quantity r)])"

definition give_back :: "(id \<times> id) \<times> id \<times> int \<Rightarrow> unit handler" where
  "give_back u = writeM (\<lambda>s. s\<lparr>balances :=
     update_where (\<lambda>b. bal_key (fst (fst u)) (snd (fst u)) b \<and> bal_tenantId b = fst (snd u))
       (\<lambda>b. b\<lparr>bal_reservedQuantity := bal_reservedQuantity b - snd (snd u)\<rparr>) (balances s)\<rparr>)"

definition releaseReservedQuantities :: "reservation list \<Rightarrow> unit handler" where
  "releaseReservedQuantities rs =
     bindM (forM (foldl add_release [] rs) give_back) (\<lambda>_. ret ())"

definition held_for :: "id list \<Rightarrow> reservation \<Rightarrow> bool" where
  "held_for cartIds r \<longleftrightarrow> (case res_referenceId r of None \<Rightarrow> False | Some c \<Rightarrow> c \<in> set cartIds) \<and>
     res_referenceType r = Some ''SALE'' \<and> res_status r = ACTIVE"

definition cleanup_tx :: "id list \<Rightarrow> reservation list \<Rightarrow> nat handler" where
  "cleanup_tx cartIds rs = transaction (
     bindM (readM (\<lambda>s. length (filter (held_for cartIds) (reservations s)))) (\<lambda>count.
     bindM (writeM (\<lambda>s. s\<lparr>reservations := update_where (held_for cartIds)
              (\<lambda>r. r\<lparr>res_status := EXPIRED\<rparr>) (reservations s)\<rparr>)) (\<lambda>_.
     bindM (releaseReservedQuantities rs) (\<lambda>_.
     bindM (writeM (\<lambda>s. s\<lparr>saleItems := filter (\<lambda>x. si_saleId x \<notin> set cartIds) (saleItems s)\<rparr>)) (\<lambda>_.
     bindM (writeM (\<lambda>s. s\<lparr>sales := filter (\<lambda>x. sale_id x \<notin> set cartIds) (sales s)\<rparr>)) (\<lambda>_.
     ret count))))))"

definition cleanupAbandonedCarts :: "(nat \<times> nat) handler" where
  "cleanupAbandonedCarts =
     bindM now (\<lambda>t.
     bindM (readM (\<lambda>s. map sale_id (filter (\<lambda>x. sale_status x = SaleDraft \<and>
              sale_createdAt x < t - cart_max_age) (sales s)))) (\<lambda>cartIds.
     if cartIds = [] then ret (0, 0)
     else
       bindM (readM (\<lambda>s. filter (held_for cartIds) (reservations s))) (\<lambda>rs.
       bindM (cleanup_tx cartIds rs) (\<lambda>count.
       ret (length cartIds, count)))))"

section \<open>Lemmas: totals\<close>

lemma four_decimals_arith:
  "four_decimals 0" "four_decimals x \<Longrightarrow> four_decimals y \<Longrightarrow> four_decimals (x + y)"
  "four_decimals x \<Longrightarrow> four_decimals y \<Longrightarrow> four_decimals (x - y)"
proof -
  show "four_decimals 0" by (auto simp: four_decimals_def intro: exI [of _ 0])
  assume "four_decimals x" "four_decimals y"
  then obtain a b :: int where "x = of_int a / 10000" "y = of_int b / 10000"
    unfolding four_decimals_def by blast
  then have "x + y = of_int (a + b) / 10000" "x - y = of_int (a - b) / 10000" by (simp_all add: field_simps)
  then show "four_decimals (x + y)" "four_decimals (x - y)" unfolding four_decimals_def by blast+
qed

lemma four_decimals_sum: "(\<And>x. x \<in> set xs \<Longrightarrow> four_decimals (f x)) \<Longrightarrow> four_decimals (\<Sum>x\<leftarrow>xs. f x)"
  by (induction xs) (auto intro: four_decimals_arith)

lemma stored_four: "column_rounds E \<Longrightarrow> four_decimals (stored E x)"
  by (simp add: column_rounds_def stored_def)

text \<open>The totals of a sale: the subtotal is the sum of its lines, the total is that less the discount.\<close>

definition totals_ok :: "db \<Rightarrow> sale \<Rightarrow> bool" where
  "totals_ok s x \<longleftrightarrow> four_decimals (sale_discountAmount x) \<and>
     sale_subtotal x = (\<Sum>y\<leftarrow>items_of (sale_id x) s. si_lineTotal y) \<and>
     sale_totalAmount x = sale_subtotal x - sale_discountAmount x"

text \<open>Rows with identifiers from the generator, items of existing sales with amounts the columns hold,
  and carts with the right totals.\<close>

definition cart_ok :: "env \<Rightarrow> db \<Rightarrow> bool" where
  "cart_ok E s \<longleftrightarrow>
     ids_used E s (sale_id ` set (sales s) \<union> si_id ` set (saleItems s)) \<and>
     distinct (map sale_id (sales s)) \<and> distinct (map si_id (saleItems s)) \<and>
     si_saleId ` set (saleItems s) \<subseteq> sale_id ` set (sales s) \<and>
     (\<forall>y \<in> set (saleItems s). four_decimals (si_lineTotal y)) \<and>
     (\<forall>x \<in> set (sales s). sale_status x = SaleDraft \<longrightarrow> totals_ok s x)"

lemma cart_ok_cong:
  assumes "cart_ok E s" "sales s' = sales s" "saleItems s' = saleItems s" "nextId s \<le> nextId s'"
  shows "cart_ok E s'"
  using assms unfolding cart_ok_def totals_ok_def items_of_def
  by (auto intro: ids_used_mono)

text \<open>A change of the items of one sale, \<open>c\<close>.\<close>

definition item_change :: "env \<Rightarrow> id \<Rightarrow> db \<Rightarrow> db \<Rightarrow> bool" where
  "item_change E c s s' \<longleftrightarrow> sales s' = sales s \<and> nextId s \<le> nextId s' \<and>
     ids_used E s' (si_id ` set (saleItems s')) \<and> distinct (map si_id (saleItems s')) \<and>
     si_saleId ` set (saleItems s') \<subseteq> insert c (si_saleId ` set (saleItems s)) \<and>
     (\<forall>y \<in> set (saleItems s'). four_decimals (si_lineTotal y)) \<and>
     (\<forall>d. d \<noteq> c \<longrightarrow> items_of d s' = items_of d s)"

definition retotal :: "env \<Rightarrow> id \<Rightarrow> db \<Rightarrow> sale \<Rightarrow> sale" where
  "retotal E c s x = x\<lparr>
     sale_subtotal := e_col E (\<Sum>y\<leftarrow>items_of c s. si_lineTotal y),
     sale_totalAmount := e_col E ((\<Sum>y\<leftarrow>items_of c s. si_lineTotal y) -
       (case List.find (\<lambda>x. sale_id x = c) (sales s) of None \<Rightarrow> 0 | Some x \<Rightarrow> sale_discountAmount x))\<rparr>"

lemma recalculateCart_run:
  "recalculateCart E c s = (if list_ex (\<lambda>x. sale_id x = c) (sales s)
     then (Inr (), s\<lparr>sales := update_where (\<lambda>x. sale_id x = c) (retotal E c s) (sales s)\<rparr>)
     else (Inl RecordNotFound, s))"
  by (simp add: recalculateCart_def bindM_run Let_def update_row_run retotal_def [abs_def])

lemma recalculate_restores:
  assumes col: "column_rounds E" and ok: "cart_ok E s" and change: "item_change E c s s1"
    and run: "recalculateCart E c s1 = (Inr u, s')"
  shows "cart_ok E s'"
proof -
  from run have ex: "list_ex (\<lambda>x. sale_id x = c) (sales s1)"
    and s': "s' = s1\<lparr>sales := update_where (\<lambda>x. sale_id x = c) (retotal E c s1) (sales s1)\<rparr>"
    by (auto simp: recalculateCart_run split: if_splits)
  note ch = change [unfolded item_change_def]
  have d: "distinct (map sale_id (sales s1))" using ok ch by (simp add: cart_ok_def)
  have ids: "map sale_id (sales s') = map sale_id (sales s)"
    using ch by (simp add: s' map_update_where retotal_def)
  have its: "items_of i s' = items_of i s1" "saleItems s' = saleItems s1" "nextId s' = nextId s1" for i
    by (simp_all add: s' items_of_def)
  have sum4: "four_decimals (\<Sum>y\<leftarrow>items_of c s1. si_lineTotal y)"
    using ch by (intro four_decimals_sum) (auto simp: items_of_def)
  have "totals_ok s' x" if x: "x \<in> set (sales s')" "sale_status x = SaleDraft" for x
  proof -
    from x(1) consider (same) b where "b \<in> set (sales s1)" "sale_id b = c" "x = retotal E c s1 b"
      | (other) "x \<in> set (sales s1)" "sale_id x \<noteq> c" by (auto simp: s' set_update_where)
    then show ?thesis
    proof cases
      case same
      have f: "List.find (\<lambda>x. sale_id x = c) (sales s1) = Some b" using find_map_key [OF d same(1,2)] .
      have "b \<in> set (sales s)" "sale_status b = SaleDraft" using same(1,3) x(2) ch by (simp_all add: retotal_def)
      then have "totals_ok s b" using ok by (simp add: cart_ok_def)
      then have "four_decimals (sale_discountAmount b)" by (simp add: totals_ok_def)
      then show ?thesis
        using same(2,3) f sum4 column_exact [OF col] four_decimals_arith(3)
        by (simp add: totals_ok_def retotal_def its)
    next
      case other
      then have "totals_ok s x" using ok x(2) ch by (simp add: cart_ok_def)
      with other(2) ch show ?thesis by (simp add: totals_ok_def its)
    qed
  qed
  moreover have sid: "sale_id ` set (sales s') = sale_id ` set (sales s)" using ids by (metis list.set_map)
  moreover have "si_saleId ` set (saleItems s') \<subseteq> sale_id ` set (sales s)"
  proof -
    have "c \<in> sale_id ` set (sales s)" using ex ch by (auto simp: list_ex_iff)
    moreover have "si_saleId ` set (saleItems s1) \<subseteq> insert c (si_saleId ` set (saleItems s))"
      using ch by (elim conjE)
    moreover have "si_saleId ` set (saleItems s) \<subseteq> sale_id ` set (sales s)" using ok by (simp add: cart_ok_def)
    ultimately show ?thesis unfolding its by blast
  qed
  moreover have "ids_used E s' (sale_id ` set (sales s) \<union> si_id ` set (saleItems s'))"
  proof -
    have "ids_used E s' (sale_id ` set (sales s))"
    proof (rule ids_used_mono [of E s])
      show "ids_used E s (sale_id ` set (sales s))" using ok by (simp add: cart_ok_def ids_used_def)
      show "nextId s \<le> nextId s'" using ch by (simp add: its(3))
    qed simp
    with ch show ?thesis by (auto simp: ids_used_def its)
  qed
  moreover have "distinct (map sale_id (sales s'))" "distinct (map si_id (saleItems s'))"
      "\<forall>y \<in> set (saleItems s'). four_decimals (si_lineTotal y)"
    using d ch unfolding its(2) ids by simp_all
  ultimately show ?thesis unfolding cart_ok_def sid by blast
qed

lemma item_unique:
  "cart_ok E s \<Longrightarrow> x \<in> set (saleItems s) \<Longrightarrow> y \<in> set (saleItems s) \<Longrightarrow> si_id x = si_id y \<Longrightarrow> x = y"
  unfolding cart_ok_def by (metis (no_types, lifting) distinct_map inj_onD)

lemma item_change_update:
  assumes ok: "cart_ok E s" and x: "x \<in> set (saleItems s)" "si_saleId x = c"
    and f: "\<And>y. si_id (f y) = si_id y \<and> si_saleId (f y) = si_saleId y \<and> four_decimals (si_lineTotal (f y))"
  shows "item_change E c s (s\<lparr>saleItems := update_where (\<lambda>y. si_id y = si_id x) f (saleItems s)\<rparr>)"
proof -
  let ?its = "update_where (\<lambda>y. si_id y = si_id x) f (saleItems s)"
  have ids: "map si_id ?its = map si_id (saleItems s)" "map si_saleId ?its = map si_saleId (saleItems s)"
    using f by (simp_all add: map_update_where)
  have "filter (\<lambda>y. si_saleId y = d) ?its = filter (\<lambda>y. si_saleId y = d) (saleItems s)" if "d \<noteq> c" for d
  proof -
    have "filter (\<lambda>y. si_saleId y = d) ?its = update_where (\<lambda>y. si_id y = si_id x) f (filter (\<lambda>y. si_saleId y = d) (saleItems s))"
      using f by (simp add: filter_update_where)
    also have "\<dots> = filter (\<lambda>y. si_saleId y = d) (saleItems s)"
      by (rule update_where_none) (use item_unique [OF ok _ x(1)] x(2) that in auto)
    finally show ?thesis .
  qed
  moreover have "si_id ` set ?its = si_id ` set (saleItems s)" "si_saleId ` set ?its = si_saleId ` set (saleItems s)"
    using ids by (metis list.set_map)+
  moreover have "\<forall>y \<in> set ?its. four_decimals (si_lineTotal y)"
    using ok f by (auto simp: set_update_where cart_ok_def)
  moreover have "distinct (map si_id ?its)" using ok unfolding ids cart_ok_def by blast
  moreover have "ids_used E s (si_id ` set (saleItems s))" using ok by (auto simp: cart_ok_def ids_used_def)
  ultimately show ?thesis unfolding item_change_def items_of_def by (auto simp: ids_used_def)
qed

lemma item_change_append:
  assumes ok: "cart_ok E s" and y: "si_id y = e_uuid E (nextId s)" "si_saleId y = c" "four_decimals (si_lineTotal y)"
  shows "item_change E c s (s\<lparr>nextId := Suc (nextId s), saleItems := saleItems s @ [y]\<rparr>)"
proof -
  have used: "ids_used E s (si_id ` set (saleItems s))" using ok by (auto simp: cart_ok_def ids_used_def)
  then have "e_uuid E (nextId s) \<notin> si_id ` set (saleItems s)" by (rule ids_used_fresh)
  moreover have "ids_used E (s\<lparr>nextId := Suc (nextId s), saleItems := saleItems s @ [y]\<rparr>) (si_id ` set (saleItems s @ [y]))"
    using used y(1) by (auto intro: ids_used_mono)
  ultimately show ?thesis
    using ok y unfolding item_change_def items_of_def cart_ok_def by auto
qed

lemma item_change_delete:
  assumes ok: "cart_ok E s" and x: "x \<in> set (saleItems s)" "si_saleId x = c"
  shows "item_change E c s (s\<lparr>saleItems := filter (\<lambda>y. si_id y \<noteq> si_id x) (saleItems s)\<rparr>)"
proof -
  have "filter (\<lambda>y. si_saleId y = d) (filter (\<lambda>y. si_id y \<noteq> si_id x) (saleItems s)) =
      filter (\<lambda>y. si_saleId y = d) (saleItems s)" if "d \<noteq> c" for d
    unfolding filter_filter by (rule filter_cong [OF refl]) (use item_unique [OF ok _ x(1)] x(2) that in auto)
  moreover have "ids_used E s (si_id ` set (saleItems s))" using ok by (auto simp: cart_ok_def ids_used_def)
  moreover have "distinct (map si_id (filter (\<lambda>y. si_id y \<noteq> si_id x) (saleItems s)))"
    using ok by (simp add: cart_ok_def distinct_map_filter)
  ultimately show ?thesis
    using ok unfolding item_change_def items_of_def by (auto simp: ids_used_def cart_ok_def)
qed

section \<open>Lemmas: the handlers keep the totals\<close>

text \<open>A transaction that changes items and then recalculates.\<close>

lemma recalculating_tx:
  assumes col: "column_rounds E" and ok: "cart_ok E s"
    and run: "transaction (bindM m (\<lambda>_. recalculateCart E c)) s = (r, s')"
    and change: "\<And>u s1. m s = (Inr u, s1) \<Longrightarrow> item_change E c s s1"
  shows "cart_ok E s'"
proof (cases r)
  case (Inl e)
  with run have "s' = s" by (auto simp: transaction_Inl)
  with ok show ?thesis by simp
next
  case (Inr u)
  with run obtain v s1 where "m s = (Inr v, s1)" "recalculateCart E c s1 = (Inr u, s')"
    by (auto simp: transaction_Inr bindM_Inr)
  with change recalculate_restores [OF col ok] show ?thesis by blast
qed

lemma create_reservation_view:
  assumes "create_reservation E t u dto s = (r, s')"
  shows "sales s' = sales s" "saleItems s' = saleItems s" "nextId s \<le> nextId s'"
proof -
  have "s' = s \<or> s' = reserved_state E t u dto s"
    using assms create_run [of t s dto E u] by (cases "reservable t s dto") auto
  then show "sales s' = sales s" "saleItems s' = saleItems s" "nextId s \<le> nextId s'"
    by (auto simp: reserved_state_def Let_def)
qed

lemma releaseReservations_view:
  "keeps (\<lambda>s. (sales s, saleItems s, nextId s)) (releaseReservations t c p)"
  unfolding releaseReservations_def release_reservation_def cancelExpiry_def
  by (intro svc_intros; simp)

lemma getCartOrThrow_run:
  "getCartOrThrow t c s = (case List.find (\<lambda>x. sale_id x = c \<and> sale_tenantId x = t \<and> sale_status x = SaleDraft) (sales s) of
     None \<Rightarrow> (Inl (NotFoundException CartNotFound), s) | Some x \<Rightarrow> (Inr x, s))"
  by (simp add: getCartOrThrow_def bindM_run require_def split: option.split)

lemma readonly_getCart [svc_intros]: "readonly (getCart t c)" "readonly (getCartOrThrow t c)"
  unfolding getCart_def getCartOrThrow_def by (intro svc_intros)+

text \<open>What follows a recalculating transaction only reads.\<close>

lemma recalculating_then_getCart:
  assumes "column_rounds E" "cart_ok E s"
    and run: "bindM (transaction (bindM m (\<lambda>_. recalculateCart E c))) (\<lambda>_. getCart t c) s = (r, s')"
    and "\<And>u s1. m s = (Inr u, s1) \<Longrightarrow> item_change E c s s1"
  shows "cart_ok E s'"
  using run
proof (cases rule: bindM_cases)
  case (stops e)
  show ?thesis by (rule recalculating_tx [OF assms(1,2) stops(1)]) (rule assms(4))
next
  case (goes_on u s1)
  have "cart_ok E s1" by (rule recalculating_tx [OF assms(1,2) goes_on(1)]) (rule assms(4))
  with readonlyD [OF readonly_getCart(1) goes_on(2)] show ?thesis by simp
qed

lemma createCart_ok:
  assumes ok: "cart_ok E s" and run: "createCart E t u dto s = (r, s')"
  shows "cart_ok E s'"
proof -
  have "s' = s \<or> (\<exists>n. s' = s\<lparr>nextId := Suc (nextId s),
      sales := sales s @ [empty_cart t u dto n (e_uuid E (nextId s)) (clock s)]\<rparr>)"
    using run unfolding createCart_def insert_sale_def generateSaleNumber_def
    by (auto simp: bindM_run bindM_fresh_id bindM_def transaction_def split: if_splits)
  then show ?thesis
  proof
    assume "\<exists>n. s' = s\<lparr>nextId := Suc (nextId s),
      sales := sales s @ [empty_cart t u dto n (e_uuid E (nextId s)) (clock s)]\<rparr>"
    then obtain n where s': "s' = s\<lparr>nextId := Suc (nextId s),
      sales := sales s @ [empty_cart t u dto n (e_uuid E (nextId s)) (clock s)]\<rparr>" by blast
    define new where "new = empty_cart t u dto n (e_uuid E (nextId s)) (clock s)"
    have new: "sale_id new = e_uuid E (nextId s)" "sale_subtotal new = 0" "sale_totalAmount new = 0"
      "sale_discountAmount new = 0" by (simp_all add: new_def empty_cart_def)
    have fresh: "e_uuid E (nextId s) \<notin> sale_id ` set (sales s) \<union> si_id ` set (saleItems s)"
      by (rule ids_used_fresh) (use ok in \<open>simp add: cart_ok_def\<close>)
    have fk: "si_saleId ` set (saleItems s) \<subseteq> sale_id ` set (sales s)" using ok by (simp add: cart_ok_def)
    then have none: "items_of (e_uuid E (nextId s)) s = []"
      using fresh unfolding items_of_def filter_empty_conv by (metis UnI1 image_eqI subsetD)
    have "totals_ok s' x" if "x \<in> set (sales s')" "sale_status x = SaleDraft" for x
      using that ok none new four_decimals_arith(1)
      by (auto simp: s' new_def [symmetric] cart_ok_def totals_ok_def items_of_def)
    moreover have "ids_used E s' (sale_id ` set (sales s') \<union> si_id ` set (saleItems s'))"
      by (rule ids_used_mono [of E s "sale_id ` set (sales s) \<union> si_id ` set (saleItems s)"])
        (use ok new in \<open>auto simp: s' new_def [symmetric] cart_ok_def\<close>)
    moreover have "si_saleId ` set (saleItems s') \<subseteq> sale_id ` set (sales s')" using fk by (auto simp: s')
    moreover have "distinct (map sale_id (sales s'))"
      using ok fresh new by (auto simp: s' new_def [symmetric] cart_ok_def)
    moreover have "saleItems s' = saleItems s" by (simp add: s')
    ultimately show ?thesis using ok unfolding cart_ok_def by simp
  qed (use ok in simp)
qed

text \<open>Steps that leave sales and items alone pass the invariant on.\<close>

definition quiet :: "'a handler \<Rightarrow> bool" where
  "quiet m \<longleftrightarrow> (\<forall>s r s'. m s = (r, s') \<longrightarrow>
     sales s' = sales s \<and> saleItems s' = saleItems s \<and> nextId s \<le> nextId s')"

lemma quiet_intros:
  "readonly m \<Longrightarrow> quiet m" "quiet (create_reservation E t u dto)" "quiet (releaseReservations t c p)"
proof -
  show "readonly m \<Longrightarrow> quiet m" by (auto simp: quiet_def dest: readonlyD)
  show "quiet (create_reservation E t u dto)"
    unfolding quiet_def by (intro allI impI conjI) (rule create_reservation_view, assumption)+
  show "quiet (releaseReservations t c p)"
    unfolding quiet_def using keepsD [OF releaseReservations_view] by fastforce
qed

lemma ok_bindM:
  assumes "bindM m f s = (r, s')" "cart_ok E s" "quiet m"
    and "\<And>a s1. m s = (Inr a, s1) \<Longrightarrow> f a s1 = (r, s') \<Longrightarrow> cart_ok E s1 \<Longrightarrow> cart_ok E s'"
  shows "cart_ok E s'"
  using assms(1)
proof (cases rule: bindM_cases)
  case (stops e)
  with assms(3) have "sales s' = sales s" "saleItems s' = saleItems s" "nextId s \<le> nextId s'"
    by (auto simp: quiet_def)
  with cart_ok_cong [OF assms(2)] show ?thesis by blast
next
  case (goes_on a s1)
  with assms(3) have "sales s1 = sales s" "saleItems s1 = saleItems s" "nextId s \<le> nextId s1"
    by (auto simp: quiet_def)
  with cart_ok_cong [OF assms(2)] assms(4) [OF goes_on] show ?thesis by blast
qed

lemma find_item_row:
  "find_item c i s = Some x \<Longrightarrow> x \<in> set (saleItems s) \<and> si_id x = i \<and> si_saleId x = c"
  unfolding find_item_def by (auto dest: find_SomeD)

lemma addItem_ok:
  assumes col: "column_rounds E" and ok: "cart_ok E s" and run: "addItem E t u c dto s = (r, s')"
  shows "cart_ok E s'"
  using run [unfolded addItem_def Let_def] ok
  apply (rule ok_bindM, intro quiet_intros svc_intros)
  apply (erule (1) ok_bindM, intro quiet_intros svc_intros)
  apply (erule (1) ok_bindM, intro quiet_intros svc_intros)
  apply (erule (1) ok_bindM, intro quiet_intros svc_intros)
  apply (erule (1) ok_bindM, rule quiet_intros(2))
  apply (erule (1) ok_bindM, intro quiet_intros svc_intros)
  subgoal premises prems for cart s1 found s2 product s3 now s4 res s5 existing s6
  proof (rule recalculating_then_getCart [OF col prems(13,12)])
    fix u s7
    assume change: "put_item E c dto product (case aci_unitPrice dto of Some x \<Rightarrow> x
          | None \<Rightarrow> fl (case prod_minSellingPrice product of Some x \<Rightarrow> x | None \<Rightarrow> 0))
        (case aci_discountAmount dto of Some x \<Rightarrow> x | None \<Rightarrow> 0)
        (js_line_total (case aci_unitPrice dto of Some x \<Rightarrow> x
          | None \<Rightarrow> fl (case prod_minSellingPrice product of Some x \<Rightarrow> x | None \<Rightarrow> 0))
          (case aci_discountAmount dto of Some x \<Rightarrow> x | None \<Rightarrow> 0) (aci_quantity dto)) existing s6 = (Inr u, s7)"
    have found: "existing = List.find (\<lambda>x. si_saleId x = c \<and> si_productId x = aci_productId dto) (saleItems s6)"
      using prems(11) by auto
    show "item_change E c s6 s7"
    proof (cases existing)
      case None
      with change show ?thesis
        by (auto simp: put_item_def bindM_fresh_id intro!: item_change_append [OF prems(13)] stored_four [OF col])
    next
      case (Some x)
      then have "x \<in> set (saleItems s6)" "si_saleId x = c" using found by (auto dest: find_SomeD)
      with Some change show ?thesis
        by (auto simp: put_item_def Let_def update_row_run split: if_splits
            intro!: item_change_update [OF prems(13)] stored_four [OF col])
    qed
  qed
  done

lemma updateItem_ok:
  assumes col: "column_rounds E" and ok: "cart_ok E s" and run: "updateItem E t u c i dto s = (r, s')"
  shows "cart_ok E s'"
  using run [unfolded updateItem_def Let_def] ok
  apply (rule ok_bindM, intro quiet_intros svc_intros)
  apply (erule (1) ok_bindM, intro quiet_intros svc_intros)
  apply (erule (1) ok_bindM, intro quiet_intros svc_intros)
  apply (erule (1) ok_bindM, rule quiet_intros(3))
  apply (erule (1) ok_bindM, intro quiet_intros svc_intros)
  apply (erule (1) ok_bindM, rule quiet_intros(2))
  subgoal premises prems for cart s1 found s2 item s3 v s4 now s5 res s6
  proof (rule recalculating_then_getCart [OF col prems(13,12)])
    fix u s7
    let ?price = "case uci_unitPrice dto of Some x \<Rightarrow> x | None \<Rightarrow> fl (si_unitPrice item)"
    let ?discount = "case uci_discountAmount dto of Some x \<Rightarrow> x | None \<Rightarrow> fl (si_discountAmount item)"
    assume change: "update_sale_item (\<lambda>y. si_id y = i)
      (patch_item E dto ?price ?discount (js_line_total ?price ?discount (uci_quantity dto))) s6 = (Inr u, s7)"
    have "find_item c i s1 = Some item" "s2 = s1" "s3 = s1" using prems(3,5) by auto
    moreover have "saleItems s6 = saleItems s3"
      using prems(7,9,11) quiet_intros(2,3) unfolding quiet_def by auto
    ultimately have x: "item \<in> set (saleItems s6)" "si_id item = i" "si_saleId item = c"
      using find_item_row by auto
    from change have s7: "s7 = s6\<lparr>saleItems := update_where (\<lambda>y. si_id y = si_id item)
        (patch_item E dto ?price ?discount (js_line_total ?price ?discount (uci_quantity dto))) (saleItems s6)\<rparr>"
      by (simp add: update_row_run x(2) split: if_splits)
    show "item_change E c s6 s7" unfolding s7
      by (rule item_change_update [OF prems(13) x(1,3)]) (simp add: patch_item_def stored_four [OF col])
  qed
  done

lemma removeItem_ok:
  assumes col: "column_rounds E" and ok: "cart_ok E s" and run: "removeItem E t c i s = (r, s')"
  shows "cart_ok E s'"
  using run [unfolded removeItem_def] ok
  apply (rule ok_bindM, intro quiet_intros svc_intros)
  apply (erule (1) ok_bindM, intro quiet_intros svc_intros)
  apply (erule (1) ok_bindM, intro quiet_intros svc_intros)
  apply (erule (1) ok_bindM, rule quiet_intros(3))
  subgoal premises prems for cart s1 found s2 item s3 v s4
  proof (rule recalculating_then_getCart [OF col prems(9,8)])
    fix u s5
    assume change: "delete_sale_item i s4 = (Inr u, s5)"
    have "find_item c i s1 = Some item" "s2 = s1" "s3 = s1" using prems(3,5) by auto
    moreover have "saleItems s4 = saleItems s3" using prems(7) quiet_intros(3) unfolding quiet_def by auto
    ultimately have x: "item \<in> set (saleItems s4)" "si_id item = i" "si_saleId item = c"
      using find_item_row by auto
    from change x(2) item_change_delete [OF prems(9) x(1,3)] show "item_change E c s4 s5"
      by (auto simp: delete_sale_item_def bindM_run split: if_splits)
  qed
  done

section \<open>Lemmas: releasing the holds of a line\<close>

lemma update_where_twice:
  "update_where (\<lambda>x. k x \<in> K) f (update_where (\<lambda>x. k x = i) f rows) =
   update_where (\<lambda>x. k x \<in> insert i K) f rows"
  if "\<And>x. k (f x) = k x" "\<And>x. f (f x) = f x"
  by (induction rows) (auto simp: that)

abbreviation released :: "reservation \<Rightarrow> reservation" where
  "released r \<equiv> r\<lparr>res_status := RELEASED\<rparr>"

lemma release_one:
  assumes inv: "res_inv E s" and r: "r \<in> set (reservations s)" "res_status r = ACTIVE" "res_tenantId r = t"
  shows "\<exists>s1. release_reservation t (res_id r) s = (Inr (), s1) \<and> res_inv E s1 \<and>
    reservations s1 = update_where (\<lambda>x. res_id x = res_id r) released (reservations s) \<and>
    (\<forall>p l. on_hand p l s1 = on_hand p l s) \<and> saleItems s1 = saleItems s"
proof -
  have ok: "reserved_ok s" using inv by (simp add: res_inv_def)
  have f: "List.find (\<lambda>x. res_id x = res_id r \<and> res_tenantId x = t) (reservations s) = Some r"
  proof (cases "List.find (\<lambda>x. res_id x = res_id r \<and> res_tenantId x = t) (reservations s)")
    case None
    with r show ?thesis by (auto simp: find_None_iff')
  next
    case (Some x)
    then show ?thesis using res_id_unique [OF ok _ r(1), of x] by (auto dest: find_SomeD)
  qed
  let ?s1 = "(close_as RELEASED r s)\<lparr>jobs := filter (\<lambda>j. job_reservationId j \<noteq> res_id r) (jobs s)\<rparr>"
  have run: "release_reservation t (res_id r) s = (Inr (), ?s1)"
    using release_run [OF ok, of t "res_id r"] f r(2) by simp
  have "res_inv E ?s1" using close_as_inv(2) [OF inv r(1,2)] by simp
  moreover have "on_hand p l ?s1 = on_hand p l s" for p l
    using close_as_effect(2) [OF ok r(1,2), of RELEASED p l] on_hand_cong(1) [of ?s1 "close_as RELEASED r s" p l] by simp
  moreover have "reservations ?s1 = update_where (\<lambda>x. res_id x = res_id r) released (reservations s)"
    "saleItems ?s1 = saleItems s" by (simp_all add: close_as_def shift_reserved_def)
  ultimately show ?thesis using run by blast
qed

lemma release_all:
  assumes "res_inv E s" "distinct (map res_id rs)"
    and "\<forall>r \<in> set rs. r \<in> set (reservations s) \<and> res_status r = ACTIVE \<and> res_tenantId r = t"
  shows "\<exists>us s1. forM rs (\<lambda>r. release_reservation t (res_id r)) s = (Inr us, s1) \<and> res_inv E s1 \<and>
    reservations s1 = update_where (\<lambda>x. res_id x \<in> res_id ` set rs) released (reservations s) \<and>
    (\<forall>p l. on_hand p l s1 = on_hand p l s) \<and> saleItems s1 = saleItems s"
  using assms
proof (induction rs arbitrary: s)
  case Nil
  then show ?case by (simp add: update_where_none)
next
  case (Cons r rs)
  obtain s1 where s1: "release_reservation t (res_id r) s = (Inr (), s1)" "res_inv E s1"
    "reservations s1 = update_where (\<lambda>x. res_id x = res_id r) released (reservations s)"
    "\<forall>p l. on_hand p l s1 = on_hand p l s" "saleItems s1 = saleItems s"
    using release_one [OF Cons.prems(1), of r t] Cons.prems(3) by auto
  have rest: "\<forall>x \<in> set rs. x \<in> set (reservations s1) \<and> res_status x = ACTIVE \<and> res_tenantId x = t"
  proof
    fix x assume that: "x \<in> set rs"
    have "res_id x \<noteq> res_id r" using Cons.prems(2) that by (auto simp: rev_image_eqI)
    with Cons.prems(3) that show "x \<in> set (reservations s1) \<and> res_status x = ACTIVE \<and> res_tenantId x = t"
      by (simp add: s1(3) set_update_where)
  qed
  obtain us s2 where s2: "forM rs (\<lambda>r. release_reservation t (res_id r)) s1 = (Inr us, s2)" "res_inv E s2"
    "reservations s2 = update_where (\<lambda>x. res_id x \<in> res_id ` set rs) released (reservations s1)"
    "\<forall>p l. on_hand p l s2 = on_hand p l s1" "saleItems s2 = saleItems s1"
    using Cons.IH [OF s1(2) _ rest] Cons.prems(2) by auto
  have "reservations s2 = update_where (\<lambda>x. res_id x \<in> insert (res_id r) (res_id ` set rs)) released (reservations s)"
    unfolding s2(3) s1(3) by (rule update_where_twice) simp_all
  moreover have "forM (r # rs) (\<lambda>r. release_reservation t (res_id r)) s = (Inr (() # us), s2)"
    using s1(1) s2(1) by (simp add: bindM_def)
  ultimately show ?case using s1(4,5) s2(2,4,5) by simp
qed

text \<open>The ACTIVE holds of a product for a cart.\<close>

definition cart_holds :: "id \<Rightarrow> id \<Rightarrow> id \<Rightarrow> reservation \<Rightarrow> bool" where
  "cart_holds t c p r \<longleftrightarrow> res_tenantId r = t \<and> res_referenceId r = Some c \<and>
     res_referenceType r = Some ''SALE'' \<and> res_productId r = p \<and> res_status r = ACTIVE"

lemma releaseReservations_effect:
  assumes inv: "res_inv E s"
  shows "\<exists>s1. releaseReservations t c p s = (Inr (), s1) \<and> res_inv E s1 \<and>
    (\<forall>r \<in> set (reservations s1). \<not> cart_holds t c p r) \<and>
    (\<forall>p l. on_hand p l s1 = on_hand p l s) \<and> saleItems s1 = saleItems s"
proof -
  let ?rs = "filter (cart_holds t c p) (reservations s)"
  have d: "distinct (map res_id ?rs)"
    using inv by (simp add: res_inv_def reserved_ok_def distinct_map_filter)
  have held: "\<forall>r \<in> set ?rs. r \<in> set (reservations s) \<and> res_status r = ACTIVE \<and> res_tenantId r = t"
    by (simp add: cart_holds_def)
  from release_all [OF inv d held] obtain us s1 where s1: "forM ?rs (\<lambda>r. release_reservation t (res_id r)) s = (Inr us, s1)" "res_inv E s1"
    "reservations s1 = update_where (\<lambda>x. res_id x \<in> res_id ` set ?rs) released (reservations s)"
    "\<forall>p l. on_hand p l s1 = on_hand p l s" "saleItems s1 = saleItems s"
    by (elim exE conjE) (rule that)
  have "\<not> cart_holds t c p r" if "r \<in> set (reservations s1)" for r
    using that by (auto simp: s1(3) set_update_where cart_holds_def)
  moreover have "releaseReservations t c p s = (Inr (), s1)"
    using s1(1) by (simp add: releaseReservations_def cart_holds_def [abs_def] bindM_run bindM_def)
  ultimately show ?thesis using s1(2,4,5) by blast
qed

lemma active_reserved_nonneg: "positive_ok s \<Longrightarrow> 0 \<le> active_reserved p l s"
  unfolding active_reserved_def by (rule sum_where_nonneg) (force simp: positive_ok_def)

section \<open>Lemmas: abandoned carts\<close>

text \<open>The map of quantities to give back has each product and location once, with the sum of its
  reservations.\<close>

abbreviation place :: "reservation \<Rightarrow> id \<times> id" where
  "place r \<equiv> (res_productId r, res_locationId r)"

definition to_release :: "((id \<times> id) \<times> id \<times> int) list \<Rightarrow> id \<times> id \<Rightarrow> int" where
  "to_release us k = (\<Sum>x\<leftarrow>us. if fst x = k then snd (snd x) else 0)"

lemma to_release_other: "k \<notin> fst ` set us \<Longrightarrow> to_release us k = 0"
  unfolding to_release_def by (induction us) auto

lemma fst_add_release: "map fst (add_release us r) = (if place r \<in> fst ` set us then map fst us else map fst us @ [place r])"
  by (auto simp: add_release_def Let_def case_prod_beta intro!: map_cong)

lemma to_release_add:
  assumes "distinct (map fst us)"
  shows "to_release (add_release us r) k = to_release us k + (if place r = k then res_quantity r else 0)"
proof (cases "place r \<in> fst ` set us")
  case False
  then show ?thesis by (auto simp: add_release_def Let_def to_release_def)
next
  case True
  have "to_release (map (\<lambda>(k', t, q). if k' = place r then (k', t, q + res_quantity r) else (k', t, q)) us) k =
      to_release us k + (if place r = k then res_quantity r else 0)"
    using assms True
  proof (induction us)
    case (Cons x us)
    obtain k' t q where x: "x = (k', t, q)" by (cases x)
    show ?case
    proof (cases "k' = place r")
      case True
      with Cons.prems x have out: "place r \<notin> fst ` set us" by auto
      then have "map (\<lambda>(k', t, q). if k' = place r then (k', t, q + res_quantity r) else (k', t, q)) us = us"
        by (intro map_idI) (force simp: case_prod_beta)
      with True x show ?thesis by (auto simp: to_release_def)
    next
      case False
      with Cons x show ?thesis by (simp add: to_release_def)
    qed
  qed simp
  with True show ?thesis by (simp add: add_release_def Let_def)
qed

lemma add_releases:
  assumes "distinct (map fst us)"
  shows "distinct (map fst (foldl add_release us rs))"
    and "to_release (foldl add_release us rs) k = to_release us k + sum_where (\<lambda>r. place r = k) res_quantity rs"
  using assms
proof (induction rs arbitrary: us)
  case Nil
  case 1 then show ?case by simp
  case 2 then show ?case by simp
next
  case (Cons r rs)
  have d: "distinct (map fst (add_release us r))" if "distinct (map fst us)" for us
    using that by (auto simp: fst_add_release)
  {
    case 1
    from Cons.IH(1) [OF d [OF 1]] show ?case by simp
  next
    case 2
    from Cons.IH(2) [OF d [OF 2]] to_release_add [OF 2, of r k] show ?case by simp
  }
qed

lemma add_releases_from:
  assumes "\<forall>x \<in> set us. \<exists>r \<in> R. fst x = place r \<and> fst (snd x) = res_tenantId r" "set rs \<subseteq> R"
  shows "\<forall>x \<in> set (foldl add_release us rs). \<exists>r \<in> R. fst x = place r \<and> fst (snd x) = res_tenantId r"
  using assms
proof (induction rs arbitrary: us)
  case (Cons r rs)
  have "\<forall>x \<in> set (add_release us r). \<exists>r \<in> R. fst x = place r \<and> fst (snd x) = res_tenantId r"
  proof
    fix x assume "x \<in> set (add_release us r)"
    then consider "fst x = place r" "fst (snd x) = res_tenantId r"
      | y where "y \<in> set us" "fst x = fst y" "fst (snd x) = fst (snd y)"
    proof (cases "x \<in> set us")
      case True
      then show ?thesis by (rule that(2)) simp_all
    next
      case False
      then show ?thesis using \<open>x \<in> set (add_release us r)\<close> that
        by (fastforce simp: add_release_def Let_def split: if_splits)
    qed
    then show "\<exists>r \<in> R. fst x = place r \<and> fst (snd x) = res_tenantId r"
      by cases (use Cons.prems in auto)
  qed
  with Cons.IH [of "add_release us r"] Cons.prems(2) show ?case by simp
qed simp

text \<open>Giving a quantity back to the balance of the reservation's tenant is a post to the reserved
  quantities.\<close>

definition balance_of_tenant :: "(id \<times> id) \<times> id \<times> int \<Rightarrow> db \<Rightarrow> bool" where
  "balance_of_tenant u s \<longleftrightarrow>
     (\<exists>b. find_balance (fst (fst u)) (snd (fst u)) s = Some b \<and> bal_tenantId b = fst (snd u))"

lemma find_balance_give_back:
  assumes "give_back u s = (r, s')"
  shows "find_balance p l s' = map_option
     (\<lambda>b. if (p, l) = fst u \<and> bal_tenantId b = fst (snd u)
        then b\<lparr>bal_reservedQuantity := bal_reservedQuantity b - snd (snd u)\<rparr> else b) (find_balance p l s)"
proof -
  let ?P = "\<lambda>b. bal_key (fst (fst u)) (snd (fst u)) b \<and> bal_tenantId b = fst (snd u)"
  let ?f = "\<lambda>b. b\<lparr>bal_reservedQuantity := bal_reservedQuantity b - snd (snd u)\<rparr>"
  have "balances s' = update_where ?P ?f (balances s)" using assms by (auto simp: give_back_def)
  moreover have "List.find (bal_key p l) (update_where ?P ?f (balances s)) =
      map_option (\<lambda>b. if ?P b then ?f b else b) (List.find (bal_key p l) (balances s))"
    by (rule find_update_where) (simp add: bal_key_def)
  moreover have "?P b \<longleftrightarrow> (p, l) = fst u \<and> bal_tenantId b = fst (snd u)"
    if "List.find (bal_key p l) (balances s) = Some b" for b
    using find_SomeD [OF that] by (cases "fst u") (auto simp: bal_key_def)
  ultimately show ?thesis unfolding find_balance_def by (cases "List.find (bal_key p l) (balances s)") auto
qed

lemma give_back_post:
  assumes "balance_of_tenant u s" "give_back u s = (r, s')"
  shows "reserved_count k s' = reserved_count k s + (if fst u = k then - snd (snd u) else 0)"
  using assms(1) find_balance_give_back [OF assms(2), of "fst k" "snd k"]
  by (auto simp: reserved_count_def reserved_at_def balance_of_tenant_def split: option.splits)

lemma give_back_good:
  assumes "balance_of_tenant v s" "give_back u s = (r, s')"
  shows "balance_of_tenant v s'"
proof -
  from assms(1) obtain c where "find_balance (fst (fst v)) (snd (fst v)) s = Some c" "bal_tenantId c = fst (snd v)"
    unfolding balance_of_tenant_def by blast
  then show ?thesis unfolding balance_of_tenant_def find_balance_give_back [OF assms(2)] by simp
qed

lemma give_back_runs: "\<exists>r s'. give_back u s = (Inr r, s')"
  by (simp add: give_back_def)

interpretation give: live_posting reserved_count give_back fst "\<lambda>u. - snd (snd u)" balance_of_tenant
  by unfold_locales (fact give_back_post give_back_good | erule (1) give_back_good | rule give_back_runs)+

lemma give_back_frame:
  "forM us give_back s = (r, s') \<Longrightarrow> \<exists>bs. s' = s\<lparr>balances := bs\<rparr> \<and>
     (\<forall>p l. on_hand p l s' = on_hand p l s \<and> has_balance p l s' = has_balance p l s)"
proof (induction us arbitrary: s r)
  case Nil
  then show ?case by (auto intro: exI [of _ "balances s"])
next
  case (Cons u us)
  obtain s1 where s1: "give_back u s = (Inr (), s1)" by (simp add: give_back_def)
  with Cons.prems obtain r' where "forM us give_back s1 = (r', s')"
    by (auto simp: bindM_def split: prod.splits sum.splits)
  from Cons.IH [OF this] obtain bs where bs: "s' = s1\<lparr>balances := bs\<rparr>"
    "\<forall>p l. on_hand p l s' = on_hand p l s1 \<and> has_balance p l s' = has_balance p l s1" by blast
  have "on_hand p l s1 = on_hand p l s \<and> has_balance p l s1 = has_balance p l s" for p l
    unfolding on_hand_def has_balance_def find_balance_give_back [OF s1] by (auto split: option.splits)
  moreover have "s' = s\<lparr>balances := bs\<rparr>" using bs(1) s1 by (auto simp: give_back_def)
  ultimately show ?case using bs(2) by auto
qed

text \<open>The balance of every ACTIVE reservation is of its tenant.\<close>

definition tenants_agree :: "db \<Rightarrow> bool" where
  "tenants_agree s \<longleftrightarrow> (\<forall>r \<in> set (reservations s). res_status r = ACTIVE \<longrightarrow>
     (\<exists>b. find_balance (res_productId r) (res_locationId r) s = Some b \<and> bal_tenantId b = res_tenantId r))"

definition abandoned :: "db \<Rightarrow> id list" where
  "abandoned s = map sale_id (filter (\<lambda>x. sale_status x = SaleDraft \<and>
     sale_createdAt x < clock s - cart_max_age) (sales s))"

lemma cleanup_run:
  assumes ok: "reserved_ok s" and agree: "tenants_agree s" and some: "abandoned s \<noteq> []"
  defines "rs \<equiv> filter (held_for (abandoned s)) (reservations s)"
  shows "\<exists>bs s'. cleanupAbandonedCarts s = (Inr (length (abandoned s), length rs), s') \<and>
    s' = s\<lparr>reservations := update_where (held_for (abandoned s)) (\<lambda>r. r\<lparr>res_status := EXPIRED\<rparr>) (reservations s),
      balances := bs, saleItems := filter (\<lambda>x. si_saleId x \<notin> set (abandoned s)) (saleItems s),
      sales := filter (\<lambda>x. sale_id x \<notin> set (abandoned s)) (sales s)\<rparr> \<and>
    (\<forall>p l. on_hand p l s' = on_hand p l s \<and> has_balance p l s' = has_balance p l s \<and>
       reserved_at p l s' = reserved_at p l s - sum_where (\<lambda>r. place r = (p, l)) res_quantity rs)"
proof -
  let ?s1 = "s\<lparr>reservations := update_where (held_for (abandoned s)) (\<lambda>r. r\<lparr>res_status := EXPIRED\<rparr>) (reservations s)\<rparr>"
  let ?us = "foldl add_release [] rs"
  have origin: "\<forall>x \<in> set ?us. \<exists>r \<in> set rs. fst x = place r \<and> fst (snd x) = res_tenantId r"
    by (rule add_releases_from) simp_all
  have good: "\<forall>u \<in> set ?us. balance_of_tenant u ?s1"
  proof
    fix u assume "u \<in> set ?us"
    with origin obtain r where r: "r \<in> set rs" "fst u = place r" "fst (snd u) = res_tenantId r" by blast
    then have "r \<in> set (reservations s)" "res_status r = ACTIVE" by (simp_all add: rs_def held_for_def)
    with agree obtain b where "find_balance (res_productId r) (res_locationId r) s = Some b" "bal_tenantId b = res_tenantId r"
      unfolding tenants_agree_def by blast
    with r show "balance_of_tenant u ?s1" by (simp add: balance_of_tenant_def find_balance_def)
  qed
  obtain vs s2 where s2: "forM ?us give_back ?s1 = (Inr vs, s2)" using give.forM_runs [OF good] by blast
  obtain bs where bs: "s2 = ?s1\<lparr>balances := bs\<rparr>"
    and frame: "\<And>p l. on_hand p l s2 = on_hand p l ?s1 \<and> has_balance p l s2 = has_balance p l ?s1"
    using give_back_frame [OF s2] by blast
  have d: "distinct (map fst ?us)" and sum: "to_release ?us k = sum_where (\<lambda>r. place r = k) res_quantity rs" for k
    using add_releases [of "[]" rs] by (simp_all add: to_release_def)
  have res: "reserved_at p l s2 = reserved_at p l s - sum_where (\<lambda>r. place r = (p, l)) res_quantity rs" for p l
  proof -
    have "reserved_count (p, l) s2 = reserved_count (p, l) ?s1 + (\<Sum>u\<leftarrow>?us. if fst u = (p, l) then - snd (snd u) else 0)"
      by (rule give.forM_post [OF good s2])
    also have "(\<Sum>u\<leftarrow>?us. if fst u = (p, l) then - snd (snd u) else 0) = - to_release ?us (p, l)"
      by (simp add: to_release_def sum_if_uminus)
    finally show ?thesis unfolding sum by (simp add: reserved_count_def reserved_at_def find_balance_def)
  qed
  let ?s' = "s\<lparr>reservations := update_where (held_for (abandoned s)) (\<lambda>r. r\<lparr>res_status := EXPIRED\<rparr>) (reservations s),
      balances := bs, saleItems := filter (\<lambda>x. si_saleId x \<notin> set (abandoned s)) (saleItems s),
      sales := filter (\<lambda>x. sale_id x \<notin> set (abandoned s)) (sales s)\<rparr>"
  have "cleanupAbandonedCarts s = (Inr (length (abandoned s), length rs), ?s')"
  proof -
    have "cleanup_tx (abandoned s) rs s = (Inr (length rs), ?s')"
      using s2 by (simp add: cleanup_tx_def transaction_def bindM_def releaseReservedQuantities_def bs rs_def [symmetric])
    moreover have "cleanupAbandonedCarts s = bindM (cleanup_tx (abandoned s) rs) (\<lambda>count. ret (length (abandoned s), count)) s"
      using some unfolding cleanupAbandonedCarts_def bindM_fresh_id bindM_run abandoned_def [symmetric] rs_def by simp
    ultimately show ?thesis by (simp add: bindM_def)
  qed
  moreover have "balances ?s' = balances s2" by (simp add: bs)
  note cong = on_hand_cong [OF this]
  have "on_hand p l ?s' = on_hand p l s \<and> has_balance p l ?s' = has_balance p l s \<and>
       reserved_at p l ?s' = reserved_at p l s - sum_where (\<lambda>r. place r = (p, l)) res_quantity rs" for p l
    unfolding cong res using frame [of p l] by (simp add: on_hand_def has_balance_def find_balance_def)
  ultimately show ?thesis by blast
qed

lemma sum_active_expired:
  "sum_where (active_at p l) res_quantity (update_where (held_for ids) (\<lambda>r. r\<lparr>res_status := EXPIRED\<rparr>) rows) =
   sum_where (active_at p l) res_quantity rows -
     sum_where (\<lambda>r. place r = (p, l)) res_quantity (filter (held_for ids) rows)"
  by (induction rows) (auto simp: active_at_def held_for_def)

lemma cleanup_none: "abandoned s = [] \<Longrightarrow> cleanupAbandonedCarts s = (Inr (0, 0), s)"
  unfolding cleanupAbandonedCarts_def bindM_fresh_id bindM_run abandoned_def [symmetric] by simp

lemma cleanup_tx_view:
  "cleanup_tx ids rs s = (r, s') \<Longrightarrow> nextId s' = nextId s \<and>
     (sales s' = sales s \<and> saleItems s' = saleItems s \<or>
      sales s' = filter (\<lambda>x. sale_id x \<notin> set ids) (sales s) \<and>
      saleItems s' = filter (\<lambda>x. si_saleId x \<notin> set ids) (saleItems s))"
proof -
  assume run: "cleanup_tx ids rs s = (r, s')"
  obtain q s2 where s2: "forM (foldl add_release [] rs) give_back (s\<lparr>reservations :=
      update_where (held_for ids) (\<lambda>r. r\<lparr>res_status := EXPIRED\<rparr>) (reservations s)\<rparr>) = (q, s2)" by fastforce
  then have "sales s2 = sales s" "saleItems s2 = saleItems s" "nextId s2 = nextId s"
    using give_back_frame [OF s2] by auto
  with run s2 show ?thesis
    by (cases q) (auto simp: cleanup_tx_def transaction_def bindM_def releaseReservedQuantities_def)
qed

lemma cleanup_cart_ok:
  assumes ok: "cart_ok E s" and run: "cleanupAbandonedCarts s = (r, s')"
  shows "cart_ok E s'"
proof (cases "abandoned s = []")
  case True
  with run ok show ?thesis by (simp add: cleanup_none)
next
  case False
  let ?ids = "abandoned s"
  obtain q s1 where tx: "cleanup_tx ?ids (filter (held_for ?ids) (reservations s)) s = (q, s1)" by fastforce
  then have "s' = s1"
    using False run unfolding cleanupAbandonedCarts_def bindM_fresh_id bindM_run abandoned_def [symmetric]
    by (cases q) (simp_all add: bindM_def)
  with cleanup_tx_view [OF tx] have n: "nextId s' = nextId s" and
    "(sales s' = sales s \<and> saleItems s' = saleItems s) \<or>
     (sales s' = filter (\<lambda>x. sale_id x \<notin> set ?ids) (sales s) \<and>
      saleItems s' = filter (\<lambda>x. si_saleId x \<notin> set ?ids) (saleItems s))" by auto
  then consider "sales s' = sales s" "saleItems s' = saleItems s"
    | "sales s' = filter (\<lambda>x. sale_id x \<notin> set ?ids) (sales s)"
      "saleItems s' = filter (\<lambda>x. si_saleId x \<notin> set ?ids) (saleItems s)" by blast
  then show ?thesis
  proof cases
    case 1
    with cart_ok_cong [OF ok] n show ?thesis by simp
  next
    case 2
    have items: "items_of i s' = items_of i s" if "i \<notin> set ?ids" for i
      unfolding items_of_def 2 filter_filter by (rule filter_cong) (use that in auto)
    have "totals_ok s' x" if "x \<in> set (sales s')" "sale_status x = SaleDraft" for x
    proof -
      from that have x: "x \<in> set (sales s)" "sale_id x \<notin> set ?ids" by (simp_all add: 2)
      then have "totals_ok s x" using ok that(2) by (simp add: cart_ok_def)
      with items [OF x(2)] show ?thesis by (simp add: totals_ok_def)
    qed
    moreover have "si_saleId ` set (saleItems s') \<subseteq> sale_id ` set (sales s')"
    proof -
      have "si_saleId ` set (saleItems s) \<subseteq> sale_id ` set (sales s)" using ok by (simp add: cart_ok_def)
      then show ?thesis unfolding 2 by auto
    qed
    moreover have "ids_used E s' (sale_id ` set (sales s') \<union> si_id ` set (saleItems s'))"
      by (rule ids_used_mono [of E s "sale_id ` set (sales s) \<union> si_id ` set (saleItems s)"])
        (use ok n in \<open>auto simp: cart_ok_def 2\<close>)
    moreover have "distinct (map sale_id (sales s'))" "distinct (map si_id (saleItems s'))"
      "\<forall>y \<in> set (saleItems s'). four_decimals (si_lineTotal y)"
      using ok unfolding 2 by (simp_all add: cart_ok_def distinct_map_filter)
    ultimately show ?thesis unfolding cart_ok_def by blast
  qed
qed

section \<open>Properties\<close>

inductive cart_step :: "env \<Rightarrow> db \<Rightarrow> db \<Rightarrow> bool" for E where
  new_cart: "createCart E t u cdto s = (r, s') \<Longrightarrow> cart_step E s s'"
| add_item: "addItem E t u c adto s = (r, s') \<Longrightarrow> cart_step E s s'"
| update_item: "updateItem E t u c i udto s = (r, s') \<Longrightarrow> cart_step E s s'"
| remove_item: "removeItem E t c i s = (r, s') \<Longrightarrow> cart_step E s s'"
| cleanup: "cleanupAbandonedCarts s = (r', s') \<Longrightarrow> cart_step E s s'"
| others: "sales s' = sales s \<Longrightarrow> saleItems s' = saleItems s \<Longrightarrow> nextId s \<le> nextId s' \<Longrightarrow> cart_step E s s'"

inductive_cases cart_stepE: "cart_step E s s'"

text \<open>C25: The totals of a cart are always those of its items: after any sequence of cart requests and
  clean-ups, failed ones included, mixed with anything that leaves the tables of sales alone, the stored
  subtotal of every cart is exactly the sum of its stored line totals, and its total is the subtotal less the
  discount.\<close>

theorem cart_totals:
  assumes "column_rounds E" "cart_ok E s" "(cart_step E)\<^sup>*\<^sup>* s s'"
  shows "cart_ok E s'"
  using assms(3)
proof (induction rule: rtranclp_induct)
  case base
  show ?case by (rule assms(2))
next
  case (step s1 s2)
  from step(2,3) show ?case
    by (elim cart_stepE)
      (blast intro: createCart_ok addItem_ok [OF assms(1)] updateItem_ok [OF assms(1)]
        removeItem_ok [OF assms(1)] cleanup_cart_ok cart_ok_cong)+
qed

text \<open>A cart of two pens, held by a reservation.\<close>

definition pen_cart :: sale where
  "pen_cart = \<lparr>sale_id = nat_id 1, sale_saleNumber = ''INV-2026-00001'', sale_subtotal = 30, sale_discountAmount = 0,
      sale_taxAmount = 0, sale_totalAmount = 30, sale_paidAmount = 0, sale_changeAmount = 0,
      sale_status = SaleDraft, sale_customerId = None, sale_locationId = ''l'',
      sale_terminalId = None, sale_sessionId = None, sale_cashierId = ''u'',
      sale_notes = None, sale_createdAt = 0, sale_completedAt = None, sale_voidedAt = None,
      sale_voidedById = None, sale_voidReason = None, sale_tenantId = ''t''\<rparr>"

definition two_pens :: sale_item where
  "two_pens = \<lparr>si_id = nat_id 2, si_saleId = nat_id 1, si_productId = ''p'', si_productName = ''Pen'',
     si_productSku = ''PEN'', si_quantity = 2, si_unitPrice = 15, si_unitCost = 0, si_discountAmount = 0,
     si_lineTotal = 30, si_notes = None\<rparr>"

definition pen_hold :: reservation where
  "pen_hold = \<lparr>res_id = nat_id 0, res_quantity = 2, res_expiresAt = 50, res_status = ACTIVE,
     res_referenceType = Some ''SALE'', res_referenceId = Some (nat_id 1), res_productId = ''p'',
     res_locationId = ''l'', res_tenantId = ''t'', res_createdById = None\<rparr>"

definition cart_db :: db where
  "cart_db = res_db\<lparr>reservations := [pen_hold], sales := [pen_cart], saleItems := [two_pens], nextId := 3\<rparr>"

lemma cart_db_ok: "cart_ok env0 cart_db"
proof -
  have "items_of (nat_id 1) cart_db = [two_pens]" by (simp add: items_of_def cart_db_def two_pens_def)
  then have "totals_ok cart_db pen_cart"
    using four_decimals_arith(1) by (simp add: totals_ok_def pen_cart_def two_pens_def)
  moreover have "four_decimals 30"
    unfolding four_decimals_def by (rule exI [of _ 300000]) simp
  ultimately show ?thesis
    by (auto simp: cart_ok_def cart_db_def ids_used_def inj_nat_id pen_cart_def two_pens_def)
qed

theorem cart_totals_witness:
  "cart_ok env0 (snd (removeItem env0 ''t'' (nat_id 1) (nat_id 2) cart_db)) \<and>
   map sale_totalAmount (sales (snd (removeItem env0 ''t'' (nat_id 1) (nat_id 2) cart_db))) = [0]"
proof
  have "cart_step env0 cart_db (snd (removeItem env0 ''t'' (nat_id 1) (nat_id 2) cart_db))"
    by (rule cart_step.remove_item) (rule surjective_pairing)
  then show "cart_ok env0 (snd (removeItem env0 ''t'' (nat_id 1) (nat_id 2) cart_db))"
    by (intro cart_totals [OF column_rounds_env0 cart_db_ok] r_into_rtranclp)
  show "map sale_totalAmount (sales (snd (removeItem env0 ''t'' (nat_id 1) (nat_id 2) cart_db))) = [0]"
    by code_simp
qed


lemma cart_db_inv: "res_inv env0 cart_db"
proof -
  have "reserved_at p l cart_db = active_reserved p l cart_db" for p l
    by (auto simp: cart_db_def res_db_def bal_db_def reserved_at_def find_balance_def bal_key_def active_reserved_def
        active_at_def pen_hold_def)
  then have "reserved_ok cart_db"
    by (auto simp: reserved_ok_def cart_db_def res_db_def bal_db_def has_balance_def find_balance_def bal_key_def pen_hold_def)
  moreover have "reservation_ids_used env0 cart_db"
    by (auto simp: ids_used_def inj_nat_id cart_db_def pen_hold_def)
  ultimately show ?thesis
    by (simp add: res_inv_def scheduled_ok_def positive_ok_def job_for_def cart_db_def res_db_def pen_hold_def)
qed

definition want :: "int \<Rightarrow> update_cart_item_dto" where
  "want q = \<lparr>uci_quantity = q, uci_unitPrice = None, uci_discountAmount = None, uci_notes = None\<rparr>"


text \<open>The clean-up of abandoned carts never fails. It deletes exactly the carts past their age with
  their items, expires exactly the ACTIVE reservations that held for them, and gives their quantities back,
  so that the reserved quantities are again the sums of the ACTIVE reservations; on-hand quantities stay.\<close>

theorem cleanup_gives_back:
  assumes "reserved_ok s" "tenants_agree s" "cleanupAbandonedCarts s = (r, s')"
  shows "r = Inr (length (abandoned s), if abandoned s = [] then 0
             else length (filter (held_for (abandoned s)) (reservations s))) \<and>
    reserved_ok s' \<and> (\<forall>p l. on_hand p l s' = on_hand p l s) \<and>
    map sale_id (sales s') = filter (\<lambda>i. i \<notin> set (abandoned s)) (map sale_id (sales s)) \<and>
    \<not> list_ex (held_for (abandoned s)) (reservations s')"
proof (cases "abandoned s = []")
  case True
  with assms show ?thesis by (simp add: cleanup_none held_for_def list_ex_iff split: option.split)
next
  case False
  let ?ids = "abandoned s"
  let ?rs = "filter (held_for ?ids) (reservations s)"
  obtain bs where run: "r = Inr (length ?ids, length ?rs)"
    and s': "s' = s\<lparr>reservations := update_where (held_for ?ids) (\<lambda>r. r\<lparr>res_status := EXPIRED\<rparr>) (reservations s),
      balances := bs, saleItems := filter (\<lambda>x. si_saleId x \<notin> set ?ids) (saleItems s),
      sales := filter (\<lambda>x. sale_id x \<notin> set ?ids) (sales s)\<rparr>"
    and eff: "\<And>p l. on_hand p l s' = on_hand p l s \<and> has_balance p l s' = has_balance p l s \<and>
       reserved_at p l s' = reserved_at p l s - sum_where (\<lambda>r. place r = (p, l)) res_quantity ?rs"
    using cleanup_run [OF assms(1,2) False] assms(3) by auto
  have rows: "reservations s' = update_where (held_for ?ids) (\<lambda>r. r\<lparr>res_status := EXPIRED\<rparr>) (reservations s)"
    by (simp add: s')
  have act: "active_reserved p l s' = active_reserved p l s - sum_where (\<lambda>r. place r = (p, l)) res_quantity ?rs" for p l
    unfolding active_reserved_def rows by (rule sum_active_expired)
  have "reserved_ok s'"
    using assms(1) eff act unfolding reserved_ok_def
    by (auto simp: rows map_update_where set_update_where)
  moreover have "\<not> list_ex (held_for ?ids) (reservations s')"
    by (auto simp: rows list_ex_iff set_update_where held_for_def)
  moreover have "map sale_id (sales s') = filter (\<lambda>i. i \<notin> set ?ids) (map sale_id (sales s))"
    by (simp add: s' filter_map o_def)
  ultimately show ?thesis using run eff False by simp
qed

definition late_db :: db where
  "late_db = cart_db\<lparr>clock := cart_max_age + 1\<rparr>"


end
