(* ===== verification/Sale.thy ===== *)
theory Sale
  imports Cart Pagination
begin

text \<open>
  \<^verbatim>\<open>src/src/modules/pos/services/sale.service.ts\<close> and \<^verbatim>\<open>payment.service.ts\<close>: selling. A quick sale
  checks its items and payments and posts everything in one transaction; a cart is completed with
  payments; a completed sale can be voided.

  Money is decimal throughout: request amounts are JavaScript numbers turned into decimals
  (\<open>e_dec\<close>), and stored amounts are rounded by their columns (\<open>e_col\<close>). The quantity of a quick
  sale may be a fraction, which the code rounds down. Names of customers and cashiers in
  responses are left out, their tables are not modelled; \<^verbatim>\<open>toFixed(4)\<close> texts are kept as numbers.
\<close>

section \<open>Requests and responses\<close>

record create_sale_item_dto =
  csi_productId :: id
  csi_quantity :: rat
  csi_unitPrice :: "rat option"
  csi_discountAmount :: "rat option"
  csi_notes :: "string option"

record payment_dto =
  pd_method :: PaymentMethod
  pd_amount :: rat
  pd_transactionRef :: "string option"
  pd_notes :: "string option"

record create_sale_dto =
  csd_locationId :: id
  csd_sessionId :: "id option"
  csd_terminalId :: "id option"
  csd_customerId :: "id option"
  csd_items :: "create_sale_item_dto list"
  csd_payments :: "payment_dto list"
  csd_discountAmount :: "rat option"
  csd_notes :: "string option"

record complete_sale_dto =
  cmp_payments :: "payment_dto list"
  cmp_notes :: "string option"

definition create_sale_valid :: "create_sale_dto \<Rightarrow> bool" where
  "create_sale_valid dto \<longleftrightarrow>
     (\<forall>x \<in> set (csd_items dto). 1 / 10000 \<le> csi_quantity x \<and>
        (case csi_unitPrice x of None \<Rightarrow> True | Some p \<Rightarrow> 0 \<le> p) \<and>
        (case csi_discountAmount x of None \<Rightarrow> True | Some d \<Rightarrow> 0 \<le> d)) \<and>
     (\<forall>x \<in> set (csd_payments dto). 1 / 100 \<le> pd_amount x) \<and>
     (case csd_discountAmount dto of None \<Rightarrow> True | Some d \<Rightarrow> 0 \<le> d)"

record processed_item =
  pi_productId :: id
  pi_productName :: string
  pi_productSku :: string
  pi_quantity :: int
  pi_unitPrice :: money
  pi_unitCost :: money
  pi_discountAmount :: money
  pi_lineTotal :: money
  pi_notes :: "string option"

record sale_totals =
  tot_subtotal :: money
  tot_discountAmount :: money
  tot_taxAmount :: money
  tot_totalAmount :: money
  tot_paidAmount :: money
  tot_changeAmount :: money

record sale_query =
  sq_locationId :: "id option"
  sq_terminalId :: "id option"
  sq_sessionId :: "id option"
  sq_customerId :: "id option"
  sq_status :: "SaleStatus option"
  sq_search :: "string option"
  sq_dateFrom :: "instant option"
  sq_dateTo :: "instant option"

record sale_item_response =
  sir_id :: id
  sir_product :: "(id \<times> string \<times> string) option"
  sir_quantity :: int
  sir_unitPrice :: money
  sir_discountAmount :: money
  sir_lineTotal :: money
  sir_notes :: "string option"

record sale_list_response =
  slr_sale :: sale
  slr_locationName :: "string option"
  slr_itemCount :: nat

record sale_detail_response =
  sdr_sale :: sale
  sdr_location :: "(id \<times> string) option"
  sdr_items :: "sale_item_response list"
  sdr_payments :: "sale_payment list"

section \<open>Responses and queries\<close>

definition formatItemResponse :: "db \<Rightarrow> sale_item \<Rightarrow> sale_item_response" where
  "formatItemResponse s x = \<lparr>sir_id = si_id x,
     sir_product = map_option (\<lambda>p. (prod_id p, prod_name p, prod_sku p))
       (List.find (\<lambda>p. prod_id p = si_productId x) (products s)),
     sir_quantity = si_quantity x, sir_unitPrice = si_unitPrice x,
     sir_discountAmount = si_discountAmount x, sir_lineTotal = si_lineTotal x, sir_notes = si_notes x\<rparr>"

definition formatListResponse :: "db \<Rightarrow> sale \<Rightarrow> sale_list_response" where
  "formatListResponse s x = \<lparr>slr_sale = x,
     slr_locationName = map_option loc_name (List.find (\<lambda>l. loc_id l = sale_locationId x) (locations s)),
     slr_itemCount = length (items_of (sale_id x) s)\<rparr>"

definition payments_of :: "id \<Rightarrow> db \<Rightarrow> sale_payment list" where
  "payments_of saleId s = filter (\<lambda>x. pay_saleId x = saleId) (payments s)"

definition formatDetailResponse :: "db \<Rightarrow> sale \<Rightarrow> sale_detail_response" where
  "formatDetailResponse s x = \<lparr>sdr_sale = x,
     sdr_location = map_option (\<lambda>l. (loc_id l, loc_name l))
       (List.find (\<lambda>l. loc_id l = sale_locationId x) (locations s)),
     sdr_items = map (formatItemResponse s) (items_of (sale_id x) s),
     sdr_payments = payments_of (sale_id x) s\<rparr>"

definition sale_filter :: "env \<Rightarrow> id \<Rightarrow> sale_query \<Rightarrow> sale \<Rightarrow> bool" where
  "sale_filter E tenantId q x \<longleftrightarrow>
     sale_tenantId x = tenantId \<and>
     (empty_string (sq_locationId q) \<or> sale_locationId x = the (sq_locationId q)) \<and>
     (empty_string (sq_terminalId q) \<or> sale_terminalId x = sq_terminalId q) \<and>
     (empty_string (sq_sessionId q) \<or> sale_sessionId x = sq_sessionId q) \<and>
     (empty_string (sq_customerId q) \<or> sale_customerId x = sq_customerId q) \<and>
     (case sq_status q of None \<Rightarrow> True | Some st \<Rightarrow> sale_status x = st) \<and>
     (empty_string (sq_search q) \<or> e_ilike E (the (sq_search q)) (sale_saleNumber x)) \<and>
     (case sq_dateFrom q of None \<Rightarrow> True | Some d \<Rightarrow> d \<le> sale_createdAt x) \<and>
     (case sq_dateTo q of None \<Rightarrow> True | Some d \<Rightarrow> sale_createdAt x \<le> d)"

text \<open>\<^verbatim>\<open>orderBy: { createdAt: 'desc' }\<close>, whatever order the query asks for; rows of the same instant in
  the database's order.\<close>

definition findAll_sales :: "env \<Rightarrow> id \<Rightarrow> page_query \<Rightarrow> sale_query \<Rightarrow> (page_meta \<times> sale_list_response list) handler" where
  "findAll_sales E tenantId pq q = readM (\<lambda>s.
     let w = getPagination pq;
         rows = filter (sale_filter E tenantId q) (sales s);
         page = page_rows (pw_skip w) (pw_take w) (sort_key (\<lambda>x. - sale_createdAt x) rows)
     in (generatePaginationMeta (pw_page w) (pw_take w) (int (length rows)) (pw_skip w),
         map (formatListResponse s) page))"

definition findOne_sale :: "id \<Rightarrow> id \<Rightarrow> sale_detail_response handler" where
  "findOne_sale tenantId i =
     bindM (readM (find_sale tenantId i)) (\<lambda>found.
     bindM (require found (NotFoundException SaleNotFound)) (\<lambda>x.
     readM (\<lambda>s. formatDetailResponse s x)))"

section \<open>Checks and calculations\<close>

definition validateSaleLocation :: "id \<Rightarrow> id \<Rightarrow> unit handler" where
  "validateSaleLocation tenantId locationId =
     bindM (readM (\<lambda>s. list_ex (\<lambda>l. loc_id l = locationId \<and> loc_tenantId l = tenantId) (locations s))) (\<lambda>ok.
     throw_if (\<not> ok) (NotFoundException LocationNotFound))"

definition validatePaymentAmount :: "money \<Rightarrow> money \<Rightarrow> unit handler" where
  "validatePaymentAmount totalAmount paidAmount =
     throw_if (paidAmount < totalAmount) (BadRequestException (InsufficientPayment totalAmount paidAmount))"

definition loadProducts :: "id \<Rightarrow> create_sale_item_dto list \<Rightarrow> (id \<Rightarrow> product option) handler" where
  "loadProducts tenantId items =
     bindM (readM (\<lambda>s. filter (\<lambda>p. prod_id p \<in> set (map csi_productId items) \<and> prod_tenantId p = tenantId)
              (products s))) (\<lambda>rows.
     let productMap = map_of (rev (map (\<lambda>p. (prod_id p, p)) rows)) in
     bindM (forM items (\<lambda>x. throw_if (productMap (csi_productId x) = None)
              (NotFoundException (ProductIdNotFound (csi_productId x))))) (\<lambda>_.
     ret productMap))"

text \<open>The cost of the oldest open layer of each item, of whatever tenant.\<close>

definition oldest_cost :: "id \<Rightarrow> id \<Rightarrow> db \<Rightarrow> money" where
  "oldest_cost locationId productId s =
     (case sort_key lay_createdAt (filter (\<lambda>y. lay_productId y = productId \<and> lay_locationId y = locationId \<and>
         0 < lay_remainingQty y) (layers s)) of
        [] \<Rightarrow> 0 | y # _ \<Rightarrow> lay_unitCost y)"

definition loadProductCosts :: "id \<Rightarrow> create_sale_item_dto list \<Rightarrow> (id \<Rightarrow> money option) handler" where
  "loadProductCosts locationId items = readM (\<lambda>s.
     map_of (map (\<lambda>x. (csi_productId x, oldest_cost locationId (csi_productId x) s)) items))"

definition sale_availability :: "id \<Rightarrow> id \<Rightarrow> (id \<Rightarrow> product option) \<Rightarrow> create_sale_item_dto \<Rightarrow> unit handler" where
  "sale_availability tenantId locationId productMap x =
     bindM (readM (\<lambda>s. List.find (\<lambda>b. bal_productId b = csi_productId x \<and> bal_locationId b = locationId \<and>
              bal_tenantId b = tenantId) (balances s))) (\<lambda>bal.
     let available = (case bal of None \<Rightarrow> 0 | Some b \<Rightarrow> bal_onHandQuantity b) -
                     (case bal of None \<Rightarrow> 0 | Some b \<Rightarrow> bal_reservedQuantity b) in
     throw_if (of_int available < csi_quantity x)
       (BadRequestException (InsufficientForSale (map_option prod_name (productMap (csi_productId x)))
          available (csi_quantity x))))"

text \<open>\<^verbatim>\<open>item.unitPrice ? ... : ...\<close>: a price of zero counts as none.\<close>

definition process_item :: "env \<Rightarrow> (id \<Rightarrow> product option) \<Rightarrow> (id \<Rightarrow> money option) \<Rightarrow> create_sale_item_dto \<Rightarrow> processed_item" where
  "process_item E productMap costs x =
     (let product = the (productMap (csi_productId x));
          unitCost = (case costs (csi_productId x) of None \<Rightarrow> 0 | Some c \<Rightarrow> c);
          unitPrice = (case csi_unitPrice x of Some p \<Rightarrow> if p \<noteq> 0 then e_dec E p
                else (case prod_minSellingPrice product of Some m \<Rightarrow> m | None \<Rightarrow> 0)
            | None \<Rightarrow> (case prod_minSellingPrice product of Some m \<Rightarrow> m | None \<Rightarrow> 0));
          discountAmount = e_dec E (case csi_discountAmount x of Some d \<Rightarrow> d | None \<Rightarrow> 0);
          quantity = \<lfloor>csi_quantity x\<rfloor>;
          lineTotal = unitPrice * of_int quantity - discountAmount * of_int quantity
      in \<lparr>pi_productId = csi_productId x, pi_productName = prod_name product, pi_productSku = prod_sku product,
          pi_quantity = quantity, pi_unitPrice = unitPrice, pi_unitCost = unitCost,
          pi_discountAmount = discountAmount, pi_lineTotal = lineTotal, pi_notes = csi_notes x\<rparr>)"

definition paid_sum :: "env \<Rightarrow> payment_dto list \<Rightarrow> money" where
  "paid_sum E ps = foldl (\<lambda>sum p. sum + e_dec E (pd_amount p)) 0 ps"

definition calculateTotals :: "env \<Rightarrow> processed_item list \<Rightarrow> rat option \<Rightarrow> payment_dto list \<Rightarrow> sale_totals" where
  "calculateTotals E items overallDiscountAmount ps =
     (let subtotal = foldl (\<lambda>sum x. sum + pi_lineTotal x) 0 items;
          discountAmount = e_dec E (case overallDiscountAmount of Some d \<Rightarrow> d | None \<Rightarrow> 0);
          taxAmount = 0;
          totalAmount = subtotal - discountAmount + taxAmount;
          paidAmount = paid_sum E ps;
          changeAmount = paidAmount - totalAmount
      in \<lparr>tot_subtotal = subtotal, tot_discountAmount = discountAmount, tot_taxAmount = taxAmount,
          tot_totalAmount = totalAmount, tot_paidAmount = paidAmount, tot_changeAmount = changeAmount\<rparr>)"

definition calculateChange :: "money \<Rightarrow> money \<Rightarrow> money" where
  "calculateChange totalAmount paidAmount =
     (if totalAmount < paidAmount then paidAmount - totalAmount else 0)"

definition aggregateSaleItems :: "sale_item list \<Rightarrow> money \<times> stock_out_item list" where
  "aggregateSaleItems items =
     foldl (\<lambda>(subtotal, outs) x. (subtotal + si_lineTotal x,
         outs @ [\<lparr>sou_productId = si_productId x, sou_quantity = si_quantity x\<rparr>])) (0, []) items"

definition calculateCompletionTotals :: "env \<Rightarrow> sale \<Rightarrow> money \<Rightarrow> payment_dto list \<Rightarrow> sale_totals" where
  "calculateCompletionTotals E x subtotal ps =
     (let totalAmount = subtotal - sale_discountAmount x + sale_taxAmount x;
          paidAmount = paid_sum E ps
      in \<lparr>tot_subtotal = subtotal, tot_discountAmount = sale_discountAmount x, tot_taxAmount = sale_taxAmount x,
          tot_totalAmount = totalAmount, tot_paidAmount = paidAmount,
          tot_changeAmount = calculateChange totalAmount paidAmount\<rparr>)"

section \<open>The reporting queue\<close>

text \<open>\<^verbatim>\<open>date.toISOString().split('T')[0]\<close>: the day of an instant, in UTC.\<close>

definition utc_day :: "instant \<Rightarrow> int" where "utc_day t = t div (24 * 60 * 60 * 1000)"

definition dispatchUpdateDailySales :: "id \<Rightarrow> id \<Rightarrow> instant \<Rightarrow> unit handler" where
  "dispatchUpdateDailySales tenantId locationId t =
     writeM (\<lambda>s. s\<lparr>reportJobs := reportJobs s @ [(tenantId, locationId, utc_day t)]\<rparr>)"

section \<open>A quick sale\<close>

definition payment_row :: "env \<Rightarrow> id \<Rightarrow> id \<Rightarrow> instant \<Rightarrow> payment_dto \<Rightarrow> id \<Rightarrow> sale_payment" where
  "payment_row E saleId userId t p i =
     \<lparr>pay_id = i, pay_saleId = saleId, pay_amount = stored E (pd_amount p), pay_method = pd_method p,
      pay_status = PayCompleted, pay_transactionRef = pd_transactionRef p, pay_notes = pd_notes p,
      pay_processedById = userId, pay_processedAt = t\<rparr>"

definition create_payment :: "env \<Rightarrow> id \<Rightarrow> id \<Rightarrow> payment_dto \<Rightarrow> unit handler" where
  "create_payment E saleId userId p =
     bindM (fresh_id E) (\<lambda>i. bindM now (\<lambda>t.
     writeM (\<lambda>s. s\<lparr>payments := payments s @ [payment_row E saleId userId t p i]\<rparr>)))"

definition item_row :: "env \<Rightarrow> id \<Rightarrow> processed_item \<Rightarrow> id \<Rightarrow> sale_item" where
  "item_row E saleId x i =
     \<lparr>si_id = i, si_saleId = saleId, si_productId = pi_productId x, si_productName = pi_productName x,
      si_productSku = pi_productSku x, si_quantity = pi_quantity x, si_unitPrice = e_col E (pi_unitPrice x),
      si_unitCost = e_col E (pi_unitCost x), si_discountAmount = e_col E (pi_discountAmount x),
      si_lineTotal = e_col E (pi_lineTotal x), si_notes = pi_notes x\<rparr>"

definition create_sale_item :: "env \<Rightarrow> id \<Rightarrow> processed_item \<Rightarrow> unit handler" where
  "create_sale_item E saleId x =
     bindM (fresh_id E) (\<lambda>i. writeM (\<lambda>s. s\<lparr>saleItems := saleItems s @ [item_row E saleId x i]\<rparr>))"

definition sold_row :: "env \<Rightarrow> id \<Rightarrow> id \<Rightarrow> create_sale_dto \<Rightarrow> sale_totals \<Rightarrow> string \<Rightarrow> id \<Rightarrow> instant \<Rightarrow> sale" where
  "sold_row E tenantId userId dto totals saleNumber i t =
     \<lparr>sale_id = i, sale_saleNumber = saleNumber, sale_subtotal = e_col E (tot_subtotal totals),
      sale_discountAmount = e_col E (tot_discountAmount totals), sale_taxAmount = e_col E (tot_taxAmount totals),
      sale_totalAmount = e_col E (tot_totalAmount totals), sale_paidAmount = e_col E (tot_paidAmount totals),
      sale_changeAmount = e_col E (tot_changeAmount totals), sale_status = SaleCompleted,
      sale_customerId = csd_customerId dto, sale_locationId = csd_locationId dto,
      sale_terminalId = csd_terminalId dto, sale_sessionId = csd_sessionId dto, sale_cashierId = userId,
      sale_notes = csd_notes dto, sale_createdAt = t, sale_completedAt = Some t, sale_voidedAt = None,
      sale_voidedById = None, sale_voidReason = None, sale_tenantId = tenantId\<rparr>"

definition sale_issue :: "id \<Rightarrow> id \<Rightarrow> string \<Rightarrow> stock_out_item list \<Rightarrow> stock_out_dto" where
  "sale_issue locationId saleId note1 items =
     \<lparr>out_locationId = locationId, out_referenceType = Some SALE, out_referenceId = Some saleId,
      out_note = Some note1, out_items = items\<rparr>"

definition sale_tx ::
  "env \<Rightarrow> id \<Rightarrow> id \<Rightarrow> create_sale_dto \<Rightarrow> processed_item list \<Rightarrow> sale_totals \<Rightarrow> sale option handler" where
  "sale_tx E tenantId userId dto items totals =
     bindM (generateSaleNumber E tenantId) (\<lambda>saleNumber.
     bindM (insert_sale E (sold_row E tenantId userId dto totals saleNumber)) (\<lambda>newSale.
     bindM (forM items (create_sale_item E (sale_id newSale))) (\<lambda>_.
     bindM (forM (csd_payments dto) (create_payment E (sale_id newSale) userId)) (\<lambda>_.
     bindM (stockOut E tenantId userId (sale_issue (csd_locationId dto) (sale_id newSale) ''POS Sale''
              (map (\<lambda>x. \<lparr>sou_productId = pi_productId x, sou_quantity = pi_quantity x\<rparr>) items)) True) (\<lambda>_.
     readM (\<lambda>s. List.find (\<lambda>x. sale_id x = sale_id newSale) (sales s)))))))"

definition executeSaleTransaction ::
  "env \<Rightarrow> id \<Rightarrow> id \<Rightarrow> create_sale_dto \<Rightarrow> processed_item list \<Rightarrow> sale_totals \<Rightarrow> sale handler" where
  "executeSaleTransaction E tenantId userId dto items totals =
     bindM (transaction (sale_tx E tenantId userId dto items totals)) (\<lambda>found.
     require found (BadRequestException FailedToCreateSale))"

definition create_sale :: "env \<Rightarrow> id \<Rightarrow> id \<Rightarrow> create_sale_dto \<Rightarrow> sale_detail_response handler" where
  "create_sale E tenantId userId dto =
     bindM (validateSaleLocation tenantId (csd_locationId dto)) (\<lambda>_.
     bindM (throw_if (csd_items dto = []) (BadRequestException NoItems)) (\<lambda>_.
     bindM (throw_if (csd_payments dto = []) (BadRequestException NoPayments)) (\<lambda>_.
     bindM (loadProducts tenantId (csd_items dto)) (\<lambda>productMap.
     bindM (loadProductCosts (csd_locationId dto) (csd_items dto)) (\<lambda>costs.
     bindM (forM (csd_items dto) (sale_availability tenantId (csd_locationId dto) productMap)) (\<lambda>_.
     let items = map (process_item E productMap costs) (csd_items dto);
         totals = calculateTotals E items (csd_discountAmount dto) (csd_payments dto) in
     bindM (validatePaymentAmount (tot_totalAmount totals) (tot_paidAmount totals)) (\<lambda>_.
     bindM (executeSaleTransaction E tenantId userId dto items totals) (\<lambda>x.
     bindM (dispatchUpdateDailySales tenantId (csd_locationId dto) (sale_createdAt x)) (\<lambda>_.
     readM (\<lambda>s. formatDetailResponse s x))))))))))"

section \<open>Completing a cart\<close>

definition findDraftSale :: "id \<Rightarrow> id \<Rightarrow> (sale \<times> sale_item list) handler" where
  "findDraftSale tenantId saleId =
     bindM (readM (find_sale tenantId saleId)) (\<lambda>found.
     bindM (require found (NotFoundException SaleNotFound)) (\<lambda>x.
     bindM (throw_if (sale_status x \<noteq> SaleDraft) (BadRequestException (SaleNotDraft (sale_status x)))) (\<lambda>_.
     bindM (readM (items_of saleId)) (\<lambda>items.
     bindM (throw_if (items = []) (BadRequestException EmptySale)) (\<lambda>_.
     ret (x, items))))))"

definition processPayments :: "env \<Rightarrow> id \<Rightarrow> payment_dto list \<Rightarrow> id \<Rightarrow> money handler" where
  "processPayments E saleId ps processedById =
     (if ps = [] then ret 0
      else foldM (\<lambda>totalPaid p. bindM (create_payment E saleId processedById p) (\<lambda>_.
             ret (totalPaid + e_dec E (pd_amount p)))) 0 ps)"

definition completed :: "env \<Rightarrow> id \<Rightarrow> complete_sale_dto \<Rightarrow> sale \<Rightarrow> sale_totals \<Rightarrow> instant \<Rightarrow> sale \<Rightarrow> sale" where
  "completed E userId dto x totals t y =
     y\<lparr>sale_status := SaleCompleted, sale_paidAmount := e_col E (tot_paidAmount totals),
       sale_changeAmount := e_col E (tot_changeAmount totals), sale_completedAt := Some t,
       sale_notes := (case cmp_notes dto of Some n \<Rightarrow> Some n | None \<Rightarrow> sale_notes x),
       sale_cashierId := userId\<rparr>"

definition executeCompletionTransaction ::
  "env \<Rightarrow> id \<Rightarrow> id \<Rightarrow> sale \<Rightarrow> complete_sale_dto \<Rightarrow> stock_out_item list \<Rightarrow> sale_totals \<Rightarrow> sale handler" where
  "executeCompletionTransaction E tenantId userId x dto stockOutItems totals = transaction (
     bindM (processPayments E (sale_id x) (cmp_payments dto) userId) (\<lambda>_.
     bindM (stockOut E tenantId userId (sale_issue (sale_locationId x) (sale_id x)
              (case cmp_notes dto of Some n \<Rightarrow> n | None \<Rightarrow> ''POS Sale'') stockOutItems) True) (\<lambda>_.
     bindM (writeM (\<lambda>s. s\<lparr>reservations := update_where (held_for [sale_id x])
              (\<lambda>r. r\<lparr>res_status := FULFILLED\<rparr>) (reservations s)\<rparr>)) (\<lambda>_.
     bindM now (\<lambda>t.
     bindM (update_sale (\<lambda>y. sale_id y = sale_id x)
       (completed E userId dto x totals t)) (\<lambda>_.
     bindM (readM (\<lambda>s. List.find (\<lambda>y. sale_id y = sale_id x) (sales s))) (\<lambda>found.
     require found RecordNotFound)))))))"

definition complete_sale :: "env \<Rightarrow> id \<Rightarrow> id \<Rightarrow> id \<Rightarrow> complete_sale_dto \<Rightarrow> sale_detail_response handler" where
  "complete_sale E tenantId userId saleId dto =
     bindM (findDraftSale tenantId saleId) (\<lambda>(x, items).
     let (subtotal, stockOutItems) = aggregateSaleItems items;
         totals = calculateCompletionTotals E x subtotal (cmp_payments dto) in
     bindM (validatePaymentAmount (tot_totalAmount totals) (tot_paidAmount totals)) (\<lambda>_.
     bindM (executeCompletionTransaction E tenantId userId x dto stockOutItems totals) (\<lambda>updatedSale.
     bindM (dispatchUpdateDailySales tenantId (sale_locationId updatedSale) (sale_createdAt updatedSale)) (\<lambda>_.
     readM (\<lambda>s. formatDetailResponse s updatedSale)))))"

section \<open>Voiding a sale\<close>

definition void_item :: "env \<Rightarrow> id \<Rightarrow> id \<Rightarrow> sale \<Rightarrow> string \<Rightarrow> sale_item \<Rightarrow> unit handler" where
  "void_item E tenantId userId x reason item =
     bindM (create_movement E (movement_row E IN (si_quantity item) (si_unitCost item)
              (si_unitCost item * of_int (si_quantity item)) SALE (Some (sale_id x))
              (Some (''Void reversal: '' @ reason)) (si_productId item) (sale_locationId x) tenantId
              (Some userId) None)) (\<lambda>_.
     writeM (\<lambda>s. s\<lparr>balances := update_where (\<lambda>b. bal_productId b = si_productId item \<and>
         bal_locationId b = sale_locationId x \<and> bal_tenantId b = tenantId)
       (\<lambda>b. b\<lparr>bal_onHandQuantity := bal_onHandQuantity b + si_quantity item\<rparr>) (balances s)\<rparr>))"

definition executeVoidTransaction :: "env \<Rightarrow> id \<Rightarrow> id \<Rightarrow> sale \<Rightarrow> sale_item list \<Rightarrow> string \<Rightarrow> unit handler" where
  "executeVoidTransaction E tenantId userId x items reason = transaction (
     bindM now (\<lambda>t.
     bindM (update_sale (\<lambda>y. sale_id y = sale_id x)
       (\<lambda>y. y\<lparr>sale_status := SaleVoided, sale_voidedAt := Some t, sale_voidedById := Some userId,
             sale_voidReason := Some reason\<rparr>)) (\<lambda>_.
     bindM (forM items (void_item E tenantId userId x reason)) (\<lambda>_. ret ()))))"

definition void_sale :: "env \<Rightarrow> id \<Rightarrow> id \<Rightarrow> id \<Rightarrow> string \<Rightarrow> unit handler" where
  "void_sale E tenantId userId saleId reason =
     bindM (readM (find_sale tenantId saleId)) (\<lambda>found.
     bindM (require found (NotFoundException SaleNotFound)) (\<lambda>x.
     bindM (throw_if (sale_status x \<noteq> SaleCompleted) (BadRequestException (CannotVoid (sale_status x)))) (\<lambda>_.
     bindM (readM (items_of saleId)) (\<lambda>items.
     executeVoidTransaction E tenantId userId x items reason))))"

section \<open>Lemmas: what an issue of stock leaves alone\<close>

definition pos_tables where
  "pos_tables s = (sales s, saleItems s, payments s, refunds s, reservations s, products s, locations s,
     (clock s, jobs s, reportJobs s, terminals s, sessions s))"

lemma pos_tables_eq:
  "pos_tables s' = pos_tables s \<longleftrightarrow> sales s' = sales s \<and> saleItems s' = saleItems s \<and>
     payments s' = payments s \<and> refunds s' = refunds s \<and> reservations s' = reservations s \<and>
     products s' = products s \<and> locations s' = locations s \<and> clock s' = clock s \<and> jobs s' = jobs s \<and>
     reportJobs s' = reportJobs s \<and> terminals s' = terminals s \<and> sessions s' = sessions s"
  by (auto simp: pos_tables_def)

lemma stockOut_keeps: "keeps pos_tables (stockOut E t u dto tx)"
proof -
  have "keeps pos_tables (stockOut_item E t u dto x)" for x
    unfolding keeps_def stockOut_item_def
    by (intro allI impI, drule issue_stock_frame, erule ssubst) (simp add: pos_tables_def)
  then have "keeps pos_tables (stockOut_execute E t u dto)"
    unfolding stockOut_execute_def by (intro svc_intros)
  moreover have "keeps pos_tables (stockOut_checks t dto)" by (intro readonly_keeps svc_intros)
  ultimately show ?thesis
    unfolding stockOut_def in_transaction_def by (intro svc_intros)
qed

section \<open>Lemmas: rows added one by one\<close>

definition new_ids :: "env \<Rightarrow> nat \<Rightarrow> nat \<Rightarrow> id list" where
  "new_ids E n k = map (e_uuid E) [n..<n + k]"

lemma new_ids_simps [simp]:
  "new_ids E n 0 = []" "new_ids E n (Suc k) = e_uuid E n # new_ids E (Suc n) k"
  "length (new_ids E n k) = k"
  by (simp_all add: new_ids_def upt_conv_Cons del: upt_Suc)

lemma create_items_run:
  "forM items (create_sale_item E i) s = (Inr (map (\<lambda>_. ()) items), s\<lparr>nextId := nextId s + length items,
     saleItems := saleItems s @ map2 (item_row E i) items (new_ids E (nextId s) (length items))\<rparr>)"
  by (induction items arbitrary: s) (simp_all add: create_sale_item_def bindM_fresh_id bindM_def)

lemma create_payments_run:
  "forM ps (create_payment E i u) s = (Inr (map (\<lambda>_. ()) ps), s\<lparr>nextId := nextId s + length ps,
     payments := payments s @ map2 (payment_row E i u (clock s)) ps (new_ids E (nextId s) (length ps))\<rparr>)"
  by (induction ps arbitrary: s) (simp_all add: create_payment_def bindM_fresh_id bindM_def)

section \<open>Lemmas: a quick sale\<close>

text \<open>The state in which the stock is issued: the sale, its items and its payments are there.\<close>

definition rung_up :: "env \<Rightarrow> id \<Rightarrow> id \<Rightarrow> create_sale_dto \<Rightarrow> processed_item list \<Rightarrow> sale_totals \<Rightarrow> string \<Rightarrow> db \<Rightarrow> db" where
  "rung_up E t u dto items totals n s =
     (let i = e_uuid E (nextId s) in
      s\<lparr>sales := sales s @ [sold_row E t u dto totals n i (clock s)],
        saleItems := saleItems s @ map2 (item_row E i) items (new_ids E (Suc (nextId s)) (length items)),
        nextId := Suc (nextId s) + length items + length (csd_payments dto),
        payments := payments s @ map2 (payment_row E i u (clock s)) (csd_payments dto)
          (new_ids E (Suc (nextId s) + length items) (length (csd_payments dto)))\<rparr>)"

definition issue_of :: "create_sale_dto \<Rightarrow> processed_item list \<Rightarrow> id \<Rightarrow> stock_out_dto" where
  "issue_of dto items i = sale_issue (csd_locationId dto) i ''POS Sale''
     (map (\<lambda>x. \<lparr>sou_productId = pi_productId x, sou_quantity = pi_quantity x\<rparr>) items)"

lemma insert_sale_Inr:
  assumes "insert_sale E row s = (Inr x, s')"
  shows "x = row (e_uuid E (nextId s)) (clock s)"
    "s' = s\<lparr>sales := sales s @ [row (e_uuid E (nextId s)) (clock s)], nextId := Suc (nextId s)\<rparr>"
  using assms by (auto simp: insert_sale_def run_simps split: if_splits)

lemma sale_tx_Inr:
  assumes "sale_tx E t u dto items totals s = (Inr found, s')"
    and "ids_used E s (sale_id ` set (sales s))"
  obtains n res where "found = Some (sold_row E t u dto totals n (e_uuid E (nextId s)) (clock s))"
    "stockOut E t u (issue_of dto items (e_uuid E (nextId s))) True (rung_up E t u dto items totals n s) = (Inr res, s')"
    "sales s' = sales s @ [the found]"
proof -
  let ?i = "e_uuid E (nextId s)"
  obtain n where n: "generateSaleNumber E t s = (Inr n, s)"
    by (simp add: generateSaleNumber_def bindM_fresh_id)
  let ?x = "sold_row E t u dto totals n ?i (clock s)"
  let ?s1 = "s\<lparr>sales := sales s @ [?x], nextId := Suc (nextId s)\<rparr>"
  have id: "sale_id ?x = ?i" by (simp add: sold_row_def)
  obtain res where
    run: "stockOut E t u (issue_of dto items ?i) True (rung_up E t u dto items totals n s) = (Inr res, s')"
    and x: "found = List.find (\<lambda>y. sale_id y = ?i) (sales s')"
    using assms(1) unfolding sale_tx_def
    apply (elim bindM_cases; simp add: n create_items_run create_payments_run)
    apply (frule insert_sale_Inr(1), drule insert_sale_Inr(2))
    apply (auto simp: sold_row_def issue_of_def rung_up_def Let_def)
    done
  have sales: "sales s' = sales s @ [?x]"
    using keepsD [OF stockOut_keeps run] by (simp add: pos_tables_eq rung_up_def Let_def)
  moreover have "List.find (\<lambda>y. sale_id y = ?i) (sales s) = None"
    using ids_used_fresh [OF assms(2)] by (auto simp: find_None_iff' image_iff)
  ultimately have "found = Some ?x" using x by (simp add: find_append sold_row_def)
  with that [of n res] run sales show thesis by simp
qed

lemma executeSale_run:
  assumes "ids_used E s (sale_id ` set (sales s))"
  shows "executeSaleTransaction E t u dto items totals s = (Inl e, s') \<Longrightarrow> s' = s"
    and "executeSaleTransaction E t u dto items totals s = (Inr x, s') \<Longrightarrow>
      sale_tx E t u dto items totals s = (Inr (Some x), s')"
proof -
  have found: "fd \<noteq> None" if "sale_tx E t u dto items totals s = (Inr fd, s1)" for fd s1
    by (rule sale_tx_Inr [OF that assms]) simp
  then show "executeSaleTransaction E t u dto items totals s = (Inl e, s') \<Longrightarrow> s' = s"
    by (fastforce simp: executeSaleTransaction_def svc_invert)
  show "executeSaleTransaction E t u dto items totals s = (Inr x, s') \<Longrightarrow>
      sale_tx E t u dto items totals s = (Inr (Some x), s')"
    by (auto simp: executeSaleTransaction_def svc_invert)
qed

text \<open>The checks in front of the transaction only read.\<close>

lemma after_check:
  assumes "bindM m f s = (r, s')" "readonly m"
  obtains (refused) e where "r = Inl e" "s' = s" | (passed) a where "m s = (Inr a, s)" "f a s = (r, s')"
  using assms by (auto elim!: bindM_cases dest: readonlyD)

lemma readonly_sale_checks [svc_intros]:
  "readonly (validateSaleLocation t l)" "readonly (loadProducts t items)" "readonly (loadProductCosts l items)"
  "readonly (sale_availability t l pm x)" "readonly (validatePaymentAmount a b)"
  unfolding validateSaleLocation_def loadProducts_def loadProductCosts_def sale_availability_def
    validatePaymentAmount_def Let_def by (intro svc_intros)+

lemma create_sale_cases:
  assumes "create_sale E t u dto s = (r, s')" "ids_used E s (sale_id ` set (sales s))"
  obtains (refused) e where "r = Inl e" "s' = s"
  | (sold) pm costs x s1 where
    "tot_totalAmount (calculateTotals E (map (process_item E pm costs) (csd_items dto)) (csd_discountAmount dto)
        (csd_payments dto)) \<le> paid_sum E (csd_payments dto)"
    "sale_tx E t u dto (map (process_item E pm costs) (csd_items dto)) (calculateTotals E
        (map (process_item E pm costs) (csd_items dto)) (csd_discountAmount dto) (csd_payments dto)) s = (Inr (Some x), s1)"
    "s' = s1\<lparr>reportJobs := reportJobs s1 @ [(t, csd_locationId dto, utc_day (sale_createdAt x))]\<rparr>"
    "r = Inr (formatDetailResponse s' x)"
proof -
  have paid: "tot_paidAmount (calculateTotals E items d ps) = paid_sum E ps" for items d ps
    by (simp add: calculateTotals_def Let_def)
  from assms(1) show thesis unfolding create_sale_def Let_def
    apply -
    apply (erule after_check, intro svc_intros, erule (1) refused)+
    apply (erule bindM_cases)
     apply (rule refused, assumption, erule executeSale_run(1) [OF assms(2)])
    apply (drule executeSale_run(2) [OF assms(2)])
    apply (simp add: run_simps dispatchUpdateDailySales_def validatePaymentAmount_def paid split: if_splits)
    apply (rule sold)
    apply auto
    done
qed

text \<open>What a request sells at a place, and what its lines come to at the unit prices \<open>unit\<close>.\<close>

definition sold_qty :: "id \<Rightarrow> id \<Rightarrow> create_sale_dto \<Rightarrow> int" where
  "sold_qty p l dto =
     (\<Sum>x\<leftarrow>csd_items dto. if (csi_productId x, csd_locationId dto) = (p, l) then \<lfloor>csi_quantity x\<rfloor> else 0)"

definition lines_total :: "env \<Rightarrow> (create_sale_item_dto \<Rightarrow> money) \<Rightarrow> create_sale_dto \<Rightarrow> money" where
  "lines_total E unit dto = (\<Sum>x\<leftarrow>csd_items dto.
     (unit x - e_dec E (case csi_discountAmount x of Some d \<Rightarrow> d | None \<Rightarrow> 0)) * of_int \<lfloor>csi_quantity x\<rfloor>)"

lemma foldl_sum: "foldl (\<lambda>a x. a + f x) c xs = c + (\<Sum>x\<leftarrow>xs. f x)" for c :: rat
  by (induction xs arbitrary: c) simp_all

lemma process_item_simps [simp]:
  "pi_productId (process_item E pm costs x) = csi_productId x"
  "pi_quantity (process_item E pm costs x) = \<lfloor>csi_quantity x\<rfloor>"
  "pi_lineTotal (process_item E pm costs x) = (pi_unitPrice (process_item E pm costs x) -
     e_dec E (case csi_discountAmount x of Some d \<Rightarrow> d | None \<Rightarrow> 0)) * of_int \<lfloor>csi_quantity x\<rfloor>"
  by (simp_all add: process_item_def Let_def algebra_simps)

lemma issue_of_simps [simp]:
  "out_locationId (issue_of dto items i) = csd_locationId dto"
  "out_items (issue_of dto items i) = map (\<lambda>x. \<lparr>sou_productId = pi_productId x, sou_quantity = pi_quantity x\<rparr>) items"
  by (simp_all add: issue_of_def sale_issue_def)

text \<open>Until the stock is issued, the books are those of before.\<close>

lemma rung_up_frame [simp]:
  "products (rung_up E t u dto items totals n s) = products s"
  "balances (rung_up E t u dto items totals n s) = balances s"
  "movements (rung_up E t u dto items totals n s) = movements s"
  "balances_wf (rung_up E t u dto items totals n s) = balances_wf s"
  by (simp_all add: rung_up_def Let_def balances_wf_def)

lemma issue_of_sum:
  "(\<Sum>x\<leftarrow>out_items (issue_of dto (map (process_item E pm costs) (csd_items dto)) i).
      if (sou_productId x, out_locationId (issue_of dto (map (process_item E pm costs) (csd_items dto)) i)) = (p, l)
      then - sou_quantity x else 0) = - sold_qty p l dto"
  by (simp add: sold_qty_def o_def sum_if_uminus cong: if_cong)

text \<open>The balance row of a place is the tenant's, and stays so when stock is issued.\<close>

definition owned :: "id \<Rightarrow> id \<Rightarrow> id \<Rightarrow> db \<Rightarrow> bool" where
  "owned t p l s \<longleftrightarrow> (\<exists>b. find_balance p l s = Some b \<and> bal_tenantId b = t)"

lemma owned_cong: "balances s' = balances s \<Longrightarrow> owned t p l s' = owned t p l s"
  by (simp add: owned_def find_balance_def)

lemma owned_available:
  assumes "tenant_available t p l s \<noteq> 0" "balances_wf s"
  shows "owned t p l s"
proof -
  from assms(1) obtain b where
    b: "List.find (\<lambda>b. bal_productId b = p \<and> bal_tenantId b = t \<and> bal_locationId b = l) (balances s) = Some b"
    by (auto simp: tenant_available_def split: option.splits)
  then have "b \<in> set (balances s)" "bal_key p l b" "bal_tenantId b = t" by (auto simp: bal_key_def dest: find_SomeD)
  moreover have key: "bal_key p l = (\<lambda>b. (bal_productId b, bal_locationId b) = (p, l))"
    by (auto simp: bal_key_def)
  ultimately show ?thesis
    using assms(2) unfolding owned_def find_balance_def key balances_wf_def
    by (intro exI conjI find_map_key) auto
qed

lemma owned_updateBalance:
  assumes "owned t p l s"
  shows "owned t p l (snd (updateBalance p' l' t' d s))"
  using assms by (auto simp: owned_def updateBalance_run find_balance_update find_balance_append)

lemma preserves_owned: "preserves (owned t p l) (stockOut_execute E t' u dto)"
proof -
  have "preserves (owned t p l) (stockOut_item E t' u dto x)" for x
    unfolding preserves_def
  proof (intro allI impI)
    fix s r s'
    assume o: "owned t p l s" and run: "stockOut_item E t' u dto x s = (r, s')"
    obtain q where b: "balances s' = balances (snd (updateBalance (sou_productId x) (out_locationId dto) t' q s))"
      by (rule issue_stock_cases [OF run [unfolded stockOut_item_def]])
    show "owned t p l s'" unfolding owned_cong [OF b] by (rule owned_updateBalance [OF o])
  qed
  then show ?thesis unfolding stockOut_execute_def by (intro svc_intros)
qed

lemma sale_tx_stock:
  assumes "distinct (map prod_id (products s))" "balances_wf s" "ids_used E s (sale_id ` set (sales s))"
    and qty: "list_all (\<lambda>x. 1 \<le> csi_quantity x) (csd_items dto)"
    and run: "sale_tx E t u dto (map (process_item E pm costs) (csd_items dto)) totals s = (Inr (Some x), s')"
  shows "on_hand p l s' = on_hand p l s - sold_qty p l dto" "ledger p l s' = ledger p l s - sold_qty p l dto"
    "reserved_at p l s' = reserved_at p l s"
    and "y \<in> set (csd_items dto) \<Longrightarrow>
      owned t (csi_productId y) (csd_locationId dto) s'"
proof -
  let ?items = "map (process_item E pm costs) (csd_items dto)"
  obtain n res where out: "stockOut E t u (issue_of dto ?items (e_uuid E (nextId s))) True (rung_up E t u dto ?items totals n s) = (Inr res, s')"
    by (rule sale_tx_Inr [OF run assms(3)])
  let ?dto = "issue_of dto ?items (e_uuid E (nextId s))" and ?s1 = "rung_up E t u dto ?items totals n s"
  have "distinct (map prod_id (products ?s1))" using assms(1) by simp
  note ok = stockOut_Inr [OF this out]
  have valid: "stock_out_valid ?dto" using qty by (auto simp: stock_out_valid_def list_all_iff)
  have has: "\<forall>x \<in> set (out_items ?dto). has_balance (sou_productId x) (out_locationId ?dto) ?s1"
    using issuable_has_balance(1) [OF ok(1) valid] assms(2) by simp
  note same = on_hand_cong [OF rung_up_frame(2)] ledger_cong [OF rung_up_frame(3)]
  show "on_hand p l s' = on_hand p l s - sold_qty p l dto"
    using stockOut_execute_effect(1) [OF ok(2) has] unfolding issue_of_sum same by simp
  show "ledger p l s' = ledger p l s - sold_qty p l dto"
    using stockOut_execute_effect(2) [OF ok(2)] unfolding issue_of_sum same by simp
  show "reserved_at p l s' = reserved_at p l s"
    using stockOut_execute_effect(3) [OF ok(2)] unfolding same by simp
  show "owned t (csi_productId y) (csd_locationId dto) s'" if y: "y \<in> set (csd_items dto)"
  proof (rule preservesD [OF preserves_owned _ ok(2)])
    from y qty have "1 \<le> csi_quantity y" by (auto simp: list_all_iff)
    moreover have "\<lfloor>csi_quantity y\<rfloor> \<le> tenant_available t (csi_productId y) (csd_locationId dto) ?s1"
      using ok(1) y by (auto simp: issuable_def)
    ultimately have "tenant_available t (csi_productId y) (csd_locationId dto) ?s1 \<noteq> 0" by linarith
    then show "owned t (csi_productId y) (csd_locationId dto) ?s1"
      by (rule owned_available) (use assms(2) in simp)
  qed
qed

section \<open>Lemmas: voiding\<close>

lemma void_item_run:
  "void_item E t u x reason y s = (Inr (), s\<lparr>nextId := Suc (nextId s),
     movements := movements s @ [movement_row E IN (si_quantity y) (si_unitCost y)
       (si_unitCost y * of_int (si_quantity y)) SALE (Some (sale_id x)) (Some (''Void reversal: '' @ reason))
       (si_productId y) (sale_locationId x) t (Some u) None (e_uuid E (nextId s)) (clock s)],
     balances := update_where (\<lambda>b. bal_productId b = si_productId y \<and> bal_locationId b = sale_locationId x \<and>
         bal_tenantId b = t) (\<lambda>b. b\<lparr>bal_onHandQuantity := bal_onHandQuantity b + si_quantity y\<rparr>) (balances s)\<rparr>)"
  by (simp add: void_item_def create_movement_run bindM_def)

lemma find_balance_void:
  assumes "void_item E t u x reason y s = (r, s')"
  shows "find_balance p l s' = map_option
     (\<lambda>b. if (p, l) = (si_productId y, sale_locationId x) \<and> bal_tenantId b = t
        then b\<lparr>bal_onHandQuantity := bal_onHandQuantity b + si_quantity y\<rparr> else b) (find_balance p l s)"
proof -
  let ?P = "\<lambda>b. bal_productId b = si_productId y \<and> bal_locationId b = sale_locationId x \<and> bal_tenantId b = t"
  let ?f = "\<lambda>b. b\<lparr>bal_onHandQuantity := bal_onHandQuantity b + si_quantity y\<rparr>"
  have "balances s' = update_where ?P ?f (balances s)" using assms by (auto simp: void_item_run)
  moreover have "List.find (bal_key p l) (update_where ?P ?f (balances s)) =
      map_option (\<lambda>b. if ?P b then ?f b else b) (List.find (bal_key p l) (balances s))"
    by (rule find_update_where) (simp add: bal_key_def)
  moreover have "?P b \<longleftrightarrow> (p, l) = (si_productId y, sale_locationId x) \<and> bal_tenantId b = t"
    if "List.find (bal_key p l) (balances s) = Some b" for b
    using find_SomeD [OF that] by (auto simp: bal_key_def)
  ultimately show ?thesis unfolding find_balance_def by (cases "List.find (bal_key p l) (balances s)") auto
qed

lemma void_item_counts:
  assumes "void_item E t u x reason y s = (r, s')"
  shows "owned t (si_productId y) (sale_locationId x) s \<Longrightarrow> stock_count k s' =
      stock_count k s + (if (si_productId y, sale_locationId x) = k then si_quantity y else 0)"
    and "ledger_count k s' = ledger_count k s + (if (si_productId y, sale_locationId x) = k then si_quantity y else 0)"
    and "owned t' p l s \<Longrightarrow> owned t' p l s'"
    and "reserved_at p l s' = reserved_at p l s"
    and "layers s' = layers s"
proof -
  show "owned t (si_productId y) (sale_locationId x) s \<Longrightarrow> stock_count k s' =
      stock_count k s + (if (si_productId y, sale_locationId x) = k then si_quantity y else 0)"
    by (cases k) (auto simp: stock_count_def on_hand_def owned_def find_balance_void [OF assms] split: option.splits)
  show "owned t' p l s'" if "owned t' p l s"
  proof -
    from that obtain b where "find_balance p l s = Some b" "bal_tenantId b = t'" by (auto simp: owned_def)
    then show ?thesis unfolding owned_def find_balance_void [OF assms] by simp
  qed
  show "reserved_at p l s' = reserved_at p l s"
    by (auto simp: reserved_at_def find_balance_void [OF assms] split: option.splits)
  show "ledger_count k s' = ledger_count k s + (if (si_productId y, sale_locationId x) = k then si_quantity y else 0)"
    "layers s' = layers s"
    using assms by (cases k; auto simp: void_item_run ledger_count_def ledger_def)+
qed

interpretation return_stock: live_posting stock_count "void_item E t u x reason"
    "\<lambda>y. (si_productId y, sale_locationId x)" si_quantity "\<lambda>y. owned t (si_productId y) (sale_locationId x)"
  for E t u x reason
  by unfold_locales (auto simp: void_item_counts void_item_run)

interpretation return_ledger: free_posting ledger_count "void_item E t u x reason"
    "\<lambda>y. (si_productId y, sale_locationId x)" si_quantity "\<lambda>y s. True" for E t u x reason
  by unfold_locales (auto simp: void_item_counts)

lemma void_sale_run:
  assumes "find_sale t i s = Some x" "sale_status x = SaleCompleted"
    and owned: "\<forall>y \<in> set (items_of i s). owned t (si_productId y) (sale_locationId x) s"
  shows "\<exists>s'. void_sale E t u i reason s = (Inr (), s') \<and> layers s' = layers s \<and>
    (\<forall>p l. let d = (\<Sum>y\<leftarrow>items_of i s. if (si_productId y, sale_locationId x) = (p, l) then si_quantity y else 0) in
       on_hand p l s' = on_hand p l s + d \<and> ledger p l s' = ledger p l s + d \<and> reserved_at p l s' = reserved_at p l s)"
proof -
  let ?body = "void_item E t u x reason"
  have x: "x \<in> set (sales s)" "sale_id x = i" using assms(1) by (auto simp: find_sale_def dest: find_SomeD)
  define s1 where "s1 = s\<lparr>sales := update_where (\<lambda>y. sale_id y = sale_id x)
       (\<lambda>y. y\<lparr>sale_status := SaleVoided, sale_voidedAt := Some (clock s), sale_voidedById := Some u,
             sale_voidReason := Some reason\<rparr>) (sales s)\<rparr>"
  have b: "balances s1 = balances s" "movements s1 = movements s" "layers s1 = layers s" by (simp_all add: s1_def)
  have "\<forall>y \<in> set (items_of i s). owned t (si_productId y) (sale_locationId x) s1"
    using owned unfolding owned_cong [OF b(1)] .
  note good = this return_stock.forM_runs [OF this, of E u reason]
  then obtain us s2 where run: "forM (items_of i s) ?body s1 = (Inr us, s2)" by blast
  have void: "void_sale E t u i reason s = (Inr (), s2)"
    using assms(1,2) x run
    by (auto simp: void_sale_def executeVoidTransaction_def run_simps transaction_def bindM_def s1_def list_ex_iff
        update_row_def)
  have "keeps (\<lambda>s. (layers s, \<lambda>p l. reserved_at p l s)) (forM (items_of i s) ?body)"
    by (intro svc_intros) (auto simp: keeps_def void_item_counts fun_eq_iff)
  note keepsD [OF this run] void
  moreover have "stock_count (p, l) s2 = stock_count (p, l) s1 +
      (\<Sum>y\<leftarrow>items_of i s. if (si_productId y, sale_locationId x) = (p, l) then si_quantity y else 0)" for p l
    by (rule return_stock.forM_post [OF good(1) run])
  moreover have "ledger_count (p, l) s2 = ledger_count (p, l) s1 +
      (\<Sum>y\<leftarrow>items_of i s. if (si_productId y, sale_locationId x) = (p, l) then si_quantity y else 0)" for p l
    by (rule return_ledger.forM_post [OF _ run]) simp
  ultimately show ?thesis
    by (auto simp: Let_def stock_count_def ledger_count_def b on_hand_cong [OF b(1)] ledger_cong [OF b(2)] fun_eq_iff)
qed

lemma void_sale_atomic: "atomic (void_sale E t u i reason)"
  unfolding void_sale_def executeVoidTransaction_def by (intro svc_intros)

section \<open>Lemmas: the items of a new sale\<close>

lemma sale_tx_rows:
  assumes "ids_used E s (sale_id ` set (sales s) \<union> si_saleId ` set (saleItems s))"
    and run: "sale_tx E t u dto items totals s = (Inr (Some x), s')"
  shows "sales s' = sales s @ [x]" "find_sale t (sale_id x) s' = Some x" "sale_status x = SaleCompleted"
    "sale_locationId x = csd_locationId dto" "sale_totalAmount x = e_col E (tot_totalAmount totals)"
    "sale_paidAmount x = e_col E (tot_paidAmount totals)" "sale_changeAmount x = e_col E (tot_changeAmount totals)"
    "sale_subtotal x = e_col E (tot_subtotal totals)"
    "map (\<lambda>y. (si_productId y, si_quantity y)) (items_of (sale_id x) s') = map (\<lambda>y. (pi_productId y, pi_quantity y)) items"
proof -
  have ids: "ids_used E s (sale_id ` set (sales s))" "e_uuid E (nextId s) \<notin> sale_id ` set (sales s)"
    "e_uuid E (nextId s) \<notin> si_saleId ` set (saleItems s)"
    using assms(1) ids_used_fresh [OF assms(1)] by (auto simp: ids_used_def)
  let ?i = "e_uuid E (nextId s)"
  obtain n res where x: "x = sold_row E t u dto totals n ?i (clock s)" and sales: "sales s' = sales s @ [x]"
    and out: "stockOut E t u (issue_of dto items ?i) True (rung_up E t u dto items totals n s) = (Inr res, s')"
    by (rule sale_tx_Inr [OF run ids(1)]) simp
  show "sales s' = sales s @ [x]" by (rule sales)
  show "sale_status x = SaleCompleted" "sale_locationId x = csd_locationId dto"
    "sale_totalAmount x = e_col E (tot_totalAmount totals)" "sale_paidAmount x = e_col E (tot_paidAmount totals)"
    "sale_changeAmount x = e_col E (tot_changeAmount totals)" "sale_subtotal x = e_col E (tot_subtotal totals)"
    by (simp_all add: x sold_row_def)
  have x': "sale_id x = ?i" "sale_tenantId x = t" by (simp_all add: x sold_row_def)
  have "List.find (\<lambda>y. sale_id y = ?i \<and> sale_tenantId y = t) (sales s) = None"
    using ids(2) by (auto simp: find_None_iff' image_iff)
  then show "find_sale t (sale_id x) s' = Some x" by (simp add: find_sale_def x' sales find_append)
  have "saleItems s' = saleItems s @ map2 (item_row E ?i) items (new_ids E (Suc (nextId s)) (length items))"
    using keepsD [OF stockOut_keeps out] by (simp add: pos_tables_eq rung_up_def Let_def)
  moreover have "filter (\<lambda>y. si_saleId y = ?i) (saleItems s) = []"
    using ids(3) by (auto simp: filter_empty_conv image_iff)
  moreover have "filter (\<lambda>y. si_saleId y = ?i) (map2 (item_row E ?i) items is) = map2 (item_row E ?i) items is" for "is"
    by (auto simp: filter_id_conv item_row_def)
  moreover have "map (\<lambda>y. (si_productId y, si_quantity y)) (map2 (item_row E ?i) items is) =
      map (\<lambda>y. (pi_productId y, pi_quantity y)) items" if "length is = length items" for "is"
    using that by (induction items "is" rule: list_induct2') (auto simp: item_row_def)
  ultimately show "map (\<lambda>y. (si_productId y, si_quantity y)) (items_of (sale_id x) s') =
      map (\<lambda>y. (pi_productId y, pi_quantity y)) items"
    by (simp add: items_of_def x')
qed

section \<open>Lemmas: completing a cart\<close>

lemma processPayments_run:
  "\<exists>a n ps'. processPayments E i ps u s = (Inr a, s\<lparr>nextId := n, payments := ps'\<rparr>)"
proof -
  have "\<exists>a n ps'. foldM (\<lambda>totalPaid p. bindM (create_payment E i u p) (\<lambda>_. ret (totalPaid + e_dec E (pd_amount p)))) c ps s
      = (Inr a, s\<lparr>nextId := n, payments := ps'\<rparr>)" for c
  proof (induction ps arbitrary: c s)
    case Nil
    show ?case by (auto intro!: exI [of _ "nextId s"] exI [of _ "payments s"])
  next
    case (Cons p ps)
    show ?case
      using Cons.IH [of "c + e_dec E (pd_amount p)" "snd (create_payment E i u p s)"]
      by (auto simp: bindM_def create_payment_def)
  qed
  then show ?thesis by (auto simp: processPayments_def intro!: exI [of _ "nextId s"] exI [of _ "payments s"])
qed

text \<open>What the ACTIVE reservations of a cart hold at a place.\<close>

definition cart_held :: "id \<Rightarrow> id \<Rightarrow> id \<Rightarrow> db \<Rightarrow> int" where
  "cart_held c p l s = sum_where (\<lambda>r. place r = (p, l)) res_quantity (filter (held_for [c]) (reservations s))"

lemma sum_active_fulfilled:
  "sum_where (active_at p l) res_quantity (update_where (held_for ids) (\<lambda>r. r\<lparr>res_status := FULFILLED\<rparr>) rows) =
   sum_where (active_at p l) res_quantity rows -
     sum_where (\<lambda>r. place r = (p, l)) res_quantity (filter (held_for ids) rows)"
  by (induction rows) (auto simp: active_at_def held_for_def)

lemma aggregateSaleItems_eq:
  "aggregateSaleItems items = (\<Sum>y\<leftarrow>items. si_lineTotal y,
     map (\<lambda>y. \<lparr>sou_productId = si_productId y, sou_quantity = si_quantity y\<rparr>) items)"
proof -
  have "foldl (\<lambda>(subtotal, outs) x. (subtotal + si_lineTotal x,
         outs @ [\<lparr>sou_productId = si_productId x, sou_quantity = si_quantity x\<rparr>])) (a, b) items =
      (a + (\<Sum>y\<leftarrow>items. si_lineTotal y),
       b @ map (\<lambda>y. \<lparr>sou_productId = si_productId y, sou_quantity = si_quantity y\<rparr>) items)" for a b
    by (induction items arbitrary: a b) simp_all
  then show ?thesis by (simp add: aggregateSaleItems_def)
qed

definition cart_issue :: "sale \<Rightarrow> complete_sale_dto \<Rightarrow> sale_item list \<Rightarrow> stock_out_dto" where
  "cart_issue x dto items = sale_issue (sale_locationId x) (sale_id x)
     (case cmp_notes dto of Some n \<Rightarrow> n | None \<Rightarrow> ''POS Sale'')
     (map (\<lambda>y. \<lparr>sou_productId = si_productId y, sou_quantity = si_quantity y\<rparr>) items)"

lemma complete_sale_Inr:
  assumes "complete_sale E t u i dto s = (Inr d, s')"
  obtains x n ps res s1 where "find_sale t i s = Some x" "sale_status x = SaleDraft" "items_of i s \<noteq> []"
    "stockOut E t u (cart_issue x dto (items_of i s)) True (s\<lparr>nextId := n, payments := ps\<rparr>) = (Inr res, s1)"
    "balances s' = balances s1" "movements s' = movements s1"
    "reservations s' = update_where (held_for [i]) (\<lambda>r. r\<lparr>res_status := FULFILLED\<rparr>) (reservations s1)"
    "sale_status (sdr_sale d) = SaleCompleted" "sale_id (sdr_sale d) = i"
    "sales s' = update_where (\<lambda>y. sale_id y = i) (completed E u dto x (calculateCompletionTotals E x
       (\<Sum>y\<leftarrow>items_of i s. si_lineTotal y) (cmp_payments dto)) (clock s1)) (sales s)"
proof -
  obtain x items where 1: "findDraftSale t i s = (Inr (x, items), s)"
    and 2: "find_sale t i s = Some x" "sale_status x = SaleDraft" "items = items_of i s" "items \<noteq> []"
    using assms by (auto simp: complete_sale_def findDraftSale_def bindM_Inr run_simps split: if_splits)
  have i: "sale_id x = i" using 2(1) by (auto simp: find_sale_def dest: find_SomeD)
  define totals where "totals = calculateCompletionTotals E x (\<Sum>y\<leftarrow>items. si_lineTotal y) (cmp_payments dto)"
  obtain y s2 where tx: "executeCompletionTransaction E t u x dto (out_items (cart_issue x dto items)) totals s = (Inr y, s2)"
    and d: "sdr_sale d = y" and s': "balances s' = balances s2" "movements s' = movements s2" "reservations s' = reservations s2"
      "sales s' = sales s2"
    using assms by (auto simp: complete_sale_def bindM_Inr 1 aggregateSaleItems_eq totals_def validatePaymentAmount_def
        dispatchUpdateDailySales_def cart_issue_def sale_issue_def formatDetailResponse_def Let_def split: if_splits)
  obtain a n ps where pay: "processPayments E (sale_id x) (cmp_payments dto) u s = (Inr a, s\<lparr>nextId := n, payments := ps\<rparr>)"
    using processPayments_run by blast
  from tx pay obtain res s1 where out: "stockOut E t u (cart_issue x dto items) True (s\<lparr>nextId := n, payments := ps\<rparr>) = (Inr res, s1)"
    and s2: "balances s2 = balances s1" "movements s2 = movements s1"
      "reservations s2 = update_where (held_for [i]) (\<lambda>r. r\<lparr>res_status := FULFILLED\<rparr>) (reservations s1)"
    and y: "List.find (\<lambda>y. sale_id y = i) (sales s2) = Some y"
      "sales s2 = update_where (\<lambda>y. sale_id y = i) (completed E u dto x totals (clock s1)) (sales s1)"
    by (auto simp: executeCompletionTransaction_def transaction_Inr bindM_Inr i cart_issue_def sale_issue_def
        update_row_def split: if_splits)
  have "sale_status y = SaleCompleted" "sale_id y = i"
    using y(1) unfolding y(2) by (auto simp: find_update_where completed_def dest: find_SomeD)
  moreover have "sales s1 = sales s"
    using keepsD [OF stockOut_keeps out] by (simp add: pos_tables_eq)
  ultimately show thesis
    using that [OF 2(1,2) _ out [unfolded 2(3)]] 2(3,4) s2 s' d y(2) by (simp add: totals_def)
qed

lemma complete_sale_stock:
  assumes "distinct (map prod_id (products s))" "complete_sale E t u i dto s = (Inr d, s')"
  obtains x where "find_sale t i s = Some x" "sale_status x = SaleDraft"
    "\<forall>y \<in> set (items_of i s). si_quantity y \<le> tenant_available t (si_productId y) (sale_locationId x) s"
    "\<And>p l. reserved_at p l s' = reserved_at p l s"
    "\<And>p l. active_reserved p l s' = active_reserved p l s - cart_held i p l s"
    "\<And>p l. ledger p l s' = ledger p l s -
       (\<Sum>y\<leftarrow>items_of i s. if (si_productId y, sale_locationId x) = (p, l) then si_quantity y else 0)"
proof -
  obtain x n ps res s1 where x: "find_sale t i s = Some x" "sale_status x = SaleDraft"
    and out: "stockOut E t u (cart_issue x dto (items_of i s)) True (s\<lparr>nextId := n, payments := ps\<rparr>) = (Inr res, s1)"
    and s': "balances s' = balances s1" "movements s' = movements s1"
      "reservations s' = update_where (held_for [i]) (\<lambda>r. r\<lparr>res_status := FULFILLED\<rparr>) (reservations s1)"
    by (rule complete_sale_Inr [OF assms(2)])
  let ?s0 = "s\<lparr>nextId := n, payments := ps\<rparr>"
  have "distinct (map prod_id (products ?s0))" using assms(1) by simp
  note ok = stockOut_Inr [OF this out]
  have "\<forall>y \<in> set (items_of i s). si_quantity y \<le> tenant_available t (si_productId y) (sale_locationId x) s"
    using ok(1) by (simp add: issuable_def cart_issue_def sale_issue_def tenant_available_def)
  moreover have "reserved_at p l s' = reserved_at p l s" for p l
    using stockOut_execute_effect(3) [OF ok(2), of p l] on_hand_cong(2) [of ?s0 s] on_hand_cong(2) [OF s'(1)] by simp
  moreover have "reservations s1 = reservations s"
    using keepsD [OF stockOut_keeps out] by (simp add: pos_tables_eq)
  then have "active_reserved p l s' = active_reserved p l s - cart_held i p l s" for p l
    by (simp add: active_reserved_def s'(3) sum_active_fulfilled cart_held_def)
  moreover have "ledger p l s' = ledger p l s -
       (\<Sum>y\<leftarrow>items_of i s. if (si_productId y, sale_locationId x) = (p, l) then si_quantity y else 0)" for p l
    using stockOut_execute_effect(2) [OF ok(2), of p l] ledger_cong [of ?s0 s p l] ledger_cong [OF s'(2), of p l]
    by (simp add: cart_issue_def sale_issue_def o_def sum_if_uminus cong: if_cong)
  ultimately show thesis using x that by blast
qed

section \<open>Properties\<close>


definition pens_sold :: "rat \<Rightarrow> create_sale_dto" where
  "pens_sold q = \<lparr>csd_locationId = ''l'', csd_sessionId = None, csd_terminalId = None, csd_customerId = None,
     csd_items = [\<lparr>csi_productId = ''p'', csi_quantity = q, csi_unitPrice = None,
       csi_discountAmount = None, csi_notes = None\<rparr>],
     csd_payments = [\<lparr>pd_method = CASH, pd_amount = 50, pd_transactionRef = None, pd_notes = None\<rparr>],
     csd_discountAmount = Some 1, csd_notes = None\<rparr>"

lemma bal_db_sale_ok:
  "balances_wf bal_db" "ids_used env0 bal_db (sale_id ` set (sales bal_db) \<union> si_saleId ` set (saleItems bal_db))"
  by (simp_all add: bal_db_def db0_def balances_wf_def ids_used_def inj_nat_id)

lemma pens_sold_ok: "list_all (\<lambda>x. 1 \<le> csi_quantity x) (csd_items (pens_sold q)) \<longleftrightarrow> 1 \<le> q"
  by (simp add: pens_sold_def)

lemma sell_pens:
  "\<exists>d. create_sale env0 ''t'' ''u'' (pens_sold (5/2)) bal_db = (Inr d, snd (create_sale env0 ''t'' ''u'' (pens_sold (5/2)) bal_db)) \<and>
     sale_changeAmount (sdr_sale d) = 21"
proof -
  have "(case fst (create_sale env0 ''t'' ''u'' (pens_sold (5/2)) bal_db) of Inl _ \<Rightarrow> False
    | Inr d \<Rightarrow> sale_changeAmount (sdr_sale d) = 21)" by code_simp
  then show ?thesis by (cases "create_sale env0 ''t'' ''u'' (pens_sold (5/2)) bal_db") (auto split: sum.splits)
qed


text \<open>C30: A quick sale can be voided at once, by whoever: the void never fails, and afterwards every on-hand
  quantity, every ledger and every reserved quantity is what it was before the sale. The valuation layers the
  sale consumed stay consumed: the returned units are on hand without a layer, and cost nothing when they are
  sold again.\<close>

theorem sell_then_void:
  assumes "distinct (map prod_id (products s))" "balances_wf s"
    and "ids_used E s (sale_id ` set (sales s) \<union> si_saleId ` set (saleItems s))"
    and "list_all (\<lambda>x. 1 \<le> csi_quantity x) (csd_items dto)"
    and "create_sale E t u dto s = (Inr d, s1)"
  shows "\<exists>s2. void_sale E t u' (sale_id (sdr_sale d)) reason s1 = (Inr (), s2) \<and> layers s2 = layers s1 \<and>
    (\<forall>p l. on_hand p l s2 = on_hand p l s \<and> ledger p l s2 = ledger p l s \<and> reserved_at p l s2 = reserved_at p l s)"
proof -
  have ids: "ids_used E s (sale_id ` set (sales s))" using assms(3) by (auto simp: ids_used_def)
  from assms(5) ids obtain pm costs x s0 where
    tx: "sale_tx E t u dto (map (process_item E pm costs) (csd_items dto)) (calculateTotals E
        (map (process_item E pm costs) (csd_items dto)) (csd_discountAmount dto) (csd_payments dto)) s = (Inr (Some x), s0)"
    and s1: "s1 = s0\<lparr>reportJobs := reportJobs s0 @ [(t, csd_locationId dto, utc_day (sale_createdAt x))]\<rparr>"
    and d: "sdr_sale d = x"
    by (cases rule: create_sale_cases) (auto simp: formatDetailResponse_def)
  have same: "balances s1 = balances s0" "movements s1 = movements s0" "find_sale t i s1 = find_sale t i s0"
    "items_of i s1 = items_of i s0" for i by (simp_all add: s1 find_sale_def items_of_def)
  note rows = sale_tx_rows [OF assms(3) tx]
  note stock = sale_tx_stock [OF assms(1,2) ids assms(4) tx]
  let ?items = "items_of (sale_id x) s1"
  have items: "map (\<lambda>y. (si_productId y, si_quantity y)) ?items = map (\<lambda>y. (csi_productId y, \<lfloor>csi_quantity y\<rfloor>)) (csd_items dto)"
    using rows(9) by (simp add: same o_def)
  have "\<forall>y \<in> set ?items. owned t (si_productId y) (sale_locationId x) s1"
  proof
    fix y assume "y \<in> set ?items"
    then have "(si_productId y, si_quantity y) \<in> set (map (\<lambda>y. (csi_productId y, \<lfloor>csi_quantity y\<rfloor>)) (csd_items dto))"
      unfolding items [symmetric] by auto
    then show "owned t (si_productId y) (sale_locationId x) s1"
      using stock(4) by (auto simp: rows(4) owned_cong [OF same(1)])
  qed
  from void_sale_run [OF _ rows(3) this, of E u' reason] rows(2)
  obtain s2 where s2: "void_sale E t u' (sale_id x) reason s1 = (Inr (), s2)" "layers s2 = layers s1"
    "\<forall>p l. let q = (\<Sum>y\<leftarrow>?items. if (si_productId y, sale_locationId x) = (p, l) then si_quantity y else 0) in
       on_hand p l s2 = on_hand p l s1 + q \<and> ledger p l s2 = ledger p l s1 + q \<and> reserved_at p l s2 = reserved_at p l s1"
    by (auto simp: same)
  have "(\<Sum>y\<leftarrow>?items. if (si_productId y, sale_locationId x) = (p, l) then si_quantity y else 0) = sold_qty p l dto" for p l
    using arg_cong [OF items, of "\<lambda>xs. \<Sum>y\<leftarrow>xs. if (fst y, sale_locationId x) = (p, l) then snd y else 0"]
    by (simp add: o_def sold_qty_def rows(4) cong: if_cong)
  then show ?thesis
    using s2 stock(1-3) by (simp add: d Let_def on_hand_cong [OF same(1)] ledger_cong [OF same(2)])
qed

theorem sell_then_void_witness:
  "\<exists>d s1 s2. create_sale env0 ''t'' ''u'' (pens_sold (5/2)) bal_db = (Inr d, s1) \<and>
     void_sale env0 ''t'' ''v'' (sale_id (sdr_sale d)) ''broken'' s1 = (Inr (), s2) \<and>
     on_hand ''p'' ''l'' s2 = 7"
proof -
  obtain d s1 where run: "create_sale env0 ''t'' ''u'' (pens_sold (5/2)) bal_db = (Inr d, s1)" using sell_pens by blast
  have "1 \<le> (5/2 :: rat)" by simp
  from sell_then_void [OF bal_db_distinct bal_db_sale_ok iffD2 [OF pens_sold_ok this] run]
  obtain s2 where "void_sale env0 ''t'' ''v'' (sale_id (sdr_sale d)) ''broken'' s1 = (Inr (), s2)"
    "on_hand ''p'' ''l'' s2 = on_hand ''p'' ''l'' bal_db" by blast
  moreover have "on_hand ''p'' ''l'' bal_db = 7" by code_simp
  ultimately show ?thesis using run by auto
qed

text \<open>C31: Completing a cart issues its items on top of its own reservations, which become FULFILLED without
  their quantities being given back. So a cart is completed only where the stock covers its items beside
  everything reserved, its own hold included, and afterwards the reserved quantities exceed the ACTIVE
  reservations by what the cart held.\<close>

theorem completed_cart_keeps_hold:
  assumes "distinct (map prod_id (products s))" "balances_wf s" "reserved_ok s"
    and "list_all (\<lambda>y. 1 \<le> si_quantity y) (items_of i s)"
    and "complete_sale E t u i dto s = (Inr d, s')"
  shows "(\<forall>p l. reserved_at p l s' = active_reserved p l s' + cart_held i p l s) \<and>
    (\<exists>x. find_sale t i s = Some x \<and> list_all (\<lambda>y. si_quantity y + reserved_at (si_productId y) (sale_locationId x) s
       \<le> on_hand (si_productId y) (sale_locationId x) s) (items_of i s))"
proof -
  obtain x where x: "find_sale t i s = Some x"
    and avail: "\<forall>y \<in> set (items_of i s). si_quantity y \<le> tenant_available t (si_productId y) (sale_locationId x) s"
    and held: "\<And>p l. reserved_at p l s' = reserved_at p l s"
      "\<And>p l. active_reserved p l s' = active_reserved p l s - cart_held i p l s"
    by (rule complete_sale_stock [OF assms(1,5)]) (rule that; assumption)
  have "list_all (\<lambda>y. si_quantity y + reserved_at (si_productId y) (sale_locationId x) s
       \<le> on_hand (si_productId y) (sale_locationId x) s) (items_of i s)"
    unfolding list_all_iff
  proof
    fix y assume "y \<in> set (items_of i s)"
    with avail assms(4) have "si_quantity y \<le> tenant_available t (si_productId y) (sale_locationId x) s" "1 \<le> si_quantity y"
      by (auto simp: list_all_iff)
    moreover from this have "tenant_available t (si_productId y) (sale_locationId x) s \<noteq> 0" by linarith
    note tenant_available_le(2) [OF this assms(2)]
    ultimately show "si_quantity y + reserved_at (si_productId y) (sale_locationId x) s
        \<le> on_hand (si_productId y) (sale_locationId x) s"
      by linarith
  qed
  then show ?thesis using x held assms(3) by (auto simp: reserved_ok_def)
qed

text \<open>The cart of two pens, with seven on hand and two reserved for it.\<close>

definition pens_paid :: complete_sale_dto where
  "pens_paid = \<lparr>cmp_payments = [\<lparr>pd_method = CASH, pd_amount = 30, pd_transactionRef = None, pd_notes = None\<rparr>],
     cmp_notes = None\<rparr>"

theorem completed_cart_keeps_hold_witness:
  "\<exists>d s'. complete_sale env0 ''t'' ''u'' (nat_id 1) pens_paid cart_db = (Inr d, s') \<and>
     reserved_at ''p'' ''l'' s' = 2 \<and> active_reserved ''p'' ''l'' s' = 0"
proof -
  let ?run = "complete_sale env0 ''t'' ''u'' (nat_id 1) pens_paid cart_db"
  have ok: "(case fst ?run of Inl _ \<Rightarrow> False | Inr _ \<Rightarrow> True)" by code_simp
  then obtain d s' where run: "?run = (Inr d, s')" by (cases ?run) (auto split: sum.splits)
  have "distinct (map prod_id (products cart_db))" "balances_wf cart_db"
    "list_all (\<lambda>y. 1 \<le> si_quantity y) (items_of (nat_id 1) cart_db)" by code_simp+
  then have "reserved_at ''p'' ''l'' s' = active_reserved ''p'' ''l'' s' + cart_held (nat_id 1) ''p'' ''l'' cart_db"
    using completed_cart_keeps_hold [OF _ _ _ _ run] cart_db_inv by (simp add: res_inv_def)
  moreover have "cart_held (nat_id 1) ''p'' ''l'' cart_db = 2" "active_reserved ''p'' ''l'' (snd ?run) = 0" by code_simp+
  ultimately show ?thesis using run by auto
qed

end
