(* ===== verification/Frames.thy ===== *)
theory Frames
  imports Prelude
begin

text \<open>
  What a handler may change, as a relation between the state before and the state after. Where the
  relation is reflexive and transitive, a handler obeys it as soon as its parts do; so one frame,
  proved for the primitives of the database, carries over to every handler built from them.
\<close>

definition obeys :: "('s \<Rightarrow> 's \<Rightarrow> bool) \<Rightarrow> ('s, 'e, 'a) svc \<Rightarrow> bool" where
  "obeys R m \<longleftrightarrow> (\<forall>s r s'. m s = (r, s') \<longrightarrow> R s s')"

lemma obeysD: "obeys R m \<Longrightarrow> m s = (r, s') \<Longrightarrow> R s s'"
  by (auto simp: obeys_def)

lemma obeys_mono: "obeys R m \<Longrightarrow> (\<And>s s'. R s s' \<Longrightarrow> Q s s') \<Longrightarrow> obeys Q m"
  by (auto simp: obeys_def)

locale frame =
  fixes R :: "'s \<Rightarrow> 's \<Rightarrow> bool"
  assumes same: "R s s" and step: "R s s1 \<Longrightarrow> R s1 s2 \<Longrightarrow> R s s2"
begin

lemma of_readonly: "readonly m \<Longrightarrow> obeys R m"
  using same by (auto simp: obeys_def dest: readonlyD)

lemma of_basic:
  "obeys R (ret a)" "obeys R (throw e)" "obeys R (readM f)" "obeys R (throw_if c e)"
  "obeys R (require x e)"
  by (auto intro!: of_readonly readonly_basic)

lemma of_writeM: "(\<And>s. R s (w s)) \<Longrightarrow> obeys R (writeM w)"
  by (auto simp: obeys_def)

lemma of_bindM: "obeys R m \<Longrightarrow> (\<And>a. obeys R (f a)) \<Longrightarrow> obeys R (bindM m f)"
  by (auto simp: obeys_def [of R "bindM m f"] elim!: bindM_cases dest: obeysD intro: step)

lemma of_if: "obeys R m \<Longrightarrow> obeys R m' \<Longrightarrow> obeys R (if c then m else m')"
  by simp

lemma of_option:
  "obeys R m \<Longrightarrow> (\<And>a. obeys R (f a)) \<Longrightarrow> obeys R (case x of None \<Rightarrow> m | Some a \<Rightarrow> f a)"
  by (cases x) auto

lemma of_prod: "(\<And>a b. obeys R (f a b)) \<Longrightarrow> obeys R (case p of (a, b) \<Rightarrow> f a b)"
  by (cases p) auto

lemma of_transaction: "obeys R m \<Longrightarrow> obeys R (transaction m)"
  using same by (auto simp: obeys_def transaction_def split: prod.splits sum.splits)

lemma of_forM: "(\<And>x. obeys R (f x)) \<Longrightarrow> obeys R (forM xs f)"
  by (induction xs) (auto intro!: of_basic of_bindM)

lemma of_foldM: "(\<And>a x. obeys R (f a x)) \<Longrightarrow> obeys R (foldM f a xs)"
  by (induction xs arbitrary: a) (auto intro!: of_basic of_bindM)

lemma of_update_row:
  "(\<And>s. R s (upd (update_where P f (get s)) s)) \<Longrightarrow> obeys R (update_row get upd e P f)"
  using same by (auto simp: obeys_def update_row_def)

lemmas parts = of_basic of_writeM of_bindM of_if of_option of_prod of_transaction of_forM of_foldM
  of_update_row

end

end
