(* ===== verification/Refund.thy ===== *)
theory Refund
  imports Sale Frames
begin

text \<open>
  \<^verbatim>\<open>src/src/modules/pos/services/refund.service.ts\<close>: refunding a sale. A refund pays back at most
  what the customer paid net of change and of earlier refunds, and may return items to stock.

  The quantities of returned items are whole numbers, as the integer columns they are stored in
  require. The items of a refund are kept in a JSON column; \<^verbatim>\<open>toFixed(4)\<close> texts are kept as numbers.
\<close>

section \<open>Requests and responses\<close>

record create_refund_dto =
  crf_amount :: rat
  crf_method :: PaymentMethod
  crf_reason :: string
  crf_items :: "refund_item list option"

definition create_refund_valid :: "create_refund_dto \<Rightarrow> bool" where
  "create_refund_valid dto \<longleftrightarrow> 0 \<le> crf_amount dto \<and>
     (case crf_items dto of None \<Rightarrow> True | Some xs \<Rightarrow> list_all (\<lambda>x. 1 \<le> ri_quantity x) xs)"

record refund_response =
  rfr_id :: id
  rfr_refundNumber :: string
  rfr_amount :: money
  rfr_method :: PaymentMethod
  rfr_status :: PaymentStatus
  rfr_reason :: string
  rfr_saleId :: id
  rfr_processedAt :: instant

section \<open>A refund\<close>

definition generateRefundNumber :: "env \<Rightarrow> id \<Rightarrow> string handler" where
  "generateRefundNumber E tenantId =
     bindM now (\<lambda>t.
     readM (\<lambda>s. next_number (year_prefix ''REF'' (e_year E t)) 5
       (map ref_refundNumber (filter (\<lambda>x. ref_tenantId x = tenantId) (refunds s)))))"

definition refund_row :: "env \<Rightarrow> id \<Rightarrow> id \<Rightarrow> sale \<Rightarrow> create_refund_dto \<Rightarrow> string \<Rightarrow> id \<Rightarrow> instant \<Rightarrow> sale_refund" where
  "refund_row E tenantId userId x dto n i t =
     \<lparr>ref_id = i, ref_refundNumber = n, ref_amount = stored E (crf_amount dto), ref_method = crf_method dto,
      ref_status = PayCompleted, ref_reason = crf_reason dto, ref_items = crf_items dto,
      ref_saleId = sale_id x, ref_processedById = userId, ref_tenantId = tenantId, ref_processedAt = t\<rparr>"

text \<open>\<^verbatim>\<open>saleRefund.create\<close>, with the unique index on number and tenant.\<close>

definition insert_refund :: "env \<Rightarrow> (id \<Rightarrow> instant \<Rightarrow> sale_refund) \<Rightarrow> sale_refund handler" where
  "insert_refund E row =
     bindM (fresh_id E) (\<lambda>i. bindM now (\<lambda>t.
     bindM (readM (\<lambda>s. list_ex (\<lambda>r. ref_refundNumber r = ref_refundNumber (row i t) \<and>
              ref_tenantId r = ref_tenantId (row i t)) (refunds s))) (\<lambda>taken.
     bindM (throw_if taken UniqueConstraint) (\<lambda>_.
     bindM (writeM (\<lambda>s. s\<lparr>refunds := refunds s @ [row i t]\<rparr>)) (\<lambda>_.
     ret (row i t))))))"

definition return_line :: "sale_item list \<Rightarrow> refund_item \<Rightarrow> stock_in_item handler" where
  "return_line items x =
     bindM (require (List.find (\<lambda>y. si_id y = ri_saleItemId x) items)
              (BadRequestException (SaleItemNotFound (ri_saleItemId x)))) (\<lambda>saleItem.
     ret \<lparr>sin_productId = si_productId saleItem, sin_quantity = ri_quantity x,
          sin_unitCost = fl (si_unitCost saleItem), sin_batchId = None\<rparr>)"

definition return_stock :: "env \<Rightarrow> id \<Rightarrow> id \<Rightarrow> sale \<Rightarrow> sale_item list \<Rightarrow> create_refund_dto \<Rightarrow> id \<Rightarrow> unit handler" where
  "return_stock E tenantId userId x items dto refundId =
     (case crf_items dto of
        Some (y # ys) \<Rightarrow>
          bindM (forM (y # ys) (return_line items)) (\<lambda>stockInItems.
          bindM (stockIn E tenantId userId
                   \<lparr>in_locationId = sale_locationId x, in_referenceType = Some RETURN,
                    in_referenceId = Some refundId, in_note = Some (''Refund: '' @ crf_reason dto),
                    in_items = stockInItems\<rparr> True) (\<lambda>_.
          ret ()))
      | _ \<Rightarrow> ret ())"

definition refund_tx ::
  "env \<Rightarrow> id \<Rightarrow> id \<Rightarrow> sale \<Rightarrow> sale_item list \<Rightarrow> money \<Rightarrow> create_refund_dto \<Rightarrow> sale_refund handler" where
  "refund_tx E tenantId userId x items totalRefunded dto =
     bindM (generateRefundNumber E tenantId) (\<lambda>refundNumber.
     bindM (insert_refund E (refund_row E tenantId userId x dto refundNumber)) (\<lambda>refund.
     bindM (return_stock E tenantId userId x items dto (ref_id refund)) (\<lambda>_.
     let newTotalRefunded = totalRefunded + e_dec E (crf_amount dto);
         newStatus = (if sale_paidAmount x - sale_changeAmount x \<le> newTotalRefunded
                      then SaleRefunded else SalePartiallyRefunded) in
     bindM (update_sale (\<lambda>y. sale_id y = sale_id x) (\<lambda>y. y\<lparr>sale_status := newStatus\<rparr>)) (\<lambda>_.
     ret refund))))"

definition refund_total :: "id \<Rightarrow> db \<Rightarrow> money" where
  "refund_total saleId s = sum_where (\<lambda>r. ref_saleId r = saleId) ref_amount (refunds s)"

definition createRefund :: "env \<Rightarrow> id \<Rightarrow> id \<Rightarrow> id \<Rightarrow> create_refund_dto \<Rightarrow> refund_response handler" where
  "createRefund E tenantId userId saleId dto =
     bindM (readM (find_sale tenantId saleId)) (\<lambda>found.
     bindM (readM (items_of saleId)) (\<lambda>items.
     bindM (require found (NotFoundException SaleNotFound)) (\<lambda>x.
     bindM (throw_if (sale_status x \<noteq> SaleCompleted \<and> sale_status x \<noteq> SalePartiallyRefunded)
              (BadRequestException (CannotRefund (sale_status x)))) (\<lambda>_.
     bindM (readM (refund_total (sale_id x))) (\<lambda>totalRefunded.
     let maxRefundable = sale_paidAmount x - totalRefunded - sale_changeAmount x in
     bindM (throw_if (maxRefundable < e_dec E (crf_amount dto))
              (BadRequestException (RefundTooLarge maxRefundable))) (\<lambda>_.
     bindM (transaction (refund_tx E tenantId userId x items totalRefunded dto)) (\<lambda>r.
     bindM (dispatchUpdateDailySales tenantId (sale_locationId x) (ref_processedAt r)) (\<lambda>_.
     ret \<lparr>rfr_id = ref_id r, rfr_refundNumber = ref_refundNumber r, rfr_amount = ref_amount r,
          rfr_method = ref_method r, rfr_status = ref_status r, rfr_reason = ref_reason r,
          rfr_saleId = ref_saleId r, rfr_processedAt = ref_processedAt r\<rparr>))))))))"

section \<open>What has been paid and paid back\<close>

text \<open>What matters for refunds: of each sale its payment, its change and its status, and the refunds. A
  handler is \<open>calm\<close> if it leaves that alone; identifiers are only ever used up.\<close>

definition settled where
  "settled s = (map (\<lambda>x. (sale_id x, sale_paidAmount x, sale_changeAmount x, sale_status x)) (sales s), refunds s)"

definition calm :: "db \<Rightarrow> db \<Rightarrow> bool" where
  "calm s s' \<longleftrightarrow> settled s' = settled s \<and> nextId s \<le> nextId s'"

definition keeps_refunds :: "db \<Rightarrow> db \<Rightarrow> bool" where
  "keeps_refunds s s' \<longleftrightarrow> refunds s' = refunds s \<and> nextId s \<le> nextId s'"

interpretation calm: frame calm
  by unfold_locales (auto simp: calm_def)

interpretation kept: frame keeps_refunds
  by unfold_locales (auto simp: keeps_refunds_def)

lemma calm_keeps_refunds: "calm s s' \<Longrightarrow> keeps_refunds s s'"
  by (simp add: calm_def keeps_refunds_def settled_def)

lemma calm_fresh_id: "obeys calm (fresh_id E)"
  by (auto simp: obeys_def calm_def settled_def)

lemma calm_stock:
  "obeys calm (updateBalance p l t d)" "obeys calm (create_movement E row)"
  "obeys calm (createLayer E p l t q c m b)" "obeys calm (issue_stock E t u l rt ri nt p q)"
proof -
  show "obeys calm (updateBalance p l t d)"
    unfolding obeys_def by (intro allI impI, drule updateBalance_frame, erule ssubst) (simp add: calm_def settled_def)
  show "obeys calm (create_movement E row)"
    by (auto simp: obeys_def calm_def settled_def create_movement_run)
  show "obeys calm (createLayer E p l t q c m b)"
    by (auto simp: obeys_def calm_def settled_def createLayer_def run_simps)
  show "obeys calm (issue_stock E t u l rt ri nt p q)"
    unfolding obeys_def by (intro allI impI, drule issue_stock_frame, erule ssubst) (simp add: calm_def settled_def)
qed

lemma calm_stockIn: "obeys calm (stockIn E t u dto tx)"
  unfolding stockIn_def stockIn_execute_def in_transaction_def record_receipt_def receive_item_def Let_def
  by (intro calm.parts calm_stock) (intro calm.of_readonly svc_intros)+

lemma calm_stockOut: "obeys calm (stockOut E t u dto tx)"
  unfolding stockOut_def stockOut_execute_def in_transaction_def stockOut_item_def
  by (intro calm.parts calm_stock) (intro calm.of_readonly svc_intros)+

lemma calm_reservations:
  "obeys calm (create_reservation E t u dto)" "obeys calm (releaseReservations t c p)"
proof -
  have "s' = s \<or> s' = reserved_state E t u dto s" if "create_reservation E t u dto s = (r, s')" for s r s'
    using that create_run [of t s dto E u] by (cases "reservable t s dto") auto
  then show "obeys calm (create_reservation E t u dto)"
    unfolding obeys_def calm_def settled_def by (fastforce simp: reserved_state_def Let_def)
  show "obeys calm (releaseReservations t c p)"
    unfolding releaseReservations_def release_reservation_def cancelExpiry_def
    by (intro calm.parts; simp add: calm_def settled_def)
qed

lemma settled_update:
  assumes "\<And>x. (sale_id (f x), sale_paidAmount (f x), sale_changeAmount (f x), sale_status (f x)) =
      (sale_id x, sale_paidAmount x, sale_changeAmount x, sale_status x)"
  shows "calm s (s\<lparr>sales := update_where P f (sales s)\<rparr>)"
  using assms by (simp add: calm_def settled_def map_update_where)

lemma calm_cart:
  "obeys calm (addItem E t u c a)" "obeys calm (updateItem E t u c i d)" "obeys calm (removeItem E t c i)"
proof -
  have recalc: "obeys calm (recalculateCart E c)"
    unfolding recalculateCart_def Let_def by (intro calm.parts settled_update) simp
  have put: "obeys calm (put_item E c a p x y z ex)" for p x y z ex
    unfolding put_item_def Let_def by (intro calm.parts calm_fresh_id; simp add: calm_def settled_def)
  have del: "obeys calm (delete_sale_item i)"
    unfolding delete_sale_item_def by (intro calm.parts; simp add: calm_def settled_def)
  note shown = calm.parts recalc put del calm_reservations calm.of_readonly [OF readonly_getCart(1)]
    calm.of_readonly [OF readonly_getCart(2)] calm.of_readonly [OF readonly_now]
  show "obeys calm (addItem E t u c a)" unfolding addItem_def Let_def by (intro shown)
  show "obeys calm (updateItem E t u c i d)"
    unfolding updateItem_def Let_def by (intro shown; simp add: calm_def settled_def)
  show "obeys calm (removeItem E t c i)" unfolding removeItem_def by (intro shown)
qed

lemma kept_by_sales:
  "obeys keeps_refunds (createCart E t u c)" "obeys keeps_refunds (sale_tx E t u d items totals)"
  "obeys keeps_refunds (complete_sale E t u i m)" "obeys keeps_refunds (void_sale E t u i reason)"
  "obeys keeps_refunds cleanupAbandonedCarts"
proof -
  have fresh: "obeys keeps_refunds (fresh_id E)" by (auto simp: obeys_def keeps_refunds_def)
  have insert: "obeys keeps_refunds (insert_sale E row)" for row
    unfolding insert_sale_def by (intro kept.parts fresh kept.of_readonly [OF readonly_now]; simp add: keeps_refunds_def)
  have number: "obeys keeps_refunds (generateSaleNumber E t)"
    unfolding generateSaleNumber_def by (intro kept.parts kept.of_readonly [OF readonly_now])
  have pay: "obeys keeps_refunds (create_payment E j u p)" for j p
    unfolding create_payment_def
    by (intro kept.parts fresh kept.of_readonly [OF readonly_now]; simp add: keeps_refunds_def)
  have item: "obeys keeps_refunds (create_sale_item E j x)" for j x
    unfolding create_sale_item_def by (intro kept.parts fresh; simp add: keeps_refunds_def)
  have out: "obeys keeps_refunds (stockOut E t u dto tx)" for dto tx
    by (rule obeys_mono [OF calm_stockOut calm_keeps_refunds])
  have move: "obeys keeps_refunds (create_movement E row)" for row
    by (rule obeys_mono [OF calm_stock(2) calm_keeps_refunds])
  note shown = kept.parts insert number pay item out move kept.of_readonly [OF readonly_now]
    kept.of_readonly [OF readonly_sale_checks(5)]
  show "obeys keeps_refunds (createCart E t u c)" unfolding createCart_def by (intro shown)
  show "obeys keeps_refunds (sale_tx E t u d items totals)" unfolding sale_tx_def by (intro shown)
  show "obeys keeps_refunds (complete_sale E t u i m)"
    unfolding complete_sale_def findDraftSale_def executeCompletionTransaction_def processPayments_def
      dispatchUpdateDailySales_def Let_def
    by (intro shown; simp add: keeps_refunds_def)
  show "obeys keeps_refunds (void_sale E t u i reason)"
    unfolding void_sale_def executeVoidTransaction_def void_item_def
    by (intro shown; simp add: keeps_refunds_def)
  show "obeys keeps_refunds cleanupAbandonedCarts"
    unfolding cleanupAbandonedCarts_def cleanup_tx_def releaseReservedQuantities_def give_back_def
    by (intro shown; simp add: keeps_refunds_def)
qed

text \<open>The books of refunds. No sale has been paid back more than was kept of its payments; a sale marked as
  refunded has been paid back exactly that; a cart has no refunds. Stored amounts have four decimals.\<close>

definition refund_ok :: "db \<Rightarrow> sale \<Rightarrow> bool" where
  "refund_ok s x \<longleftrightarrow> four_decimals (sale_paidAmount x) \<and> four_decimals (sale_changeAmount x) \<and>
     refund_total (sale_id x) s \<le> max 0 (sale_paidAmount x - sale_changeAmount x) \<and>
     (sale_status x = SaleRefunded \<longrightarrow> refund_total (sale_id x) s = sale_paidAmount x - sale_changeAmount x) \<and>
     (sale_status x = SaleDraft \<longrightarrow> (\<forall>r \<in> set (refunds s). ref_saleId r \<noteq> sale_id x))"

definition refunds_ok :: "env \<Rightarrow> db \<Rightarrow> bool" where
  "refunds_ok E s \<longleftrightarrow> distinct (map sale_id (sales s)) \<and>
     ids_used E s (sale_id ` set (sales s) \<union> ref_saleId ` set (refunds s)) \<and>
     (\<forall>r \<in> set (refunds s). four_decimals (ref_amount r)) \<and> (\<forall>x \<in> set (sales s). refund_ok s x)"

lemma refund_total_cong: "refunds s' = refunds s \<Longrightarrow> refund_total i s' = refund_total i s"
  by (simp add: refund_total_def)

lemma refund_ok_cong:
  assumes "refunds s' = refunds s" "sale_id y = sale_id x" "sale_paidAmount y = sale_paidAmount x"
    "sale_changeAmount y = sale_changeAmount x" "sale_status y = sale_status x"
  shows "refund_ok s' y = refund_ok s x"
  using assms by (simp add: refund_ok_def refund_total_def)

lemma refunds_ok_calm:
  assumes "refunds_ok E s" "calm s s'"
  shows "refunds_ok E s'"
proof -
  let ?v = "\<lambda>x. (sale_id x, sale_paidAmount x, sale_changeAmount x, sale_status x)"
  have v: "map ?v (sales s') = map ?v (sales s)" and r: "refunds s' = refunds s" and n: "nextId s \<le> nextId s'"
    using assms(2) by (auto simp: calm_def settled_def)
  have ids: "map sale_id (sales s') = map sale_id (sales s)"
    using arg_cong [OF v, of "map fst"] by (simp add: o_def)
  have "refund_ok s' y" if y: "y \<in> set (sales s')" for y
  proof -
    have "?v y \<in> set (map ?v (sales s))" using y unfolding v [symmetric] by auto
    then obtain x where "x \<in> set (sales s)" "?v y = ?v x" by auto
    with assms(1) refund_ok_cong [OF r, of y x] show ?thesis by (auto simp: refunds_ok_def)
  qed
  moreover have "sale_id ` set (sales s') = sale_id ` set (sales s)" using ids by (metis list.set_map)
  ultimately show ?thesis
    using assms(1) n unfolding refunds_ok_def ids r by (auto intro: ids_used_mono)
qed

text \<open>A new sale has no refunds, its identifier being new.\<close>

lemma refunds_ok_append:
  assumes "refunds_ok E s" "sales s' = sales s @ [x]" "refunds s' = refunds s" "Suc (nextId s) \<le> nextId s'"
    and "sale_id x = e_uuid E (nextId s)" "four_decimals (sale_paidAmount x)" "four_decimals (sale_changeAmount x)"
    and "sale_status x \<noteq> SaleRefunded"
  shows "refunds_ok E s'"
proof -
  have fresh: "sale_id x \<notin> sale_id ` set (sales s) \<union> ref_saleId ` set (refunds s)"
    unfolding assms(5) by (rule ids_used_fresh) (use assms(1) in \<open>simp add: refunds_ok_def\<close>)
  then have none: "\<forall>r \<in> set (refunds s). ref_saleId r \<noteq> sale_id x" by (auto simp: image_iff)
  then have "refund_total (sale_id x) s' = 0"
    unfolding refund_total_def assms(3) by (intro sum_where_False) auto
  then have "refund_ok s' x" using none assms by (simp add: refund_ok_def)
  moreover have "refund_ok s' y" if "y \<in> set (sales s)" for y
    using that assms(1) refund_ok_cong [OF assms(3)] by (auto simp: refunds_ok_def)
  moreover have "ids_used E s' (sale_id ` set (sales s') \<union> ref_saleId ` set (refunds s'))"
    by (rule ids_used_mono [of E s "sale_id ` set (sales s) \<union> ref_saleId ` set (refunds s)"])
      (use assms in \<open>auto simp: refunds_ok_def\<close>)
  ultimately show ?thesis using assms(1-3) fresh by (auto simp: refunds_ok_def)
qed

lemma refunds_ok_update:
  assumes "refunds_ok E s" "sales s' = update_where (\<lambda>y. sale_id y = i) f (sales s)" "keeps_refunds s s'"
    and f: "\<And>y. sale_id (f y) = sale_id y"
    and upd: "\<And>x. x \<in> set (sales s) \<Longrightarrow> sale_id x = i \<Longrightarrow> refund_ok s x \<Longrightarrow> refund_ok s (f x)"
  shows "refunds_ok E s'"
proof -
  have r: "refunds s' = refunds s" "nextId s \<le> nextId s'" using assms(3) by (simp_all add: keeps_refunds_def)
  have ids: "map sale_id (sales s') = map sale_id (sales s)" unfolding assms(2) by (rule map_update_where) (rule f)
  then have "sale_id ` set (sales s') = sale_id ` set (sales s)" by (metis list.set_map)
  moreover have "refund_ok s' y" if "y \<in> set (sales s')" for y
    using that assms(1) upd refund_ok_cong [OF r(1), of y y] by (auto simp: refunds_ok_def assms(2) set_update_where)
  ultimately show ?thesis
    using assms(1) r(2) unfolding refunds_ok_def ids r(1) by (auto intro: ids_used_mono)
qed

lemma refunds_ok_filter:
  assumes "refunds_ok E s" "sales s' = filter P (sales s)" "keeps_refunds s s'"
  shows "refunds_ok E s'"
proof -
  have r: "refunds s' = refunds s" "nextId s \<le> nextId s'" using assms(3) by (simp_all add: keeps_refunds_def)
  have "refund_ok s' y" if "y \<in> set (sales s')" for y
    using that assms(1) refund_ok_cong [OF r(1), of y y] by (auto simp: refunds_ok_def assms(2))
  moreover have "ids_used E s' (sale_id ` set (sales s') \<union> ref_saleId ` set (refunds s'))"
    by (rule ids_used_mono [of E s "sale_id ` set (sales s) \<union> ref_saleId ` set (refunds s)"])
      (use assms r in \<open>auto simp: refunds_ok_def\<close>)
  ultimately show ?thesis using assms(1) by (auto simp: refunds_ok_def assms(2) r(1) distinct_map_filter)
qed

lemma sale_id_unique:
  "refunds_ok E s \<Longrightarrow> x \<in> set (sales s) \<Longrightarrow> y \<in> set (sales s) \<Longrightarrow> sale_id x = sale_id y \<Longrightarrow> x = y"
  unfolding refunds_ok_def by (metis (no_types, lifting) distinct_map inj_onD)

lemma find_sale_row: "find_sale t i s = Some x \<Longrightarrow> x \<in> set (sales s) \<and> sale_id x = i \<and> sale_tenantId x = t"
  by (auto simp: find_sale_def dest: find_SomeD)

text \<open>The other requests of the point of sale keep the books.\<close>

lemma createCart_refunds:
  assumes "refunds_ok E s" "createCart E t u c s = (r, s')"
  shows "refunds_ok E s'"
proof -
  have "s' = s \<or> (\<exists>n. s' = s\<lparr>nextId := Suc (nextId s),
      sales := sales s @ [empty_cart t u c n (e_uuid E (nextId s)) (clock s)]\<rparr>)"
    using assms(2) unfolding createCart_def insert_sale_def generateSaleNumber_def
    by (auto simp: bindM_run bindM_fresh_id bindM_def transaction_def split: if_splits)
  then show ?thesis
    using assms(1) four_decimals_arith(1)
    by (auto intro!: refunds_ok_append [OF assms(1)] simp: empty_cart_def)
qed

lemma quick_sale_refunds:
  assumes col: "column_rounds E" and ok: "refunds_ok E s" and run: "create_sale E t u dto s = (r, s')"
  shows "refunds_ok E s'"
proof -
  have ids: "ids_used E s (sale_id ` set (sales s))" using ok by (auto simp: refunds_ok_def ids_used_def)
  from run ids show ?thesis
  proof (cases rule: create_sale_cases)
    case (refused e)
    then show ?thesis using ok by simp
  next
    case (sold pm costs x s1)
    obtain n res where x: "x = sold_row E t u dto (calculateTotals E (map (process_item E pm costs) (csd_items dto))
          (csd_discountAmount dto) (csd_payments dto)) n (e_uuid E (nextId s)) (clock s)"
      and out: "stockOut E t u (issue_of dto (map (process_item E pm costs) (csd_items dto)) (e_uuid E (nextId s))) True
        (rung_up E t u dto (map (process_item E pm costs) (csd_items dto)) (calculateTotals E (map (process_item E pm costs)
          (csd_items dto)) (csd_discountAmount dto) (csd_payments dto)) n s) = (Inr res, s1)"
      and sales: "sales s1 = sales s @ [x]"
      by (rule sale_tx_Inr [OF sold(2) ids]) simp
    have "refunds s1 = refunds s" using obeysD [OF kept_by_sales(2) sold(2)] by (simp add: keeps_refunds_def)
    moreover have "Suc (nextId s) \<le> nextId s1"
      using obeysD [OF calm_stockOut out] by (simp add: calm_def rung_up_def Let_def)
    moreover have "four_decimals (e_col E m)" for m using col by (simp add: column_rounds_def)
    ultimately show ?thesis
      using sales by (intro refunds_ok_append [OF ok, of s' x]) (auto simp: sold(3) x sold_row_def)
  qed
qed

lemma complete_sale_atomic: "atomic (complete_sale E t u i dto)"
proof -
  have ro: "readonly (findDraftSale t i)" unfolding findDraftSale_def by (intro svc_intros)
  have "atomic (bindM (executeCompletionTransaction E t u x dto outs totals) (\<lambda>y.
      bindM (dispatchUpdateDailySales t (sale_locationId y) (sale_createdAt y)) (\<lambda>_. readM (\<lambda>s. formatDetailResponse s y))))" for x outs totals
    unfolding executeCompletionTransaction_def dispatchUpdateDailySales_def
    by (rule atomic_bindM_ret, rule atomic_transaction) (simp add: run_simps)
  then show ?thesis
    unfolding complete_sale_def Let_def
    by (intro atomic_readonly_bindM ro) (auto split: prod.split intro!: atomic_readonly_bindM [OF readonly_sale_checks(5)])
qed

lemma complete_sale_refunds:
  assumes col: "column_rounds E" and ok: "refunds_ok E s" and run: "complete_sale E t u i dto s = (r, s')"
  shows "refunds_ok E s'"
proof (cases r)
  case (Inl e)
  with atomicD [OF complete_sale_atomic] run ok show ?thesis by blast
next
  case (Inr d)
  obtain x f where x: "find_sale t i s = Some x" "sale_status x = SaleDraft"
    and s': "sales s' = update_where (\<lambda>y. sale_id y = i) f (sales s)"
    and f: "\<And>y. sale_id (f y) = sale_id y \<and> four_decimals (sale_paidAmount (f y)) \<and>
        four_decimals (sale_changeAmount (f y)) \<and> sale_status (f y) = SaleCompleted"
    by (rule complete_sale_Inr [OF run [unfolded Inr]], rule that, assumption+)
      (use col in \<open>simp add: completed_def column_rounds_def\<close>)
  show ?thesis
  proof (rule refunds_ok_update [OF ok s'])
    show "keeps_refunds s s'" by (rule obeysD [OF kept_by_sales(3) run])
    show "sale_id (f y) = sale_id y" for y using f by blast
    fix y assume y: "y \<in> set (sales s)" "sale_id y = i" "refund_ok s y"
    then have "y = x" using sale_id_unique [OF ok] find_sale_row [OF x(1)] by blast
    with x(2) y(3) have none: "\<forall>r \<in> set (refunds s). ref_saleId r \<noteq> sale_id y" by (simp add: refund_ok_def)
    then have "refund_total (sale_id y) s = 0" unfolding refund_total_def by (intro sum_where_False) auto
    then show "refund_ok s (f y)" using f none by (simp add: refund_ok_def)
  qed
qed

lemma void_sale_refunds:
  assumes ok: "refunds_ok E s" and run: "void_sale E' t u i reason s = (r, s')"
  shows "refunds_ok E s'"
proof (cases r)
  case (Inl e)
  with atomicD [OF void_sale_atomic] run ok show ?thesis by blast
next
  case (Inr v)
  have keep: "keeps sales (forM items (void_item E' t u x reason))" for items x
    by (intro svc_intros) (simp add: keeps_def void_item_run)
  let ?f = "\<lambda>y. y\<lparr>sale_status := SaleVoided, sale_voidedAt := Some (clock s), sale_voidedById := Some u,
      sale_voidReason := Some reason\<rparr>"
  obtain x s1 us where x: "find_sale t i s = Some x" "sale_status x = SaleCompleted"
    and s1: "s1 = s\<lparr>sales := update_where (\<lambda>y. sale_id y = sale_id x) ?f (sales s)\<rparr>"
    and items: "forM (items_of i s) (void_item E' t u x reason) s1 = (Inr us, s')"
    using run Inr by (auto simp: void_sale_def executeVoidTransaction_def bindM_Inr transaction_Inr run_simps update_row_def
        split: if_splits)
  have s': "sales s' = update_where (\<lambda>y. sale_id y = i) ?f (sales s)"
    using keepsD [OF keep items] find_sale_row [OF x(1)] by (simp add: s1)
  show ?thesis
  proof (rule refunds_ok_update [OF ok s'])
    show "keeps_refunds s s'" by (rule obeysD [OF kept_by_sales(4) run])
    fix y assume y: "y \<in> set (sales s)" "sale_id y = i" "refund_ok s y"
    then show "refund_ok s (?f y)" by (simp add: refund_ok_def)
  qed simp
qed

lemma cleanup_refunds:
  assumes ok: "refunds_ok E s" and run: "cleanupAbandonedCarts s = (r, s')"
  shows "refunds_ok E s'"
proof -
  have "\<exists>P. sales s' = filter P (sales s)"
  proof -
    have "sales s' = sales s \<or> (\<exists>ids. sales s' = filter (\<lambda>x. sale_id x \<notin> set ids) (sales s))"
      using run by (auto simp: cleanupAbandonedCarts_def bindM_fresh_id bindM_run bindM_def split: if_splits prod.splits sum.splits
          dest!: cleanup_tx_view)
    then show ?thesis by (metis filter_True)
  qed
  then obtain P where "sales s' = filter P (sales s)" by blast
  then show ?thesis by (rule refunds_ok_filter [OF ok]) (rule obeysD [OF kept_by_sales(5) run])
qed

section \<open>Lemmas: a refund\<close>

lemma four_decimals_less:
  assumes "four_decimals x" "four_decimals y" "x < y"
  shows "x + 1 / 10000 \<le> y"
proof -
  from assms obtain a b :: int where ab: "x = of_int a / 10000" "y = of_int b / 10000"
    by (auto simp: four_decimals_def)
  with assms(3) have "a < b" by simp
  then have "(of_int (a + 1) :: rat) \<le> of_int b" by (intro of_int_le_iff [THEN iffD2]) simp
  with ab show ?thesis by (simp add: field_simps)
qed

text \<open>Rounding an amount does not lift it over a bound that has four decimals.\<close>

lemma stored_le:
  assumes "column_rounds E" "four_decimals m" "e_dec E a \<le> m"
  shows "stored E a \<le> m" "e_dec E a = m \<Longrightarrow> stored E a = m"
proof -
  have c: "four_decimals (stored E a)" "\<bar>stored E a - e_dec E a\<bar> \<le> 1 / 20000"
    using assms(1) by (simp_all add: column_rounds_def stored_def)
  show "stored E a \<le> m"
  proof (rule ccontr)
    assume "\<not> stored E a \<le> m"
    then have "m + 1 / 10000 \<le> stored E a" using four_decimals_less [OF assms(2) c(1)] by simp
    with c(2) assms(3) show False by linarith
  qed
  show "e_dec E a = m \<Longrightarrow> stored E a = m"
    using column_exact [OF assms(1,2)] by (simp add: stored_def)
qed

lemma insert_refund_Inr:
  assumes "insert_refund E row s = (Inr r, s')"
  shows "r = row (e_uuid E (nextId s)) (clock s)" "s' = s\<lparr>refunds := refunds s @ [r], nextId := Suc (nextId s)\<rparr>"
  using assms by (auto simp: insert_refund_def run_simps split: if_splits)

lemma calm_return_stock: "obeys calm (return_stock E t u x items dto i)"
  unfolding return_stock_def return_line_def
  by (cases "crf_items dto"; simp; (intro calm.parts)?) (auto split: list.split intro!: calm.parts calm_stockIn simp del: forM.simps)

definition refund_status :: "sale \<Rightarrow> money \<Rightarrow> SaleStatus" where
  "refund_status x total1 =
     (if sale_paidAmount x - sale_changeAmount x \<le> total1 then SaleRefunded else SalePartiallyRefunded)"

lemma refund_tx_Inr:
  assumes "refund_tx E t u x items total1 dto s = (Inr r, s')"
  obtains n s1 s2 v where "r = refund_row E t u x dto n (e_uuid E (nextId s)) (clock s)"
    "s1 = s\<lparr>refunds := refunds s @ [r], nextId := Suc (nextId s)\<rparr>"
    "return_stock E t u x items dto (ref_id r) s1 = (Inr v, s2)"
    "s' = s2\<lparr>sales := update_where (\<lambda>y. sale_id y = sale_id x)
       (\<lambda>y. y\<lparr>sale_status := refund_status x (total1 + e_dec E (crf_amount dto))\<rparr>) (sales s2)\<rparr>"
proof -
  obtain n where n: "generateRefundNumber E t s = (Inr n, s)" by (simp add: generateRefundNumber_def bindM_fresh_id)
  from assms n obtain r' s1 v s2 where 1: "insert_refund E (refund_row E t u x dto n) s = (Inr r', s1)"
    and 2: "return_stock E t u x items dto (ref_id r') s1 = (Inr v, s2)"
    and 3: "r = r'" "s' = s2\<lparr>sales := update_where (\<lambda>y. sale_id y = sale_id x)
       (\<lambda>y. y\<lparr>sale_status := refund_status x (total1 + e_dec E (crf_amount dto))\<rparr>) (sales s2)\<rparr>"
    by (auto simp: refund_tx_def bindM_Inr Let_def refund_status_def [symmetric] update_row_def split: if_splits)
  show thesis by (rule that [of n s1 v s2]) (use 2 3 insert_refund_Inr [OF 1] in auto)
qed

lemma createRefund_cases:
  assumes "createRefund E t u i dto s = (r, s')"
  obtains (refused) e where "r = Inl e" "s' = s"
  | (paid_back) x v s1 d where "find_sale t i s = Some x"
    "sale_status x = SaleCompleted \<or> sale_status x = SalePartiallyRefunded"
    "e_dec E (crf_amount dto) \<le> sale_paidAmount x - refund_total (sale_id x) s - sale_changeAmount x"
    "refund_tx E t u x (items_of i s) (refund_total (sale_id x) s) dto s = (Inr v, s1)"
    "s' = s1\<lparr>reportJobs := reportJobs s1 @ [d]\<rparr>" "r = Inr \<lparr>rfr_id = ref_id v, rfr_refundNumber = ref_refundNumber v,
       rfr_amount = ref_amount v, rfr_method = ref_method v, rfr_status = ref_status v, rfr_reason = ref_reason v,
       rfr_saleId = ref_saleId v, rfr_processedAt = ref_processedAt v\<rparr>"
proof -
  let ?tx = "\<lambda>x. refund_tx E t u x (items_of i s) (refund_total (sale_id x) s) dto"
  show thesis
  proof (cases "find_sale t i s")
    case None
    with assms refused show thesis by (auto simp: createRefund_def bindM_run bindM_def)
  next
    case (Some x)
    obtain out s1 where tx: "?tx x s = (out, s1)" by force
    show thesis
    proof (cases out)
      case (Inl e)
      have "\<exists>e. r = Inl e \<and> s' = s"
        using assms Some Inl tx
        by (auto simp: createRefund_def bindM_run bindM_def Let_def transaction_def split: if_splits)
      then show thesis using refused by blast
    next
      case (Inr v)
      let ?ok = "(sale_status x = SaleCompleted \<or> sale_status x = SalePartiallyRefunded) \<and>
        e_dec E (crf_amount dto) \<le> sale_paidAmount x - refund_total (sale_id x) s - sale_changeAmount x"
      let ?res = "\<lparr>rfr_id = ref_id v, rfr_refundNumber = ref_refundNumber v, rfr_amount = ref_amount v,
        rfr_method = ref_method v, rfr_status = ref_status v, rfr_reason = ref_reason v,
        rfr_saleId = ref_saleId v, rfr_processedAt = ref_processedAt v\<rparr>"
      have "(\<exists>e. r = Inl e \<and> s' = s) \<or> ?ok \<and> r = Inr ?res \<and>
          s' = s1\<lparr>reportJobs := reportJobs s1 @ [(t, sale_locationId x, utc_day (ref_processedAt v))]\<rparr>"
        using assms Some Inr tx
        by (simp add: createRefund_def bindM_run bindM_def Let_def transaction_def dispatchUpdateDailySales_def not_less
            split: if_splits) auto
      then show thesis
        using refused paid_back [OF Some _ _ tx [unfolded Inr]] by blast
    qed
  qed
qed

text \<open>The refund itself: once its row is there, and once the status of the sale is set.\<close>

lemma refund_row_ok:
  assumes ok: "refunds_ok E s" and x: "x \<in> set (sales s)" "sale_status x \<noteq> SaleDraft" "sale_status x \<noteq> SaleRefunded"
    and r: "ref_saleId r = sale_id x" "four_decimals (ref_amount r)"
      "ref_amount r \<le> sale_paidAmount x - refund_total (sale_id x) s - sale_changeAmount x"
    and s': "s' = s\<lparr>refunds := refunds s @ [r], nextId := Suc (nextId s)\<rparr>"
  shows "refunds_ok E s'"
proof -
  have total: "refund_total j s' = refund_total j s + (if sale_id x = j then ref_amount r else 0)" for j
    by (simp add: refund_total_def s' r(1))
  have "refund_ok s' y" if y: "y \<in> set (sales s)" for y
  proof (cases "y = x")
    case True
    then show ?thesis using ok x r(3) total [of "sale_id x"] by (auto simp: refunds_ok_def refund_ok_def max_def)
  next
    case False
    then have "sale_id y \<noteq> sale_id x" using sale_id_unique [OF ok y x(1)] by blast
    then show ?thesis
      using ok y total [of "sale_id y"] r(1) by (auto simp: refunds_ok_def refund_ok_def s')
  qed
  moreover have "ids_used E s' (sale_id ` set (sales s') \<union> ref_saleId ` set (refunds s'))"
    by (rule ids_used_mono [of E s "sale_id ` set (sales s) \<union> ref_saleId ` set (refunds s)"])
      (use ok x(1) r(1) in \<open>auto simp: refunds_ok_def s'\<close>)
  ultimately show ?thesis using ok r(2) by (auto simp: refunds_ok_def s')
qed

lemma refund_refunds:
  assumes col: "column_rounds E" and ok: "refunds_ok E s" and run: "createRefund E t u i dto s = (r, s')"
  shows "refunds_ok E s'"
  using run
proof (cases rule: createRefund_cases)
  case (refused e)
  then show ?thesis using ok by simp
next
  case (paid_back x v s1 d)
  let ?m = "sale_paidAmount x - refund_total (sale_id x) s - sale_changeAmount x"
  have x: "x \<in> set (sales s)" using find_sale_row [OF paid_back(1)] by blast
  have m4: "four_decimals ?m"
    using ok x four_decimals_sum [of "filter (\<lambda>r. ref_saleId r = sale_id x) (refunds s)" ref_amount]
    by (auto simp: refunds_ok_def refund_ok_def refund_total_def sum_where_def intro!: four_decimals_arith)
  obtain n sa sb w where v: "v = refund_row E t u x dto n (e_uuid E (nextId s)) (clock s)"
    and sa: "sa = s\<lparr>refunds := refunds s @ [v], nextId := Suc (nextId s)\<rparr>"
    and sb: "return_stock E t u x (items_of i s) dto (ref_id v) sa = (Inr w, sb)"
    and s1: "s1 = sb\<lparr>sales := update_where (\<lambda>y. sale_id y = sale_id x) (\<lambda>y. y\<lparr>sale_status :=
      refund_status x (refund_total (sale_id x) s + e_dec E (crf_amount dto))\<rparr>) (sales sb)\<rparr>"
    by (rule refund_tx_Inr [OF paid_back(4)])
  have amount: "ref_amount v = stored E (crf_amount dto)" "ref_saleId v = sale_id x"
    by (simp_all add: v refund_row_def)
  note le = stored_le [OF col m4 paid_back(3)]
  have "refunds_ok E sa"
    by (rule refund_row_ok [OF ok x _ _ amount(2) _ _ sa])
      (use paid_back(2) le(1) amount(1) stored_four [OF col] in auto)
  moreover have calm: "calm sa sb" by (rule obeysD [OF calm_return_stock sb])
  ultimately have okb: "refunds_ok E sb" by (rule refunds_ok_calm)
  let ?f = "\<lambda>y. y\<lparr>sale_status := refund_status x (refund_total (sale_id x) s + e_dec E (crf_amount dto))\<rparr>"
  have "refunds_ok E s1"
  proof (rule refunds_ok_update [OF okb, of s1 "sale_id x" ?f])
    show "keeps_refunds sb s1" by (simp add: keeps_refunds_def s1)
    fix y assume y: "y \<in> set (sales sb)" "sale_id y = sale_id x" "refund_ok sb y"
    let ?v = "\<lambda>x. (sale_id x, sale_paidAmount x, sale_changeAmount x, sale_status x)"
    have "?v y \<in> set (map ?v (sales s))"
      using calm y(1) by (simp add: calm_def settled_def sa) (metis (no_types, lifting) image_eqI list.set_map)
    then obtain x' where "x' \<in> set (sales s)" "?v y = ?v x'" by auto
    then have same: "sale_paidAmount y = sale_paidAmount x" "sale_changeAmount y = sale_changeAmount x"
      using sale_id_unique [OF ok _ x] y(2) by auto
    have "refunds sb = refunds s @ [v]" using calm by (simp add: calm_def settled_def sa)
    then have "refund_total (sale_id x) sb = refund_total (sale_id x) s + stored E (crf_amount dto)"
      by (simp add: refund_total_def amount)
    moreover have "stored E (crf_amount dto) = ?m"
      if "refund_status x (refund_total (sale_id x) s + e_dec E (crf_amount dto)) = SaleRefunded"
      using that paid_back(3) by (intro le(2)) (simp add: refund_status_def split: if_splits)
    ultimately show "refund_ok sb (?f y)"
      using y(2,3) same by (auto simp: refund_ok_def refund_status_def)
  qed (simp_all add: s1)
  moreover have "calm s1 s'" by (simp add: paid_back(5) calm_def settled_def)
  ultimately show ?thesis by (rule refunds_ok_calm)
qed

section \<open>Properties\<close>

text \<open>Everything that happens at the point of sale.\<close>

inductive pos_step :: "env \<Rightarrow> db \<Rightarrow> db \<Rightarrow> bool" for E where
  pos_cart: "createCart E t u cdto s = (r, s') \<Longrightarrow> pos_step E s s'"
| pos_add: "addItem E t u c adto s = (r, s') \<Longrightarrow> pos_step E s s'"
| pos_change: "updateItem E t u c i udto s = (r, s') \<Longrightarrow> pos_step E s s'"
| pos_remove: "removeItem E t c i s = (r, s') \<Longrightarrow> pos_step E s s'"
| pos_cleanup: "cleanupAbandonedCarts s = (r', s') \<Longrightarrow> pos_step E s s'"
| pos_sell: "create_sale E t u sdto s = (r'', s') \<Longrightarrow> pos_step E s s'"
| pos_complete: "complete_sale E t u i mdto s = (r'', s') \<Longrightarrow> pos_step E s s'"
| pos_void: "void_sale E t u i reason s = (r1, s') \<Longrightarrow> pos_step E s s'"
| pos_refund: "createRefund E t u i rdto s = (r2, s') \<Longrightarrow> pos_step E s s'"
| pos_others: "calm s s' \<Longrightarrow> pos_step E s s'"

inductive_cases pos_stepE: "pos_step E s s'"

text \<open>C27: Whatever is done at the point of sale, in whatever order, failed requests included: no sale is ever
  paid back more than was kept of its payments (payments less change), rounding notwithstanding, and a sale
  marked as refunded has been paid back exactly that.\<close>

theorem refunds_never_exceed:
  assumes "column_rounds E" "refunds_ok E s" "(pos_step E)\<^sup>*\<^sup>* s s'"
  shows "refunds_ok E s'"
  using assms(3)
proof (induction rule: rtranclp_induct)
  case base
  show ?case by (rule assms(2))
next
  case (step s1 s2)
  from step(2,3) show ?case
    by (elim pos_stepE)
      (blast intro: createCart_refunds refunds_ok_calm cleanup_refunds quick_sale_refunds [OF assms(1)]
        complete_sale_refunds [OF assms(1)] void_sale_refunds refund_refunds [OF assms(1)]
        obeysD [OF calm_cart(1)] obeysD [OF calm_cart(2)] obeysD [OF calm_cart(3)])+
qed

definition pay_back :: "rat \<Rightarrow> refund_item list option \<Rightarrow> create_refund_dto" where
  "pay_back a items = \<lparr>crf_amount = a, crf_method = CASH, crf_reason = ''broken'', crf_items = items\<rparr>"

text \<open>Two pens sold for 29; the sale has the identifier 2 and its item the identifier 3.\<close>

definition sold_db :: db where
  "sold_db = snd (create_sale env0 ''t'' ''u'' (pens_sold (5/2)) bal_db)"

lemma sold_db_ok: "refunds_ok env0 sold_db"
proof -
  have "refunds_ok env0 bal_db" by (simp add: refunds_ok_def bal_db_def db0_def ids_used_def inj_nat_id)
  with column_rounds_env0 show ?thesis
    unfolding sold_db_def by (rule quick_sale_refunds [OF _ _ surjective_pairing])
qed

theorem refunds_never_exceed_witness:
  "\<exists>r s. createRefund env0 ''t'' ''u'' (nat_id 2) (pay_back 29 None) sold_db = (Inr r, s) \<and> refunds_ok env0 s \<and>
     fst (createRefund env0 ''t'' ''u'' (nat_id 2) (pay_back 1 None) s) = Inl (BadRequestException (CannotRefund SaleRefunded))"
proof -
  let ?run = "createRefund env0 ''t'' ''u'' (nat_id 2) (pay_back 29 None) sold_db"
  have "(case fst ?run of Inl _ \<Rightarrow> False | Inr _ \<Rightarrow> True) \<and>
     fst (createRefund env0 ''t'' ''u'' (nat_id 2) (pay_back 1 None) (snd ?run)) = Inl (BadRequestException (CannotRefund SaleRefunded))"
    unfolding sold_db_def by (intro conjI; code_simp)
  then obtain r s where run: "?run = (Inr r, s)"
    and again: "fst (createRefund env0 ''t'' ''u'' (nat_id 2) (pay_back 1 None) s) = Inl (BadRequestException (CannotRefund SaleRefunded))"
    by (cases ?run) (auto split: sum.splits)
  have "(pos_step env0)\<^sup>*\<^sup>* sold_db s" by (rule r_into_rtranclp) (rule pos_refund [OF run])
  from refunds_never_exceed [OF column_rounds_env0 sold_db_ok this] run again show ?thesis by blast
qed

text \<open>What a refund returns to a place: the quantities it names, whatever was sold.\<close>

definition product_of :: "sale_item list \<Rightarrow> refund_item \<Rightarrow> id" where
  "product_of items y = (case List.find (\<lambda>z. si_id z = ri_saleItemId y) items of None \<Rightarrow> [] | Some z \<Rightarrow> si_productId z)"

definition returned_qty :: "id \<Rightarrow> id \<Rightarrow> sale \<Rightarrow> sale_item list \<Rightarrow> create_refund_dto \<Rightarrow> int" where
  "returned_qty p l x items dto = (case crf_items dto of None \<Rightarrow> 0
     | Some ys \<Rightarrow> \<Sum>y\<leftarrow>ys. if (product_of items y, sale_locationId x) = (p, l) then ri_quantity y else 0)"

lemma return_lines:
  "forM ys (return_line items) s = (Inr ls, s') \<Longrightarrow> s' = s \<and>
     map (\<lambda>x. (sin_productId x, sin_quantity x)) ls = map (\<lambda>y. (product_of items y, ri_quantity y)) ys"
  by (induction ys arbitrary: ls s) (auto simp: bindM_Inr return_line_def product_of_def)

lemma return_stock_effect:
  assumes dist: "distinct (map prod_id (products s))" and valid: "create_refund_valid dto"
    and run: "return_stock E t u x items dto i s = (Inr v, s')"
  shows "on_hand p l s' = on_hand p l s + returned_qty p l x items dto"
    "ledger p l s' = ledger p l s + returned_qty p l x items dto"
proof -
  have "on_hand p l s' = on_hand p l s + returned_qty p l x items dto \<and>
    ledger p l s' = ledger p l s + returned_qty p l x items dto"
  proof (cases "crf_items dto = None \<or> crf_items dto = Some []")
    case True
    with run show ?thesis by (auto simp: return_stock_def returned_qty_def)
  next
    case False
    then obtain y ys where ys: "crf_items dto = Some (y # ys)" by (cases "crf_items dto") (auto simp: neq_Nil_conv)
    define req where "req ls = \<lparr>in_locationId = sale_locationId x, in_referenceType = Some RETURN,
        in_referenceId = Some i, in_note = Some (''Refund: '' @ crf_reason dto), in_items = ls\<rparr>" for ls
    from run ys obtain ls res s1 where lines: "forM (y # ys) (return_line items) s = (Inr ls, s1)"
      and into: "stockIn E t u (req ls) True s1 = (Inr res, s')"
      by (auto simp: return_stock_def bindM_Inr req_def simp del: forM.simps)
    note ls = return_lines [OF lines]
    have pos: "\<forall>z \<in> set (in_items (req ls)). 0 \<le> sin_quantity z"
    proof
      fix z assume "z \<in> set (in_items (req ls))"
      then have "(sin_productId z, sin_quantity z) \<in> set (map (\<lambda>y. (product_of items y, ri_quantity y)) (y # ys))"
        unfolding ls [THEN conjunct2, symmetric] by (auto simp: req_def)
      with valid ys show "0 \<le> sin_quantity z" by (auto simp: create_refund_valid_def list_all_iff)
    qed
    have "stockIn_execute E t u (req ls) s = (Inr res, s')"
      using into stockIn_run [of s t "req ls" E u True] dist ls by (cases "receivable t s (req ls)") auto
    note effect = stockIn_execute_effect(1) [OF this pos] stockIn_execute_effect(2) [OF this]
    have "(\<Sum>z\<leftarrow>in_items (req ls). if (sin_productId z, in_locationId (req ls)) = (p, l) then sin_quantity z else 0) =
        returned_qty p l x items dto"
      using arg_cong [OF ls [THEN conjunct2], of "\<lambda>zs. \<Sum>z\<leftarrow>zs. if (fst z, sale_locationId x) = (p, l) then snd z else 0"]
      by (simp add: o_def req_def returned_qty_def ys cong: if_cong)
    with effect show ?thesis by simp
  qed
  then show "on_hand p l s' = on_hand p l s + returned_qty p l x items dto"
    "ledger p l s' = ledger p l s + returned_qty p l x items dto" by blast+
qed



end
