(* ===== verification/Register.thy ===== *)
theory Register
  imports Sale Frames
begin

text \<open>
  \<^verbatim>\<open>src/src/modules/pos/services/terminal.service.ts\<close> and \<^verbatim>\<open>session.service.ts\<close>: the terminals of a
  shop and the cash sessions opened on them. A session is opened on a live terminal that has none open, and
  closed with a count of the drawer, which is compared with what the payments say it should hold.

  Names of users in responses are left out, and so are the free-form counts of denominations; \<^verbatim>\<open>toFixed(4)\<close>
  texts are kept as numbers. \<open>name_order\<close> is the database's ordering by name.
\<close>

section \<open>Terminals\<close>

record create_terminal_dto =
  ctm_name :: string
  ctm_code :: string
  ctm_locationId :: id

record update_terminal_dto =
  utm_name :: "string option"
  utm_code :: "string option"
  utm_locationId :: "id option"
  utm_isActive :: "bool option"

record terminal_query =
  tq_locationId :: "id option"
  tq_isActive :: "bool option"
  tq_search :: "string option"

record terminal_response =
  tmr_id :: id
  tmr_name :: string
  tmr_code :: string
  tmr_isActive :: bool
  tmr_locationId :: id
  tmr_createdAt :: instant
  tmr_location :: "(id \<times> string \<times> string option) option"

definition formatTerminal :: "db \<Rightarrow> terminal \<Rightarrow> terminal_response" where
  "formatTerminal s x = \<lparr>tmr_id = term_id x, tmr_name = term_name x, tmr_code = term_code x,
     tmr_isActive = term_isActive x, tmr_locationId = term_locationId x, tmr_createdAt = term_createdAt x,
     tmr_location = map_option (\<lambda>l. (loc_id l, loc_name l, loc_code l))
       (List.find (\<lambda>l. loc_id l = term_locationId x) (locations s))\<rparr>"

definition find_terminal :: "id \<Rightarrow> id \<Rightarrow> db \<Rightarrow> terminal option" where
  "find_terminal tenantId i s =
     List.find (\<lambda>x. term_id x = i \<and> term_tenantId x = tenantId \<and> term_deletedAt x = None) (terminals s)"

definition location_of_tenant :: "id \<Rightarrow> id \<Rightarrow> db \<Rightarrow> bool" where
  "location_of_tenant tenantId i s = list_ex (\<lambda>l. loc_id l = i \<and> loc_tenantId l = tenantId) (locations s)"

text \<open>The unique index on code and tenant: it knows nothing of deletion.\<close>

definition create_terminal :: "env \<Rightarrow> id \<Rightarrow> id \<Rightarrow> create_terminal_dto \<Rightarrow> terminal_response handler" where
  "create_terminal E tenantId userId dto =
     bindM (readM (location_of_tenant tenantId (ctm_locationId dto))) (\<lambda>ok.
     bindM (throw_if (\<not> ok) (NotFoundException LocationNotFound)) (\<lambda>_.
     bindM (readM (\<lambda>s. list_ex (\<lambda>x. term_code x = ctm_code dto \<and> term_tenantId x = tenantId \<and>
              term_deletedAt x = None) (terminals s))) (\<lambda>existingCode.
     bindM (throw_if existingCode (ConflictException (TerminalCodeTaken (ctm_code dto)))) (\<lambda>_.
     bindM (fresh_id E) (\<lambda>i. bindM now (\<lambda>t.
     bindM (readM (\<lambda>s. list_ex (\<lambda>x. term_code x = ctm_code dto \<and> term_tenantId x = tenantId) (terminals s))) (\<lambda>taken.
     bindM (throw_if taken UniqueConstraint) (\<lambda>_.
     let x = \<lparr>term_id = i, term_name = ctm_name dto, term_code = ctm_code dto, term_isActive = True,
              term_locationId = ctm_locationId dto, term_tenantId = tenantId, term_createdById = Some userId,
              term_createdAt = t, term_deletedAt = None\<rparr> in
     bindM (writeM (\<lambda>s. s\<lparr>terminals := terminals s @ [x]\<rparr>)) (\<lambda>_.
     readM (\<lambda>s. formatTerminal s x))))))))))"

definition terminal_filter :: "env \<Rightarrow> id \<Rightarrow> terminal_query \<Rightarrow> terminal \<Rightarrow> bool" where
  "terminal_filter E tenantId q x \<longleftrightarrow> term_tenantId x = tenantId \<and> term_deletedAt x = None \<and>
     (empty_string (tq_locationId q) \<or> term_locationId x = the (tq_locationId q)) \<and>
     (case tq_isActive q of None \<Rightarrow> True | Some b \<Rightarrow> term_isActive x = b) \<and>
     (empty_string (tq_search q) \<or> e_ilike E (js_trim (the (tq_search q))) (term_name x) \<or>
        e_ilike E (js_trim (the (tq_search q))) (term_code x))"

definition findAll_terminals ::
  "env \<Rightarrow> id \<Rightarrow> page_query \<Rightarrow> terminal_query \<Rightarrow> (page_meta \<times> terminal_response list) handler" where
  "findAll_terminals E tenantId pq q = readM (\<lambda>s.
     let w = getPagination pq;
         rows = filter (terminal_filter E tenantId q) (terminals s);
         page = page_rows (pw_skip w) (pw_take w) (sort_key (\<lambda>x. - term_createdAt x) rows)
     in (generatePaginationMeta (pw_page w) (pw_take w) (int (length rows)) (pw_skip w),
         map (formatTerminal s) page))"

definition findOne_terminal :: "id \<Rightarrow> id \<Rightarrow> terminal_response handler" where
  "findOne_terminal tenantId i =
     bindM (readM (find_terminal tenantId i)) (\<lambda>found.
     bindM (require found (NotFoundException TerminalNotFound)) (\<lambda>x.
     readM (\<lambda>s. formatTerminal s x)))"

definition patch_terminal :: "update_terminal_dto \<Rightarrow> terminal \<Rightarrow> terminal" where
  "patch_terminal dto x = x\<lparr>
     term_name := (if empty_string (utm_name dto) then term_name x else the (utm_name dto)),
     term_code := (if empty_string (utm_code dto) then term_code x else the (utm_code dto)),
     term_locationId := (if empty_string (utm_locationId dto) then term_locationId x else the (utm_locationId dto)),
     term_isActive := (case utm_isActive dto of None \<Rightarrow> term_isActive x | Some b \<Rightarrow> b)\<rparr>"

definition update_terminal_by :: "id \<Rightarrow> id \<Rightarrow> update_terminal_dto \<Rightarrow> terminal_response handler" where
  "update_terminal_by tenantId i dto =
     bindM (readM (find_terminal tenantId i)) (\<lambda>found.
     bindM (require found (NotFoundException TerminalNotFound)) (\<lambda>existing.
     bindM (readM (\<lambda>s. empty_string (utm_locationId dto) \<or>
              location_of_tenant tenantId (the (utm_locationId dto)) s)) (\<lambda>ok.
     bindM (throw_if (\<not> ok) (NotFoundException LocationNotFound)) (\<lambda>_.
     bindM (readM (\<lambda>s. \<not> empty_string (utm_code dto) \<and> the (utm_code dto) \<noteq> term_code existing \<and>
              list_ex (\<lambda>x. term_code x = the (utm_code dto) \<and> term_tenantId x = tenantId \<and>
                term_deletedAt x = None \<and> term_id x \<noteq> i) (terminals s))) (\<lambda>duplicateCode.
     bindM (throw_if duplicateCode (ConflictException (TerminalCodeTaken (the (utm_code dto))))) (\<lambda>_.
     bindM (readM (\<lambda>s. list_ex (\<lambda>x. term_code x = term_code (patch_terminal dto existing) \<and>
              term_tenantId x = tenantId \<and> term_id x \<noteq> i) (terminals s))) (\<lambda>taken.
     bindM (throw_if taken UniqueConstraint) (\<lambda>_.
     bindM (update_terminal (\<lambda>x. term_id x = i) (patch_terminal dto)) (\<lambda>_.
     readM (\<lambda>s. formatTerminal s (patch_terminal dto existing)))))))))))"

definition remove_terminal :: "id \<Rightarrow> id \<Rightarrow> unit handler" where
  "remove_terminal tenantId i =
     bindM (readM (find_terminal tenantId i)) (\<lambda>found.
     bindM (require found (NotFoundException TerminalNotFound)) (\<lambda>_.
     bindM (readM (\<lambda>s. list_ex (\<lambda>x. ses_terminalId x = i \<and> ses_status x = SesOpen) (sessions s))) (\<lambda>openSession.
     bindM (throw_if openSession (BadRequestException OpenSessionBlocksDelete)) (\<lambda>_.
     bindM now (\<lambda>t.
     update_terminal (\<lambda>x. term_id x = i) (\<lambda>x. x\<lparr>term_deletedAt := Some t, term_isActive := False\<rparr>))))))"

definition getActiveByLocation ::
  "(terminal list \<Rightarrow> terminal list) \<Rightarrow> id \<Rightarrow> id \<Rightarrow> (id \<times> string \<times> string \<times> bool \<times> id \<times> instant) list handler" where
  "getActiveByLocation name_order tenantId locationId = readM (\<lambda>s.
     map (\<lambda>x. (term_id x, term_name x, term_code x, term_isActive x, term_locationId x, term_createdAt x))
       (name_order (filter (\<lambda>x. term_tenantId x = tenantId \<and> term_locationId x = locationId \<and>
          term_isActive x \<and> term_deletedAt x = None) (terminals s))))"

section \<open>Sessions\<close>

record open_session_dto =
  osd_terminalId :: id
  osd_openingBalance :: rat
  osd_notes :: "string option"

record close_session_dto =
  cls_closingBalance :: rat
  cls_notes :: "string option"

record session_query =
  ssq_terminalId :: "id option"
  ssq_status :: "SessionStatus option"
  ssq_dateFrom :: "instant option"
  ssq_dateTo :: "instant option"

record session_response =
  ssr_session :: session
  ssr_terminalName :: "string option"

record session_detail_response =
  sdt_session :: session
  sdt_terminal :: "(id \<times> string \<times> string) option"
  sdt_totalSales :: nat
  sdt_totalCashReceived :: money

definition terminal_of :: "session \<Rightarrow> db \<Rightarrow> terminal option" where
  "terminal_of x s = List.find (\<lambda>y. term_id y = ses_terminalId x) (terminals s)"

definition formatSession :: "db \<Rightarrow> session \<Rightarrow> session_response" where
  "formatSession s x = \<lparr>ssr_session = x, ssr_terminalName = map_option term_name (terminal_of x s)\<rparr>"

definition formatSessionDetail :: "db \<Rightarrow> session \<Rightarrow> nat \<Rightarrow> money \<Rightarrow> session_detail_response" where
  "formatSessionDetail s x totalSales totalCashReceived =
     \<lparr>sdt_session = x,
      sdt_terminal = map_option (\<lambda>y. (term_id y, term_name y, term_code y)) (terminal_of x s),
      sdt_totalSales = totalSales, sdt_totalCashReceived = totalCashReceived\<rparr>"

definition generateSessionNumber :: "env \<Rightarrow> id \<Rightarrow> string handler" where
  "generateSessionNumber E tenantId =
     bindM now (\<lambda>t.
     readM (\<lambda>s. next_number (year_prefix ''SES'' (e_year E t)) 5
       (map ses_sessionNumber (filter (\<lambda>x. ses_tenantId x = tenantId) (sessions s)))))"

definition open_row :: "env \<Rightarrow> id \<Rightarrow> id \<Rightarrow> open_session_dto \<Rightarrow> string \<Rightarrow> id \<Rightarrow> instant \<Rightarrow> session" where
  "open_row E tenantId userId dto n i t =
     \<lparr>ses_id = i, ses_sessionNumber = n, ses_openingBalance = stored E (osd_openingBalance dto),
      ses_closingBalance = None, ses_expectedBalance = None, ses_variance = None, ses_status = SesOpen,
      ses_openedAt = t, ses_closedAt = None, ses_notes = osd_notes dto, ses_terminalId = osd_terminalId dto,
      ses_openedById = userId, ses_closedById = None, ses_tenantId = tenantId\<rparr>"

definition insert_session :: "env \<Rightarrow> (id \<Rightarrow> instant \<Rightarrow> session) \<Rightarrow> session handler" where
  "insert_session E row =
     bindM (fresh_id E) (\<lambda>i. bindM now (\<lambda>t.
     bindM (readM (\<lambda>s. list_ex (\<lambda>x. ses_sessionNumber x = ses_sessionNumber (row i t) \<and>
              ses_tenantId x = ses_tenantId (row i t)) (sessions s))) (\<lambda>taken.
     bindM (throw_if taken UniqueConstraint) (\<lambda>_.
     bindM (writeM (\<lambda>s. s\<lparr>sessions := sessions s @ [row i t]\<rparr>)) (\<lambda>_.
     ret (row i t))))))"

definition open_session :: "env \<Rightarrow> id \<Rightarrow> id \<Rightarrow> open_session_dto \<Rightarrow> session_response handler" where
  "open_session E tenantId userId dto =
     bindM (readM (\<lambda>s. list_ex (\<lambda>x. term_id x = osd_terminalId dto \<and> term_tenantId x = tenantId \<and>
              term_isActive x \<and> term_deletedAt x = None) (terminals s))) (\<lambda>terminal.
     bindM (throw_if (\<not> terminal) (NotFoundException TerminalInactive)) (\<lambda>_.
     bindM (readM (\<lambda>s. List.find (\<lambda>x. ses_terminalId x = osd_terminalId dto \<and> ses_status x = SesOpen)
              (sessions s))) (\<lambda>existingSession.
     bindM (throw_if (existingSession \<noteq> None)
              (ConflictException (TerminalHasOpenSession (ses_sessionNumber (the existingSession))))) (\<lambda>_.
     bindM (transaction (
       bindM (generateSessionNumber E tenantId) (\<lambda>n.
       insert_session E (open_row E tenantId userId dto n)))) (\<lambda>x.
     readM (\<lambda>s. formatSession s x))))))"

text \<open>The completed sales of a session, and the cash paid for them.\<close>

definition sales_of_session :: "id \<Rightarrow> db \<Rightarrow> sale list" where
  "sales_of_session sessionId s =
     filter (\<lambda>x. sale_sessionId x = Some sessionId \<and> sale_status x = SaleCompleted) (sales s)"

definition cash_received :: "id \<Rightarrow> db \<Rightarrow> money" where
  "cash_received sessionId s = sum_where (\<lambda>p. pay_method p = CASH \<and> pay_status p = PayCompleted \<and>
     list_ex (\<lambda>x. sale_id x = pay_saleId p) (sales_of_session sessionId s)) pay_amount (payments s)"

definition find_session :: "id \<Rightarrow> id \<Rightarrow> db \<Rightarrow> session option" where
  "find_session tenantId i s = List.find (\<lambda>x. ses_id x = i \<and> ses_tenantId x = tenantId) (sessions s)"

definition closing_notes :: "session \<Rightarrow> close_session_dto \<Rightarrow> string option" where
  "closing_notes x dto = (if empty_string (cls_notes dto) then ses_notes x
     else Some (js_trim ((case ses_notes x of Some n \<Rightarrow> n | None \<Rightarrow> []) @ [CHR 0x0A] @ the (cls_notes dto))))"

definition closed_row :: "env \<Rightarrow> id \<Rightarrow> close_session_dto \<Rightarrow> session \<Rightarrow> money \<Rightarrow> instant \<Rightarrow> session \<Rightarrow> session" where
  "closed_row E userId dto x cashReceived t y =
     (let expectedBalance = ses_openingBalance x + cashReceived;
          actualClosing = e_dec E (cls_closingBalance dto);
          variance = actualClosing - expectedBalance in
      y\<lparr>ses_status := SesClosed, ses_closingBalance := Some (e_col E actualClosing),
        ses_expectedBalance := Some (e_col E expectedBalance), ses_variance := Some (e_col E variance),
        ses_notes := closing_notes x dto, ses_closedAt := Some t, ses_closedById := Some userId\<rparr>)"

definition close_session :: "env \<Rightarrow> id \<Rightarrow> id \<Rightarrow> id \<Rightarrow> close_session_dto \<Rightarrow> session_detail_response handler" where
  "close_session E tenantId userId sessionId dto =
     bindM (readM (find_session tenantId sessionId)) (\<lambda>found.
     bindM (require found (NotFoundException SessionNotFound)) (\<lambda>x.
     bindM (throw_if (ses_status x \<noteq> SesOpen) (BadRequestException (CannotCloseSession (ses_status x)))) (\<lambda>_.
     bindM (readM (cash_received sessionId)) (\<lambda>cashReceived.
     bindM now (\<lambda>t.
     bindM (update_session (\<lambda>y. ses_id y = sessionId) (closed_row E userId dto x cashReceived t)) (\<lambda>_.
     bindM (readM (\<lambda>s. length (sales_of_session sessionId s))) (\<lambda>salesCount.
     readM (\<lambda>s. formatSessionDetail s (closed_row E userId dto x cashReceived t x) salesCount cashReceived))))))))"

definition session_filter :: "id \<Rightarrow> session_query \<Rightarrow> session \<Rightarrow> bool" where
  "session_filter tenantId q x \<longleftrightarrow> ses_tenantId x = tenantId \<and>
     (empty_string (ssq_terminalId q) \<or> ses_terminalId x = the (ssq_terminalId q)) \<and>
     (case ssq_status q of None \<Rightarrow> True | Some st \<Rightarrow> ses_status x = st) \<and>
     (case ssq_dateFrom q of None \<Rightarrow> True | Some d \<Rightarrow> d \<le> ses_openedAt x) \<and>
     (case ssq_dateTo q of None \<Rightarrow> True | Some d \<Rightarrow> ses_openedAt x \<le> d)"

definition findAll_sessions :: "id \<Rightarrow> page_query \<Rightarrow> session_query \<Rightarrow> (page_meta \<times> session_response list) handler" where
  "findAll_sessions tenantId pq q = readM (\<lambda>s.
     let w = getPagination pq;
         rows = filter (session_filter tenantId q) (sessions s);
         page = page_rows (pw_skip w) (pw_take w) (sort_key (\<lambda>x. - ses_openedAt x) rows)
     in (generatePaginationMeta (pw_page w) (pw_take w) (int (length rows)) (pw_skip w),
         map (formatSession s) page))"

definition findOne_session :: "id \<Rightarrow> id \<Rightarrow> session_detail_response handler" where
  "findOne_session tenantId i =
     bindM (readM (find_session tenantId i)) (\<lambda>found.
     bindM (require found (NotFoundException SessionNotFound)) (\<lambda>x.
     readM (\<lambda>s. formatSessionDetail s x (length (sales_of_session i s)) (cash_received i s))))"

definition getOpenSession :: "id \<Rightarrow> id \<Rightarrow> session_response option handler" where
  "getOpenSession tenantId terminalId = readM (\<lambda>s.
     map_option (formatSession s) (List.find (\<lambda>x. ses_terminalId x = terminalId \<and> ses_tenantId x = tenantId \<and>
       ses_status x = SesOpen) (sessions s)))"

section \<open>Lemmas\<close>

text \<open>At most one session is open on a terminal, and a terminal with an open session is live.\<close>

definition open_sessions :: "db \<Rightarrow> session list" where
  "open_sessions s = filter (\<lambda>x. ses_status x = SesOpen) (sessions s)"

definition live_terminal :: "id \<Rightarrow> db \<Rightarrow> bool" where
  "live_terminal i s \<longleftrightarrow> list_ex (\<lambda>x. term_id x = i \<and> term_deletedAt x = None) (terminals s)"

definition tills_ok :: "env \<Rightarrow> db \<Rightarrow> bool" where
  "tills_ok E s \<longleftrightarrow> distinct (map ses_terminalId (open_sessions s)) \<and>
     list_all (\<lambda>x. live_terminal (ses_terminalId x) s) (open_sessions s) \<and>
     distinct (map ses_id (sessions s)) \<and> distinct (map term_id (terminals s)) \<and>
     ids_used E s (ses_id ` set (sessions s) \<union> term_id ` set (terminals s))"

lemma tills_ok_cong:
  assumes "tills_ok E s" "sessions s' = sessions s" "terminals s' = terminals s" "nextId s \<le> nextId s'"
  shows "tills_ok E s'"
  using assms unfolding tills_ok_def open_sessions_def live_terminal_def
  by (auto intro: ids_used_mono)

lemma insert_session_Inr:
  assumes "insert_session E row s = (Inr x, s')"
  shows "x = row (e_uuid E (nextId s)) (clock s)" "s' = s\<lparr>sessions := sessions s @ [x], nextId := Suc (nextId s)\<rparr>"
  using assms by (auto simp: insert_session_def run_simps split: if_splits)

lemma open_session_cases:
  assumes "open_session E t u dto s = (r, s')"
  obtains (refused) e where "r = Inl e" "s' = s"
  | (opened) n where "live_terminal (osd_terminalId dto) s" "\<forall>x \<in> set (open_sessions s). ses_terminalId x \<noteq> osd_terminalId dto"
    "s' = s\<lparr>sessions := sessions s @ [open_row E t u dto n (e_uuid E (nextId s)) (clock s)], nextId := Suc (nextId s)\<rparr>"
    "r = Inr (formatSession s' (open_row E t u dto n (e_uuid E (nextId s)) (clock s)))"
  using assms unfolding open_session_def
  apply -
  apply (erule after_check, intro svc_intros, erule (1) refused)
  apply (erule after_check, intro svc_intros, erule (1) refused)
  apply (erule after_check, intro svc_intros, erule (1) refused)
  apply (erule after_check, intro svc_intros, erule (1) refused)
  subgoal premises prems for terminal a existing b
  proof -
    have live: "live_terminal (osd_terminalId dto) s" and none: "\<forall>x \<in> set (open_sessions s). ses_terminalId x \<noteq> osd_terminalId dto"
      using prems(3-6) by (auto simp: live_terminal_def list_ex_iff open_sessions_def find_None_iff' split: if_splits)
    obtain n where n: "generateSessionNumber E t s = (Inr n, s)" by (simp add: generateSessionNumber_def bindM_fresh_id)
    let ?m = "bindM (generateSessionNumber E t) (\<lambda>n. insert_session E (open_row E t u dto n))"
    obtain out s1 where out: "?m s = (out, s1)" by force
    show thesis
    proof (cases out)
      case (Inl e)
      then show thesis using prems(7) out refused by (auto simp: bindM_def transaction_def)
    next
      case (Inr x)
      have "insert_session E (open_row E t u dto n) s = (Inr x, s1)" using out Inr n by (simp add: bindM_def)
      note insert_session_Inr [OF this]
      then show thesis using prems(7) out Inr opened [OF live none, of n] by (auto simp: bindM_def transaction_def)
    qed
  qed
  done

lemma close_session_cases:
  assumes "close_session E t u i dto s = (r, s')"
  obtains (refused) e where "r = Inl e" "s' = s"
  | (closed) x where "find_session t i s = Some x" "ses_status x = SesOpen"
    "s' = s\<lparr>sessions := update_where (\<lambda>y. ses_id y = i) (closed_row E u dto x (cash_received i s) (clock s)) (sessions s)\<rparr>"
    "r = Inr (formatSessionDetail s' (closed_row E u dto x (cash_received i s) (clock s) x)
       (length (sales_of_session i s')) (cash_received i s))"
  using assms unfolding close_session_def
  by (cases "find_session t i s") (auto simp: run_simps bindM_def split: if_splits)

text \<open>The requests keep the tills.\<close>

lemma ses_id_unique:
  "tills_ok E s \<Longrightarrow> x \<in> set (sessions s) \<Longrightarrow> y \<in> set (sessions s) \<Longrightarrow> ses_id x = ses_id y \<Longrightarrow> x = y"
  unfolding tills_ok_def by (metis (no_types, lifting) distinct_map inj_onD)

lemma open_session_tills:
  assumes ok: "tills_ok E s" and run: "open_session E t u dto s = (r, s')"
  shows "tills_ok E s'"
  using run
proof (cases rule: open_session_cases)
  case (refused e)
  then show ?thesis using ok by simp
next
  case (opened n)
  define x where "x = open_row E t u dto n (e_uuid E (nextId s)) (clock s)"
  have x: "ses_id x = e_uuid E (nextId s)" "ses_terminalId x = osd_terminalId dto" "ses_status x = SesOpen"
    by (simp_all add: x_def open_row_def)
  have s': "sessions s' = sessions s @ [x]" "terminals s' = terminals s" "nextId s' = Suc (nextId s)"
    using opened(3) by (simp_all add: x_def)
  have opens: "open_sessions s' = open_sessions s @ [x]" by (simp add: open_sessions_def s' x)
  have live: "live_terminal i s' = live_terminal i s" for i by (simp add: live_terminal_def s')
  have "e_uuid E (nextId s) \<notin> ses_id ` set (sessions s) \<union> term_id ` set (terminals s)"
    by (rule ids_used_fresh) (use ok in \<open>simp add: tills_ok_def\<close>)
  moreover have "ids_used E s' (ses_id ` set (sessions s') \<union> term_id ` set (terminals s'))"
    by (rule ids_used_mono [of E s "ses_id ` set (sessions s) \<union> term_id ` set (terminals s)"])
      (use ok x s' in \<open>auto simp: tills_ok_def\<close>)
  ultimately show ?thesis
    using ok opened(1,2) x by (auto simp: tills_ok_def opens live s' list_all_iff)
qed

lemma close_session_tills:
  assumes ok: "tills_ok E s" and run: "close_session E t u i dto s = (r, s')"
  shows "tills_ok E s'"
  using run
proof (cases rule: close_session_cases)
  case (refused e)
  then show ?thesis using ok by simp
next
  case (closed x)
  let ?f = "closed_row E u dto x (cash_received i s) (clock s)"
  have f: "ses_id (?f y) = ses_id y" "ses_status (?f y) = SesClosed" "ses_terminalId (?f y) = ses_terminalId y" for y
    by (simp_all add: closed_row_def Let_def)
  have s': "sessions s' = update_where (\<lambda>y. ses_id y = i) ?f (sessions s)" "terminals s' = terminals s"
    "nextId s' = nextId s" using closed(3) by simp_all
  have "open_sessions s' = filter (\<lambda>y. ses_id y \<noteq> i) (open_sessions s)"
  proof -
    have "filter (\<lambda>x. ses_status x = SesOpen) (update_where (\<lambda>y. ses_id y = i) ?f xs) =
        filter (\<lambda>y. ses_id y \<noteq> i) (filter (\<lambda>x. ses_status x = SesOpen) xs)" for xs
      by (induction xs) (auto simp: f)
    then show ?thesis unfolding open_sessions_def s' .
  qed
  moreover have ids: "map ses_id (sessions s') = map ses_id (sessions s)"
    unfolding s' by (rule map_update_where) (rule f)
  moreover have "ses_id ` set (sessions s') = ses_id ` set (sessions s)" using ids by (metis list.set_map)
  ultimately show ?thesis
    using ok unfolding tills_ok_def by (auto simp: live_terminal_def s' ids_used_def list_all_iff distinct_map_filter)
qed

lemma create_terminal_Inr:
  assumes "create_terminal E t u dto s = (Inr d, s')"
  shows "\<exists>x. s' = s\<lparr>nextId := Suc (nextId s), terminals := terminals s @ [x]\<rparr> \<and> term_id x = e_uuid E (nextId s) \<and>
    term_code x = ctm_code dto \<and> term_tenantId x = t \<and>
    (\<forall>y \<in> set (terminals s). term_code y = ctm_code dto \<longrightarrow> term_tenantId y \<noteq> t)"
  using assms unfolding create_terminal_def Let_def
  by (auto simp: run_simps list_ex_iff split: if_splits)

lemma create_terminal_Inl:
  assumes "create_terminal E t u dto s = (Inl e, s')"
  shows "sessions s' = sessions s" "terminals s' = terminals s" "nextId s \<le> nextId s'"
  using assms unfolding create_terminal_def Let_def
  by (auto simp: run_simps split: if_splits)

lemma live_terminal_mono:
  "set (terminals s) \<subseteq> set (terminals s') \<Longrightarrow> live_terminal i s \<Longrightarrow> live_terminal i s'"
  by (auto simp: live_terminal_def list_ex_iff)

lemma create_terminal_tills:
  assumes ok: "tills_ok E s" and run: "create_terminal E t u dto s = (r, s')"
  shows "tills_ok E s'"
proof (cases r)
  case (Inl e)
  show ?thesis by (rule tills_ok_cong [OF ok]) (use create_terminal_Inl [OF run [unfolded Inl]] in auto)
next
  case (Inr d)
  obtain x where s': "s' = s\<lparr>nextId := Suc (nextId s), terminals := terminals s @ [x]\<rparr>" "term_id x = e_uuid E (nextId s)"
    using create_terminal_Inr [OF run [unfolded Inr]] by blast
  have "e_uuid E (nextId s) \<notin> ses_id ` set (sessions s) \<union> term_id ` set (terminals s)"
    by (rule ids_used_fresh) (use ok in \<open>simp add: tills_ok_def\<close>)
  moreover have "ids_used E s' (ses_id ` set (sessions s') \<union> term_id ` set (terminals s'))"
    by (rule ids_used_mono [of E s "ses_id ` set (sessions s) \<union> term_id ` set (terminals s)"])
      (use ok s' in \<open>auto simp: tills_ok_def\<close>)
  moreover have "open_sessions s' = open_sessions s" "set (terminals s) \<subseteq> set (terminals s')"
    by (auto simp: open_sessions_def s')
  ultimately show ?thesis
    using ok live_terminal_mono [of s s'] unfolding tills_ok_def by (auto simp: list_all_iff s')
qed

text \<open>An update of a terminal keeps its identifier; only a removal deletes, and only without open sessions.\<close>

lemma terminal_update_tills:
  assumes ok: "tills_ok E s" and s': "s' = s\<lparr>terminals := update_where (\<lambda>x. term_id x = i) f (terminals s)\<rparr>"
    and f: "\<And>x. term_id (f x) = term_id x"
    and live: "(\<forall>x. term_deletedAt (f x) = term_deletedAt x) \<or> (\<forall>x \<in> set (open_sessions s). ses_terminalId x \<noteq> i)"
  shows "tills_ok E s'"
proof -
  have ids: "map term_id (terminals s') = map term_id (terminals s)"
    unfolding s' by simp (rule map_update_where, rule f)
  then have "term_id ` set (terminals s') = term_id ` set (terminals s)" by (metis list.set_map)
  moreover have "live_terminal (ses_terminalId x) s'" if "x \<in> set (open_sessions s)" for x
  proof -
    from ok that have "live_terminal (ses_terminalId x) s" by (auto simp: tills_ok_def list_all_iff)
    then obtain y where y: "y \<in> set (terminals s)" "term_id y = ses_terminalId x" "term_deletedAt y = None"
      by (auto simp: live_terminal_def list_ex_iff)
    let ?y = "if term_id y = i then f y else y"
    have "?y \<in> set (terminals s')" using y(1) by (auto simp: s' set_update_where)
    moreover have "term_id ?y = ses_terminalId x" "term_deletedAt ?y = None"
      using y(2,3) f live that by (auto split: if_splits)
    ultimately show ?thesis unfolding live_terminal_def list_ex_iff by blast
  qed
  ultimately show ?thesis
    using ok unfolding tills_ok_def ids by (auto simp: open_sessions_def s' list_all_iff ids_used_def)
qed

lemma update_terminal_tills:
  assumes ok: "tills_ok E s" and run: "update_terminal_by t i dto s = (r, s')"
  shows "tills_ok E s'"
proof -
  have "s' = s \<or> s' = s\<lparr>terminals := update_where (\<lambda>x. term_id x = i) (patch_terminal dto) (terminals s)\<rparr>"
    using run unfolding update_terminal_by_def
    apply -
    apply (erule after_check, intro svc_intros, simp)+
    apply (auto simp: run_simps split: if_splits)
    done
  moreover have "tills_ok E (s\<lparr>terminals := update_where (\<lambda>x. term_id x = i) (patch_terminal dto) (terminals s)\<rparr>)"
    by (rule terminal_update_tills [OF ok refl]) (simp_all add: patch_terminal_def)
  ultimately show ?thesis using ok by auto
qed

lemma remove_terminal_tills:
  assumes ok: "tills_ok E s" and run: "remove_terminal t i s = (r, s')"
  shows "tills_ok E s'"
proof -
  let ?f = "\<lambda>x. x\<lparr>term_deletedAt := Some (clock s), term_isActive := False\<rparr>"
  have "s' = s \<or> s' = s\<lparr>terminals := update_where (\<lambda>x. term_id x = i) ?f (terminals s)\<rparr> \<and>
      (\<forall>x \<in> set (open_sessions s). ses_terminalId x \<noteq> i)"
    using run unfolding remove_terminal_def open_sessions_def
    by (cases "find_terminal t i s") (auto simp: run_simps bindM_def list_ex_iff split: if_splits)
  moreover have "tills_ok E (s\<lparr>terminals := update_where (\<lambda>x. term_id x = i) ?f (terminals s)\<rparr>)"
    if "\<forall>x \<in> set (open_sessions s). ses_terminalId x \<noteq> i"
    by (rule terminal_update_tills [OF ok refl]) (use that in simp_all)
  ultimately show ?thesis using ok by auto
qed

section \<open>Properties\<close>

inductive till_step :: "env \<Rightarrow> db \<Rightarrow> db \<Rightarrow> bool" for E where
  till_open: "open_session E t u odto s = (r, s') \<Longrightarrow> till_step E s s'"
| till_close: "close_session E t u i cdto s = (r1, s') \<Longrightarrow> till_step E s s'"
| till_new: "create_terminal E t u ndto s = (r2, s') \<Longrightarrow> till_step E s s'"
| till_update: "update_terminal_by t i udto s = (r2, s') \<Longrightarrow> till_step E s s'"
| till_remove: "remove_terminal t i s = (r3, s') \<Longrightarrow> till_step E s s'"
| till_others: "sessions s' = sessions s \<Longrightarrow> terminals s' = terminals s \<Longrightarrow> nextId s \<le> nextId s' \<Longrightarrow> till_step E s s'"

inductive_cases till_stepE: "till_step E s s'"

text \<open>C29: One till, one session: whatever requests arrive, one after the other, at most one session is open on a
  terminal, and no terminal with an open session is deleted.\<close>

theorem one_open_session:
  assumes "tills_ok E s" "(till_step E)\<^sup>*\<^sup>* s s'"
  shows "distinct (map ses_terminalId (open_sessions s')) \<and>
    list_all (\<lambda>x. live_terminal (ses_terminalId x) s') (open_sessions s')"
proof -
  from assms(2,1) have "tills_ok E s'"
  proof (induction rule: rtranclp_induct)
    case (step s1 s2)
    from step(2,3,4) show ?case
      by (elim till_stepE) (blast intro: open_session_tills close_session_tills create_terminal_tills
        update_terminal_tills remove_terminal_tills tills_ok_cong)+
  qed
  then show ?thesis by (simp add: tills_ok_def)
qed

text \<open>A shop with one till, on which a session is open.\<close>

definition till1 :: terminal where
  "till1 = \<lparr>term_id = ''k'', term_name = ''Till'', term_code = ''K1'', term_isActive = True, term_locationId = ''l'',
     term_tenantId = ''t'', term_createdById = None, term_createdAt = 0, term_deletedAt = None\<rparr>"

definition till_db :: db where
  "till_db = bal_db\<lparr>terminals := [till1\<lparr>term_id := nat_id 0\<rparr>]\<rparr>"

definition float :: "rat \<Rightarrow> open_session_dto" where
  "float a = \<lparr>osd_terminalId = nat_id 0, osd_openingBalance = a, osd_notes = None\<rparr>"

lemma till_db_ok: "tills_ok env0 till_db"
  by (simp add: tills_ok_def till_db_def till1_def bal_db_def db0_def open_sessions_def ids_used_def inj_nat_id)

theorem one_open_session_witness:
  "\<exists>d s. open_session env0 ''t'' ''u'' (float 100) till_db = (Inr d, s) \<and> length (open_sessions s) = 1 \<and>
     distinct (map ses_terminalId (open_sessions s)) \<and>
     fst (open_session env0 ''t'' ''v'' (float 100) s) = Inl (ConflictException (TerminalHasOpenSession ''SES-2026-00001'')) \<and>
     fst (remove_terminal ''t'' (nat_id 0) s) = Inl (BadRequestException OpenSessionBlocksDelete)"
proof -
  let ?run = "open_session env0 ''t'' ''u'' (float 100) till_db"
  have facts: "(case fst ?run of Inl _ \<Rightarrow> False | Inr _ \<Rightarrow> True)" "length (open_sessions (snd ?run)) = 1"
    "fst (open_session env0 ''t'' ''v'' (float 100) (snd ?run)) = Inl (ConflictException (TerminalHasOpenSession ''SES-2026-00001''))"
    "fst (remove_terminal ''t'' (nat_id 0) (snd ?run)) = Inl (BadRequestException OpenSessionBlocksDelete)"
    by code_simp+
  then obtain d s where run: "?run = (Inr d, s)" by (cases ?run) (auto split: sum.splits)
  have "(till_step env0)\<^sup>*\<^sup>* till_db s" by (rule r_into_rtranclp) (rule till_open [OF run])
  from one_open_session [OF till_db_ok this] run facts show ?thesis by auto
qed

text \<open>The change given out for the completed sales of a session.\<close>

definition change_given :: "id \<Rightarrow> db \<Rightarrow> money" where
  "change_given sessionId s = (\<Sum>x\<leftarrow>sales_of_session sessionId s. sale_changeAmount x)"

lemma cash_four: "list_all (\<lambda>p. four_decimals (pay_amount p)) (payments s) \<Longrightarrow> four_decimals (cash_received i s)"
  unfolding cash_received_def sum_where_def by (rule four_decimals_sum) (auto simp: list_all_iff)

lemma change_four: "list_all (\<lambda>x. four_decimals (sale_changeAmount x)) (sales s) \<Longrightarrow> four_decimals (change_given i s)"
  unfolding change_given_def sales_of_session_def by (rule four_decimals_sum) (auto simp: list_all_iff)

lemma find_session_closed:
  assumes "find_session t i s = Some x" "\<And>y. ses_id (f y) = ses_id y \<and> ses_tenantId (f y) = ses_tenantId y"
  shows "find_session t i (s\<lparr>sessions := update_where (\<lambda>y. ses_id y = i) f (sessions s)\<rparr>) = Some (f x)"
proof -
  have "find_session t i (s\<lparr>sessions := update_where (\<lambda>y. ses_id y = i) f (sessions s)\<rparr>) =
      map_option (\<lambda>y. if ses_id y = i then f y else y) (find_session t i s)"
    unfolding find_session_def using assms(2) by (simp add: find_update_where)
  moreover have "ses_id x = i" using assms(1) by (auto simp: find_session_def dest: find_SomeD)
  ultimately show ?thesis using assms(1) by simp
qed

text \<open>C32: Closing an open session always succeeds, for good. The balance it expects in the drawer is the opening
  balance and all cash paid, the change handed out not deducted: a drawer that holds exactly what it should is
  reported short by the change.\<close>

theorem close_counts_change_as_missing:
  assumes col: "column_rounds E" and x: "find_session t i s = Some x" "ses_status x = SesOpen"
    and four: "four_decimals (ses_openingBalance x)" "list_all (\<lambda>p. four_decimals (pay_amount p)) (payments s)"
      "list_all (\<lambda>y. four_decimals (sale_changeAmount y)) (sales s)"
    and drawer: "e_dec E (cls_closingBalance dto) = ses_openingBalance x + cash_received i s - change_given i s"
  shows "\<exists>d s' y. close_session E t u i dto s = (Inr d, s') \<and> sdt_session d = y \<and> find_session t i s' = Some y \<and>
    ses_status y = SesClosed \<and> ses_expectedBalance y = Some (ses_openingBalance x + cash_received i s) \<and>
    ses_variance y = Some (- change_given i s) \<and>
    fst (close_session E t u' i dto' s') = Inl (BadRequestException (CannotCloseSession SesClosed))"
proof -
  let ?f = "closed_row E u dto x (cash_received i s) (clock s)"
  let ?s' = "s\<lparr>sessions := update_where (\<lambda>y. ses_id y = i) ?f (sessions s)\<rparr>"
  have row: "x \<in> set (sessions s)" "ses_id x = i" using x(1) by (auto simp: find_session_def dest: find_SomeD)
  have run: "close_session E t u i dto s = (Inr (formatSessionDetail ?s' (?f x) (length (sales_of_session i ?s'))
      (cash_received i s)), ?s')"
    using x row by (auto simp: close_session_def run_simps bindM_def list_ex_iff)
  have found: "find_session t i ?s' = Some (?f x)"
    by (rule find_session_closed [OF x(1)]) (simp add: closed_row_def Let_def)
  note c = cash_four [OF four(2), of i] change_four [OF four(3), of i]
  have "e_col E (ses_openingBalance x + cash_received i s) = ses_openingBalance x + cash_received i s"
    by (rule column_exact [OF col]) (rule four_decimals_arith four c)+
  moreover have "e_col E (- change_given i s) = - change_given i s"
    using column_exact [OF col four_decimals_arith(3) [OF four_decimals_arith(1) c(2)]] by simp
  ultimately have "ses_status (?f x) = SesClosed" "ses_expectedBalance (?f x) = Some (ses_openingBalance x + cash_received i s)"
    "ses_variance (?f x) = Some (- change_given i s)"
    by (simp_all add: closed_row_def Let_def drawer)
  moreover have "fst (close_session E t u' i dto' ?s') = Inl (BadRequestException (CannotCloseSession SesClosed))"
    using found calculation(1) by (simp add: close_session_def run_simps bindM_def)
  ultimately show ?thesis using run found by (intro exI conjI) (auto simp: formatSessionDetail_def)
qed

text \<open>A float of 100; two pens sold for 29, paid with a note of 50. The drawer holds 129.\<close>

definition shift_db :: db where
  "shift_db = till_db\<lparr>
     sessions := [open_row env0 ''t'' ''u'' (float 100) ''SES-2026-00001'' (nat_id 2) 0],
     sales := [pen_cart\<lparr>sale_status := SaleCompleted, sale_totalAmount := 29, sale_paidAmount := 50,
       sale_changeAmount := 21, sale_sessionId := Some (nat_id 2)\<rparr>],
     payments := [payment_row env0 (nat_id 1) ''u'' 0 \<lparr>pd_method = CASH, pd_amount = 50, pd_transactionRef = None,
       pd_notes = None\<rparr> (nat_id 3)]\<rparr>"

definition drawer_count :: "rat \<Rightarrow> close_session_dto" where
  "drawer_count a = \<lparr>cls_closingBalance = a, cls_notes = None\<rparr>"

theorem close_counts_change_as_missing_witness:
  "\<exists>d s. close_session env0 ''t'' ''u'' (nat_id 2) (drawer_count 129) shift_db = (Inr d, s) \<and>
     ses_expectedBalance (sdt_session d) = Some 150 \<and> ses_variance (sdt_session d) = Some (- 21)"
proof -
  have four: "four_decimals n" if "n = of_int k" for n k
    unfolding four_decimals_def by (rule exI [of _ "k * 10000"]) (simp add: that)
  have facts: "case find_session ''t'' (nat_id 2) shift_db of None \<Rightarrow> False
      | Some x \<Rightarrow> ses_status x = SesOpen \<and> ses_openingBalance x = 100"
    "cash_received (nat_id 2) shift_db = 50" "change_given (nat_id 2) shift_db = 21"
    "map pay_amount (payments shift_db) = [50]" "map sale_changeAmount (sales shift_db) = [21]"
    by code_simp+
  then obtain x where x: "find_session ''t'' (nat_id 2) shift_db = Some x" "ses_status x = SesOpen" "ses_openingBalance x = 100"
    by (auto split: option.splits)
  have "list_all four_decimals (map pay_amount (payments shift_db))" "list_all four_decimals (map sale_changeAmount (sales shift_db))"
    unfolding facts(4,5) using four [of 50 50] four [of 21 21] by simp_all
  moreover have "four_decimals (ses_openingBalance x)" using four [of 100 100] x(3) by simp
  moreover have "e_dec env0 (cls_closingBalance (drawer_count 129)) =
      ses_openingBalance x + cash_received (nat_id 2) shift_db - change_given (nat_id 2) shift_db"
    by (simp add: drawer_count_def x(3) facts)
  ultimately show ?thesis
    using close_counts_change_as_missing [OF column_rounds_env0 x(1,2), of "drawer_count 129" "''u''"] facts(2,3) x(3)
    by (fastforce simp: list_all_iff)
qed

end
