(* ===== verification/Invoice.thy ===== *)
theory Invoice
  imports Frames Sale
begin

text \<open>
  \<^verbatim>\<open>src/src/modules/invoice\<close>: quotes, proforma invoices and invoices. A document is created as a draft,
  sent, paid or cancelled; a quote is converted into an invoice with the same lines and totals.

  The amounts of a request are JavaScript numbers turned into decimals (\<open>e_dec\<close>), stored amounts are
  rounded by their columns (\<open>e_col\<close>). Quantities and sort orders of a request may be fractions, which
  Prisma refuses for its integer columns. Texts made by \<^verbatim>\<open>Decimal.toString\<close> are kept as numbers, dates
  as instants, and a response carries the whole row of its document.
\<close>

section \<open>Requests and responses\<close>

record create_invoice_item_dto =
  cii_productId :: id
  cii_quantity :: rat
  cii_unitPrice :: rat
  cii_discountAmount :: "rat option"
  cii_taxAmount :: "rat option"
  cii_notes :: "string option"
  cii_sortOrder :: "rat option"

record create_invoice_payment_dto =
  cip_method :: PaymentMethod
  cip_amount :: rat
  cip_transactionRef :: "string option"
  cip_paymentDate :: "instant option"
  cip_notes :: "string option"

record create_invoice_dto =
  cin_documentType :: DocumentType
  cin_locationId :: id
  cin_customerId :: id
  cin_subject :: "string option"
  cin_items :: "create_invoice_item_dto list"
  cin_discountAmount :: "rat option"
  cin_dueDate :: "instant option"
  cin_validUntil :: "instant option"
  cin_paymentTerms :: "string option"
  cin_notes :: "string option"
  cin_customerNotes :: "string option"
  cin_termsConditions :: "string option"

record update_invoice_dto =
  uin_subject :: "string option"
  uin_discountAmount :: "rat option"
  uin_dueDate :: "instant option"
  uin_validUntil :: "instant option"
  uin_paymentTerms :: "string option"
  uin_notes :: "string option"
  uin_customerNotes :: "string option"
  uin_termsConditions :: "string option"

record invoice_query =
  iq_documentType :: "DocumentType option"
  iq_status :: "DocumentStatus option"
  iq_customerId :: "id option"
  iq_locationId :: "id option"
  iq_dateFrom :: "instant option"
  iq_dateTo :: "instant option"
  iq_search :: "string option"

definition create_invoice_item_valid :: "create_invoice_item_dto \<Rightarrow> bool" where
  "create_invoice_item_valid x \<longleftrightarrow> 1 \<le> cii_quantity x \<and> 0 \<le> cii_unitPrice x \<and>
     (case cii_discountAmount x of None \<Rightarrow> True | Some d \<Rightarrow> 0 \<le> d) \<and>
     (case cii_taxAmount x of None \<Rightarrow> True | Some d \<Rightarrow> 0 \<le> d) \<and>
     (case cii_sortOrder x of None \<Rightarrow> True | Some d \<Rightarrow> 0 \<le> d)"

definition create_invoice_valid :: "create_invoice_dto \<Rightarrow> bool" where
  "create_invoice_valid dto \<longleftrightarrow> list_all create_invoice_item_valid (cin_items dto) \<and>
     (case cin_discountAmount dto of None \<Rightarrow> True | Some d \<Rightarrow> 0 \<le> d)"

definition create_invoice_payment_valid :: "create_invoice_payment_dto \<Rightarrow> bool" where
  "create_invoice_payment_valid dto \<longleftrightarrow> 1 / 100 \<le> cip_amount dto"

record invoice_item_response =
  iir_item :: invoice_item
  iir_product :: "(id \<times> string \<times> string) option"

record invoice_list_response =
  ilr_invoice :: invoice
  ilr_customerName :: "string option"
  ilr_locationName :: "string option"
  ilr_itemCount :: nat

record invoice_detail_response =
  idr_invoice :: invoice
  idr_customer :: "(id \<times> string \<times> string \<times> string option) option"
  idr_location :: "(id \<times> string) option"
  idr_items :: "invoice_item_response list"
  idr_payments :: "invoice_payment list"

section \<open>Responses\<close>

definition formatCustomerName :: "customer \<Rightarrow> string" where
  "formatCustomerName c =
     (if empty_string (cus_companyName c)
      then js_trim (cus_firstName c @ '' '' @ (case cus_lastName c of None \<Rightarrow> [] | Some n \<Rightarrow> n))
      else the (cus_companyName c))"

definition customer_of :: "invoice \<Rightarrow> db \<Rightarrow> customer option" where
  "customer_of x s = List.find (\<lambda>c. cus_id c = inv_customerId x) (customers s)"

definition location_of :: "invoice \<Rightarrow> db \<Rightarrow> location option" where
  "location_of x s = List.find (\<lambda>l. loc_id l = inv_locationId x) (locations s)"

definition invoice_lines :: "id \<Rightarrow> db \<Rightarrow> invoice_item list" where
  "invoice_lines i s = filter (\<lambda>x. ini_invoiceId x = i) (invoiceItems s)"

definition formatInvoiceList :: "db \<Rightarrow> invoice \<Rightarrow> invoice_list_response" where
  "formatInvoiceList s x = \<lparr>ilr_invoice = x,
     ilr_customerName = map_option formatCustomerName (customer_of x s),
     ilr_locationName = map_option loc_name (location_of x s),
     ilr_itemCount = length (invoice_lines (inv_id x) s)\<rparr>"

definition formatInvoiceItem :: "db \<Rightarrow> invoice_item \<Rightarrow> invoice_item_response" where
  "formatInvoiceItem s x = \<lparr>iir_item = x,
     iir_product = map_option (\<lambda>p. (prod_id p, prod_name p, prod_sku p))
       (List.find (\<lambda>p. prod_id p = ini_productId x) (products s))\<rparr>"

definition formatInvoiceDetail :: "db \<Rightarrow> invoice \<Rightarrow> invoice_detail_response" where
  "formatInvoiceDetail s x = \<lparr>idr_invoice = x,
     idr_customer = map_option (\<lambda>c. (cus_id c, formatCustomerName c, cus_phone c, cus_email c)) (customer_of x s),
     idr_location = map_option (\<lambda>l. (loc_id l, loc_name l)) (location_of x s),
     idr_items = map (formatInvoiceItem s) (sort_key ini_sortOrder (invoice_lines (inv_id x) s)),
     idr_payments = sort_key inp_paymentDate (filter (\<lambda>p. inp_invoiceId p = inv_id x) (invoicePayments s))\<rparr>"

section \<open>Checks\<close>

definition validateCustomer :: "id \<Rightarrow> id \<Rightarrow> unit handler" where
  "validateCustomer tenantId customerId =
     bindM (readM (\<lambda>s. list_ex (\<lambda>c. cus_id c = customerId \<and> cus_tenantId c = tenantId \<and> cus_deletedAt c = None)
              (customers s))) (\<lambda>ok.
     throw_if (\<not> ok) (NotFoundException CustomerNotFound))"

definition validateInvoiceLocation :: "id \<Rightarrow> id \<Rightarrow> unit handler" where
  "validateInvoiceLocation tenantId locationId =
     bindM (readM (\<lambda>s. list_ex (\<lambda>l. loc_id l = locationId \<and> loc_tenantId l = tenantId) (locations s))) (\<lambda>ok.
     throw_if (\<not> ok) (NotFoundException LocationNotFound))"

definition validateAndLoadProducts :: "id \<Rightarrow> id list \<Rightarrow> (id \<Rightarrow> product option) handler" where
  "validateAndLoadProducts tenantId productIds =
     bindM (readM (\<lambda>s. filter (\<lambda>p. prod_id p \<in> set productIds \<and> prod_tenantId p = tenantId \<and>
              prod_deletedAt p = None) (products s))) (\<lambda>rows.
     bindM (throw_if (length rows \<noteq> length productIds) (BadRequestException SomeProductsNotFound)) (\<lambda>_.
     ret (map_of (rev (map (\<lambda>p. (prod_id p, p)) rows)))))"

definition validateCanUpdate :: "DocumentStatus \<Rightarrow> unit handler" where
  "validateCanUpdate st = throw_if (st \<noteq> DocDraft) (BadRequestException OnlyDraftsUpdated)"

definition validateCanSend :: "DocumentStatus \<Rightarrow> unit handler" where
  "validateCanSend st = throw_if (st \<noteq> DocDraft) (BadRequestException OnlyDraftsSent)"

definition validateCanConvert :: "DocumentType \<Rightarrow> DocumentStatus \<Rightarrow> unit handler" where
  "validateCanConvert ty st =
     bindM (throw_if (ty \<noteq> QUOTE) (BadRequestException OnlyQuotesConverted)) (\<lambda>_.
     throw_if (st \<noteq> DocDraft \<and> st \<noteq> DocSent) (BadRequestException QuoteNotOpen))"

definition validateCanReceivePayment :: "DocumentType \<Rightarrow> unit handler" where
  "validateCanReceivePayment ty = throw_if (ty = QUOTE) (BadRequestException NoPaymentOnQuotes)"

definition validateCanCancel :: "DocumentStatus \<Rightarrow> unit handler" where
  "validateCanCancel st =
     throw_if (st = DocPaid \<or> st = DocCancelled) (BadRequestException CannotCancelInvoice)"

section \<open>Creating a document\<close>

definition getDocumentPrefix :: "DocumentType \<Rightarrow> string" where
  "getDocumentPrefix ty = (case ty of QUOTE \<Rightarrow> ''QUO'' | PROFORMA \<Rightarrow> ''PRO'' | INVOICE \<Rightarrow> ''INV'')"

record invoice_line =
  il_productId :: id
  il_productName :: string
  il_productSku :: string
  il_quantity :: rat
  il_unitPrice :: money
  il_discountAmount :: money
  il_taxAmount :: money
  il_lineTotal :: money
  il_notes :: "string option"
  il_sortOrder :: rat

definition invoice_line_of :: "env \<Rightarrow> (id \<Rightarrow> product option) \<Rightarrow> nat \<Rightarrow> create_invoice_item_dto \<Rightarrow> invoice_line" where
  "invoice_line_of E productMap index x =
     (let product = the (productMap (cii_productId x));
          unitPrice = e_dec E (cii_unitPrice x);
          discountAmount = e_dec E (case cii_discountAmount x of None \<Rightarrow> 0 | Some d \<Rightarrow> d);
          taxAmount = e_dec E (case cii_taxAmount x of None \<Rightarrow> 0 | Some d \<Rightarrow> d)
      in \<lparr>il_productId = cii_productId x, il_productName = prod_name product, il_productSku = prod_sku product,
          il_quantity = cii_quantity x, il_unitPrice = unitPrice, il_discountAmount = discountAmount,
          il_taxAmount = taxAmount, il_lineTotal = unitPrice * e_dec E (cii_quantity x) - discountAmount + taxAmount,
          il_notes = cii_notes x,
          il_sortOrder = (case cii_sortOrder x of None \<Rightarrow> of_nat index | Some k \<Rightarrow> k)\<rparr>)"

definition processInvoiceItems :: "env \<Rightarrow> (id \<Rightarrow> product option) \<Rightarrow> create_invoice_item_dto list \<Rightarrow> invoice_line list \<times> money" where
  "processInvoiceItems E productMap items =
     (let processedItems = map (\<lambda>(index, x). invoice_line_of E productMap index x) (enumerate 0 items)
      in (processedItems, foldl (\<lambda>subtotal x. subtotal + il_lineTotal x) 0 processedItems))"

definition generateDocumentNumber :: "env \<Rightarrow> id \<Rightarrow> string \<Rightarrow> string handler" where
  "generateDocumentNumber E tenantId prefix =
     bindM now (\<lambda>t.
     readM (\<lambda>s. next_number (year_prefix prefix (e_year E t)) 5
       (map inv_documentNumber (filter (\<lambda>x. inv_tenantId x = tenantId) (invoices s)))))"

text \<open>\<^verbatim>\<open>invoice.create\<close>, with the unique index on number and tenant.\<close>

definition insert_invoice :: "env \<Rightarrow> (id \<Rightarrow> instant \<Rightarrow> invoice) \<Rightarrow> invoice handler" where
  "insert_invoice E row =
     bindM (fresh_id E) (\<lambda>i. bindM now (\<lambda>t.
     bindM (readM (\<lambda>s. list_ex (\<lambda>x. inv_documentNumber x = inv_documentNumber (row i t) \<and>
              inv_tenantId x = inv_tenantId (row i t)) (invoices s))) (\<lambda>taken.
     bindM (throw_if taken UniqueConstraint) (\<lambda>_.
     bindM (writeM (\<lambda>s. s\<lparr>invoices := invoices s @ [row i t]\<rparr>)) (\<lambda>_.
     ret (row i t))))))"

definition draft_row :: "env \<Rightarrow> id \<Rightarrow> id \<Rightarrow> create_invoice_dto \<Rightarrow> money \<Rightarrow> string \<Rightarrow> id \<Rightarrow> instant \<Rightarrow> invoice" where
  "draft_row E tenantId userId dto subtotal n i t =
     (let discountAmount = e_dec E (case cin_discountAmount dto of None \<Rightarrow> 0 | Some d \<Rightarrow> d);
          taxAmount = 0;
          totalAmount = subtotal - discountAmount + taxAmount
      in \<lparr>inv_id = i, inv_documentNumber = n, inv_documentType = cin_documentType dto, inv_status = DocDraft,
          inv_subject = cin_subject dto, inv_subtotal = e_col E subtotal,
          inv_discountAmount = e_col E discountAmount, inv_taxAmount = e_col E taxAmount,
          inv_totalAmount = e_col E totalAmount, inv_paidAmount = e_col E 0, inv_dueAmount = e_col E totalAmount,
          inv_issueDate = t, inv_dueDate = cin_dueDate dto, inv_validUntil = cin_validUntil dto,
          inv_paymentTerms = cin_paymentTerms dto, inv_sourceDocumentId = None,
          inv_customerId = cin_customerId dto, inv_locationId = cin_locationId dto, inv_tenantId = tenantId,
          inv_createdById = Some userId, inv_notes = cin_notes dto, inv_customerNotes = cin_customerNotes dto,
          inv_termsConditions = cin_termsConditions dto, inv_createdAt = t, inv_sentAt = None,
          inv_acceptedAt = None, inv_paidAt = None, inv_cancelledAt = None\<rparr>)"

definition is_integer :: "rat \<Rightarrow> bool" where "is_integer x \<longleftrightarrow> of_int \<lfloor>x\<rfloor> = x"

definition line_row :: "env \<Rightarrow> id \<Rightarrow> invoice_line \<Rightarrow> id \<Rightarrow> invoice_item" where
  "line_row E invoiceId x i =
     \<lparr>ini_id = i, ini_productId = il_productId x, ini_productName = il_productName x,
      ini_productSku = il_productSku x, ini_quantity = \<lfloor>il_quantity x\<rfloor>, ini_unitPrice = e_col E (il_unitPrice x),
      ini_discountAmount = e_col E (il_discountAmount x), ini_taxAmount = e_col E (il_taxAmount x),
      ini_lineTotal = e_col E (il_lineTotal x), ini_notes = il_notes x, ini_sortOrder = \<lfloor>il_sortOrder x\<rfloor>,
      ini_invoiceId = invoiceId\<rparr>"

text \<open>\<^verbatim>\<open>invoiceItem.createMany\<close>: a fraction in an integer column is refused before anything is written.\<close>

definition create_lines :: "env \<Rightarrow> id \<Rightarrow> invoice_line list \<Rightarrow> unit handler" where
  "create_lines E invoiceId items =
     bindM (throw_if (\<not> list_all (\<lambda>x. is_integer (il_quantity x) \<and> is_integer (il_sortOrder x)) items)
              ValidationError) (\<lambda>_.
     bindM (forM items (\<lambda>x. bindM (fresh_id E) (\<lambda>i.
              writeM (\<lambda>s. s\<lparr>invoiceItems := invoiceItems s @ [line_row E invoiceId x i]\<rparr>)))) (\<lambda>_.
     ret ()))"

definition create_invoice_tx ::
  "env \<Rightarrow> id \<Rightarrow> id \<Rightarrow> create_invoice_dto \<Rightarrow> invoice_line list \<Rightarrow> money \<Rightarrow> invoice option handler" where
  "create_invoice_tx E tenantId userId dto items subtotal =
     bindM (generateDocumentNumber E tenantId (getDocumentPrefix (cin_documentType dto))) (\<lambda>n.
     bindM (insert_invoice E (draft_row E tenantId userId dto subtotal n)) (\<lambda>newInvoice.
     bindM (create_lines E (inv_id newInvoice) items) (\<lambda>_.
     readM (\<lambda>s. List.find (\<lambda>x. inv_id x = inv_id newInvoice) (invoices s)))))"

definition create_invoice :: "env \<Rightarrow> id \<Rightarrow> id \<Rightarrow> create_invoice_dto \<Rightarrow> invoice_detail_response handler" where
  "create_invoice E tenantId userId dto =
     bindM (validateCustomer tenantId (cin_customerId dto)) (\<lambda>_.
     bindM (validateInvoiceLocation tenantId (cin_locationId dto)) (\<lambda>_.
     bindM (validateAndLoadProducts tenantId (map cii_productId (cin_items dto))) (\<lambda>productMap.
     let (processedItems, subtotal) = processInvoiceItems E productMap (cin_items dto) in
     bindM (transaction (create_invoice_tx E tenantId userId dto processedItems subtotal)) (\<lambda>found.
     bindM (require found (BadRequestException FailedToCreateInvoice)) (\<lambda>x.
     readM (\<lambda>s. formatInvoiceDetail s x))))))"

section \<open>Reading\<close>

definition invoice_filter :: "env \<Rightarrow> id \<Rightarrow> invoice_query \<Rightarrow> invoice \<Rightarrow> bool" where
  "invoice_filter E tenantId q x \<longleftrightarrow> inv_tenantId x = tenantId \<and>
     (case iq_documentType q of None \<Rightarrow> True | Some ty \<Rightarrow> inv_documentType x = ty) \<and>
     (case iq_status q of None \<Rightarrow> True | Some st \<Rightarrow> inv_status x = st) \<and>
     (empty_string (iq_customerId q) \<or> inv_customerId x = the (iq_customerId q)) \<and>
     (empty_string (iq_locationId q) \<or> inv_locationId x = the (iq_locationId q)) \<and>
     (case iq_dateFrom q of None \<Rightarrow> True | Some d \<Rightarrow> d \<le> inv_issueDate x) \<and>
     (case iq_dateTo q of None \<Rightarrow> True | Some d \<Rightarrow> inv_issueDate x \<le> d) \<and>
     (empty_string (iq_search q) \<or> e_ilike E (the (iq_search q)) (inv_documentNumber x) \<or>
        (case inv_subject x of None \<Rightarrow> False | Some y \<Rightarrow> e_ilike E (the (iq_search q)) y))"

definition findAll_invoices :: "env \<Rightarrow> id \<Rightarrow> page_query \<Rightarrow> invoice_query \<Rightarrow> (page_meta \<times> invoice_list_response list) handler" where
  "findAll_invoices E tenantId pq q = readM (\<lambda>s.
     let w = getPagination pq;
         rows = filter (invoice_filter E tenantId q) (invoices s);
         page = page_rows (pw_skip w) (pw_take w) (sort_key (\<lambda>x. - inv_createdAt x) rows)
     in (generatePaginationMeta (pw_page w) (pw_take w) (int (length rows)) (pw_skip w),
         map (formatInvoiceList s) page))"

definition find_invoice :: "id \<Rightarrow> id \<Rightarrow> db \<Rightarrow> invoice option" where
  "find_invoice tenantId i s = List.find (\<lambda>x. inv_id x = i \<and> inv_tenantId x = tenantId) (invoices s)"

definition findInvoiceOrThrow :: "id \<Rightarrow> id \<Rightarrow> invoice handler" where
  "findInvoiceOrThrow tenantId i =
     bindM (readM (find_invoice tenantId i)) (\<lambda>found. require found (NotFoundException InvoiceNotFound))"

definition findOne_invoice :: "id \<Rightarrow> id \<Rightarrow> invoice_detail_response handler" where
  "findOne_invoice tenantId i =
     bindM (findInvoiceOrThrow tenantId i) (\<lambda>x. readM (\<lambda>s. formatInvoiceDetail s x))"

section \<open>Changing a document\<close>

text \<open>Prisma leaves a column alone when its value is \<^verbatim>\<open>undefined\<close>.\<close>

definition patch_invoice :: "env \<Rightarrow> update_invoice_dto \<Rightarrow> invoice \<Rightarrow> invoice" where
  "patch_invoice E dto x = x\<lparr>
     inv_subject := (case uin_subject dto of None \<Rightarrow> inv_subject x | v \<Rightarrow> v),
     inv_discountAmount := (case uin_discountAmount dto of None \<Rightarrow> inv_discountAmount x | Some d \<Rightarrow> stored E d),
     inv_dueDate := (case uin_dueDate dto of None \<Rightarrow> inv_dueDate x | v \<Rightarrow> v),
     inv_validUntil := (case uin_validUntil dto of None \<Rightarrow> inv_validUntil x | v \<Rightarrow> v),
     inv_paymentTerms := (case uin_paymentTerms dto of None \<Rightarrow> inv_paymentTerms x | v \<Rightarrow> v),
     inv_notes := (case uin_notes dto of None \<Rightarrow> inv_notes x | v \<Rightarrow> v),
     inv_customerNotes := (case uin_customerNotes dto of None \<Rightarrow> inv_customerNotes x | v \<Rightarrow> v),
     inv_termsConditions := (case uin_termsConditions dto of None \<Rightarrow> inv_termsConditions x | v \<Rightarrow> v)\<rparr>"

text \<open>\<^verbatim>\<open>invoice.update({ where: { id }, data, include })\<close>, formatted.\<close>

definition write_invoice :: "id \<Rightarrow> (invoice \<Rightarrow> invoice) \<Rightarrow> invoice \<Rightarrow> invoice_detail_response handler" where
  "write_invoice i f x =
     bindM (update_invoice (\<lambda>y. inv_id y = i) f) (\<lambda>_. readM (\<lambda>s. formatInvoiceDetail s (f x)))"

definition update_invoice_by :: "env \<Rightarrow> id \<Rightarrow> id \<Rightarrow> update_invoice_dto \<Rightarrow> invoice_detail_response handler" where
  "update_invoice_by E tenantId i dto =
     bindM (findInvoiceOrThrow tenantId i) (\<lambda>x.
     bindM (validateCanUpdate (inv_status x)) (\<lambda>_.
     write_invoice i (patch_invoice E dto) x))"

definition markAsSent :: "id \<Rightarrow> id \<Rightarrow> invoice_detail_response handler" where
  "markAsSent tenantId i =
     bindM (findInvoiceOrThrow tenantId i) (\<lambda>x.
     bindM (validateCanSend (inv_status x)) (\<lambda>_.
     bindM now (\<lambda>t.
     write_invoice i (\<lambda>y. y\<lparr>inv_status := DocSent, inv_sentAt := Some t\<rparr>) x)))"

definition converted_row :: "env \<Rightarrow> id \<Rightarrow> id \<Rightarrow> invoice \<Rightarrow> string \<Rightarrow> id \<Rightarrow> instant \<Rightarrow> invoice" where
  "converted_row E tenantId userId q n i t =
     \<lparr>inv_id = i, inv_documentNumber = n, inv_documentType = INVOICE, inv_status = DocDraft,
      inv_subject = inv_subject q, inv_subtotal = e_col E (inv_subtotal q),
      inv_discountAmount = e_col E (inv_discountAmount q), inv_taxAmount = e_col E (inv_taxAmount q),
      inv_totalAmount = e_col E (inv_totalAmount q), inv_paidAmount = e_col E 0,
      inv_dueAmount = e_col E (inv_totalAmount q), inv_issueDate = t, inv_dueDate = inv_dueDate q,
      inv_validUntil = None, inv_paymentTerms = inv_paymentTerms q, inv_sourceDocumentId = Some (inv_id q),
      inv_customerId = inv_customerId q, inv_locationId = inv_locationId q, inv_tenantId = tenantId,
      inv_createdById = Some userId, inv_notes = inv_notes q, inv_customerNotes = inv_customerNotes q,
      inv_termsConditions = inv_termsConditions q, inv_createdAt = t, inv_sentAt = None, inv_acceptedAt = None,
      inv_paidAt = None, inv_cancelledAt = None\<rparr>"

definition copy_line :: "env \<Rightarrow> id \<Rightarrow> invoice_item \<Rightarrow> unit handler" where
  "copy_line E invoiceId x = bindM (fresh_id E) (\<lambda>i.
     writeM (\<lambda>s. s\<lparr>invoiceItems := invoiceItems s @ [x\<lparr>ini_id := i, ini_invoiceId := invoiceId\<rparr>]\<rparr>))"

definition convert_tx :: "env \<Rightarrow> id \<Rightarrow> id \<Rightarrow> invoice \<Rightarrow> invoice_item list \<Rightarrow> invoice option handler" where
  "convert_tx E tenantId userId q items =
     bindM now (\<lambda>t.
     bindM (update_invoice (\<lambda>y. inv_id y = inv_id q) (\<lambda>y. y\<lparr>inv_status := DocAccepted, inv_acceptedAt := Some t\<rparr>)) (\<lambda>_.
     bindM (generateDocumentNumber E tenantId ''INV'') (\<lambda>n.
     bindM (insert_invoice E (converted_row E tenantId userId q n)) (\<lambda>newInvoice.
     bindM (forM items (copy_line E (inv_id newInvoice))) (\<lambda>_.
     readM (\<lambda>s. List.find (\<lambda>x. inv_id x = inv_id newInvoice) (invoices s)))))))"

definition convertToInvoice :: "env \<Rightarrow> id \<Rightarrow> id \<Rightarrow> id \<Rightarrow> invoice_detail_response handler" where
  "convertToInvoice E tenantId userId quoteId =
     bindM (readM (find_invoice tenantId quoteId)) (\<lambda>found.
     bindM (require found (NotFoundException QuoteNotFound)) (\<lambda>q.
     bindM (readM (invoice_lines quoteId)) (\<lambda>items.
     bindM (validateCanConvert (inv_documentType q) (inv_status q)) (\<lambda>_.
     bindM (transaction (convert_tx E tenantId userId q items)) (\<lambda>result.
     bindM (require result (BadRequestException FailedToConvertQuote)) (\<lambda>x.
     readM (\<lambda>s. formatInvoiceDetail s x)))))))"

definition invoice_payment_row ::
  "env \<Rightarrow> id \<Rightarrow> id \<Rightarrow> create_invoice_payment_dto \<Rightarrow> instant \<Rightarrow> id \<Rightarrow> invoice_payment" where
  "invoice_payment_row E userId invoiceId dto t i =
     \<lparr>inp_id = i, inp_amount = stored E (cip_amount dto), inp_paymentMethod = cip_method dto,
      inp_transactionRef = cip_transactionRef dto,
      inp_paymentDate = (case cip_paymentDate dto of None \<Rightarrow> t | Some d \<Rightarrow> d), inp_notes = cip_notes dto,
      inp_invoiceId = invoiceId, inp_processedById = Some userId\<rparr>"

definition paid_status :: "DocumentStatus \<Rightarrow> money \<Rightarrow> money \<Rightarrow> DocumentStatus" where
  "paid_status st newPaidAmount newDueAmount =
     (if newDueAmount \<le> 0 then DocPaid else if 0 < newPaidAmount then DocPartiallyPaid else st)"

definition paid_row :: "env \<Rightarrow> create_invoice_payment_dto \<Rightarrow> invoice \<Rightarrow> instant \<Rightarrow> invoice \<Rightarrow> invoice" where
  "paid_row E dto x t y =
     (let newPaidAmount = inv_paidAmount x + e_dec E (cip_amount dto);
          newDueAmount = inv_totalAmount x - newPaidAmount;
          newStatus = paid_status (inv_status x) newPaidAmount newDueAmount
      in y\<lparr>inv_paidAmount := e_col E newPaidAmount,
           inv_dueAmount := e_col E (if newDueAmount < 0 then 0 else newDueAmount), inv_status := newStatus,
           inv_paidAt := (if newStatus = DocPaid then Some t else inv_paidAt y)\<rparr>)"

definition recordPayment :: "env \<Rightarrow> id \<Rightarrow> id \<Rightarrow> id \<Rightarrow> create_invoice_payment_dto \<Rightarrow> invoice_detail_response handler" where
  "recordPayment E tenantId userId invoiceId dto =
     bindM (findInvoiceOrThrow tenantId invoiceId) (\<lambda>x.
     bindM (validateCanReceivePayment (inv_documentType x)) (\<lambda>_.
     transaction (
       bindM (fresh_id E) (\<lambda>i. bindM now (\<lambda>t.
       bindM (writeM (\<lambda>s. s\<lparr>invoicePayments := invoicePayments s @ [invoice_payment_row E userId invoiceId dto t i]\<rparr>)) (\<lambda>_.
       write_invoice invoiceId (paid_row E dto x t) x))))))"

definition cancel_invoice :: "id \<Rightarrow> id \<Rightarrow> unit handler" where
  "cancel_invoice tenantId i =
     bindM (findInvoiceOrThrow tenantId i) (\<lambda>x.
     bindM (validateCanCancel (inv_status x)) (\<lambda>_.
     bindM now (\<lambda>t.
     update_invoice (\<lambda>y. inv_id y = i) (\<lambda>y. y\<lparr>inv_status := DocCancelled, inv_cancelledAt := Some t\<rparr>))))"

section \<open>What must hold of the documents\<close>

definition invoice_paid :: "id \<Rightarrow> db \<Rightarrow> money" where
  "invoice_paid i s = sum_where (\<lambda>p. inp_invoiceId p = i) inp_amount (invoicePayments s)"

definition status_fits :: "DocumentType \<Rightarrow> DocumentStatus \<Rightarrow> bool" where
  "status_fits ty st \<longleftrightarrow> st \<in> (if ty = QUOTE then {DocDraft, DocSent, DocAccepted, DocCancelled}
     else {DocDraft, DocSent, DocPaid, DocPartiallyPaid, DocCancelled})"

definition number_fits :: "invoice \<Rightarrow> bool" where
  "number_fits x \<longleftrightarrow> startsWith (inv_documentNumber x) (getDocumentPrefix (inv_documentType x) @ ''-'')"

text \<open>What has been paid is the sum of the payments; what is due is the rest, and never negative once there
  is a payment. A quote has no payments.\<close>

definition doc_books_ok :: "db \<Rightarrow> invoice \<Rightarrow> bool" where
  "doc_books_ok s x \<longleftrightarrow> four_decimals (inv_totalAmount x) \<and> four_decimals (inv_paidAmount x) \<and>
     0 \<le> inv_paidAmount x \<and> inv_paidAmount x = invoice_paid (inv_id x) s \<and>
     inv_dueAmount x = (if inv_paidAmount x = 0 then inv_totalAmount x else max 0 (inv_totalAmount x - inv_paidAmount x)) \<and>
     (inv_status x = DocPaid \<longrightarrow> inv_totalAmount x \<le> inv_paidAmount x) \<and>
     (inv_status x = DocPartiallyPaid \<longrightarrow> 0 < inv_paidAmount x \<and> inv_paidAmount x < inv_totalAmount x) \<and>
     (inv_documentType x = QUOTE \<longrightarrow> (\<forall>p \<in> set (invoicePayments s). inp_invoiceId p \<noteq> inv_id x))"

text \<open>A document made from another is an invoice made from a quote of the tenant, with its total.\<close>

definition source_ok :: "db \<Rightarrow> invoice \<Rightarrow> bool" where
  "source_ok s x \<longleftrightarrow> (case inv_sourceDocumentId x of None \<Rightarrow> True
     | Some q \<Rightarrow> inv_documentType x = INVOICE \<and> (\<exists>y \<in> set (invoices s). inv_id y = q \<and>
         inv_documentType y = QUOTE \<and> inv_tenantId y = inv_tenantId x \<and> inv_totalAmount y = inv_totalAmount x \<and>
         inv_status y \<in> {DocAccepted, DocCancelled}))"

definition converted_quotes :: "db \<Rightarrow> id list" where
  "converted_quotes s = List.map_filter inv_sourceDocumentId (invoices s)"

definition document_key :: "invoice \<Rightarrow> string \<times> id" where
  "document_key x = (inv_documentNumber x, inv_tenantId x)"

definition invoices_ok :: "env \<Rightarrow> db \<Rightarrow> bool" where
  "invoices_ok E s \<longleftrightarrow> distinct (map inv_id (invoices s)) \<and> distinct (map document_key (invoices s)) \<and>
     ids_used E s (inv_id ` set (invoices s) \<union> inp_invoiceId ` set (invoicePayments s)) \<and>
     distinct (converted_quotes s) \<and>
     (\<forall>x \<in> set (invoices s). status_fits (inv_documentType x) (inv_status x) \<and> number_fits x \<and>
        doc_books_ok s x \<and> source_ok s x)"

lemma set_map_filter: "set (List.map_filter f xs) = {y. \<exists>x \<in> set xs. f x = Some y}"
  by (force simp: List.map_filter_def)

lemma map_filter_append: "List.map_filter f (xs @ ys) = List.map_filter f xs @ List.map_filter f ys"
  by (simp add: List.map_filter_def)

lemma map_filter_update_where:
  "(\<And>x. P x \<Longrightarrow> f (g x) = f x) \<Longrightarrow> List.map_filter f (update_where P g xs) = List.map_filter f xs"
  by (induction xs) (auto simp: List.map_filter_def)

lemma invoice_id_unique:
  "invoices_ok E s \<Longrightarrow> x \<in> set (invoices s) \<Longrightarrow> y \<in> set (invoices s) \<Longrightarrow> inv_id x = inv_id y \<Longrightarrow> x = y"
  unfolding invoices_ok_def by (metis (no_types, lifting) distinct_map inj_onD)

lemma find_invoice_row:
  "find_invoice t i s = Some x \<Longrightarrow> x \<in> set (invoices s) \<and> inv_id x = i \<and> inv_tenantId x = t"
  by (auto simp: find_invoice_def dest: find_SomeD)

definition same_documents :: "db \<Rightarrow> db \<Rightarrow> bool" where
  "same_documents s s' \<longleftrightarrow> invoices s' = invoices s \<and> invoicePayments s' = invoicePayments s \<and> nextId s \<le> nextId s'"

interpretation docs: frame same_documents
  by unfold_locales (auto simp: same_documents_def)

lemma same_documents_fresh: "obeys same_documents (fresh_id E)"
  by (auto simp: obeys_def same_documents_def)

lemma same_documents_lines:
  "obeys same_documents (create_lines E i xs)" "obeys same_documents (forM items (copy_line E i))"
  unfolding create_lines_def copy_line_def
  by (intro docs.parts same_documents_fresh; simp add: same_documents_def)+

lemma doc_books_ok_cong: "invoicePayments s' = invoicePayments s \<Longrightarrow> doc_books_ok s' x = doc_books_ok s x"
  by (simp only: doc_books_ok_def invoice_paid_def)

lemma invoices_ok_same:
  assumes "invoices_ok E s" "same_documents s s'"
  shows "invoices_ok E s'"
proof -
  have same: "invoices s' = invoices s" "invoicePayments s' = invoicePayments s" "nextId s \<le> nextId s'"
    using assms(2) by (simp_all add: same_documents_def)
  have "source_ok s' x = source_ok s x" for x by (simp only: source_ok_def same)
  then show ?thesis using assms(1) unfolding invoices_ok_def converted_quotes_def same doc_books_ok_cong [OF same(2)]
    by (auto intro: ids_used_mono same(3))
qed

lemma invoices_ok_update:
  assumes ok: "invoices_ok E s" and upd: "invoices s' = update_where (\<lambda>y. inv_id y = i) f (invoices s)"
    and core: "\<And>y. inv_id (f y) = inv_id y \<and> document_key (f y) = document_key y \<and>
      inv_documentType (f y) = inv_documentType y \<and> inv_sourceDocumentId (f y) = inv_sourceDocumentId y \<and>
      inv_totalAmount (f y) = inv_totalAmount y"
    and pay: "invoicePayments s' = invoicePayments s @ ps" "\<And>p. p \<in> set ps \<Longrightarrow> inp_invoiceId p = i"
    and used: "nextId s \<le> nextId s'" and row: "x \<in> set (invoices s)" "inv_id x = i"
    and new: "status_fits (inv_documentType x) (inv_status (f x))" "doc_books_ok s' (f x)"
    and quote: "inv_status x \<in> {DocAccepted, DocCancelled} \<Longrightarrow> inv_documentType x = QUOTE \<Longrightarrow>
      inv_status (f x) \<in> {DocAccepted, DocCancelled}"
  shows "invoices_ok E s'"
proof -
  have ids: "map inv_id (invoices s') = map inv_id (invoices s)"
    and keys: "map document_key (invoices s') = map document_key (invoices s)"
    unfolding upd by (intro map_update_where; simp add: core)+
  have src: "converted_quotes s' = converted_quotes s"
    unfolding converted_quotes_def upd by (rule map_filter_update_where) (simp add: core)
  have only: "y = x" if "y \<in> set (invoices s)" "inv_id y = i" for y
    using invoice_id_unique [OF ok that(1) row(1)] that(2) row(2) by simp
  have kept: "\<exists>z \<in> set (invoices s'). inv_id z = inv_id y \<and> inv_documentType z = inv_documentType y \<and>
      inv_tenantId z = inv_tenantId y \<and> inv_totalAmount z = inv_totalAmount y \<and>
      (inv_documentType y = QUOTE \<longrightarrow> inv_status y \<in> {DocAccepted, DocCancelled} \<longrightarrow>
        inv_status z \<in> {DocAccepted, DocCancelled})" if y: "y \<in> set (invoices s)" for y
  proof (cases "inv_id y = i")
    case True
    then have "y = x" by (rule only [OF y])
    moreover have "f x \<in> set (invoices s')" unfolding upd set_update_where using row by auto
    ultimately show ?thesis using core [of x] quote by (intro bexI [of _ "f x"]) (auto simp: document_key_def)
  next
    case False
    then have "y \<in> set (invoices s')" unfolding upd set_update_where using y by auto
    then show ?thesis by auto
  qed
  have src_ok: "source_ok s' z" if y: "source_ok s y" and z: "inv_sourceDocumentId z = inv_sourceDocumentId y"
      "inv_documentType z = inv_documentType y" "inv_tenantId z = inv_tenantId y" "inv_totalAmount z = inv_totalAmount y" for y z
  proof (cases "inv_sourceDocumentId y")
    case None
    then show ?thesis using y z by (simp add: source_ok_def)
  next
    case (Some q)
    with y obtain w where w: "w \<in> set (invoices s)" "inv_id w = q" "inv_documentType w = QUOTE"
      "inv_tenantId w = inv_tenantId y" "inv_totalAmount w = inv_totalAmount y"
      "inv_status w \<in> {DocAccepted, DocCancelled}" and ty: "inv_documentType y = INVOICE"
      by (auto simp: source_ok_def)
    from kept [OF w(1)] w(2-6) obtain v where "v \<in> set (invoices s')" "inv_id v = q" "inv_documentType v = QUOTE"
      "inv_tenantId v = inv_tenantId z" "inv_totalAmount v = inv_totalAmount z" "inv_status v \<in> {DocAccepted, DocCancelled}"
      using z(3,4) by force
    then show ?thesis using Some z(1,2) ty by (auto simp: source_ok_def)
  qed
  have others: "doc_books_ok s' y" if "doc_books_ok s y" "inv_id y \<noteq> i" for y
  proof -
    have "sum_where (\<lambda>p. inp_invoiceId p = inv_id y) inp_amount ps = 0"
      using pay(2) that(2) by (intro sum_where_False) auto
    then have "invoice_paid (inv_id y) s' = invoice_paid (inv_id y) s" by (simp add: invoice_paid_def pay(1))
    then show ?thesis using that pay by (auto simp: doc_books_ok_def)
  qed
  have "status_fits (inv_documentType z) (inv_status z) \<and> number_fits z \<and> doc_books_ok s' z \<and> source_ok s' z"
    if z: "z \<in> set (invoices s')" for z
  proof -
    from z consider y where "y \<in> set (invoices s)" "inv_id y = i" "z = f y" | "z \<in> set (invoices s)" "inv_id z \<noteq> i"
      unfolding upd set_update_where by auto
    then show ?thesis
    proof cases
      case 1
      then have y: "y = x" using only by simp
      have "number_fits x" "source_ok s x" using ok row(1) by (auto simp: invoices_ok_def)
      then show ?thesis unfolding 1(3) y using new core [of x] src_ok [of x "f x"]
        by (auto simp: number_fits_def document_key_def)
    next
      case 2
      then show ?thesis using ok others [of z] src_ok [of z z] by (auto simp: invoices_ok_def)
    qed
  qed
  moreover have "inv_id ` set (invoices s') = inv_id ` set (invoices s)" using ids by (metis list.set_map)
  then have sub: "inv_id ` set (invoices s') \<union> inp_invoiceId ` set (invoicePayments s') \<subseteq>
      inv_id ` set (invoices s) \<union> inp_invoiceId ` set (invoicePayments s)"
    using pay row by auto
  have "ids_used E s (inv_id ` set (invoices s) \<union> inp_invoiceId ` set (invoicePayments s))"
    using ok by (simp add: invoices_ok_def)
  then have "ids_used E s' (inv_id ` set (invoices s') \<union> inp_invoiceId ` set (invoicePayments s'))"
    using used by (rule ids_used_mono) (use sub in blast)
  ultimately show ?thesis using ok ids keys src by (simp add: invoices_ok_def)
qed

lemma invoices_ok_append:
  assumes ok: "invoices_ok E s" and upd: "invoices s' = invoices s @ [x]" "invoicePayments s' = invoicePayments s"
    and used: "Suc (nextId s) \<le> nextId s'" "inv_id x = e_uuid E (nextId s)"
    and key: "document_key x \<notin> document_key ` set (invoices s)"
    and new: "inv_status x = DocDraft" "number_fits x" "source_ok s' x"
    and money: "four_decimals (inv_totalAmount x)" "inv_paidAmount x = 0" "inv_dueAmount x = inv_totalAmount x"
    and once: "\<And>q. inv_sourceDocumentId x = Some q \<Longrightarrow> q \<notin> set (converted_quotes s)"
  shows "invoices_ok E s'"
proof -
  have fresh: "inv_id x \<notin> inv_id ` set (invoices s) \<union> inp_invoiceId ` set (invoicePayments s)"
    unfolding used(2) by (rule ids_used_fresh) (use ok in \<open>simp add: invoices_ok_def\<close>)
  then have none: "\<forall>p \<in> set (invoicePayments s). inp_invoiceId p \<noteq> inv_id x" by (auto simp: image_iff)
  then have "invoice_paid (inv_id x) s' = 0" unfolding invoice_paid_def upd by (intro sum_where_False) auto
  moreover have "four_decimals 0" unfolding four_decimals_def by (rule exI [of _ 0]) simp
  ultimately have books: "doc_books_ok s' x" using none money new(1) by (simp add: doc_books_ok_def upd)
  have "source_ok s' y" if "source_ok s y" for y
    using that by (auto simp: source_ok_def upd split: option.splits)
  moreover have "doc_books_ok s' y" if "doc_books_ok s y" for y
    using that doc_books_ok_cong [OF upd(2)] by simp
  moreover have "status_fits (inv_documentType x) (inv_status x)" by (simp add: new(1) status_fits_def)
  moreover have "ids_used E s' (inv_id ` set (invoices s') \<union> inp_invoiceId ` set (invoicePayments s'))"
    by (rule ids_used_mono [of E s "inv_id ` set (invoices s) \<union> inp_invoiceId ` set (invoicePayments s)"])
      (use ok used in \<open>auto simp: invoices_ok_def upd\<close>)
  moreover have "converted_quotes s' = converted_quotes s @ (case inv_sourceDocumentId x of None \<Rightarrow> [] | Some q \<Rightarrow> [q])"
    by (simp add: converted_quotes_def upd map_filter_append List.map_filter_def split: option.split)
  then have "distinct (converted_quotes s')" using ok once by (auto simp: invoices_ok_def split: option.split)
  ultimately show ?thesis using ok books fresh key new by (auto simp: invoices_ok_def upd)
qed

section \<open>Every request keeps them\<close>

lemma findInvoiceOrThrow_run [run_simps]:
  "bindM (findInvoiceOrThrow t i) f s =
     (case find_invoice t i s of None \<Rightarrow> (Inl (NotFoundException InvoiceNotFound), s) | Some x \<Rightarrow> f x s)"
  by (simp add: findInvoiceOrThrow_def bindM_def split: option.split)

lemma write_invoice_run [run_simps]:
  "write_invoice i f x s =
     (let s' = s\<lparr>invoices := update_where (\<lambda>y. inv_id y = i) f (invoices s)\<rparr> in
      if list_ex (\<lambda>y. inv_id y = i) (invoices s) then (Inr (formatInvoiceDetail s' (f x)), s')
      else (Inl RecordNotFound, s))"
  by (simp add: write_invoice_def run_simps Let_def)

lemma find_invoice_ex: "find_invoice t i s = Some x \<Longrightarrow> list_ex (\<lambda>y. inv_id y = i) (invoices s)"
  by (auto simp: list_ex_iff dest: find_invoice_row)

lemma readonly_invoice_checks [svc_intros]:
  "readonly (validateCustomer t c)" "readonly (validateInvoiceLocation t l)"
  "readonly (validateAndLoadProducts t ps)" "readonly (generateDocumentNumber E t p)"
  "readonly (validateCanConvert ty st)" "readonly (validateCanUpdate st)" "readonly (validateCanSend st)"
  "readonly (validateCanCancel st)" "readonly (validateCanReceivePayment ty)"
  unfolding validateCustomer_def validateInvoiceLocation_def validateAndLoadProducts_def generateDocumentNumber_def
    validateCanConvert_def validateCanUpdate_def validateCanSend_def validateCanCancel_def validateCanReceivePayment_def
  by (intro svc_intros)+

text \<open>A change of one document that leaves its amounts alone.\<close>

lemma invoices_ok_status:
  assumes ok: "invoices_ok E s" and row: "find_invoice t i s = Some x"
    and f: "\<And>y. inv_id (f y) = inv_id y \<and> document_key (f y) = document_key y \<and>
      inv_documentType (f y) = inv_documentType y \<and> inv_sourceDocumentId (f y) = inv_sourceDocumentId y \<and>
      inv_totalAmount (f y) = inv_totalAmount y \<and> inv_paidAmount (f y) = inv_paidAmount y \<and>
      inv_dueAmount (f y) = inv_dueAmount y"
    and st: "status_fits (inv_documentType x) (inv_status (f x))"
      "inv_status (f x) = inv_status x \<or> inv_status (f x) \<notin> {DocPaid, DocPartiallyPaid}"
    and quote: "inv_status x \<in> {DocAccepted, DocCancelled} \<Longrightarrow> inv_documentType x = QUOTE \<Longrightarrow>
      inv_status (f x) \<in> {DocAccepted, DocCancelled}"
  shows "invoices_ok E (s\<lparr>invoices := update_where (\<lambda>y. inv_id y = i) f (invoices s)\<rparr>)" (is "invoices_ok E ?s")
proof -
  have x: "x \<in> set (invoices s)" "inv_id x = i" using find_invoice_row [OF row] by auto
  have "doc_books_ok s x" using ok x by (simp add: invoices_ok_def)
  then have "doc_books_ok ?s (f x)" using f [of x] st(2) by (auto simp: doc_books_ok_def invoice_paid_def)
  then show ?thesis
    using f x st(1) quote by (intro invoices_ok_update [OF ok, where i = i and f = f and ps = "[]" and x = x]) simp_all
qed

lemma update_invoice_keeps:
  assumes "invoices_ok E s" "update_invoice_by E t i dto s = (r, s')"
  shows "invoices_ok E s'"
proof (cases "find_invoice t i s")
  case None
  then show ?thesis using assms by (simp add: update_invoice_by_def run_simps)
next
  case (Some x)
  then have x: "status_fits (inv_documentType x) (inv_status x)"
    using assms(1) find_invoice_row [OF Some] by (simp add: invoices_ok_def)
  have "invoices_ok E (s\<lparr>invoices := update_where (\<lambda>y. inv_id y = i) (patch_invoice E dto) (invoices s)\<rparr>)"
    by (rule invoices_ok_status [OF assms(1) Some]) (use x in \<open>simp_all add: patch_invoice_def document_key_def\<close>)
  then show ?thesis using assms Some find_invoice_ex [OF Some]
    by (auto simp: update_invoice_by_def validateCanUpdate_def run_simps Let_def split: if_splits)
qed

lemma markAsSent_keeps:
  assumes "invoices_ok E s" "markAsSent t i s = (r, s')"
  shows "invoices_ok E s'"
proof (cases "find_invoice t i s")
  case None
  then show ?thesis using assms by (simp add: markAsSent_def run_simps)
next
  case (Some x)
  let ?f = "\<lambda>y. y\<lparr>inv_status := DocSent, inv_sentAt := Some (clock s)\<rparr>"
  have "invoices_ok E (s\<lparr>invoices := update_where (\<lambda>y. inv_id y = i) ?f (invoices s)\<rparr>)" if "inv_status x = DocDraft"
    by (rule invoices_ok_status [OF assms(1) Some]) (use that in \<open>simp_all add: status_fits_def document_key_def\<close>)
  then show ?thesis using assms Some find_invoice_ex [OF Some]
    by (auto simp: markAsSent_def validateCanSend_def run_simps Let_def split: if_splits)
qed

lemma cancel_keeps:
  assumes "invoices_ok E s" "cancel_invoice t i s = (r, s')"
  shows "invoices_ok E s'"
proof (cases "find_invoice t i s")
  case None
  then show ?thesis using assms by (simp add: cancel_invoice_def run_simps)
next
  case (Some x)
  let ?f = "\<lambda>y. y\<lparr>inv_status := DocCancelled, inv_cancelledAt := Some (clock s)\<rparr>"
  have "invoices_ok E (s\<lparr>invoices := update_where (\<lambda>y. inv_id y = i) ?f (invoices s)\<rparr>)"
    by (rule invoices_ok_status [OF assms(1) Some]) (simp_all add: status_fits_def document_key_def)
  then show ?thesis using assms Some find_invoice_ex [OF Some]
    by (auto simp: cancel_invoice_def validateCanCancel_def run_simps split: if_splits)
qed

lemma four_decimals_0: "four_decimals 0"
  unfolding four_decimals_def by (rule exI [of _ 0]) simp

definition payable :: "env \<Rightarrow> create_invoice_payment_dto \<Rightarrow> bool" where
  "payable E dto \<longleftrightarrow> four_decimals (e_dec E (cip_amount dto)) \<and> 0 < e_dec E (cip_amount dto)"

lemma paid_row_books:
  assumes col: "column_rounds E" and dto: "payable E dto" and books: "doc_books_ok s x" and ty: "inv_documentType x \<noteq> QUOTE"
    and pay: "invoicePayments s' = invoicePayments s @ [invoice_payment_row E u (inv_id x) dto t i]"
  shows "doc_books_ok s' (paid_row E dto x t' x)" "status_fits (inv_documentType x) (inv_status (paid_row E dto x t' x))"
    and "inv_paidAmount (paid_row E dto x t' x) = inv_paidAmount x + e_dec E (cip_amount dto)"
proof -
  let ?a = "e_dec E (cip_amount dto)"
  let ?paid = "inv_paidAmount x + ?a"
  let ?due = "inv_totalAmount x - ?paid"
  have a: "four_decimals ?a" "0 < ?a" using dto by (simp_all add: payable_def)
  have b: "four_decimals (inv_totalAmount x)" "four_decimals (inv_paidAmount x)" "0 \<le> inv_paidAmount x"
    "inv_paidAmount x = invoice_paid (inv_id x) s" using books unfolding doc_books_ok_def by blast+
  have four: "four_decimals ?paid" "four_decimals ?due" using a(1) b(1,2) by (simp_all add: four_decimals_arith)
  have exact: "e_col E ?paid = ?paid" "e_col E (if ?due < 0 then 0 else ?due) = (if ?due < 0 then 0 else ?due)"
    "stored E (cip_amount dto) = ?a"
    using four a four_decimals_0 by (simp_all add: column_exact [OF col] stored_def)
  have "invoice_paid (inv_id x) s' = ?paid"
    using b(4) exact(3) by (simp add: invoice_paid_def pay invoice_payment_row_def)
  moreover have st: "inv_status (paid_row E dto x t' x) = (if ?due \<le> 0 then DocPaid else DocPartiallyPaid)"
    using a(2) b(3) by (simp add: paid_row_def paid_status_def Let_def)
  moreover show "inv_paidAmount (paid_row E dto x t' x) = ?paid" by (simp add: paid_row_def Let_def exact(1))
  moreover have "inv_dueAmount (paid_row E dto x t' x) = max 0 ?due"
    unfolding paid_row_def Let_def using exact(2) by (simp add: max_def)
  moreover have "inv_totalAmount (paid_row E dto x t' x) = inv_totalAmount x" "inv_id (paid_row E dto x t' x) = inv_id x"
    "inv_documentType (paid_row E dto x t' x) = inv_documentType x" by (simp_all add: paid_row_def Let_def)
  ultimately show "doc_books_ok s' (paid_row E dto x t' x)"
    using four(1) b(1,3) a(2) ty by (simp add: doc_books_ok_def)
  show "status_fits (inv_documentType x) (inv_status (paid_row E dto x t' x))"
    using ty by (simp add: st status_fits_def)
qed

definition paid_state :: "env \<Rightarrow> id \<Rightarrow> create_invoice_payment_dto \<Rightarrow> invoice \<Rightarrow> db \<Rightarrow> db" where
  "paid_state E u dto x s = s\<lparr>nextId := Suc (nextId s),
     invoicePayments := invoicePayments s @ [invoice_payment_row E u (inv_id x) dto (clock s) (e_uuid E (nextId s))],
     invoices := update_where (\<lambda>y. inv_id y = inv_id x) (paid_row E dto x (clock s)) (invoices s)\<rparr>"

lemma recordPayment_run:
  "recordPayment E t u i dto s =
     (case find_invoice t i s of
        None \<Rightarrow> (Inl (NotFoundException InvoiceNotFound), s)
      | Some x \<Rightarrow>
          if inv_documentType x = QUOTE then (Inl (BadRequestException NoPaymentOnQuotes), s)
          else (Inr (formatInvoiceDetail (paid_state E u dto x s) (paid_row E dto x (clock s) x)), paid_state E u dto x s))"
proof (cases "find_invoice t i s")
  case (Some x)
  then have "inv_id x = i" using find_invoice_row by blast
  with Some find_invoice_ex [OF Some] show ?thesis
    by (simp add: recordPayment_def validateCanReceivePayment_def transaction_def run_simps paid_state_def Let_def)
qed (simp add: recordPayment_def run_simps)

lemma recordPayment_keeps:
  assumes col: "column_rounds E" and dto: "payable E dto" and ok: "invoices_ok E s"
    and run: "recordPayment E t u i dto s = (r, s')"
  shows "invoices_ok E s'"
proof (cases "find_invoice t i s")
  case None
  then show ?thesis using run ok by (simp add: recordPayment_run)
next
  case (Some x)
  note x = find_invoice_row [OF Some]
  let ?s = "paid_state E u dto x s"
  have books: "doc_books_ok s x" using ok x by (simp add: invoices_ok_def)
  have "invoices_ok E ?s" if ty: "inv_documentType x \<noteq> QUOTE"
  proof (rule invoices_ok_update [OF ok, where i = i and f = "paid_row E dto x (clock s)" and x = x and
        ps = "[invoice_payment_row E u i dto (clock s) (e_uuid E (nextId s))]"])
    have "invoicePayments ?s = invoicePayments s @ [invoice_payment_row E u (inv_id x) dto (clock s) (e_uuid E (nextId s))]"
      by (simp add: paid_state_def)
    from paid_row_books(1,2) [OF col dto books ty this]
    show "doc_books_ok ?s (paid_row E dto x (clock s) x)"
      "status_fits (inv_documentType x) (inv_status (paid_row E dto x (clock s) x))" .
  qed (use x ty in \<open>simp_all add: paid_state_def invoice_payment_row_def paid_row_def Let_def document_key_def\<close>)
  then show ?thesis using run ok Some by (auto simp: recordPayment_run split: if_splits)
qed

lemma number_taken:
  "list_ex (\<lambda>x. inv_documentNumber x = inv_documentNumber y \<and> inv_tenantId x = inv_tenantId y) rows \<longleftrightarrow>
     document_key y \<in> document_key ` set rows"
  by (induction rows) (auto simp: document_key_def)

lemma insert_invoice_Inr:
  "insert_invoice E row s = (Inr x, s') \<longleftrightarrow> x = row (e_uuid E (nextId s)) (clock s) \<and>
     document_key x \<notin> document_key ` set (invoices s) \<and> s' = s\<lparr>nextId := Suc (nextId s), invoices := invoices s @ [x]\<rparr>"
  unfolding insert_invoice_def by (auto simp: run_simps number_taken)

lemma insert_invoice_InrD:
  assumes "insert_invoice E row s = (Inr x, s')"
  shows "x = row (e_uuid E (nextId s)) (clock s)" "document_key x \<notin> document_key ` set (invoices s)"
    "s' = s\<lparr>nextId := Suc (nextId s), invoices := invoices s @ [x]\<rparr>"
  using assms unfolding insert_invoice_Inr by blast+

lemma number_made: "startsWith (next_number (year_prefix p y) w ns) (p @ ''-'')"
proof -
  have "next_number (year_prefix p y) w ns = (p @ ''-'') @ (show_nat y @ ''-'' @ drop (length (year_prefix p y)) (next_number (year_prefix p y) w ns))"
    by (simp add: next_number_def year_prefix_def Let_def)
  then show ?thesis using startsWith_append by metis
qed

lemma create_invoice_shape:
  assumes "create_invoice E t u dto s = (r, s')"
  obtains (refused) e where "r = Inl e" "s' = s"
  | (made) subtotal n x s1 where "x = draft_row E t u dto subtotal n (e_uuid E (nextId s)) (clock s)"
      "n = next_number (year_prefix (getDocumentPrefix (cin_documentType dto)) (e_year E (clock s))) 5
         (map inv_documentNumber (filter (\<lambda>x. inv_tenantId x = t) (invoices s)))"
      "document_key x \<notin> document_key ` set (invoices s)"
      "s1 = s\<lparr>nextId := Suc (nextId s), invoices := invoices s @ [x]\<rparr>" "same_documents s1 s'"
proof -
  have tx: thesis if tx: "create_invoice_tx E t u dto items subtotal s = (Inr found, s')" for items subtotal found
  proof -
    from tx obtain n x s1 where s1: "n = next_number (year_prefix (getDocumentPrefix (cin_documentType dto)) (e_year E (clock s))) 5
         (map inv_documentNumber (filter (\<lambda>x. inv_tenantId x = t) (invoices s)))"
      "insert_invoice E (draft_row E t u dto subtotal n) s = (Inr x, s1)"
      and lines: "create_lines E (inv_id x) items s1 = (Inr (), s')"
      by (auto simp: create_invoice_tx_def generateDocumentNumber_def bindM_Inr)
    have "same_documents s1 s'" by (rule obeysD [OF same_documents_lines(1) lines])
    with s1 show thesis by (auto simp: insert_invoice_Inr intro!: made)
  qed
  have found: "found \<noteq> None" if tx: "create_invoice_tx E t u dto items subtotal s = (Inr found, s')" for items subtotal found s'
  proof -
    from tx obtain n x s1 where s1: "insert_invoice E (draft_row E t u dto subtotal n) s = (Inr x, s1)"
      and lines: "create_lines E (inv_id x) items s1 = (Inr (), s')"
      and f: "found = List.find (\<lambda>y. inv_id y = inv_id x) (invoices s')"
      by (auto simp: create_invoice_tx_def generateDocumentNumber_def bindM_Inr)
    have "invoices s' = invoices s1" using obeysD [OF same_documents_lines(1) lines] by (simp add: same_documents_def)
    then show ?thesis using s1 f by (auto simp: insert_invoice_Inr find_None_iff')
  qed
  from assms show thesis unfolding create_invoice_def
    apply -
    apply (erule after_check, intro svc_intros, erule (1) refused)+
    subgoal for a b c
      apply (cases "processInvoiceItems E c (cin_items dto)")
      apply (auto elim!: bindM_cases simp: transaction_Inr transaction_Inl dest: found intro: tx refused)
      done
    done
qed

lemma create_invoice_keeps:
  assumes col: "column_rounds E" and ok: "invoices_ok E s" and run: "create_invoice E t u dto s = (r, s')"
  shows "invoices_ok E s'"
  using run
proof (cases rule: create_invoice_shape)
  case refused
  then show ?thesis using ok by simp
next
  case (made subtotal n x s1)
  have zero: "e_col E 0 = 0" by (rule column_exact [OF col four_decimals_0])
  have "number_fits x" unfolding number_fits_def made(1) using number_made made(2) by (simp add: draft_row_def Let_def)
  moreover have "inv_sourceDocumentId x = None" "inv_status x = DocDraft" "inv_paidAmount x = 0" "inv_id x = e_uuid E (nextId s)"
    "inv_dueAmount x = inv_totalAmount x" "four_decimals (inv_totalAmount x)"
    using col zero by (simp_all add: made(1) draft_row_def Let_def column_rounds_def)
  ultimately have "invoices_ok E s1"
    using made(3) by (intro invoices_ok_append [OF ok, of s1 x]) (simp_all add: made(4) source_ok_def)
  then show ?thesis using made(5) by (rule invoices_ok_same)
qed

definition line_content where
  "line_content x = (ini_productId x, ini_productName x, ini_productSku x, ini_quantity x, ini_unitPrice x,
     ini_discountAmount x, ini_taxAmount x, ini_lineTotal x, ini_notes x, ini_sortOrder x)"

lemma copy_lines:
  assumes "forM items (copy_line E i) s = (r, s')"
  obtains added where "r = Inr (map (\<lambda>_. ()) items)" "s' = s\<lparr>nextId := nextId s', invoiceItems := invoiceItems s @ added\<rparr>"
    "map line_content added = map line_content items" "list_all (\<lambda>x. ini_invoiceId x = i) added"
  using assms
proof (induction items arbitrary: s r thesis)
  case Nil
  from Nil.prems(1) [of "[]"] Nil.prems(2) show ?case by simp
next
  case (Cons x items)
  let ?x = "x\<lparr>ini_id := e_uuid E (nextId s), ini_invoiceId := i\<rparr>"
  let ?s = "s\<lparr>nextId := Suc (nextId s), invoiceItems := invoiceItems s @ [?x]\<rparr>"
  have "copy_line E i x s = (Inr (), ?s)" by (simp add: copy_line_def run_simps)
  with Cons.prems(2) obtain r1 where r1: "forM items (copy_line E i) ?s = (r1, s')"
    and r: "r = (case r1 of Inl e \<Rightarrow> Inl e | Inr ys \<Rightarrow> Inr (() # ys))"
    by (cases "forM items (copy_line E i) ?s") (auto simp: bindM_def split: sum.splits)
  from Cons.IH [OF _ r1] obtain added where a: "r1 = Inr (map (\<lambda>_. ()) items)"
    "s' = ?s\<lparr>nextId := nextId s', invoiceItems := invoiceItems ?s @ added\<rparr>"
    "map line_content added = map line_content items" "list_all (\<lambda>x. ini_invoiceId x = i) added" by blast
  have "line_content ?x = line_content x" by (simp add: line_content_def)
  then show ?case by (intro Cons.prems(1) [of "?x # added"]) (use a r in simp_all)
qed

abbreviation accept :: "instant \<Rightarrow> invoice \<Rightarrow> invoice" where
  "accept t y \<equiv> y\<lparr>inv_status := DocAccepted, inv_acceptedAt := Some t\<rparr>"

lemma convert_shape:
  assumes "convertToInvoice E t u i s = (r, s')"
  obtains (refused) e where "r = Inl e" "s' = s"
  | (converted) q n x s1 s2 added where "find_invoice t i s = Some q" "inv_documentType q = QUOTE"
      "inv_status q = DocDraft \<or> inv_status q = DocSent"
      "s1 = s\<lparr>invoices := update_where (\<lambda>y. inv_id y = i) (accept (clock s)) (invoices s)\<rparr>"
      "n = next_number (year_prefix ''INV'' (e_year E (clock s))) 5
         (map inv_documentNumber (filter (\<lambda>x. inv_tenantId x = t) (invoices s1)))"
      "x = converted_row E t u q n (e_uuid E (nextId s)) (clock s)"
      "document_key x \<notin> document_key ` set (invoices s1)"
      "s2 = s1\<lparr>nextId := Suc (nextId s), invoices := invoices s1 @ [x]\<rparr>" "same_documents s2 s'"
      "s' = s2\<lparr>nextId := nextId s', invoiceItems := invoiceItems s @ added\<rparr>"
      "map line_content added = map line_content (invoice_lines i s)" "list_all (\<lambda>y. ini_invoiceId y = inv_id x) added"
      "r = Inr (formatInvoiceDetail s' (the (List.find (\<lambda>y. inv_id y = inv_id x) (invoices s'))))"
proof (cases "find_invoice t i s")
  case None
  then show thesis using assms refused [of "NotFoundException QuoteNotFound"] by (simp add: convertToInvoice_def run_simps)
next
  case (Some q)
  note q = find_invoice_row [OF Some]
  show thesis
  proof (cases "inv_documentType q = QUOTE \<and> (inv_status q = DocDraft \<or> inv_status q = DocSent)")
    case False
    then have "s' = s \<and> (\<exists>e. r = Inl e)" using assms Some
      by (auto simp: convertToInvoice_def validateCanConvert_def run_simps bindM_def split: if_splits)
    then show thesis using refused by blast
  next
    case True
    let ?s1 = "s\<lparr>invoices := update_where (\<lambda>y. inv_id y = i) (accept (clock s)) (invoices s)\<rparr>"
    let ?n = "next_number (year_prefix ''INV'' (e_year E (clock s))) 5
         (map inv_documentNumber (filter (\<lambda>x. inv_tenantId x = t) (invoices ?s1)))"
    let ?x = "converted_row E t u q ?n (e_uuid E (nextId s)) (clock s)"
    let ?items = "invoice_lines i s"
    have run: "convert_tx E t u q ?items s =
        bindM (insert_invoice E (converted_row E t u q ?n)) (\<lambda>newInvoice.
        bindM (forM ?items (copy_line E (inv_id newInvoice))) (\<lambda>_.
        readM (\<lambda>s. List.find (\<lambda>x. inv_id x = inv_id newInvoice) (invoices s)))) ?s1"
      using q find_invoice_ex [OF Some] by (simp add: convert_tx_def generateDocumentNumber_def run_simps)
    show thesis
    proof (cases "convert_tx E t u q ?items s")
      case (Pair out s3)
      show thesis
      proof (cases out)
        case (Inl e)
        then have "s' = s \<and> r = Inl e" using assms Some True Pair
          by (auto simp: convertToInvoice_def validateCanConvert_def run_simps transaction_def bindM_def)
        then show thesis using refused by blast
      next
        case (Inr found)
        from Pair run have "bindM (insert_invoice E (converted_row E t u q ?n)) (\<lambda>newInvoice.
            bindM (forM ?items (copy_line E (inv_id newInvoice))) (\<lambda>_.
            readM (\<lambda>s. List.find (\<lambda>x. inv_id x = inv_id newInvoice) (invoices s)))) ?s1 = (Inr found, s3)"
          by (simp add: Inr)
        then obtain x s2 ys where ins: "insert_invoice E (converted_row E t u q ?n) ?s1 = (Inr x, s2)"
          and lines: "forM ?items (copy_line E (inv_id x)) s2 = (Inr ys, s3)"
          and found: "found = List.find (\<lambda>y. inv_id y = inv_id x) (invoices s3)"
          by (auto simp: bindM_Inr)
        have x: "x = ?x" "document_key x \<notin> document_key ` set (invoices ?s1)"
          "s2 = ?s1\<lparr>nextId := Suc (nextId s), invoices := invoices ?s1 @ [x]\<rparr>"
          using insert_invoice_InrD(1) [OF ins] insert_invoice_InrD(2) [OF ins] insert_invoice_InrD(3) [OF ins] by simp_all
        from lines obtain added where a: "s3 = s2\<lparr>nextId := nextId s3, invoiceItems := invoiceItems s2 @ added\<rparr>"
          "map line_content added = map line_content ?items" "list_all (\<lambda>y. ini_invoiceId y = inv_id x) added"
          by (rule copy_lines)
        have same: "same_documents s2 s3" by (rule obeysD [OF same_documents_lines(2) lines])
        have "found \<noteq> None" using same x(3) found by (auto simp: same_documents_def find_None_iff')
        then have "r = Inr (formatInvoiceDetail s3 (the found))" "s' = s3"
          using assms Some True Pair Inr
          by (auto simp: convertToInvoice_def validateCanConvert_def run_simps transaction_def bindM_def)
        then show thesis using Some True x a same found
          by (intro converted [of q ?s1 ?n x s2 added]) simp_all
      qed
    qed
  qed
qed

lemma convert_keeps:
  assumes col: "column_rounds E" and ok: "invoices_ok E s" and run: "convertToInvoice E t u i s = (r, s')"
  shows "invoices_ok E s'"
  using run
proof (cases rule: convert_shape)
  case refused
  then show ?thesis using ok by simp
next
  case (converted q n x s1 s2 added)
  note q = find_invoice_row [OF converted(1)]
  have books: "doc_books_ok s q" using ok q by (simp add: invoices_ok_def)
  have s1: "invoices_ok E s1" unfolding converted(4)
    by (rule invoices_ok_status [OF ok converted(1)]) (use converted(2) in \<open>simp_all add: status_fits_def document_key_def\<close>)
  have four: "four_decimals (inv_totalAmount q)" "e_col E 0 = 0"
    using books column_exact [OF col four_decimals_0] by (simp_all add: doc_books_ok_def)
  have total: "inv_totalAmount x = inv_totalAmount q" "inv_dueAmount x = inv_totalAmount q"
    using column_exact [OF col four(1)] by (simp_all add: converted(6) converted_row_def)
  have new: "accept (clock s) q \<in> set (invoices s1)"
    unfolding converted(4) using q by (auto simp: set_update_where)
  have once: "i \<notin> set (converted_quotes s1)"
  proof
    assume "i \<in> set (converted_quotes s1)"
    then have "i \<in> set (converted_quotes s)"
      unfolding converted_quotes_def converted(4) by (simp add: map_filter_update_where)
    then obtain z where z: "z \<in> set (invoices s)" "inv_sourceDocumentId z = Some i"
      by (auto simp: converted_quotes_def set_map_filter)
    then have "source_ok s z" using ok by (simp add: invoices_ok_def)
    with z(2) obtain y where "y \<in> set (invoices s)" "inv_id y = i" "inv_status y \<in> {DocAccepted, DocCancelled}"
      by (auto simp: source_ok_def)
    moreover from this have "y = q" using invoice_id_unique [OF ok _ conjunct1 [OF q]] q by auto
    ultimately show False using converted(3) by auto
  qed
  have "number_fits x" unfolding number_fits_def converted(6) using number_made [of "''INV''"] converted(5)
    by (simp add: converted_row_def getDocumentPrefix_def)
  moreover have "source_ok s2 x"
    unfolding source_ok_def converted(8) using new q converted(2) total
    by (auto simp: converted(6) converted_row_def intro!: bexI [of _ "accept (clock s) q"])
  ultimately have "invoices_ok E s2"
    using converted(7) four total once q
    by (intro invoices_ok_append [OF s1, of s2 x]) (simp_all add: converted(8) converted(4,6) converted_row_def)
  then show ?thesis using converted(9) by (rule invoices_ok_same)
qed

section \<open>The properties\<close>

inductive document_step :: "env \<Rightarrow> db \<Rightarrow> db \<Rightarrow> bool" for E where
  created: "create_invoice E t u dto s = (r, s') \<Longrightarrow> document_step E s s'"
| updated: "update_invoice_by E t i patch s = (r, s') \<Longrightarrow> document_step E s s'"
| sent: "markAsSent t i s = (r, s') \<Longrightarrow> document_step E s s'"
| converted: "convertToInvoice E t u i s = (r, s') \<Longrightarrow> document_step E s s'"
| paid: "payable E pay \<Longrightarrow> recordPayment E t u i pay s = (r, s') \<Longrightarrow> document_step E s s'"
| cancelled: "cancel_invoice t i s = (out, s') \<Longrightarrow> document_step E s s'"
| ticked: "document_step E s (s\<lparr>clock := t\<rparr>)"

inductive_cases document_stepE: "document_step E s s'"

lemma document_steps_keep:
  assumes "column_rounds E" "invoices_ok E s" "(document_step E)\<^sup>*\<^sup>* s s'"
  shows "invoices_ok E s'"
  using assms(3,2)
proof (induction rule: rtranclp_induct)
  case (step s1 s2)
  then have ok: "invoices_ok E s1" by simp
  from step.hyps(2) show ?case
  proof (cases rule: document_step.cases)
    case ticked
    then show ?thesis using ok by (auto intro: invoices_ok_same simp: same_documents_def)
  qed (use ok assms(1) in \<open>blast intro: create_invoice_keeps update_invoice_keeps markAsSent_keeps convert_keeps
    recordPayment_keeps cancel_keeps\<close>)+
qed simp



text \<open>C35: Converting a quote is atomic: when it throws, nothing is changed. When it returns, the quote was an
  open one (draft or sent) and is now accepted; there is one new document, a draft invoice over the same
  total, nothing paid and all of it due, whose lines are those of the quote; and the quote cannot be
  converted again.\<close>

theorem convert_effect:
  assumes col: "column_rounds E" and ok: "invoices_ok E s"
    and lines: "ids_used E s (ini_invoiceId ` set (invoiceItems s))" and run: "convertToInvoice E t u i s = (r, s')"
  shows "case r of Inl e \<Rightarrow> s' = s
    | Inr d \<Rightarrow> \<exists>q x. find_invoice t i s = Some q \<and> inv_status q \<in> {DocDraft, DocSent} \<and>
        invoices s' = update_where (\<lambda>y. inv_id y = i) (accept (clock s)) (invoices s) @ [x] \<and>
        inv_documentType x = INVOICE \<and> inv_status x = DocDraft \<and> inv_sourceDocumentId x = Some i \<and>
        inv_totalAmount x = inv_totalAmount q \<and> inv_paidAmount x = 0 \<and> inv_dueAmount x = inv_totalAmount q \<and>
        map line_content (invoice_lines (inv_id x) s') = map line_content (invoice_lines i s) \<and>
        fst (convertToInvoice E t u' i s') = Inl (BadRequestException QuoteNotOpen)"
  using run
proof (cases rule: convert_shape)
  case refused
  then show ?thesis by simp
next
  case (converted q n x s1 s2 added)
  note q = find_invoice_row [OF converted(1)]
  have four: "four_decimals (inv_totalAmount q)" using ok q by (simp add: invoices_ok_def doc_books_ok_def)
  have x: "inv_documentType x = INVOICE" "inv_status x = DocDraft" "inv_sourceDocumentId x = Some i"
    "inv_totalAmount x = inv_totalAmount q" "inv_paidAmount x = 0" "inv_dueAmount x = inv_totalAmount q"
    "inv_id x = e_uuid E (nextId s)"
    using column_exact [OF col four] column_exact [OF col four_decimals_0] q
    by (simp_all add: converted(6) converted_row_def)
  have rows: "invoices s' = update_where (\<lambda>y. inv_id y = i) (accept (clock s)) (invoices s) @ [x]"
    using converted(9) by (simp add: same_documents_def converted(8) converted(4))
  have "inv_id x \<notin> ini_invoiceId ` set (invoiceItems s)" unfolding x(7) by (rule ids_used_fresh [OF lines])
  then have "filter (\<lambda>y. ini_invoiceId y = inv_id x) (invoiceItems s) = []" by (auto simp: filter_empty_conv image_iff)
  moreover have "filter (\<lambda>y. ini_invoiceId y = inv_id x) added = added"
    using converted(12) by (simp add: list_all_iff)
  moreover have "invoiceItems s' = invoiceItems s @ added" by (subst converted(10)) simp
  ultimately have "invoice_lines (inv_id x) s' = added" by (simp add: invoice_lines_def)
  then have same: "map line_content (invoice_lines (inv_id x) s') = map line_content (invoice_lines i s)"
    using converted(11) by simp
  have "find_invoice t i s' = Some (accept (clock s) q)"
    using converted(1) q unfolding find_invoice_def rows find_append by (subst find_update_where) auto
  then have "fst (convertToInvoice E t u' i s') = Inl (BadRequestException QuoteNotOpen)"
    using converted(2) by (simp add: convertToInvoice_def validateCanConvert_def run_simps bindM_def)
  with x rows same converted(1,3,13) show ?thesis by auto
qed

text \<open>C36: A payment is accepted on every document that is not a quote, in whatever status and of whatever
  amount, cancelled and fully paid documents included: it is recorded, added to what is paid, and the document
  becomes PAID, or PARTIALLY_PAID while something is left to pay.\<close>

theorem payment_effect:
  assumes col: "column_rounds E" and ok: "invoices_ok E s" and found: "find_invoice t i s = Some x"
    and ty: "inv_documentType x \<noteq> QUOTE" and dto: "payable E dto"
  shows "\<exists>d s'. recordPayment E t u i dto s = (Inr d, s') \<and>
    inv_paidAmount (idr_invoice d) = inv_paidAmount x + e_dec E (cip_amount dto) \<and>
    inv_status (idr_invoice d) = (if inv_totalAmount x \<le> inv_paidAmount x + e_dec E (cip_amount dto)
      then DocPaid else DocPartiallyPaid) \<and>
    invoices s' = update_where (\<lambda>y. inv_id y = i) (\<lambda>_. idr_invoice d) (invoices s) \<and>
    invoicePayments s' = invoicePayments s @ [invoice_payment_row E u i dto (clock s) (e_uuid E (nextId s))]"
proof -
  note x = find_invoice_row [OF found]
  have books: "doc_books_ok s x" using ok x by (simp add: invoices_ok_def)
  let ?s = "paid_state E u dto x s" and ?x = "paid_row E dto x (clock s) x"
  have pay: "invoicePayments ?s = invoicePayments s @ [invoice_payment_row E u (inv_id x) dto (clock s) (e_uuid E (nextId s))]"
    by (simp add: paid_state_def)
  have "0 \<le> inv_paidAmount x" "0 < e_dec E (cip_amount dto)" using books dto by (auto simp: doc_books_ok_def payable_def)
  then have st: "inv_status ?x = (if inv_totalAmount x \<le> inv_paidAmount x + e_dec E (cip_amount dto)
      then DocPaid else DocPartiallyPaid)"
    by (simp add: paid_row_def paid_status_def Let_def)
  have "update_where (\<lambda>y. inv_id y = i) (paid_row E dto x (clock s)) (invoices s) =
      update_where (\<lambda>y. inv_id y = i) (\<lambda>_. ?x) (invoices s)"
    using invoice_id_unique [OF ok _ conjunct1 [OF x]] x unfolding update_where_def by (intro map_cong) auto
  then have "invoices ?s = update_where (\<lambda>y. inv_id y = i) (\<lambda>_. ?x) (invoices s)" using x by (simp add: paid_state_def)
  then show ?thesis
    using found ty st pay x paid_row_books(3) [OF col dto books ty pay]
    by (simp add: recordPayment_run formatInvoiceDetail_def)
qed

section \<open>A document\<close>

text \<open>Four boxes at 30, as a quote or as an invoice.\<close>

definition boxes :: "DocumentType \<Rightarrow> create_invoice_dto" where
  "boxes ty = \<lparr>cin_documentType = ty, cin_locationId = ''l'', cin_customerId = ''c'', cin_subject = None,
     cin_items = [\<lparr>cii_productId = ''p'', cii_quantity = 4, cii_unitPrice = 30, cii_discountAmount = None,
       cii_taxAmount = None, cii_notes = None, cii_sortOrder = None\<rparr>],
     cin_discountAmount = None, cin_dueDate = None, cin_validUntil = None, cin_paymentTerms = None,
     cin_notes = None, cin_customerNotes = None, cin_termsConditions = None\<rparr>"

definition boxes_row :: "DocumentType \<Rightarrow> invoice" where
  "boxes_row ty = draft_row env0 ''t'' ''u'' (boxes ty) 120 (getDocumentPrefix ty @ ''-2026-00001'') (nat_id 0) 0"

definition boxes_db :: "DocumentType \<Rightarrow> db" where
  "boxes_db ty = db0\<lparr>invoices := [boxes_row ty], nextId := 2,
     invoiceItems := [line_row env0 (nat_id 0) (invoice_line_of env0
       (\<lambda>_. Some (sample_product ''p'' ''Box'' ''BOX'' ''t'' SIMPLE None 0)) 0 (hd (cin_items (boxes ty)))) (nat_id 1)]\<rparr>"

definition transfer_of :: "rat \<Rightarrow> create_invoice_payment_dto" where
  "transfer_of a = \<lparr>cip_method = BANK_TRANSFER, cip_amount = a, cip_transactionRef = None, cip_paymentDate = None, cip_notes = None\<rparr>"

lemma boxes_ok: "invoices_ok env0 (boxes_db ty)" "ids_used env0 (boxes_db ty) (ini_invoiceId ` set (invoiceItems (boxes_db ty)))"
proof -
  have rows: "invoices (boxes_db ty) = [boxes_row ty]" "invoicePayments (boxes_db k) = []" "nextId (boxes_db ty) = 2" for k
    by (simp_all add: boxes_db_def db0_def)
  have row: "inv_id (boxes_row ty) = nat_id 0" "inv_documentType (boxes_row ty) = ty" "inv_status (boxes_row ty) = DocDraft"
    "inv_sourceDocumentId (boxes_row ty) = None" "inv_totalAmount (boxes_row ty) = col4 120"
    "inv_paidAmount (boxes_row ty) = col4 0" "inv_dueAmount (boxes_row ty) = col4 120"
    "inv_documentNumber (boxes_row ty) = getDocumentPrefix ty @ ''-2026-00001''"
    by (simp_all add: boxes_row_def boxes_def draft_row_def Let_def)
  have col: "col4 0 = 0" "four_decimals (col4 120)"
    using column_exact [OF column_rounds_env0 four_decimals_0] column_rounds_env0 by (simp_all add: column_rounds_def)
  have "startsWith (getDocumentPrefix ty @ ''-2026-00001'') (getDocumentPrefix ty @ ''-'')"
    using startsWith_append [of "getDocumentPrefix ty @ ''-''" "''2026-00001''"] by simp
  then have "number_fits (boxes_row ty)" by (simp add: number_fits_def row)
  moreover have "doc_books_ok (boxes_db ty) (boxes_row ty)"
    using col four_decimals_0 by (simp add: doc_books_ok_def rows row invoice_paid_def)
  moreover have "nat_id 0 = e_uuid env0 0" by simp
  ultimately show "invoices_ok env0 (boxes_db ty)"
    by (auto simp: invoices_ok_def rows row source_ok_def status_fits_def converted_quotes_def List.map_filter_def ids_used_def inj_nat_id)
  show "ids_used env0 (boxes_db ty) (ini_invoiceId ` set (invoiceItems (boxes_db ty)))"
    by (auto simp: boxes_db_def line_row_def ids_used_def inj_nat_id)
qed

lemma payable_transfer: "payable env0 (transfer_of 50)"
  unfolding payable_def four_decimals_def by (auto simp: transfer_of_def intro: exI [of _ 500000])



theorem convert_effect_witness:
  "\<exists>d s' x. convertToInvoice env0 ''t'' ''u'' (nat_id 0) (boxes_db QUOTE) = (Inr d, s') \<and>
     x \<in> set (invoices s') \<and> inv_documentType x = INVOICE \<and> inv_totalAmount x = 120 \<and> inv_dueAmount x = 120 \<and>
     map ini_quantity (invoice_lines (nat_id 0) s') = [4]"
proof -
  let ?run = "convertToInvoice env0 ''t'' ''u'' (nat_id 0) (boxes_db QUOTE)"
  have facts: "case fst ?run of Inl e \<Rightarrow> False | Inr d \<Rightarrow> True" "map ini_quantity (invoice_lines (nat_id 0) (snd ?run)) = [4]"
    "map_option inv_totalAmount (find_invoice ''t'' (nat_id 0) (boxes_db QUOTE)) = Some 120"
    by code_simp+
  then obtain d s' where run: "?run = (Inr d, s')" by (cases ?run) (auto split: sum.splits)
  from convert_effect [OF column_rounds_env0 boxes_ok run, unfolded sum.case]
  obtain q x where x: "find_invoice ''t'' (nat_id 0) (boxes_db QUOTE) = Some q"
    "invoices s' = update_where (\<lambda>y. inv_id y = nat_id 0) (accept (clock (boxes_db QUOTE))) (invoices (boxes_db QUOTE)) @ [x]"
    "inv_documentType x = INVOICE" "inv_totalAmount x = inv_totalAmount q" "inv_dueAmount x = inv_totalAmount q" by blast
  moreover have "inv_totalAmount q = 120" using facts(3) x(1) by simp
  moreover have "x \<in> set (invoices s')" unfolding x(2) by simp
  moreover have "map ini_quantity (invoice_lines (nat_id 0) s') = [4]" using facts(2) run by simp
  ultimately show ?thesis using run by (intro exI [of _ d] exI [of _ s'] exI [of _ x] conjI) simp_all
qed

theorem payment_effect_witness:
  "\<exists>x d s'. find_invoice ''t'' (nat_id 0) (snd (cancel_invoice ''t'' (nat_id 0) (boxes_db INVOICE))) = Some x \<and>
     inv_status x = DocCancelled \<and>
     recordPayment env0 ''t'' ''u'' (nat_id 0) (transfer_of 50) (snd (cancel_invoice ''t'' (nat_id 0) (boxes_db INVOICE))) = (Inr d, s') \<and>
     inv_status (idr_invoice d) = DocPartiallyPaid"
proof -
  let ?s = "snd (cancel_invoice ''t'' (nat_id 0) (boxes_db INVOICE))"
  have "case find_invoice ''t'' (nat_id 0) ?s of None \<Rightarrow> False | Some x \<Rightarrow> inv_status x = DocCancelled \<and>
      inv_documentType x = INVOICE \<and> inv_totalAmount x = 120 \<and> inv_paidAmount x = 0" by code_simp
  then obtain x where x: "find_invoice ''t'' (nat_id 0) ?s = Some x" "inv_status x = DocCancelled"
    "inv_documentType x \<noteq> QUOTE" "inv_totalAmount x = 120" "inv_paidAmount x = 0" by (auto split: option.splits)
  have ok: "invoices_ok env0 ?s"
    by (rule cancel_keeps [OF boxes_ok(1), of "''t''" "nat_id 0" INVOICE "fst (cancel_invoice ''t'' (nat_id 0) (boxes_db INVOICE))"]) simp
  show ?thesis
    using payment_effect [OF column_rounds_env0 ok x(1,3) payable_transfer, of "''u''"] x by (fastforce simp: transfer_of_def)
qed

end
