(* ===== verification/Accounts.thy ===== *)
theory Accounts
  imports Slug Pagination
begin

text \<open>
  The identity side of the database, \<^verbatim>\<open>src/prisma/schemas/user.prisma\<close>, \<^verbatim>\<open>authorization.prisma\<close>,
  \<^verbatim>\<open>module.prisma\<close> and the membership part of \<^verbatim>\<open>tenant.prisma\<close>, the keys of Redis in which the web
  sessions live, and \<^verbatim>\<open>src/src/modules/users/users.service.ts\<close>.

  The state \<open>org\<close> extends \<open>db\<close> by these tables, so that tenants, locations, clock and identifier counter
  are those of the rest of the program. The mails a service sends are collected in \<open>outbox\<close>. Exceptions
  carry their message as a text. Passwords, tokens and one-time codes come from libraries (argon2,
  \<^verbatim>\<open>node:crypto\<close>, otplib) and are parameters, the record \<open>auth_env\<close>.
\<close>

section \<open>Rows\<close>

datatype VerificationTokenType = EMAIL_VERIFICATION | PASSWORD_RESET
datatype OnboardingStatus = OnbPending | OnbCompleted
datatype TwoFactorType = TfTotp | TfSms | TfEmail
datatype TrustedDeviceStatus = DevActive | DevRevoked
datatype MfaChallengeChannel = ChSms | ChEmail
datatype Theme = LIGHT | DARK
datatype AccessScope = ScopeTenant | ScopeLocation
datatype TenantInvitationStatus = InvPending | InvAccepted | InvDeclined | InvExpired | InvCancelled

record user =
  usr_id :: id
  usr_createdAt :: instant
  usr_firstName :: string
  usr_lastName :: string
  usr_profilePhoto :: "string option"
  usr_email :: string
  usr_phoneNumber :: "string option"
  usr_password :: string
  usr_emailVerified :: "instant option"
  usr_isActive :: bool
  usr_onboardingStatus :: OnboardingStatus
  usr_onboardingCompletedAt :: "instant option"
  usr_lastLoginAt :: "instant option"
  usr_lastLoginIp :: "string option"
  usr_lastActiveAt :: "instant option"
  usr_passwordChangedAt :: "instant option"
  usr_failedLoginAttempts :: int
  usr_lockedUntil :: "instant option"
  usr_sessionVersion :: int
  usr_twoFactorEnabled :: bool
  usr_twoFactorType :: "TwoFactorType option"
  usr_twoFactorSecret :: "string option"
  usr_twoFactorTempSecret :: "string option"
  usr_twoFactorEnforced :: bool
  usr_twoFactorEnforcedAt :: "instant option"
  usr_twoFactorVerifiedAt :: "instant option"
  usr_backupCodesVersion :: int

record onboarding_state =
  onb_userId :: id
  onb_profileComplete :: bool
  onb_tenantCreation :: bool
  onb_tenantSetting :: bool

record user_preferences =
  prf_userId :: id
  prf_timezone :: string
  prf_language :: string
  prf_theme :: Theme
  prf_settings :: "string option"
  prf_emailNotifications :: bool
  prf_smsNotifications :: bool
  prf_pushNotifications :: bool
  prf_weeklyReportEmails :: bool
  prf_invetrixaEmails :: bool

record password_history =
  pwh_userId :: id
  pwh_password :: string
  pwh_createdAt :: instant

record verification_token =
  vt_id :: id
  vt_userId :: id
  vt_token :: string
  vt_type :: VerificationTokenType
  vt_expiresAt :: instant
  vt_used :: bool
  vt_usedAt :: "instant option"

record backup_code =
  bc_id :: id
  bc_userId :: id
  bc_codeHash :: string
  bc_used :: bool
  bc_usedAt :: "instant option"

record trusted_device =
  dev_id :: id
  dev_userId :: id
  dev_deviceId :: string
  dev_label :: "string option"
  dev_userAgent :: "string option"
  dev_ipAddress :: "string option"
  dev_status :: TrustedDeviceStatus
  dev_lastUsedAt :: "instant option"
  dev_expiresAt :: instant

record challenge =
  chg_id :: id
  chg_userId :: id
  chg_channel :: MfaChallengeChannel
  chg_codeHash :: string
  chg_expiresAt :: instant
  chg_attempts :: int
  chg_consumed :: bool
  chg_consumedAt :: "instant option"
  chg_createdAt :: instant

record role =
  role_id :: id
  role_name :: string
  role_description :: "string option"
  role_tenantId :: id
  role_createdAt :: instant

record role_permission =
  rp_roleId :: id
  rp_moduleRefId :: id
  rp_actions :: "string list"

record module_ref =
  mod_id :: id
  mod_name :: string
  mod_description :: "string option"
  mod_actions :: "string list"

record user_assignment =
  ua_id :: id
  ua_userId :: id
  ua_roleId :: id
  ua_tenantId :: id
  ua_accessScope :: AccessScope
  ua_locationId :: "id option"
  ua_assignedAt :: instant
  ua_assignedById :: "id option"

record tenant_invitation =
  ti_invId :: id
  ti_email :: string
  ti_status :: TenantInvitationStatus
  ti_tokenHash :: string
  ti_expiresAt :: "instant option"
  ti_acceptedAt :: "instant option"
  ti_declinedAt :: "instant option"
  ti_cancelledAt :: "instant option"
  ti_message :: "string option"
  ti_createdAt :: instant
  ti_tenantId :: id
  ti_invitedById :: id
  ti_invitedUserId :: "id option"
  ti_roleId :: "id option"

text \<open>The columns of the tenants row that only the tenants module reads, its address and its settings.\<close>

record tenant_profile =
  tnp_tenantId :: id
  tnp_companyType :: string
  tnp_industry :: string
  tnp_registrationNumber :: "string option"
  tnp_businessEmail :: string
  tnp_businessPhone :: string
  tnp_website :: "string option"
  tnp_description :: "string option"
  tnp_establishedYear :: string
  tnp_logo :: "string option"

record tenant_address =
  tna_id :: id
  tna_tenantId :: id
  tna_addressLine1 :: string
  tna_addressLine2 :: "string option"
  tna_city :: string
  tna_state :: string
  tna_postalCode :: string
  tna_country :: string
  tna_latitude :: "real option"
  tna_longitude :: "real option"

record tenant_settings =
  tns_id :: id
  tns_tenantId :: id
  tns_defaultPricingMethod :: PricingMethod
  tns_timezone :: string
  tns_locale :: string
  tns_currency :: string
  tns_dateFormat :: string
  tns_timeFormat :: string
  tns_decimalSeparator :: string
  tns_thousandsSeparator :: string

record member_removal =
  rem_userId :: id
  rem_tenantId :: id
  rem_removedById :: id
  rem_reason :: "string option"

text \<open>What Redis holds of the web sessions: under \<^verbatim>\<open>auth:<id>\<close> the session of the session store with the
  snapshot Passport put in it, under \<^verbatim>\<open>auth:metadata:<id>\<close> a hash of metadata, and under
  \<^verbatim>\<open>auth:user:<user>\<close> the set of the user's session identifiers. Every key may expire.\<close>

record session_snapshot =
  snap_id :: id
  snap_requiresTwoFactor :: bool
  snap_twoFactorVerified :: bool

record session_metadata =
  sm_deviceName :: "string option"
  sm_osName :: "string option"
  sm_userAgent :: "string option"
  sm_ipAddress :: "string option"
  sm_location :: "string option"
  sm_lastLoginAt :: "instant option"

record web_session =
  ws_id :: string
  ws_snapshot :: "session_snapshot option"
  ws_metadata :: "session_metadata option"
  ws_expiresAt :: "instant option"

record cached_metadata =
  cm_sessionId :: string
  cm_userId :: id
  cm_requiresTwoFactor :: bool
  cm_twoFactorVerified :: bool
  cm_metadata :: session_metadata
  cm_expiresAt :: "instant option"

record session_index =
  ix_userId :: id
  ix_members :: "string list"
  ix_expiresAt :: "instant option"

datatype mail =
    WelcomeMail string string
  | VerificationMail string string string
  | PasswordResetMail string string string
  | InvitationMail string string string string
  | RemovalMail string string string

record org = db +
  users :: "user list"
  onboardingStates :: "onboarding_state list"
  userPreferences :: "user_preferences list"
  passwordHistories :: "password_history list"
  verificationTokens :: "verification_token list"
  backupCodes :: "backup_code list"
  trustedDevices :: "trusted_device list"
  challenges :: "challenge list"
  roles :: "role list"
  rolePermissions :: "role_permission list"
  moduleRefs :: "module_ref list"
  userAssignments :: "user_assignment list"
  tenantMembers :: "(id \<times> id) list"
  tenantProfiles :: "tenant_profile list"
  tenantAddresses :: "tenant_address list"
  tenantSettings :: "tenant_settings list"
  tenantInvitations :: "tenant_invitation list"
  memberRemovals :: "member_removal list"
  webSessions :: "web_session list"
  cachedMetadata :: "cached_metadata list"
  sessionIndexes :: "session_index list"
  outbox :: "mail list"

datatype acc_exn = Unauthorized string | Forbidden string | NotFound string | BadRequest string
  | Conflict string | RowMissing | DuplicateKey | UnknownArgument
  | InternalError string

type_synonym 'a acc = "(org, acc_exn, 'a) svc"

section \<open>What comes from outside the repository\<close>

text \<open>
  The \<open>n\<close>-th identifier; argon2's salted hash with the \<open>n\<close>-th salt, and its check; the \<open>n\<close>-th
  \<^verbatim>\<open>randomBytes(32).toString('hex')\<close>, \<^verbatim>\<open>randomBytes(12).toString('base64url')\<close>,
  \<^verbatim>\<open>randomBytes(48).toString('base64url')\<close>, session identifier of express-session, and \<^verbatim>\<open>Math.random()\<close>
  scaled to a range; sha256 in hex;
  otplib's secrets, its check of a code at an instant, its URL for an
  authenticator; case-insensitive \<^verbatim>\<open>contains\<close>; and the rank of a
  text in the order of \<^verbatim>\<open>localeCompare\<close>.
\<close>

record auth_env =
  a_uuid :: "nat \<Rightarrow> id"
  a_hash :: "nat \<Rightarrow> string \<Rightarrow> string"
  a_verify :: "string \<Rightarrow> string \<Rightarrow> bool"
  a_hex32 :: "nat \<Rightarrow> string"
  a_base12 :: "nat \<Rightarrow> string"
  a_base48 :: "nat \<Rightarrow> string"
  a_sid :: "nat \<Rightarrow> string"
  a_random :: "nat \<Rightarrow> nat \<Rightarrow> nat"
  a_sha256 :: "string \<Rightarrow> string"
  a_secret :: "nat \<Rightarrow> string"
  a_totp :: "string \<Rightarrow> string \<Rightarrow> instant \<Rightarrow> bool"
  a_keyuri :: "string \<Rightarrow> string \<Rightarrow> string"
  a_ilike :: "string \<Rightarrow> string \<Rightarrow> bool"
  a_collate :: "string \<Rightarrow> int"

text \<open>The next value of a source of random values, and the time.\<close>

definition draw_next :: "(nat \<Rightarrow> 'a) \<Rightarrow> 'a acc" where
  "draw_next g = (\<lambda>s. (Inr (g (nextId s)), s\<lparr>nextId := Suc (nextId s)\<rparr>))"

definition time :: "instant acc" where "time = readM clock"

definition minutes :: "int \<Rightarrow> instant" where "minutes n = n * (60 * 1000)"
definition days :: "int \<Rightarrow> instant" where "days n = n * (24 * 60 * 60 * 1000)"

definition send_mail :: "mail \<Rightarrow> unit acc" where
  "send_mail m = writeM (\<lambda>s. s\<lparr>outbox := outbox s @ [m]\<rparr>)"

lemma draw_run [run_simps, simp]: "draw_next g s = (Inr (g (nextId s)), s\<lparr>nextId := Suc (nextId s)\<rparr>)"
  by (simp add: draw_next_def)

lemma time_run [run_simps, simp]: "time s = (Inr (clock s), s)"
  by (simp add: time_def)

lemma bindM_draw [run_simps]:
  "bindM (draw_next g) f s = f (g (nextId s)) (s\<lparr>nextId := Suc (nextId s)\<rparr>)" "bindM time h s = h (clock s) s"
  by (simp_all add: bindM_def)

lemma bindM_require [run_simps]:
  "bindM (require None e) f s = (Inl e, s)" "bindM (require (Some a) e) f s = f a s"
  by (simp_all add: bindM_def)

lemma readonly_time [svc_intros]: "readonly time"
  by (simp add: readonly_def)

lemma send_mail_run [run_simps, simp]: "send_mail m s = (Inr (), s\<lparr>outbox := outbox s @ [m]\<rparr>)"
  by (simp add: send_mail_def)

abbreviation update_user :: "(user \<Rightarrow> bool) \<Rightarrow> (user \<Rightarrow> user) \<Rightarrow> unit acc" where
  "update_user \<equiv> update_row users (\<lambda>rows s. s\<lparr>users := rows\<rparr>) RowMissing"

abbreviation update_token :: "(verification_token \<Rightarrow> bool) \<Rightarrow> (verification_token \<Rightarrow> verification_token) \<Rightarrow> unit acc" where
  "update_token \<equiv> update_row verificationTokens (\<lambda>rows s. s\<lparr>verificationTokens := rows\<rparr>) RowMissing"

abbreviation update_code :: "(backup_code \<Rightarrow> bool) \<Rightarrow> (backup_code \<Rightarrow> backup_code) \<Rightarrow> unit acc" where
  "update_code \<equiv> update_row backupCodes (\<lambda>rows s. s\<lparr>backupCodes := rows\<rparr>) RowMissing"

abbreviation update_device :: "(trusted_device \<Rightarrow> bool) \<Rightarrow> (trusted_device \<Rightarrow> trusted_device) \<Rightarrow> unit acc" where
  "update_device \<equiv> update_row trustedDevices (\<lambda>rows s. s\<lparr>trustedDevices := rows\<rparr>) RowMissing"

abbreviation update_challenge :: "(challenge \<Rightarrow> bool) \<Rightarrow> (challenge \<Rightarrow> challenge) \<Rightarrow> unit acc" where
  "update_challenge \<equiv> update_row challenges (\<lambda>rows s. s\<lparr>challenges := rows\<rparr>) RowMissing"

abbreviation update_role :: "(role \<Rightarrow> bool) \<Rightarrow> (role \<Rightarrow> role) \<Rightarrow> unit acc" where
  "update_role \<equiv> update_row roles (\<lambda>rows s. s\<lparr>roles := rows\<rparr>) RowMissing"

abbreviation update_invitation :: "(tenant_invitation \<Rightarrow> bool) \<Rightarrow> (tenant_invitation \<Rightarrow> tenant_invitation) \<Rightarrow> unit acc" where
  "update_invitation \<equiv> update_row tenantInvitations (\<lambda>rows s. s\<lparr>tenantInvitations := rows\<rparr>) RowMissing"

section \<open>The users service\<close>

text \<open>\<^verbatim>\<open>UserWithPreferences\<close>: a user with the rows the queries include. (The preferences are only handed on.)\<close>

record loaded_user =
  lu_user :: user
  lu_trustedDevices :: "trusted_device list"
  lu_backupCodes :: "backup_code list"
  lu_onboarding :: "onboarding_state option"

text \<open>Where a request leaves a field out, the old value stays.\<close>

abbreviation given :: "'a option \<Rightarrow> 'a \<Rightarrow> 'a" where
  "given x old \<equiv> (case x of None \<Rightarrow> old | Some v \<Rightarrow> v)"

definition load_user :: "org \<Rightarrow> user \<Rightarrow> loaded_user" where
  "load_user s u = \<lparr>lu_user = u, lu_trustedDevices = filter (\<lambda>d. dev_userId d = usr_id u) (trustedDevices s),
     lu_backupCodes = filter (\<lambda>c. bc_userId c = usr_id u) (backupCodes s),
     lu_onboarding = List.find (\<lambda>o1. onb_userId o1 = usr_id u) (onboardingStates s)\<rparr>"

definition findByEmail :: "string \<Rightarrow> loaded_user option acc" where
  "findByEmail email = readM (\<lambda>s. map_option (load_user s) (List.find (\<lambda>u. usr_email u = email) (users s)))"

definition findById :: "id \<Rightarrow> loaded_user option acc" where
  "findById i = readM (\<lambda>s. map_option (load_user s) (List.find (\<lambda>u. usr_id u = i) (users s)))"

text \<open>\<^verbatim>\<open>usersService.update\<close>, returning the row with its includes.\<close>

definition update_user_by :: "id \<Rightarrow> (user \<Rightarrow> user) \<Rightarrow> loaded_user acc" where
  "update_user_by i f =
     bindM (update_user (\<lambda>u. usr_id u = i) f) (\<lambda>_.
     bindM (findById i) (\<lambda>found. require found RowMissing))"

definition createPasswordHistory :: "id \<Rightarrow> string \<Rightarrow> unit acc" where
  "createPasswordHistory userId password =
     bindM time (\<lambda>t. writeM (\<lambda>s. s\<lparr>passwordHistories := passwordHistories s @
       [\<lparr>pwh_userId = userId, pwh_password = password, pwh_createdAt = t\<rparr>]\<rparr>))"

definition resetFailedLogin :: "id \<Rightarrow> unit acc" where
  "resetFailedLogin userId =
     update_user (\<lambda>u. usr_id u = userId) (\<lambda>u. u\<lparr>usr_failedLoginAttempts := 0, usr_lockedUntil := None\<rparr>)"

definition incrementFailedLogin :: "id \<Rightarrow> int \<Rightarrow> unit acc" where
  "incrementFailedLogin userId incrementBy =
     update_user (\<lambda>u. usr_id u = userId) (\<lambda>u. u\<lparr>usr_failedLoginAttempts := usr_failedLoginAttempts u + incrementBy\<rparr>)"

text \<open>\<^verbatim>\<open>trustedDevice.create\<close>; \<^verbatim>\<open>deviceId\<close> is unique.\<close>

definition createTrustedDevice :: "auth_env \<Rightarrow> (id \<Rightarrow> trusted_device) \<Rightarrow> unit acc" where
  "createTrustedDevice A row =
     bindM (draw_next (a_uuid A)) (\<lambda>i.
     bindM (readM (\<lambda>s. list_ex (\<lambda>d. dev_deviceId d = dev_deviceId (row i)) (trustedDevices s))) (\<lambda>taken.
     bindM (throw_if taken DuplicateKey) (\<lambda>_.
     writeM (\<lambda>s. s\<lparr>trustedDevices := trustedDevices s @ [row i]\<rparr>))))"

definition updateTrustedDevice :: "string \<Rightarrow> (trusted_device \<Rightarrow> trusted_device) \<Rightarrow> unit acc" where
  "updateTrustedDevice deviceId f = update_device (\<lambda>d. dev_deviceId d = deviceId) f"

text \<open>\<^verbatim>\<open>revokeTrustedDevice\<close> swallows the exception of a missing row.\<close>

definition revokeTrustedDevice :: "string \<Rightarrow> trusted_device option acc" where
  "revokeTrustedDevice deviceId =
     bindM time (\<lambda>t.
     bindM (writeM (\<lambda>s. s\<lparr>trustedDevices := update_where (\<lambda>d. dev_deviceId d = deviceId)
       (\<lambda>d. d\<lparr>dev_status := DevRevoked, dev_expiresAt := t\<rparr>) (trustedDevices s)\<rparr>)) (\<lambda>_.
     readM (\<lambda>s. List.find (\<lambda>d. dev_deviceId d = deviceId) (trustedDevices s))))"

definition findTrustedDevice :: "string \<Rightarrow> trusted_device option acc" where
  "findTrustedDevice deviceId = readM (\<lambda>s. List.find (\<lambda>d. dev_deviceId d = deviceId) (trustedDevices s))"

definition deleteTrustedDevice :: "string \<Rightarrow> unit acc" where
  "deleteTrustedDevice deviceId =
     bindM (readM (\<lambda>s. list_ex (\<lambda>d. dev_deviceId d = deviceId) (trustedDevices s))) (\<lambda>found.
     bindM (throw_if (\<not> found) RowMissing) (\<lambda>_.
     writeM (\<lambda>s. s\<lparr>trustedDevices := filter (\<lambda>d. dev_deviceId d \<noteq> deviceId) (trustedDevices s)\<rparr>)))"

definition replaceBackupCodes :: "auth_env \<Rightarrow> id \<Rightarrow> string list \<Rightarrow> unit acc" where
  "replaceBackupCodes A userId codeHashes = transaction (
     bindM (writeM (\<lambda>s. s\<lparr>backupCodes := filter (\<lambda>c. bc_userId c \<noteq> userId) (backupCodes s)\<rparr>)) (\<lambda>_.
     bindM (forM codeHashes (\<lambda>h. bindM (draw_next (a_uuid A)) (\<lambda>i.
       writeM (\<lambda>s. s\<lparr>backupCodes := backupCodes s @
         [\<lparr>bc_id = i, bc_userId = userId, bc_codeHash = h, bc_used = False, bc_usedAt = None\<rparr>]\<rparr>)))) (\<lambda>_.
     ret ())))"

definition markBackupCodeUsed :: "id \<Rightarrow> unit acc" where
  "markBackupCodeUsed i =
     bindM time (\<lambda>t. update_code (\<lambda>c. bc_id c = i) (\<lambda>c. c\<lparr>bc_used := True, bc_usedAt := Some t\<rparr>))"

definition consumeChallenge :: "id \<Rightarrow> unit acc" where
  "consumeChallenge i =
     bindM time (\<lambda>t. update_challenge (\<lambda>c. chg_id c = i) (\<lambda>c. c\<lparr>chg_consumed := True, chg_consumedAt := Some t\<rparr>))"

definition incrementChallengeAttempt :: "id \<Rightarrow> unit acc" where
  "incrementChallengeAttempt i = update_challenge (\<lambda>c. chg_id c = i) (\<lambda>c. c\<lparr>chg_attempts := chg_attempts c + 1\<rparr>)"

text \<open>The latest challenge that is neither consumed nor expired.\<close>

definition findActiveChallengeByChannel :: "id \<Rightarrow> MfaChallengeChannel \<Rightarrow> challenge option acc" where
  "findActiveChallengeByChannel userId channel = readM (\<lambda>s.
     case sort_key (\<lambda>c. - chg_createdAt c) (filter (\<lambda>c. chg_userId c = userId \<and> chg_channel c = channel \<and>
       \<not> chg_consumed c \<and> clock s < chg_expiresAt c) (challenges s)) of [] \<Rightarrow> None | c # _ \<Rightarrow> Some c)"

definition findBackupCodes :: "id \<Rightarrow> backup_code list acc" where
  "findBackupCodes userId = readM (\<lambda>s. filter (\<lambda>c. bc_userId c = userId) (backupCodes s))"

definition createChallenge :: "auth_env \<Rightarrow> (id \<Rightarrow> instant \<Rightarrow> challenge) \<Rightarrow> unit acc" where
  "createChallenge A row =
     bindM (draw_next (a_uuid A)) (\<lambda>i. bindM time (\<lambda>t.
     bindM (readM (\<lambda>s. list_ex (\<lambda>c. chg_id c = i) (challenges s))) (\<lambda>taken.
     bindM (throw_if taken DuplicateKey) (\<lambda>_.
     writeM (\<lambda>s. s\<lparr>challenges := challenges s @ [row i t]\<rparr>)))))"

text \<open>\<^verbatim>\<open>user.create\<close> with its preferences, password history and onboarding state; e-mail and identifier are unique.\<close>

definition default_preferences :: "id \<Rightarrow> user_preferences" where
  "default_preferences i = \<lparr>prf_userId = i, prf_timezone = ''UTC'', prf_language = ''en'', prf_theme = LIGHT,
     prf_settings = None, prf_emailNotifications = True, prf_smsNotifications = False,
     prf_pushNotifications = True, prf_weeklyReportEmails = True, prf_invetrixaEmails = True\<rparr>"

definition create_user :: "auth_env \<Rightarrow> (id \<Rightarrow> instant \<Rightarrow> user) \<Rightarrow> loaded_user acc" where
  "create_user A row = transaction (
     bindM (draw_next (a_uuid A)) (\<lambda>i. bindM time (\<lambda>t.
     bindM (readM (\<lambda>s. list_ex (\<lambda>u. usr_email u = usr_email (row i t) \<or> usr_id u = i) (users s))) (\<lambda>taken.
     bindM (throw_if taken DuplicateKey) (\<lambda>_.
     bindM (writeM (\<lambda>s. s\<lparr>users := users s @ [row i t],
         onboardingStates := onboardingStates s @ [\<lparr>onb_userId = i, onb_profileComplete = False,
           onb_tenantCreation = False, onb_tenantSetting = False\<rparr>],
         userPreferences := userPreferences s @ [default_preferences i]\<rparr>)) (\<lambda>_.
     bindM (createPasswordHistory i (usr_password (row i t))) (\<lambda>_.
     readM (\<lambda>s. load_user s (row i t)))))))))"

lemma findById_run [run_simps, simp]:
  "findById i s = (Inr (map_option (load_user s) (List.find (\<lambda>u. usr_id u = i) (users s))), s)"
  by (simp add: findById_def)

lemma findByEmail_run [run_simps, simp]:
  "findByEmail e s = (Inr (map_option (load_user s) (List.find (\<lambda>u. usr_email u = e) (users s))), s)"
  by (simp add: findByEmail_def)

lemma bindM_find_user [run_simps]:
  "bindM (findById i) f s = f (map_option (load_user s) (List.find (\<lambda>u. usr_id u = i) (users s))) s"
  "bindM (findByEmail e) f s = f (map_option (load_user s) (List.find (\<lambda>u. usr_email u = e) (users s))) s"
  by (simp_all add: bindM_def)

lemma load_user_simps [simp]: "lu_user (load_user s u) = u"
  by (simp add: load_user_def)

lemma find_user_ex: "List.find (\<lambda>u. usr_id u = i) us = Some u \<Longrightarrow> list_ex (\<lambda>u. usr_id u = i) us"
  by (auto simp: list_ex_iff dest: find_SomeD)

section \<open>The user's own profile\<close>

record preference_dto =
  prd_profilePhoto :: "string option"
  prd_timezone :: "string option"
  prd_language :: "string option"
  prd_theme :: "Theme option"
  prd_emailNotifications :: "bool option"
  prd_smsNotifications :: "bool option"
  prd_pushNotifications :: "bool option"
  prd_weeklyReportEmails :: "bool option"
  prd_invetrixaEmails :: "bool option"
  prd_settings :: "string option"

definition set_preferences :: "preference_dto \<Rightarrow> user_preferences \<Rightarrow> user_preferences" where
  "set_preferences d p = p\<lparr>prf_timezone := given (prd_timezone d) (prf_timezone p),
     prf_language := given (prd_language d) (prf_language p), prf_theme := given (prd_theme d) (prf_theme p),
     prf_settings := (case prd_settings d of None \<Rightarrow> prf_settings p | Some j \<Rightarrow> Some j),
     prf_emailNotifications := given (prd_emailNotifications d) (prf_emailNotifications p),
     prf_smsNotifications := given (prd_smsNotifications d) (prf_smsNotifications p),
     prf_pushNotifications := given (prd_pushNotifications d) (prf_pushNotifications p),
     prf_weeklyReportEmails := given (prd_weeklyReportEmails d) (prf_weeklyReportEmails p),
     prf_invetrixaEmails := given (prd_invetrixaEmails d) (prf_invetrixaEmails p)\<rparr>"

record update_me_dto =
  umd_firstName :: "string option"
  umd_lastName :: "string option"
  umd_profilePhoto :: "string option"
  umd_phoneNumber :: "string option"
  umd_preferences :: "preference_dto option"

text \<open>The preferences of the request are handed to Prisma as they are; the table has no column for the
  photo among them, so Prisma refuses an update that names one.\<close>

definition updateMe :: "id \<Rightarrow> update_me_dto \<Rightarrow> user acc" where
  "updateMe i body =
     bindM (readM (\<lambda>s. List.find (\<lambda>u. usr_id u = i) (users s))) (\<lambda>isExist.
     bindM (require isExist (NotFound ''User not found'')) (\<lambda>_.
     bindM (transaction (
       bindM (case umd_preferences body of None \<Rightarrow> ret () | Some d \<Rightarrow>
         bindM (throw_if (prd_profilePhoto d \<noteq> None) UnknownArgument) (\<lambda>_.
         update_row userPreferences (\<lambda>rows s. s\<lparr>userPreferences := rows\<rparr>) RowMissing
           (\<lambda>p. prf_userId p = i) (set_preferences d))) (\<lambda>_.
       update_user (\<lambda>u. usr_id u = i) (\<lambda>u. u\<lparr>usr_firstName := given (umd_firstName body) (usr_firstName u),
         usr_lastName := given (umd_lastName body) (usr_lastName u),
         usr_profilePhoto := (case umd_profilePhoto body of None \<Rightarrow> usr_profilePhoto u | Some v \<Rightarrow> Some v),
         usr_phoneNumber := (case umd_phoneNumber body of None \<Rightarrow> usr_phoneNumber u | Some v \<Rightarrow> Some v)\<rparr>)))) (\<lambda>_.
     bindM (readM (\<lambda>s. List.find (\<lambda>u. usr_id u = i) (users s))) (\<lambda>found.
     require found (NotFound ''User not found'')))))"

section \<open>Queries on users\<close>

record assignment_view =
  av_roleName :: "string option"
  av_locationName :: "string option"
  av_assignedAt :: instant
  av_assignerName :: "string option"

record user_details =
  ud_user :: user
  ud_trustedDevices :: "trusted_device list"
  ud_trustedDevicesCount :: nat
  ud_roleAssignments :: "assignment_view list"

definition full_name :: "user \<Rightarrow> string" where
  "full_name u = usr_firstName u @ '' '' @ usr_lastName u"

definition assignment_view_of :: "org \<Rightarrow> user_assignment \<Rightarrow> assignment_view" where
  "assignment_view_of s a =
     \<lparr>av_roleName = map_option role_name (List.find (\<lambda>r. role_id r = ua_roleId a) (roles s)),
      av_locationName = Option.bind (ua_locationId a) (\<lambda>i. map_option loc_name (List.find (\<lambda>l. loc_id l = i) (locations s))),
      av_assignedAt = ua_assignedAt a,
      av_assignerName = Option.bind (ua_assignedById a) (\<lambda>i. map_option full_name (List.find (\<lambda>u. usr_id u = i) (users s)))\<rparr>"

text \<open>\<^verbatim>\<open>lastUsedAt: 'desc'\<close> puts devices never used first.\<close>

definition last_used_rank :: "trusted_device \<Rightarrow> int \<times> instant" where
  "last_used_rank d = (case dev_lastUsedAt d of None \<Rightarrow> (0, 0) | Some t \<Rightarrow> (1, - t))"

definition getUser :: "id \<Rightarrow> id \<Rightarrow> user_details acc" where
  "getUser i tenantId =
     bindM (readM (\<lambda>s. List.find (\<lambda>u. usr_id u = i) (users s))) (\<lambda>found.
     bindM (require found (NotFound ''User not found'')) (\<lambda>u.
     readM (\<lambda>s.
       let devices = filter (\<lambda>d. dev_userId d = i \<and> dev_status d = DevActive) (trustedDevices s);
           ranked = sort_key (\<lambda>d. snd (last_used_rank d)) (filter (\<lambda>d. fst (last_used_rank d) = 1) devices);
           unused = filter (\<lambda>d. fst (last_used_rank d) = 0) devices
       in \<lparr>ud_user = u, ud_trustedDevices = unused @ ranked, ud_trustedDevicesCount = length devices,
           ud_roleAssignments = map (assignment_view_of s)
             (filter (\<lambda>a. ua_userId a = i \<and> ua_tenantId a = tenantId) (userAssignments s))\<rparr>)))"

definition getMe :: "id \<Rightarrow> id \<Rightarrow> user_details acc" where
  "getMe userId tenantId = getUser userId tenantId"

record user_filter =
  uf_search :: "string option"
  uf_name :: "string option"
  uf_email :: "string option"
  uf_phoneNumber :: "string option"
  uf_isActive :: "bool option"
  uf_emailVerified :: "bool option"
  uf_roleId :: "id option"
  uf_locationId :: "id option"
  uf_createdFrom :: "instant option"
  uf_createdTo :: "instant option"
  uf_lastActiveFrom :: "instant option"
  uf_lastActiveTo :: "instant option"

text \<open>\<^verbatim>\<open>name.trim().split(/\s+/).filter(Boolean)\<close>.\<close>

fun split_words :: "string \<Rightarrow> string \<Rightarrow> string list" where
  "split_words w [] = (if w = [] then [] else [w])"
| "split_words w (c # cs) =
     (if js_space c then (if w = [] then [] else [w]) @ split_words [] cs else split_words (w @ [c]) cs)"

text \<open>\<^verbatim>\<open>buildTenantUserFilter\<close>. No words at all, from a name of blanks, match everybody; a comparison with a
  column that is \<^verbatim>\<open>NULL\<close> is false.\<close>

definition buildTenantUserFilter :: "auth_env \<Rightarrow> id \<Rightarrow> user_filter \<Rightarrow> org \<Rightarrow> user \<Rightarrow> bool" where
  "buildTenantUserFilter A tenantId q s u \<longleftrightarrow>
     (usr_id u, tenantId) \<in> set (tenantMembers s) \<and>
     (empty_string (uf_search q) \<or> a_ilike A (the (uf_search q)) (usr_firstName u) \<or>
        a_ilike A (the (uf_search q)) (usr_lastName u) \<or> a_ilike A (the (uf_search q)) (usr_email u)) \<and>
     (empty_string (uf_name q) \<or> list_all (\<lambda>w. a_ilike A w (usr_firstName u) \<or> a_ilike A w (usr_lastName u))
        (split_words [] (js_trim (the (uf_name q))))) \<and>
     (empty_string (uf_email q) \<or> a_ilike A (the (uf_email q)) (usr_email u)) \<and>
     (empty_string (uf_phoneNumber q) \<or>
        (case usr_phoneNumber u of None \<Rightarrow> False | Some p \<Rightarrow> a_ilike A (the (uf_phoneNumber q)) p)) \<and>
     (case uf_isActive q of None \<Rightarrow> True | Some b \<Rightarrow> usr_isActive u = b) \<and>
     (case uf_emailVerified q of None \<Rightarrow> True | Some b \<Rightarrow> (usr_emailVerified u \<noteq> None) = b) \<and>
     (empty_string (uf_roleId q) \<or> list_ex (\<lambda>a. ua_userId a = usr_id u \<and> Some (ua_roleId a) = uf_roleId q \<and>
        ua_tenantId a = tenantId) (userAssignments s)) \<and>
     (empty_string (uf_locationId q) \<or> list_ex (\<lambda>a. ua_userId a = usr_id u \<and> ua_locationId a = uf_locationId q \<and>
        ua_tenantId a = tenantId) (userAssignments s)) \<and>
     (case uf_createdFrom q of None \<Rightarrow> True | Some d \<Rightarrow> d \<le> usr_createdAt u) \<and>
     (case uf_createdTo q of None \<Rightarrow> True | Some d \<Rightarrow> usr_createdAt u \<le> d) \<and>
     (case uf_lastActiveFrom q of None \<Rightarrow> True
      | Some d \<Rightarrow> (case usr_lastActiveAt u of None \<Rightarrow> False | Some t \<Rightarrow> d \<le> t)) \<and>
     (case uf_lastActiveTo q of None \<Rightarrow> True
      | Some d \<Rightarrow> (case usr_lastActiveAt u of None \<Rightarrow> False | Some t \<Rightarrow> t \<le> d))"

definition getAllUsers :: "auth_env \<Rightarrow> (user list \<Rightarrow> user list) \<Rightarrow> page_query \<Rightarrow> user_filter \<Rightarrow> id \<Rightarrow>
    (page_meta \<times> (user \<times> user_assignment list) list) acc" where
  "getAllUsers A order pq q tenantId = readM (\<lambda>s.
     let w = getPagination pq;
         rows = order (filter (buildTenantUserFilter A tenantId q s) (users s))
     in (generatePaginationMeta (pw_page w) (pw_take w) (int (length rows)) (pw_skip w),
         map (\<lambda>u. (u, filter (\<lambda>a. ua_userId a = usr_id u \<and> ua_tenantId a = tenantId) (userAssignments s)))
           (page_rows (pw_skip w) (pw_take w) rows)))"

end
