(* ===== verification/Access.thy ===== *)
theory Access
  imports Accounts
begin

text \<open>
  Roles and permissions: \<^verbatim>\<open>src/src/modules/access-control\<close>, the modules and default roles of
  \<^verbatim>\<open>modules-definition\<close>, and \<^verbatim>\<open>tenants/utils/role-initializer.utils.ts\<close>, which gives every new tenant its roles.
\<close>

section \<open>Modules and default roles\<close>

text \<open>\<^verbatim>\<open>MODULESREF\<close>: name, description and actions.\<close>

definition MODULESREF :: "(string \<times> string \<times> string list) list" where
  "MODULESREF = [
     (''Module'', ''Manage modules'', [''module.view'']),
     (''Role'', ''Manage roles'',
        [''role.create'', ''role.view'', ''role.update'', ''role.delete'', ''role.assign'', ''role.unassign'']),
     (''Tenant'', ''Manage tenants'',
        [''tenant.view'', ''tenant.update'', ''tenant.delete'', ''tenant.invitation.create'',
         ''tenant.invitation.update'', ''tenant.invitation.cancel'', ''tenant.invitation.view'', ''tenant.member.remove'']),
     (''User'', ''Manage users'', [''user.view'']),
     (''Category'', ''Manage categories'', [''category.create'', ''category.view'', ''category.update'', ''category.delete'']),
     (''Product'', ''Manage products'', [''product.create'', ''product.view'', ''product.update'', ''product.delete'']),
     (''Supplier'', ''Manage suppliers'', [''supplier.create'', ''supplier.view'', ''supplier.update'', ''supplier.delete'']),
     (''Location'', ''Manage warehouse and storage locations'',
        [''location.create'', ''location.view'', ''location.update'', ''location.delete'']),
     (''Stock'', ''Manage stock movements and adjustments'', [''stock.movement.create'', ''stock.movement.view'']),
     (''Inventory'', ''Manage inventory balances, transfers, and valuations'',
        [''stock.view'', ''stock.valuation.view'', ''transfer.create'', ''transfer.view'', ''transfer.ship'',
         ''transfer.receive'', ''transfer.cancel'', ''reservation.create'', ''reservation.view'',
         ''reservation.update'', ''reservation.delete'']),
     (''Customer'', ''Manage customers and their addresses'',
        [''customer.create'', ''customer.view'', ''customer.update'', ''customer.delete''])]"

datatype permission_config = AllActions | OnlyActions "string list"
datatype RoleContext = TENANT_CONTEXT | ADMIN_CONTEXT

type_synonym role_config = "(string \<times> (string \<times> permission_config) list) list"

definition SUPER_ADMIN_ROLE :: string where "SUPER_ADMIN_ROLE = ''SuperAdmin''"

definition isProtectedRole :: "string \<Rightarrow> bool" where
  "isProtectedRole roleName \<longleftrightarrow> roleName \<in> set [SUPER_ADMIN_ROLE]"

definition admin_permissions :: "(string \<times> permission_config) list" where
  "admin_permissions = [
     (''Category'', OnlyActions [''category.view'', ''category.update'']),
     (''Product'', OnlyActions [''product.view'', ''product.update'']),
     (''Supplier'', OnlyActions [''supplier.view'', ''supplier.update'']),
     (''Location'', OnlyActions [''location.view'', ''location.update'']),
     (''Stock'', OnlyActions [''stock.movement.view'']),
     (''Inventory'', OnlyActions [''stock.view'', ''stock.valuation.view'', ''transfer.view'']),
     (''Customer'', OnlyActions [''customer.view'', ''customer.update''])]"

definition all_of :: "string list \<Rightarrow> (string \<times> permission_config) list" where
  "all_of ms = map (\<lambda>m. (m, AllActions)) ms"

definition ROLE_PERMISSIONS :: "RoleContext \<Rightarrow> role_config" where
  "ROLE_PERMISSIONS ctx = (case ctx of
     TENANT_CONTEXT \<Rightarrow> [
       (''SuperAdmin'', all_of [''Role'', ''User'', ''Tenant'', ''Category'', ''Product'', ''Supplier'', ''Location'',
          ''Stock'', ''Inventory'', ''Customer'']),
       (''Admin'', (''Role'', OnlyActions [''role.view'', ''role.update'']) #
          (''User'', OnlyActions [''user.view'', ''user.list'', ''user.update'']) # admin_permissions),
       (''Editor'', [(''Tenant'', OnlyActions [''tenant.view''])])]
   | ADMIN_CONTEXT \<Rightarrow> [
       (''SuperAdmin'', all_of [''Module'', ''Role'', ''User'', ''Tenant'', ''Category'', ''Product'', ''Supplier'',
          ''Location'', ''Stock'', ''Inventory'', ''Customer'']),
       (''Admin'', (''User'', OnlyActions [''user.view'', ''user.update'']) #
          (''Tenant'', OnlyActions [''tenant.create'', ''tenant.update'']) # admin_permissions),
       (''Editor'', [(''Tenant'', OnlyActions [''tenant.view''])])])"

definition resolveActions :: "permission_config \<Rightarrow> string list \<Rightarrow> string list" where
  "resolveActions roleConfig moduleActions =
     (case roleConfig of AllActions \<Rightarrow> moduleActions | OnlyActions as \<Rightarrow> as)"

definition find_module :: "string \<Rightarrow> org \<Rightarrow> module_ref option" where
  "find_module name s = List.find (\<lambda>m. mod_name m = name) (moduleRefs s)"

text \<open>\<^verbatim>\<open>module-seed.service.ts\<close>, at the start of the server.\<close>

definition sync_module :: "auth_env \<Rightarrow> string \<times> string \<times> string list \<Rightarrow> unit acc" where
  "sync_module A d =
     (case d of (name, description, actions) \<Rightarrow>
     bindM (readM (find_module name)) (\<lambda>found.
     case found of
       Some m \<Rightarrow>
         if sort (mod_actions m) \<noteq> sort actions \<or> mod_description m \<noteq> Some description
         then update_row moduleRefs (\<lambda>rows s. s\<lparr>moduleRefs := rows\<rparr>) RowMissing (\<lambda>y. mod_name y = name)
           (\<lambda>y. y\<lparr>mod_description := Some description, mod_actions := actions\<rparr>)
         else ret ()
     | None \<Rightarrow>
         bindM (draw_next (a_uuid A)) (\<lambda>i.
         writeM (\<lambda>s. s\<lparr>moduleRefs := moduleRefs s @
           [\<lparr>mod_id = i, mod_name = name, mod_description = Some description, mod_actions = actions\<rparr>]\<rparr>))))"

definition syncModules :: "auth_env \<Rightarrow> unit acc" where
  "syncModules A = transaction (bindM (forM MODULESREF (sync_module A)) (\<lambda>_. ret ()))"

definition getAllModules :: "module_ref list acc" where
  "getAllModules = readM moduleRefs"

definition getModuleById :: "id \<Rightarrow> module_ref acc" where
  "getModuleById i =
     bindM (readM (\<lambda>s. List.find (\<lambda>m. mod_id m = i) (moduleRefs s))) (\<lambda>found.
     require found (NotFound (''Module with id \"'' @ i @ ''\" not found'')))"

section \<open>Inserting roles and permissions\<close>

text \<open>\<^verbatim>\<open>role.create\<close>; identifiers are unique, names within a tenant.\<close>

definition insert_role :: "auth_env \<Rightarrow> string \<Rightarrow> string option \<Rightarrow> id \<Rightarrow> role acc" where
  "insert_role A name description tenantId =
     bindM (draw_next (a_uuid A)) (\<lambda>i. bindM time (\<lambda>t.
     bindM (readM (\<lambda>s. list_ex (\<lambda>r. (role_name r = name \<and> role_tenantId r = tenantId) \<or> role_id r = i) (roles s))) (\<lambda>taken.
     bindM (throw_if taken DuplicateKey) (\<lambda>_.
     let r = \<lparr>role_id = i, role_name = name, role_description = description, role_tenantId = tenantId, role_createdAt = t\<rparr> in
     bindM (writeM (\<lambda>s. s\<lparr>roles := roles s @ [r]\<rparr>)) (\<lambda>_. ret r)))))"

definition insert_permission :: "id \<Rightarrow> id \<Rightarrow> string list \<Rightarrow> unit acc" where
  "insert_permission roleId moduleRefId actions =
     bindM (readM (\<lambda>s. list_ex (\<lambda>p. rp_roleId p = roleId \<and> rp_moduleRefId p = moduleRefId) (rolePermissions s))) (\<lambda>taken.
     bindM (throw_if taken DuplicateKey) (\<lambda>_.
     writeM (\<lambda>s. s\<lparr>rolePermissions := rolePermissions s @
       [\<lparr>rp_roleId = roleId, rp_moduleRefId = moduleRefId, rp_actions = actions\<rparr>]\<rparr>)))"

definition update_permission :: "id \<Rightarrow> id \<Rightarrow> string list \<Rightarrow> unit acc" where
  "update_permission roleId moduleRefId actions =
     update_row rolePermissions (\<lambda>rows s. s\<lparr>rolePermissions := rows\<rparr>) RowMissing
       (\<lambda>p. rp_roleId p = roleId \<and> rp_moduleRefId p = moduleRefId) (\<lambda>p. p\<lparr>rp_actions := actions\<rparr>)"

definition find_permission :: "id \<Rightarrow> id \<Rightarrow> org \<Rightarrow> role_permission option" where
  "find_permission roleId moduleRefId s =
     List.find (\<lambda>p. rp_roleId p = roleId \<and> rp_moduleRefId p = moduleRefId) (rolePermissions s)"

section \<open>The role initializer\<close>

definition role_text :: "string \<Rightarrow> string" where
  "role_text roleName = roleName @ '' role''"

definition grant_default :: "id \<Rightarrow> string \<times> permission_config \<Rightarrow> nat acc" where
  "grant_default roleId p =
     bindM (readM (find_module (fst p))) (\<lambda>found.
     case found of None \<Rightarrow> ret 0
     | Some m \<Rightarrow>
         let actions = resolveActions (snd p) (mod_actions m) in
         if actions = [] then ret 0
         else bindM (insert_permission roleId (mod_id m) actions) (\<lambda>_. ret 1))"

definition initializeDefaultRoles :: "auth_env \<Rightarrow> id \<Rightarrow> RoleContext \<Rightarrow> (nat \<times> nat) acc" where
  "initializeDefaultRoles A tenantId ctx =
     bindM (forM (ROLE_PERMISSIONS ctx) (\<lambda>c.
       bindM (insert_role A (fst c) (Some (role_text (fst c))) tenantId) (\<lambda>r.
       forM (snd c) (grant_default (role_id r))))) (\<lambda>counts.
     ret (length counts, sum_list (map sum_list counts)))"

definition sync_permission :: "id \<Rightarrow> string \<times> permission_config \<Rightarrow> (nat \<times> nat) acc" where
  "sync_permission roleId p =
     (if snd p \<noteq> AllActions then ret (0, 0) else
     bindM (readM (find_module (fst p))) (\<lambda>found.
     case found of None \<Rightarrow> ret (0, 0)
     | Some m \<Rightarrow>
         bindM (readM (find_permission roleId (mod_id m))) (\<lambda>existing.
         case existing of
           Some q \<Rightarrow>
             if list_ex (\<lambda>a. a \<notin> set (rp_actions q)) (mod_actions m)
             then bindM (update_permission roleId (mod_id m) (mod_actions m)) (\<lambda>_. ret (0, 1))
             else ret (0, 0)
         | None \<Rightarrow> bindM (insert_permission roleId (mod_id m) (mod_actions m)) (\<lambda>_. ret (1, 0)))))"

definition syncRolesWithModules :: "id \<Rightarrow> RoleContext \<Rightarrow> (nat \<times> nat) acc" where
  "syncRolesWithModules tenantId ctx =
     bindM (readM (\<lambda>s. filter (\<lambda>r. role_tenantId r = tenantId \<and> role_name r \<in> set (map fst (ROLE_PERMISSIONS ctx)))
       (roles s))) (\<lambda>rs.
     bindM (forM rs (\<lambda>r.
       case map_of (ROLE_PERMISSIONS ctx) (role_name r) of None \<Rightarrow> ret []
       | Some config \<Rightarrow> forM config (sync_permission (role_id r)))) (\<lambda>counts.
     ret (sum_list (map (\<lambda>xs. sum_list (map fst xs)) counts), sum_list (map (\<lambda>xs. sum_list (map snd xs)) counts))))"

definition upsert_role :: "auth_env \<Rightarrow> string \<Rightarrow> id \<Rightarrow> role acc" where
  "upsert_role A name tenantId =
     bindM (readM (\<lambda>s. List.find (\<lambda>r. role_name r = name \<and> role_tenantId r = tenantId) (roles s))) (\<lambda>found.
     case found of
       None \<Rightarrow> insert_role A name (Some (role_text name)) tenantId
     | Some r \<Rightarrow>
         bindM (update_role (\<lambda>y. role_id y = role_id r) (\<lambda>y. y\<lparr>role_description := Some (role_text name)\<rparr>)) (\<lambda>_. ret r))"

definition upsert_permission :: "id \<Rightarrow> string \<times> permission_config \<Rightarrow> unit acc" where
  "upsert_permission roleId p =
     bindM (readM (find_module (fst p))) (\<lambda>found.
     bindM (require found (InternalError (''Module \"'' @ fst p @ ''\" not found. Run seedModules first.''))) (\<lambda>m.
     let actions = resolveActions (snd p) (mod_actions m) in
     bindM (readM (find_permission roleId (mod_id m))) (\<lambda>existing.
     if existing = None then insert_permission roleId (mod_id m) actions
     else update_permission roleId (mod_id m) actions)))"

definition upsertDefaultRoles :: "auth_env \<Rightarrow> id \<Rightarrow> RoleContext \<Rightarrow> (string \<times> id) list acc" where
  "upsertDefaultRoles A tenantId ctx =
     forM (ROLE_PERMISSIONS ctx) (\<lambda>c.
       bindM (upsert_role A (fst c) tenantId) (\<lambda>r.
       bindM (forM (snd c) (upsert_permission (role_id r))) (\<lambda>_.
       ret (fst c, role_id r))))"

section \<open>Checking a permission\<close>

definition covers :: "id option \<Rightarrow> user_assignment \<Rightarrow> bool" where
  "covers locationId a \<longleftrightarrow> (case ua_accessScope a of ScopeTenant \<Rightarrow> True
     | ScopeLocation \<Rightarrow> ua_locationId a = locationId)"

definition hasPermission :: "id \<Rightarrow> string \<Rightarrow> string \<Rightarrow> id \<Rightarrow> id option \<Rightarrow> org \<Rightarrow> bool" where
  "hasPermission userId resource action tenantId locationId s =
     (let relevant = filter (covers locationId)
            (filter (\<lambda>a. ua_userId a = userId \<and> ua_tenantId a = tenantId) (userAssignments s))
      in list_ex (\<lambda>a. list_ex (\<lambda>p. rp_roleId p = ua_roleId a \<and>
           (case List.find (\<lambda>m. mod_id m = rp_moduleRefId p) (moduleRefs s) of None \<Rightarrow> False
            | Some m \<Rightarrow> mod_name m = resource) \<and> action \<in> set (rp_actions p)) (rolePermissions s)) relevant)"

text \<open>\<^verbatim>\<open>access-control.guard.ts\<close>: the resource and action of the route, if it names any; the user of the request; and
  the headers with tenant and location.\<close>

definition accessControlGuard ::
  "(string \<times> string) option \<Rightarrow> id option \<Rightarrow> id option \<Rightarrow> id option \<Rightarrow> unit acc" where
  "accessControlGuard metadata user tenantId locationId =
     (case metadata of None \<Rightarrow> ret ()
      | Some (resource, action) \<Rightarrow>
          bindM (require user (Forbidden ''No user found in request'')) (\<lambda>userId.
          bindM (throw_if (empty_string tenantId) (Forbidden ''Access denied: missing tenant id'')) (\<lambda>_.
          bindM (readM (hasPermission userId resource action (the tenantId) locationId)) (\<lambda>hasAccess.
          throw_if (\<not> hasAccess) (Forbidden (''Access denied: missing permission '' @ resource @ '':'' @ action))))))"

section \<open>The role service\<close>

text \<open>\<^verbatim>\<open>xs.join(sep)\<close>.\<close>

fun join_texts :: "string \<Rightarrow> string list \<Rightarrow> string" where
  "join_texts sep [] = []"
| "join_texts sep [x] = x"
| "join_texts sep (x # y # xs) = x @ sep @ join_texts sep (y # xs)"

record permission_dto =
  pmd_moduleRefId :: id
  pmd_actions :: "string list"

definition permission_error :: "org \<Rightarrow> permission_dto \<Rightarrow> string option" where
  "permission_error s p =
     (case List.find (\<lambda>m. mod_id m = pmd_moduleRefId p) (moduleRefs s) of
        None \<Rightarrow> Some (''Module with ID \"'' @ pmd_moduleRefId p @ ''\" not found'')
      | Some m \<Rightarrow>
          let invalid = filter (\<lambda>a. a \<notin> set (mod_actions m)) (pmd_actions p)
          in if invalid = [] then None
             else Some (''Invalid actions for module \"'' @ mod_name m @ ''\": '' @
               join_texts '', '' invalid @ ''.''))"

definition validatePermissions :: "permission_dto list \<Rightarrow> unit acc" where
  "validatePermissions permissions =
     bindM (readM (\<lambda>s. List.map_filter (permission_error s) permissions)) (\<lambda>errors.
     throw_if (errors \<noteq> []) (BadRequest (join_texts ''; '' errors)))"

record role_view =
  rv_role :: role
  rv_permissions :: "(string list \<times> string option) list"

definition role_view_of :: "org \<Rightarrow> role \<Rightarrow> role_view" where
  "role_view_of s r = \<lparr>rv_role = r, rv_permissions =
     map (\<lambda>p. (rp_actions p, map_option mod_name (List.find (\<lambda>m. mod_id m = rp_moduleRefId p) (moduleRefs s))))
       (filter (\<lambda>p. rp_roleId p = role_id r) (rolePermissions s))\<rparr>"

record create_role_dto =
  crd_name :: string
  crd_description :: "string option"
  crd_permissions :: "permission_dto list option"

definition grant :: "id \<Rightarrow> permission_dto \<Rightarrow> unit acc" where
  "grant roleId p = insert_permission roleId (pmd_moduleRefId p) (pmd_actions p)"

definition create_role :: "auth_env \<Rightarrow> create_role_dto \<Rightarrow> id \<Rightarrow> role_view option acc" where
  "create_role A dto tenantId =
     bindM (readM (\<lambda>s. list_ex (\<lambda>r. role_name r = crd_name dto \<and> role_tenantId r = tenantId) (roles s))) (\<lambda>existing.
     bindM (throw_if existing (Conflict ''Role with this name already exists in this tenant'')) (\<lambda>_.
     bindM (validatePermissions (given (crd_permissions dto) [])) (\<lambda>_.
     transaction (
       bindM (insert_role A (crd_name dto) (crd_description dto) tenantId) (\<lambda>r.
       bindM (forM (given (crd_permissions dto) []) (grant (role_id r))) (\<lambda>_.
       readM (\<lambda>s. map_option (role_view_of s) (List.find (\<lambda>y. role_id y = role_id r) (roles s)))))))))"

definition findAll_roles :: "id \<Rightarrow> role_view list acc" where
  "findAll_roles tenantId = readM (\<lambda>s. map (role_view_of s)
     (sort_key (\<lambda>r. - role_createdAt r) (filter (\<lambda>r. role_tenantId r = tenantId) (roles s))))"

definition find_role :: "id \<Rightarrow> id \<Rightarrow> role acc" where
  "find_role i tenantId =
     bindM (readM (\<lambda>s. List.find (\<lambda>r. role_id r = i) (roles s))) (\<lambda>found.
     bindM (require found (NotFound (''Role with id '' @ i @ '' not found''))) (\<lambda>r.
     bindM (throw_if (role_tenantId r \<noteq> tenantId) (NotFound ''Role not found in your tenant'')) (\<lambda>_. ret r)))"

definition findOne_role :: "id \<Rightarrow> id \<Rightarrow> role_view acc" where
  "findOne_role i tenantId = bindM (find_role i tenantId) (\<lambda>r. readM (\<lambda>s. role_view_of s r))"

record update_role_dto =
  urd_name :: "string option"
  urd_description :: "string option"
  urd_permissions :: "permission_dto list option"

text \<open>Two roles of a tenant may not share a name: renaming into an existing one violates the unique index.\<close>

definition rename_role :: "role \<Rightarrow> update_role_dto \<Rightarrow> unit acc" where
  "rename_role r dto =
     bindM (readM (\<lambda>s. list_ex (\<lambda>y. role_id y \<noteq> role_id r \<and> role_tenantId y = role_tenantId r \<and>
       role_name y = given (urd_name dto) (role_name r)) (roles s))) (\<lambda>taken.
     bindM (throw_if taken DuplicateKey) (\<lambda>_.
     update_role (\<lambda>y. role_id y = role_id r) (\<lambda>y. y\<lparr>role_name := given (urd_name dto) (role_name r),
       role_description := (case urd_description dto of None \<Rightarrow> role_description r | Some d \<Rightarrow> Some d)\<rparr>)))"

definition update_role_by :: "id \<Rightarrow> id \<Rightarrow> update_role_dto \<Rightarrow> role_view option acc" where
  "update_role_by i tenantId dto =
     bindM (find_role i tenantId) (\<lambda>r.
     bindM (throw_if (isProtectedRole (role_name r) \<and> \<not> empty_string (urd_name dto) \<and> urd_name dto \<noteq> Some (role_name r))
       (Forbidden ''Cannot rename the SuperAdmin role'')) (\<lambda>_.
     bindM (throw_if (isProtectedRole (role_name r) \<and> urd_permissions dto \<noteq> None)
       (Forbidden ''Cannot modify permissions of the SuperAdmin role'')) (\<lambda>_.
     bindM (validatePermissions (given (urd_permissions dto) [])) (\<lambda>_.
     transaction (
       bindM (rename_role r dto) (\<lambda>_.
       bindM (case urd_permissions dto of None \<Rightarrow> ret ()
         | Some ps \<Rightarrow>
             bindM (writeM (\<lambda>s. s\<lparr>rolePermissions := filter (\<lambda>p. rp_roleId p \<noteq> i) (rolePermissions s)\<rparr>)) (\<lambda>_.
             bindM (forM ps (grant i)) (\<lambda>_. ret ()))) (\<lambda>_.
       readM (\<lambda>s. map_option (role_view_of s) (List.find (\<lambda>y. role_id y = i) (roles s))))))))))"

text \<open>With a role go its permissions and assignments; invitations lose it.\<close>

definition remove_role :: "id \<Rightarrow> id \<Rightarrow> role acc" where
  "remove_role i tenantId =
     bindM (find_role i tenantId) (\<lambda>r.
     bindM (throw_if (isProtectedRole (role_name r)) (Forbidden ''Cannot delete the SuperAdmin role'')) (\<lambda>_.
     bindM (writeM (\<lambda>s. s\<lparr>roles := filter (\<lambda>y. role_id y \<noteq> i) (roles s),
       rolePermissions := filter (\<lambda>p. rp_roleId p \<noteq> i) (rolePermissions s),
       userAssignments := filter (\<lambda>a. ua_roleId a \<noteq> i) (userAssignments s),
       tenantInvitations := update_where (\<lambda>x. ti_roleId x = Some i) (\<lambda>x. x\<lparr>ti_roleId := None\<rparr>) (tenantInvitations s)\<rparr>)) (\<lambda>_.
     ret r)))"

text \<open>\<^verbatim>\<open>userAssignment.create\<close>: the unique index over user, role, tenant and location does not compare missing locations.\<close>

definition insert_assignment :: "auth_env \<Rightarrow> (id \<Rightarrow> instant \<Rightarrow> user_assignment) \<Rightarrow> user_assignment acc" where
  "insert_assignment A row =
     bindM (draw_next (a_uuid A)) (\<lambda>i. bindM time (\<lambda>t.
     bindM (readM (\<lambda>s. list_ex (\<lambda>a. ua_userId a = ua_userId (row i t) \<and> ua_roleId a = ua_roleId (row i t) \<and>
       ua_tenantId a = ua_tenantId (row i t) \<and> ua_locationId a \<noteq> None \<and> ua_locationId a = ua_locationId (row i t))
       (userAssignments s))) (\<lambda>taken.
     bindM (throw_if taken DuplicateKey) (\<lambda>_.
     bindM (writeM (\<lambda>s. s\<lparr>userAssignments := userAssignments s @ [row i t]\<rparr>)) (\<lambda>_.
     ret (row i t))))))"

definition catch_conflict :: "string \<Rightarrow> 'a acc \<Rightarrow> 'a acc" where
  "catch_conflict msg m = (\<lambda>s. case m s of (Inl _, s') \<Rightarrow> (Inl (Conflict msg), s') | ok \<Rightarrow> ok)"

definition assignUser ::
  "auth_env \<Rightarrow> id \<Rightarrow> id \<Rightarrow> id \<Rightarrow> AccessScope \<Rightarrow> id option \<Rightarrow> id option \<Rightarrow> user_assignment acc" where
  "assignUser A tenantId roleId userId accessScope locationId assignedById =
     bindM (readM (\<lambda>s. List.find (\<lambda>r. role_id r = roleId) (roles s))) (\<lambda>found.
     bindM (require found (NotFound ''Role not found'')) (\<lambda>r.
     bindM (throw_if (role_tenantId r \<noteq> tenantId) (NotFound ''Role not found in this tenant'')) (\<lambda>_.
     bindM (readM (\<lambda>s. list_ex (\<lambda>u. usr_id u = userId) (users s))) (\<lambda>user.
     bindM (throw_if (\<not> user) (NotFound ''User not found'')) (\<lambda>_.
     bindM (throw_if (accessScope = ScopeLocation \<and> empty_string locationId)
       (BadRequest ''Location ID is required when access scope is LOCATION'')) (\<lambda>_.
     bindM (throw_if (accessScope = ScopeTenant \<and> \<not> empty_string locationId)
       (BadRequest ''Location ID should not be provided when access scope is TENANT'')) (\<lambda>_.
     bindM (readM (\<lambda>s. empty_string locationId \<or> list_ex (\<lambda>l. Some (loc_id l) = locationId) (locations s))) (\<lambda>location.
     bindM (throw_if (\<not> location) (NotFound ''Location not found'')) (\<lambda>_.
     catch_conflict ''User already assigned to this role in this tenant/location''
       (insert_assignment A (\<lambda>i t. \<lparr>ua_id = i, ua_userId = userId, ua_roleId = roleId, ua_tenantId = tenantId,
         ua_accessScope = accessScope, ua_locationId = (if accessScope = ScopeLocation then locationId else None),
         ua_assignedAt = t, ua_assignedById = assignedById\<rparr>)))))))))))"

definition removeUserAssignment :: "id \<Rightarrow> id \<Rightarrow> id \<Rightarrow> id option \<Rightarrow> unit acc" where
  "removeUserAssignment roleId userId tenantId locationId =
     bindM (readM (\<lambda>s. List.find (\<lambda>r. role_id r = roleId) (roles s))) (\<lambda>found.
     bindM (readM (\<lambda>s. list_ex (\<lambda>a. ua_roleId a = roleId \<and> ua_tenantId a = tenantId \<and> ua_userId a \<noteq> userId)
       (userAssignments s))) (\<lambda>remaining.
     bindM (throw_if (found \<noteq> None \<and> isProtectedRole (role_name (the found)) \<and> \<not> remaining)
       (Forbidden ''Cannot remove the last SuperAdmin from the tenant. Transfer ownership first.'')) (\<lambda>_.
     bindM (readM (\<lambda>s. list_ex (\<lambda>a. ua_roleId a = roleId \<and> ua_userId a = userId \<and> ua_tenantId a = tenantId \<and>
       ua_locationId a = locationId) (userAssignments s))) (\<lambda>any.
     bindM (writeM (\<lambda>s. s\<lparr>userAssignments := filter (\<lambda>a. \<not> (ua_roleId a = roleId \<and> ua_userId a = userId \<and>
       ua_tenantId a = tenantId \<and> ua_locationId a = locationId)) (userAssignments s)\<rparr>)) (\<lambda>_.
     throw_if (\<not> any) (NotFound ''Assignment not found''))))))"

end
