(* ===== verification/UnitTypes.thy ===== *)
theory UnitTypes
  imports Db
begin

text \<open>
  The unit types of a tenant, \<^verbatim>\<open>tenants/services/unit-types.service.ts\<close>. The tenants module and the product service
  call them on states and with exceptions of their own, so they are stated for every extension of the database
  and take the source of identifiers as an argument.
\<close>

text \<open>\<^verbatim>\<open>[...new Set(xs)]\<close> keeps first occurrences.\<close>

definition unique_values :: "string list \<Rightarrow> string list" where
  "unique_values xs = rev (remdups (rev xs))"

definition unit_types_of :: "id \<Rightarrow> 'a db_scheme \<Rightarrow> tenant_unit_types" where
  "unit_types_of tenantId s =
     (case List.find (\<lambda>x. utt_tenantId x = Some tenantId) (unitTypes s) of
       Some x \<Rightarrow> x
     | None \<Rightarrow> (case List.find (\<lambda>x. utt_tenantId x = None) (unitTypes s) of
         Some x \<Rightarrow> x
       | None \<Rightarrow> \<lparr>utt_id = [], utt_values = [], utt_tenantId = None\<rparr>))"

definition getUnitTypes :: "id \<Rightarrow> ('a db_scheme, 'e, tenant_unit_types) svc" where
  "getUnitTypes tenantId = readM (unit_types_of tenantId)"

definition upsertUnitTypes :: "(nat \<Rightarrow> id) \<Rightarrow> id \<Rightarrow> string list \<Rightarrow> ('a db_scheme, 'e, tenant_unit_types) svc" where
  "upsertUnitTypes uuid tenantId values =
     bindM (readM (\<lambda>s. list_ex (\<lambda>x. utt_tenantId x = Some tenantId) (unitTypes s))) (\<lambda>there.
     bindM (if there then writeM (\<lambda>s. s\<lparr>unitTypes :=
         update_where (\<lambda>x. utt_tenantId x = Some tenantId) (\<lambda>x. x\<lparr>utt_values := values\<rparr>) (unitTypes s)\<rparr>)
       else writeM (\<lambda>s. s\<lparr>nextId := Suc (nextId s), unitTypes := unitTypes s @
         [\<lparr>utt_id = uuid (nextId s), utt_values = values, utt_tenantId = Some tenantId\<rparr>]\<rparr>)) (\<lambda>_.
     getUnitTypes tenantId))"

definition addUnitTypes :: "(nat \<Rightarrow> id) \<Rightarrow> id \<Rightarrow> string list \<Rightarrow> ('a db_scheme, 'e, tenant_unit_types) svc" where
  "addUnitTypes uuid tenantId newValues =
     bindM (getUnitTypes tenantId) (\<lambda>existing.
     upsertUnitTypes uuid tenantId (unique_values (utt_values existing @ newValues)))"

definition removeUnitTypes :: "(nat \<Rightarrow> id) \<Rightarrow> id \<Rightarrow> string list \<Rightarrow> ('a db_scheme, 'e, tenant_unit_types) svc" where
  "removeUnitTypes uuid tenantId valuesToRemove =
     bindM (getUnitTypes tenantId) (\<lambda>existing.
     upsertUnitTypes uuid tenantId (filter (\<lambda>v. v \<notin> set valuesToRemove) (utt_values existing)))"

end
