(* ===== verification/Tenancy.thy ===== *)
theory Tenancy
  imports Access UnitTypes
begin

text \<open>
  \<^verbatim>\<open>src/src/modules/tenants\<close>: creating and changing tenants, invitations and members; its unit types
  are those of \<^verbatim>\<open>UnitTypes\<close>. The user comes from the session, the tenant from a header that the guards have checked.
\<close>

section \<open>Requests\<close>

record address_dto =
  add_addressLine1 :: string
  add_addressLine2 :: "string option"
  add_city :: string
  add_state :: string
  add_postalCode :: string
  add_country :: string
  add_latitude :: "real option"
  add_longitude :: "real option"

record settings_dto =
  std_defaultPricingMethod :: "PricingMethod option"
  std_timezone :: "string option"
  std_locale :: "string option"
  std_currency :: "string option"
  std_dateFormat :: "string option"
  std_timeFormat :: "string option"
  std_decimalSeparator :: "string option"
  std_thousandsSeparator :: "string option"

record tenant_creation_dto =
  tcd_name :: string
  tcd_companyType :: string
  tcd_industry :: string
  tcd_registrationNumber :: "string option"
  tcd_businessEmail :: string
  tcd_businessPhone :: string
  tcd_website :: "string option"
  tcd_description :: "string option"
  tcd_establishedYear :: string
  tcd_logo :: "string option"
  tcd_address :: address_dto
  tcd_tenantSettings :: "settings_dto option"

text \<open>An update may leave out anything; the address it gives is complete, as its validator demands.\<close>

record tenant_update_dto =
  tud_name :: "string option"
  tud_companyType :: "string option"
  tud_industry :: "string option"
  tud_registrationNumber :: "string option"
  tud_businessEmail :: "string option"
  tud_businessPhone :: "string option"
  tud_website :: "string option"
  tud_description :: "string option"
  tud_establishedYear :: "string option"
  tud_logo :: "string option"
  tud_address :: "address_dto option"
  tud_tenantSettings :: "settings_dto option"

record tenant_response =
  tnr_tenant :: tenant
  tnr_profile :: "tenant_profile option"
  tnr_address :: "tenant_address option"
  tnr_settings :: "tenant_settings option"

definition tenant_response_of :: "id \<Rightarrow> org \<Rightarrow> tenant_response option" where
  "tenant_response_of i s = map_option (\<lambda>x. \<lparr>tnr_tenant = x,
     tnr_profile = List.find (\<lambda>p. tnp_tenantId p = i) (tenantProfiles s),
     tnr_address = List.find (\<lambda>a. tna_tenantId a = i) (tenantAddresses s),
     tnr_settings = List.find (\<lambda>y. tns_tenantId y = i) (tenantSettings s)\<rparr>)
   (List.find (\<lambda>x. ten_id x = i) (tenants s))"

section \<open>Tables\<close>

text \<open>\<^verbatim>\<open>tenant.create\<close>; the name is unique among the tenants, deleted ones included. (The index is over the name
  and \<^verbatim>\<open>isAdministrator\<close>; the rows here are the tenants that are not the administrators' own.)\<close>

definition insert_tenant :: "auth_env \<Rightarrow> tenant_creation_dto \<Rightarrow> id acc" where
  "insert_tenant A dto =
     bindM (draw_next (a_uuid A)) (\<lambda>i.
     bindM (readM (\<lambda>s. list_ex (\<lambda>x. ten_name x = tcd_name dto \<or> ten_id x = i) (tenants s))) (\<lambda>taken.
     bindM (throw_if taken DuplicateKey) (\<lambda>_.
     bindM (writeM (\<lambda>s. s\<lparr>tenants := tenants s @ [\<lparr>ten_id = i, ten_name = tcd_name dto, ten_deletedAt = None,
         ten_defaultPricingMethod = FIFO\<rparr>],
       tenantProfiles := tenantProfiles s @ [\<lparr>tnp_tenantId = i, tnp_companyType = tcd_companyType dto,
         tnp_industry = tcd_industry dto, tnp_registrationNumber = tcd_registrationNumber dto,
         tnp_businessEmail = tcd_businessEmail dto, tnp_businessPhone = tcd_businessPhone dto,
         tnp_website = tcd_website dto, tnp_description = tcd_description dto,
         tnp_establishedYear = tcd_establishedYear dto, tnp_logo = tcd_logo dto\<rparr>]\<rparr>)) (\<lambda>_.
     ret i))))"

definition set_address :: "address_dto \<Rightarrow> tenant_address \<Rightarrow> tenant_address" where
  "set_address d a = a\<lparr>tna_addressLine1 := add_addressLine1 d,
     tna_addressLine2 := (case add_addressLine2 d of None \<Rightarrow> tna_addressLine2 a | Some x \<Rightarrow> Some x),
     tna_city := add_city d, tna_state := add_state d, tna_postalCode := add_postalCode d,
     tna_country := add_country d,
     tna_latitude := (case add_latitude d of None \<Rightarrow> tna_latitude a | Some x \<Rightarrow> Some x),
     tna_longitude := (case add_longitude d of None \<Rightarrow> tna_longitude a | Some x \<Rightarrow> Some x)\<rparr>"

definition insert_address :: "auth_env \<Rightarrow> id \<Rightarrow> address_dto \<Rightarrow> unit acc" where
  "insert_address A tenantId d =
     bindM (draw_next (a_uuid A)) (\<lambda>i.
     bindM (readM (\<lambda>s. list_ex (\<lambda>a. tna_tenantId a = tenantId) (tenantAddresses s))) (\<lambda>taken.
     bindM (throw_if taken DuplicateKey) (\<lambda>_.
     writeM (\<lambda>s. s\<lparr>tenantAddresses := tenantAddresses s @ [set_address d \<lparr>tna_id = i, tna_tenantId = tenantId,
       tna_addressLine1 = [], tna_addressLine2 = None, tna_city = [], tna_state = [], tna_postalCode = [],
       tna_country = [], tna_latitude = None, tna_longitude = None\<rparr>]\<rparr>))))"

definition set_settings :: "settings_dto \<Rightarrow> tenant_settings \<Rightarrow> tenant_settings" where
  "set_settings d x = x\<lparr>tns_defaultPricingMethod := given (std_defaultPricingMethod d) (tns_defaultPricingMethod x),
     tns_timezone := given (std_timezone d) (tns_timezone x), tns_locale := given (std_locale d) (tns_locale x),
     tns_currency := given (std_currency d) (tns_currency x), tns_dateFormat := given (std_dateFormat d) (tns_dateFormat x),
     tns_timeFormat := given (std_timeFormat d) (tns_timeFormat x),
     tns_decimalSeparator := given (std_decimalSeparator d) (tns_decimalSeparator x),
     tns_thousandsSeparator := given (std_thousandsSeparator d) (tns_thousandsSeparator x)\<rparr>"

definition default_settings :: "id \<Rightarrow> id \<Rightarrow> tenant_settings" where
  "default_settings i tenantId = \<lparr>tns_id = i, tns_tenantId = tenantId, tns_defaultPricingMethod = MOVING_AVERAGE,
     tns_timezone = ''UTC'', tns_locale = ''en-US'', tns_currency = ''USD'', tns_dateFormat = ''MM/DD/YYYY'',
     tns_timeFormat = ''hh:mm A'', tns_decimalSeparator = ''.'', tns_thousandsSeparator = '',''\<rparr>"

definition upsert_settings :: "auth_env \<Rightarrow> id \<Rightarrow> settings_dto \<Rightarrow> unit acc" where
  "upsert_settings A tenantId d =
     bindM (readM (\<lambda>s. list_ex (\<lambda>x. tns_tenantId x = tenantId) (tenantSettings s))) (\<lambda>there.
     if there then writeM (\<lambda>s. s\<lparr>tenantSettings :=
       update_where (\<lambda>x. tns_tenantId x = tenantId) (set_settings d) (tenantSettings s)\<rparr>)
     else bindM (draw_next (a_uuid A)) (\<lambda>i. writeM (\<lambda>s. s\<lparr>tenantSettings :=
       tenantSettings s @ [set_settings d (default_settings i tenantId)]\<rparr>)))"

text \<open>\<^verbatim>\<open>user.update\<close> with \<^verbatim>\<open>tenants: { connect }\<close> and \<^verbatim>\<open>disconnect\<close>.\<close>

definition connect_member :: "id \<Rightarrow> id \<Rightarrow> unit acc" where
  "connect_member userId tenantId =
     bindM (update_user (\<lambda>u. usr_id u = userId) (\<lambda>u. u)) (\<lambda>_.
     writeM (\<lambda>s. s\<lparr>tenantMembers := (if (userId, tenantId) \<in> set (tenantMembers s) then tenantMembers s
       else tenantMembers s @ [(userId, tenantId)])\<rparr>))"

definition disconnect_member :: "id \<Rightarrow> id \<Rightarrow> unit acc" where
  "disconnect_member userId tenantId =
     bindM (update_user (\<lambda>u. usr_id u = userId) (\<lambda>u. u)) (\<lambda>_.
     writeM (\<lambda>s. s\<lparr>tenantMembers := filter (\<lambda>p. p \<noteq> (userId, tenantId)) (tenantMembers s)\<rparr>))"

text \<open>\<^verbatim>\<open>onboardingState.upsert\<close>.\<close>

definition mark_onboarding :: "id \<Rightarrow> (onboarding_state \<Rightarrow> onboarding_state) \<Rightarrow> unit acc" where
  "mark_onboarding userId f = writeM (\<lambda>s. s\<lparr>onboardingStates :=
     (if list_ex (\<lambda>x. onb_userId x = userId) (onboardingStates s)
      then update_where (\<lambda>x. onb_userId x = userId) f (onboardingStates s)
      else onboardingStates s @ [f \<lparr>onb_userId = userId, onb_profileComplete = False,
        onb_tenantCreation = False, onb_tenantSetting = False\<rparr>])\<rparr>)"

definition complete_onboarding :: "instant \<Rightarrow> user \<Rightarrow> user" where
  "complete_onboarding t u = u\<lparr>usr_onboardingStatus := OnbCompleted, usr_onboardingCompletedAt := Some t\<rparr>"

definition checkAndCompleteOnboarding :: "id \<Rightarrow> unit acc" where
  "checkAndCompleteOnboarding userId =
     bindM (readM (\<lambda>s. List.find (\<lambda>x. onb_userId x = userId) (onboardingStates s))) (\<lambda>st.
     if st = None \<or> \<not> onb_tenantCreation (the st) then ret () else
     bindM (readM (\<lambda>s. list_ex (\<lambda>u. usr_id u = userId \<and> usr_onboardingStatus u = OnbCompleted) (users s))) (\<lambda>complete.
     if complete then ret () else
     bindM time (\<lambda>t. update_user (\<lambda>u. usr_id u = userId) (complete_onboarding t))))"

section \<open>Tenants\<close>

definition create_tenant_tx :: "auth_env \<Rightarrow> id \<Rightarrow> tenant_creation_dto \<Rightarrow> tenant_response acc" where
  "create_tenant_tx A userId dto =
     bindM (insert_tenant A dto) (\<lambda>tenantId.
     bindM (insert_address A tenantId (tcd_address dto)) (\<lambda>_.
     bindM (case tcd_tenantSettings dto of None \<Rightarrow> ret () | Some d \<Rightarrow> upsert_settings A tenantId d) (\<lambda>_.
     bindM (initializeDefaultRoles A tenantId TENANT_CONTEXT) (\<lambda>_.
     bindM (readM (\<lambda>s. List.find (\<lambda>r. role_name r = SUPER_ADMIN_ROLE \<and> role_tenantId r = tenantId) (roles s))) (\<lambda>superAdminRole.
     bindM (case superAdminRole of None \<Rightarrow> ret () | Some r \<Rightarrow>
       bindM (insert_assignment A (\<lambda>i t. \<lparr>ua_id = i, ua_userId = userId, ua_roleId = role_id r, ua_tenantId = tenantId,
         ua_accessScope = ScopeTenant, ua_locationId = None, ua_assignedAt = t, ua_assignedById = Some userId\<rparr>)) (\<lambda>_.
       ret ())) (\<lambda>_.
     bindM (connect_member userId tenantId) (\<lambda>_.
     bindM (mark_onboarding userId (\<lambda>x. x\<lparr>onb_tenantCreation := True\<rparr>)) (\<lambda>_.
     bindM (checkAndCompleteOnboarding userId) (\<lambda>_.
     bindM (readM (tenant_response_of tenantId)) (\<lambda>found.
     require found (NotFound ''Tenant not found after creation.'')))))))))))"

definition createTenant :: "auth_env \<Rightarrow> id \<Rightarrow> tenant_creation_dto \<Rightarrow> tenant_response acc" where
  "createTenant A userId dto = transaction (create_tenant_tx A userId dto)"

definition set_profile :: "tenant_update_dto \<Rightarrow> tenant_profile \<Rightarrow> tenant_profile" where
  "set_profile d p = p\<lparr>tnp_companyType := given (tud_companyType d) (tnp_companyType p),
     tnp_industry := given (tud_industry d) (tnp_industry p),
     tnp_registrationNumber := (case tud_registrationNumber d of None \<Rightarrow> tnp_registrationNumber p | Some x \<Rightarrow> Some x),
     tnp_businessEmail := given (tud_businessEmail d) (tnp_businessEmail p),
     tnp_businessPhone := given (tud_businessPhone d) (tnp_businessPhone p),
     tnp_website := (case tud_website d of None \<Rightarrow> tnp_website p | Some x \<Rightarrow> Some x),
     tnp_description := (case tud_description d of None \<Rightarrow> tnp_description p | Some x \<Rightarrow> Some x),
     tnp_establishedYear := given (tud_establishedYear d) (tnp_establishedYear p),
     tnp_logo := (case tud_logo d of None \<Rightarrow> tnp_logo p | Some x \<Rightarrow> Some x)\<rparr>"

definition patch_tenant :: "id \<Rightarrow> tenant_update_dto \<Rightarrow> unit acc" where
  "patch_tenant tenantId d =
     bindM (readM (\<lambda>s. list_ex (\<lambda>x. ten_id x \<noteq> tenantId \<and> Some (ten_name x) = tud_name d) (tenants s))) (\<lambda>taken.
     bindM (throw_if taken DuplicateKey) (\<lambda>_.
     bindM (update_row tenants (\<lambda>rows s. s\<lparr>tenants := rows\<rparr>) RowMissing (\<lambda>x. ten_id x = tenantId)
       (\<lambda>x. x\<lparr>ten_name := given (tud_name d) (ten_name x)\<rparr>)) (\<lambda>_.
     writeM (\<lambda>s. s\<lparr>tenantProfiles := update_where (\<lambda>p. tnp_tenantId p = tenantId) (set_profile d) (tenantProfiles s)\<rparr>))))"

definition updateTenant :: "auth_env \<Rightarrow> id \<Rightarrow> tenant_update_dto \<Rightarrow> id \<Rightarrow> tenant_response acc" where
  "updateTenant A userId dto tenantId =
     bindM (readM (\<lambda>s. list_ex (\<lambda>u. usr_id u = userId) (users s) \<and> (userId, tenantId) \<in> set (tenantMembers s))) (\<lambda>userTenant.
     bindM (throw_if (\<not> userTenant) (Forbidden ''You do not have access to this tenant or tenant not found.'')) (\<lambda>_.
     transaction (
       bindM (patch_tenant tenantId dto) (\<lambda>_.
       bindM (case tud_address dto of None \<Rightarrow> ret () | Some d \<Rightarrow>
         update_row tenantAddresses (\<lambda>rows s. s\<lparr>tenantAddresses := rows\<rparr>) RowMissing
           (\<lambda>a. tna_tenantId a = tenantId) (set_address d)) (\<lambda>_.
       bindM (case tud_tenantSettings dto of None \<Rightarrow> ret () | Some d \<Rightarrow> upsert_settings A tenantId d) (\<lambda>_.
       bindM (mark_onboarding userId (\<lambda>x. x\<lparr>onb_tenantSetting := True\<rparr>)) (\<lambda>_.
       bindM (checkAndCompleteOnboarding userId) (\<lambda>_.
       bindM (readM (tenant_response_of tenantId)) (\<lambda>found.
       require found (NotFound ''Tenant not found.''))))))))))"

definition find_tenant :: "id \<Rightarrow> tenant acc" where
  "find_tenant tenantId =
     bindM (readM (\<lambda>s. List.find (\<lambda>x. ten_id x = tenantId) (tenants s))) (\<lambda>found.
     require found (NotFound ''Tenant not found.''))"

definition deleteTenant :: "id \<Rightarrow> id \<Rightarrow> id acc" where
  "deleteTenant userId tenantId =
     bindM (find_tenant tenantId) (\<lambda>x.
     bindM (throw_if (ten_deletedAt x \<noteq> None) (Forbidden ''Tenant is already deleted.'')) (\<lambda>_.
     bindM time (\<lambda>t.
     bindM (update_row tenants (\<lambda>rows s. s\<lparr>tenants := rows\<rparr>) RowMissing (\<lambda>y. ten_id y = tenantId)
       (\<lambda>y. y\<lparr>ten_deletedAt := Some t\<rparr>)) (\<lambda>_.
     ret tenantId))))"

definition getTenantsByUser :: "id \<Rightarrow> (id \<times> string) list acc" where
  "getTenantsByUser userId = readM (\<lambda>s. map (\<lambda>x. (ten_id x, ten_name x))
     (filter (\<lambda>x. ten_deletedAt x = None \<and> (userId, ten_id x) \<in> set (tenantMembers s)) (tenants s)))"

definition getSingleTenant :: "id \<Rightarrow> tenant_response acc" where
  "getSingleTenant tenantId =
     bindM (readM (tenant_response_of tenantId)) (\<lambda>found. require found (NotFound ''Tenant not found.''))"

section \<open>Invitations\<close>

record create_invitation_dto =
  cid_email :: string
  cid_message :: "string option"
  cid_roleId :: "id option"
  cid_expiresAt :: "instant option"

definition is_member :: "string \<Rightarrow> id \<Rightarrow> org \<Rightarrow> bool" where
  "is_member email tenantId s \<longleftrightarrow>
     list_ex (\<lambda>u. usr_email u = email \<and> (usr_id u, tenantId) \<in> set (tenantMembers s)) (users s)"

definition insert_invitation :: "auth_env \<Rightarrow> (id \<Rightarrow> instant \<Rightarrow> tenant_invitation) \<Rightarrow> tenant_invitation acc" where
  "insert_invitation A row =
     bindM (draw_next (a_uuid A)) (\<lambda>i. bindM time (\<lambda>t.
     bindM (readM (\<lambda>s. list_ex (\<lambda>x. ti_tokenHash x = ti_tokenHash (row i t) \<or> ti_invId x = i) (tenantInvitations s))) (\<lambda>taken.
     bindM (throw_if taken DuplicateKey) (\<lambda>_.
     bindM (writeM (\<lambda>s. s\<lparr>tenantInvitations := tenantInvitations s @ [row i t]\<rparr>)) (\<lambda>_.
     ret (row i t))))))"

definition createTenantInvitation ::
  "auth_env \<Rightarrow> id \<Rightarrow> string \<Rightarrow> id \<Rightarrow> create_invitation_dto \<Rightarrow> tenant_invitation acc" where
  "createTenantInvitation A invitedById inviterName tenantId dto =
     bindM (find_tenant tenantId) (\<lambda>x.
     bindM (readM (is_member (map to_lower (cid_email dto)) tenantId)) (\<lambda>existingMember.
     bindM (throw_if existingMember (Conflict ''This user is already a member of this tenant.'')) (\<lambda>_.
     bindM (readM (\<lambda>s. empty_string (cid_roleId dto) \<or>
       list_ex (\<lambda>r. Some (role_id r) = cid_roleId dto \<and> role_tenantId r = tenantId) (roles s))) (\<lambda>role_found.
     bindM (throw_if (\<not> role_found) (NotFound ''Role not found in this tenant.'')) (\<lambda>_.
     bindM (draw_next (a_hex32 A)) (\<lambda>tok.
     bindM (insert_invitation A (\<lambda>i t. \<lparr>ti_invId = i, ti_email = cid_email dto, ti_status = InvPending,
       ti_tokenHash = a_sha256 A tok, ti_expiresAt = cid_expiresAt dto, ti_acceptedAt = None, ti_declinedAt = None,
       ti_cancelledAt = None, ti_message = cid_message dto, ti_createdAt = t, ti_tenantId = tenantId,
       ti_invitedById = invitedById, ti_invitedUserId = None, ti_roleId = cid_roleId dto\<rparr>)) (\<lambda>inv.
     bindM (send_mail (InvitationMail (cid_email dto) (ten_name x) inviterName tok)) (\<lambda>_.
     ret inv))))))))"

definition getTenantInvitations :: "id \<Rightarrow> tenant_invitation list acc" where
  "getTenantInvitations tenantId =
     bindM (find_tenant tenantId) (\<lambda>_.
     readM (\<lambda>s. sort_key (\<lambda>x. - ti_createdAt x) (filter (\<lambda>x. ti_tenantId x = tenantId) (tenantInvitations s))))"

text \<open>\<^verbatim>\<open>expiresAt: { gt: now }\<close> is false for an invitation without an expiry date.\<close>

definition getMyPendingInvitations :: "string \<Rightarrow> (tenant_invitation \<times> string option \<times> string option) list acc" where
  "getMyPendingInvitations userEmail = readM (\<lambda>s.
     map (\<lambda>x. (x, map_option ten_name (List.find (\<lambda>t. ten_id t = ti_tenantId x) (tenants s)),
         map_option full_name (List.find (\<lambda>u. usr_id u = ti_invitedById x) (users s))))
       (sort_key (\<lambda>x. - ti_createdAt x) (filter (\<lambda>x. ti_email x = userEmail \<and> ti_status x = InvPending \<and>
         (case ti_expiresAt x of None \<Rightarrow> False | Some e \<Rightarrow> clock s < e)) (tenantInvitations s))))"

definition deleteTenantInvitation :: "id \<Rightarrow> id \<Rightarrow> unit acc" where
  "deleteTenantInvitation tenantId invitationId =
     bindM (readM (\<lambda>s. List.find (\<lambda>x. ti_invId x = invitationId \<and> ti_tenantId x = tenantId) (tenantInvitations s))) (\<lambda>found.
     bindM (require found (NotFound ''Invitation not found for this tenant.'')) (\<lambda>x.
     bindM (throw_if (ti_status x = InvAccepted)
       (Forbidden ''Cannot cancel an invitation that has already been accepted.'')) (\<lambda>_.
     bindM (throw_if (ti_status x = InvCancelled) (Forbidden ''This invitation has already been cancelled.'')) (\<lambda>_.
     bindM time (\<lambda>t.
     update_invitation (\<lambda>y. ti_invId y = invitationId)
       (\<lambda>y. y\<lparr>ti_status := InvCancelled, ti_cancelledAt := Some t\<rparr>))))))"

definition find_invitation :: "auth_env \<Rightarrow> string \<Rightarrow> org \<Rightarrow> tenant_invitation option" where
  "find_invitation A tok s = List.find (\<lambda>x. ti_tokenHash x = a_sha256 A tok) (tenantInvitations s)"

definition expire_if_late :: "tenant_invitation \<Rightarrow> string \<Rightarrow> unit acc" where
  "expire_if_late x msg =
     bindM time (\<lambda>t.
     if ti_expiresAt x \<noteq> None \<and> the (ti_expiresAt x) < t
     then bindM (update_invitation (\<lambda>y. ti_invId y = ti_invId x) (\<lambda>y. y\<lparr>ti_status := InvExpired\<rparr>)) (\<lambda>_.
       throw (Forbidden msg))
     else ret ())"

definition accept_tx :: "auth_env \<Rightarrow> id \<Rightarrow> tenant_invitation \<Rightarrow> unit acc" where
  "accept_tx A userId x =
     bindM time (\<lambda>t.
     bindM (update_invitation (\<lambda>y. ti_invId y = ti_invId x)
       (\<lambda>y. y\<lparr>ti_status := InvAccepted, ti_acceptedAt := Some t, ti_invitedUserId := Some userId\<rparr>)) (\<lambda>_.
     bindM (connect_member userId (ti_tenantId x)) (\<lambda>_.
     bindM (if empty_string (ti_roleId x) then ret () else
       bindM (insert_assignment A (\<lambda>i t1. \<lparr>ua_id = i, ua_userId = userId, ua_roleId = the (ti_roleId x),
         ua_tenantId = ti_tenantId x, ua_accessScope = ScopeTenant, ua_locationId = None, ua_assignedAt = t1,
         ua_assignedById = Some (ti_invitedById x)\<rparr>)) (\<lambda>_. ret ())) (\<lambda>_.
     update_user (\<lambda>u. usr_id u = userId) (complete_onboarding t)))))"

definition acceptInvitation :: "auth_env \<Rightarrow> id \<Rightarrow> string \<Rightarrow> string \<Rightarrow> id acc" where
  "acceptInvitation A userId userEmail tok =
     bindM (readM (find_invitation A tok)) (\<lambda>found.
     bindM (require found (NotFound ''Invitation not found or invalid.'')) (\<lambda>x.
     bindM (throw_if (map to_lower userEmail \<noteq> map to_lower (ti_email x))
       (Forbidden ''You can only accept invitations sent to your email address.'')) (\<lambda>_.
     bindM (expire_if_late x ''This invitation has expired and can no longer be accepted.'') (\<lambda>_.
     bindM (case ti_status x of
         InvAccepted \<Rightarrow> throw (Conflict ''This invitation has already been accepted.'')
       | InvDeclined \<Rightarrow> throw (Forbidden ''This invitation was declined and can no longer be accepted.'')
       | InvExpired \<Rightarrow> throw (Forbidden ''This invitation has expired and can no longer be accepted.'')
       | InvPending \<Rightarrow> ret ()
       | InvCancelled \<Rightarrow> throw (Forbidden ''This invitation is no longer valid.'')) (\<lambda>_.
     bindM (transaction (accept_tx A userId x)) (\<lambda>_.
     ret (ti_tenantId x)))))))"

definition declineInvitation :: "auth_env \<Rightarrow> id \<Rightarrow> string \<Rightarrow> unit acc" where
  "declineInvitation A userId tok =
     bindM (readM (find_invitation A tok)) (\<lambda>found.
     bindM (require found (NotFound ''Invitation not found or invalid.'')) (\<lambda>x.
     bindM (expire_if_late x ''This invitation has expired and can no longer be declined.'') (\<lambda>_.
     bindM (case ti_status x of
         InvAccepted \<Rightarrow> throw (Conflict ''This invitation has already been accepted and cannot be declined.'')
       | InvDeclined \<Rightarrow> throw (Conflict ''This invitation has already been declined.'')
       | InvExpired \<Rightarrow> throw (Forbidden ''This invitation has expired and can no longer be declined.'')
       | InvPending \<Rightarrow> ret ()
       | InvCancelled \<Rightarrow> throw (Forbidden ''This invitation is no longer valid.'')) (\<lambda>_.
     bindM time (\<lambda>t.
     update_invitation (\<lambda>y. ti_invId y = ti_invId x)
       (\<lambda>y. y\<lparr>ti_status := InvDeclined, ti_declinedAt := Some t, ti_invitedUserId := Some userId\<rparr>))))))"

section \<open>Members\<close>

definition has_super_admin :: "id \<Rightarrow> id \<Rightarrow> org \<Rightarrow> bool" where
  "has_super_admin userId tenantId s \<longleftrightarrow>
     list_ex (\<lambda>a. ua_userId a = userId \<and> ua_tenantId a = tenantId \<and>
       list_ex (\<lambda>r. role_id r = ua_roleId a \<and> role_name r = SUPER_ADMIN_ROLE) (roles s)) (userAssignments s)"

definition removeTenantMember :: "id \<Rightarrow> id \<Rightarrow> id \<Rightarrow> string option \<Rightarrow> unit acc" where
  "removeTenantMember removedById tenantId targetUserId reason =
     bindM (find_tenant tenantId) (\<lambda>x.
     bindM (readM (\<lambda>s. if (targetUserId, tenantId) \<in> set (tenantMembers s)
       then List.find (\<lambda>u. usr_id u = targetUserId) (users s) else None)) (\<lambda>found.
     bindM (require found (NotFound ''User not found or is not a member of this tenant.'')) (\<lambda>u.
     bindM (readM (has_super_admin targetUserId tenantId)) (\<lambda>hasSuperAdminRole.
     bindM (throw_if hasSuperAdminRole
       (Forbidden ''Cannot remove the SuperAdmin from the tenant. Transfer ownership first.'')) (\<lambda>_.
     bindM (transaction (
       bindM (writeM (\<lambda>s. s\<lparr>userAssignments :=
         filter (\<lambda>a. \<not> (ua_userId a = targetUserId \<and> ua_tenantId a = tenantId)) (userAssignments s)\<rparr>)) (\<lambda>_.
       bindM (disconnect_member targetUserId tenantId) (\<lambda>_.
       writeM (\<lambda>s. s\<lparr>memberRemovals := memberRemovals s @ [\<lparr>rem_userId = targetUserId, rem_tenantId = tenantId,
         rem_removedById = removedById, rem_reason = reason\<rparr>]\<rparr>))))) (\<lambda>_.
     let userName = js_trim (full_name u) in
     send_mail (RemovalMail (usr_email u) (if userName = [] then usr_email u else userName) (ten_name x))))))))"

end
