(* ===== verification/Mfa.thy ===== *)
theory Mfa
  imports Accounts Numbering
begin

text \<open>
  \<^verbatim>\<open>src/src/modules/auth/mfa/mfa.service.ts\<close>: authenticator codes, one-time codes by e-mail, backup codes and
  devices that are remembered. Of the request the service reads the headers in \<open>web_request\<close>; the cookie
  it sets in the response is the result of \<open>rememberDevice\<close>.
\<close>

section \<open>Requests\<close>

text \<open>The parts of an express request that the services read. \<open>rq_maxAge\<close> is the lifetime in milliseconds
  of the session cookie, \<open>rq_metadata\<close> what the session of the request holds under \<^verbatim>\<open>metadata\<close>, and
  \<open>rq_passport\<close> the snapshot Passport keeps there.\<close>

record web_request =
  rq_userAgent :: "string option"
  rq_ip :: "string option"
  rq_deviceName :: "string option"
  rq_deviceCookie :: "string option"
  rq_sessionId :: "string option"
  rq_maxAge :: "int option"
  rq_hasSession :: bool
  rq_metadata :: "session_metadata option"
  rq_passport :: "session_snapshot option"

section \<open>Constants of \<^verbatim>\<open>auth.constants.ts\<close>\<close>

definition MFA_REMEMBER_DEVICE_DAYS :: int where "MFA_REMEMBER_DEVICE_DAYS = 30"
definition MFA_BACKUP_CODES_COUNT :: nat where "MFA_BACKUP_CODES_COUNT = 10"
definition MFA_BACKUP_CODE_LENGTH :: nat where "MFA_BACKUP_CODE_LENGTH = 12"
definition MFA_OOB_CODE_LENGTH :: nat where "MFA_OOB_CODE_LENGTH = 6"
definition MFA_OOB_CODE_TTL_MINUTES :: int where "MFA_OOB_CODE_TTL_MINUTES = 10"
definition MFA_MAX_ATTEMPTS :: int where "MFA_MAX_ATTEMPTS = 5"

section \<open>Codes and tokens\<close>

text \<open>\<^verbatim>\<open>raw.match(/.{1,4}/g).join('-')\<close>.\<close>

fun in_fours :: "string \<Rightarrow> string" where
  "in_fours (a # b # c # d # e # cs) = a # b # c # d # hyphen # in_fours (e # cs)"
| "in_fours cs = cs"

definition generateBackupCode :: "auth_env \<Rightarrow> string acc" where
  "generateBackupCode A =
     bindM (draw_next (a_base12 A)) (\<lambda>bytes.
     ret (in_fours (take MFA_BACKUP_CODE_LENGTH
       (filter (\<lambda>c. char_range CHR ''A'' CHR ''Z'' c \<or> char_range CHR ''0'' CHR ''9'' c) (map to_upper bytes)))))"

definition hashTrustedDeviceToken :: "auth_env \<Rightarrow> string \<Rightarrow> string" where
  "hashTrustedDeviceToken A tok = a_sha256 A tok"

definition generateNumericCode :: "auth_env \<Rightarrow> nat \<Rightarrow> string acc" where
  "generateNumericCode A len = bindM (draw_next (\<lambda>n. a_random A n (10 ^ len))) (\<lambda>k. ret (padStart len CHR ''0'' (show_nat k)))"

definition argon_hash :: "auth_env \<Rightarrow> string \<Rightarrow> string acc" where
  "argon_hash A x = draw_next (\<lambda>n. a_hash A n x)"

section \<open>The authenticator\<close>

definition totp_setup :: "auth_env \<Rightarrow> user \<Rightarrow> (string \<times> string) acc" where
  "totp_setup A u =
     bindM (draw_next (a_secret A)) (\<lambda>secret.
     bindM (update_user (\<lambda>y. usr_id y = usr_id u)
       (\<lambda>y. y\<lparr>usr_twoFactorTempSecret := Some secret, usr_twoFactorType := Some TfTotp\<rparr>)) (\<lambda>_.
     ret (secret, a_keyuri A (usr_email u) secret)))"

definition enableTotp :: "auth_env \<Rightarrow> user \<Rightarrow> string \<Rightarrow> loaded_user acc" where
  "enableTotp A u code =
     (let secret = (case usr_twoFactorTempSecret u of Some x \<Rightarrow> Some x | None \<Rightarrow> usr_twoFactorSecret u) in
     bindM (throw_if (empty_string secret)
       (BadRequest ''No TOTP secret generated. Please initiate setup first.'')) (\<lambda>_.
     bindM time (\<lambda>t.
     bindM (throw_if (\<not> a_totp A code (the secret) t) (Unauthorized ''Invalid authenticator code provided.'')) (\<lambda>_.
     bindM (update_user (\<lambda>y. usr_id y = usr_id u)
       (\<lambda>y. y\<lparr>usr_twoFactorEnabled := True, usr_twoFactorType := Some TfTotp, usr_twoFactorSecret := secret,
             usr_twoFactorTempSecret := None, usr_twoFactorVerifiedAt := Some t\<rparr>)) (\<lambda>_.
     bindM (findById (usr_id u)) (\<lambda>updated.
     require updated (NotFound ''Failed to load user after enabling 2FA.'')))))))"

definition verifyTotp :: "auth_env \<Rightarrow> user \<Rightarrow> string \<Rightarrow> bool acc" where
  "verifyTotp A u code = readM (\<lambda>s. \<not> empty_string (usr_twoFactorSecret u) \<and>
     a_totp A code (the (usr_twoFactorSecret u)) (clock s))"

section \<open>Disabling\<close>

definition without_two_factor :: "user \<Rightarrow> user" where
  "without_two_factor u = u\<lparr>usr_twoFactorEnabled := False, usr_twoFactorType := None, usr_twoFactorSecret := None,
     usr_twoFactorTempSecret := None, usr_twoFactorEnforced := False, usr_twoFactorEnforcedAt := None,
     usr_twoFactorVerifiedAt := None\<rparr>"

definition mfa_disableTwoFactor :: "id \<Rightarrow> unit acc" where
  "mfa_disableTwoFactor userId = transaction (
     bindM (update_user (\<lambda>u. usr_id u = userId) without_two_factor) (\<lambda>_.
     writeM (\<lambda>s. s\<lparr>backupCodes := filter (\<lambda>c. bc_userId c \<noteq> userId) (backupCodes s),
       trustedDevices := filter (\<lambda>d. dev_userId d \<noteq> userId) (trustedDevices s),
       challenges := filter (\<lambda>c. chg_userId c \<noteq> userId) (challenges s)\<rparr>)))"

section \<open>Backup codes\<close>

definition mfa_generateBackupCodes :: "auth_env \<Rightarrow> id \<Rightarrow> string list acc" where
  "mfa_generateBackupCodes A userId =
     bindM (forM [0..<MFA_BACKUP_CODES_COUNT] (\<lambda>_.
       bindM (generateBackupCode A) (\<lambda>code. bindM (argon_hash A code) (\<lambda>h. ret (code, h))))) (\<lambda>prepared.
     bindM (replaceBackupCodes A userId (map snd prepared)) (\<lambda>_.
     bindM (update_user (\<lambda>u. usr_id u = userId)
       (\<lambda>u. u\<lparr>usr_backupCodesVersion := usr_backupCodesVersion u + 1\<rparr>)) (\<lambda>_.
     ret (map fst prepared))))"

definition validateBackupCode :: "auth_env \<Rightarrow> loaded_user \<Rightarrow> string \<Rightarrow> bool acc" where
  "validateBackupCode A lu code =
     (let normalized = js_trim code in
      case List.find (\<lambda>c. \<not> bc_used c \<and> a_verify A (bc_codeHash c) normalized) (lu_backupCodes lu) of
        None \<Rightarrow> ret False
      | Some c \<Rightarrow> bindM (markBackupCodeUsed (bc_id c)) (\<lambda>_. ret True))"

section \<open>Devices\<close>

text \<open>The second factor is asked for, unless the cookie names a device that is trusted, not expired, and
  used from the same address and browser.\<close>

definition shouldRequireTwoFactor :: "auth_env \<Rightarrow> loaded_user \<Rightarrow> web_request \<Rightarrow> (bool \<times> trusted_device option) acc" where
  "shouldRequireTwoFactor A lu rq = readM (\<lambda>s.
     if \<not> usr_twoFactorEnabled (lu_user lu) \<and> \<not> usr_twoFactorEnforced (lu_user lu) then (False, None)
     else if empty_string (rq_deviceCookie rq) then (True, None)
     else case List.find (\<lambda>d. dev_deviceId d = hashTrustedDeviceToken A (the (rq_deviceCookie rq)) \<and>
            dev_status d = DevActive \<and> clock s < dev_expiresAt d) (lu_trustedDevices lu) of
        None \<Rightarrow> (True, None)
      | Some d \<Rightarrow>
          if (\<not> empty_string (dev_ipAddress d) \<and> dev_ipAddress d \<noteq> rq_ip rq) \<or>
             (\<not> empty_string (dev_userAgent d) \<and> \<not> empty_string (rq_userAgent rq) \<and> rq_userAgent rq \<noteq> dev_userAgent d)
          then (True, None) else (False, Some d))"

definition rememberDevice :: "auth_env \<Rightarrow> id \<Rightarrow> web_request \<Rightarrow> string option \<Rightarrow> string acc" where
  "rememberDevice A userId rq label =
     bindM (draw_next (a_base48 A)) (\<lambda>rawToken.
     bindM time (\<lambda>t.
     bindM (createTrustedDevice A (\<lambda>i. \<lparr>dev_id = i, dev_userId = userId,
       dev_deviceId = hashTrustedDeviceToken A rawToken, dev_label = label, dev_userAgent = rq_userAgent rq,
       dev_ipAddress = rq_ip rq, dev_status = DevActive, dev_lastUsedAt = None,
       dev_expiresAt = t + days MFA_REMEMBER_DEVICE_DAYS\<rparr>)) (\<lambda>_.
     ret rawToken)))"

definition updateTrustedDeviceUsage :: "trusted_device \<Rightarrow> web_request \<Rightarrow> unit acc" where
  "updateTrustedDeviceUsage d rq =
     bindM time (\<lambda>t. updateTrustedDevice (dev_deviceId d) (\<lambda>y. y\<lparr>
       dev_userAgent := (case rq_userAgent rq of Some x \<Rightarrow> Some x | None \<Rightarrow> dev_userAgent d),
       dev_ipAddress := (case rq_ip rq of Some x \<Rightarrow> Some x | None \<Rightarrow> dev_ipAddress y),
       dev_lastUsedAt := Some t\<rparr>))"

definition clearRememberedDevices :: "id \<Rightarrow> unit acc" where
  "clearRememberedDevices userId =
     bindM time (\<lambda>t. writeM (\<lambda>s. s\<lparr>trustedDevices :=
       update_where (\<lambda>d. dev_userId d = userId \<and> dev_status d = DevActive)
         (\<lambda>d. d\<lparr>dev_status := DevRevoked, dev_expiresAt := t\<rparr>) (trustedDevices s)\<rparr>))"

section \<open>One-time codes\<close>

text \<open>The code itself reaches nobody: the line that mails it is commented out, and only outside production
  is it written to the log.\<close>

definition createOutOfBandChallenge :: "auth_env \<Rightarrow> id \<Rightarrow> MfaChallengeChannel \<Rightarrow> string \<Rightarrow> unit acc" where
  "createOutOfBandChallenge A userId channel email =
     (if channel = ChSms then ret () else
     bindM (generateNumericCode A MFA_OOB_CODE_LENGTH) (\<lambda>code.
     bindM (argon_hash A code) (\<lambda>codeHash.
     bindM time (\<lambda>t.
     transaction (
       bindM (writeM (\<lambda>s. s\<lparr>challenges :=
         update_where (\<lambda>c. chg_userId c = userId \<and> chg_channel c = channel \<and> \<not> chg_consumed c)
           (\<lambda>c. c\<lparr>chg_consumed := True, chg_consumedAt := Some t\<rparr>) (challenges s)\<rparr>)) (\<lambda>_.
       createChallenge A (\<lambda>i t1. \<lparr>chg_id = i, chg_userId = userId, chg_channel = channel,
         chg_codeHash = codeHash, chg_expiresAt = t + minutes MFA_OOB_CODE_TTL_MINUTES, chg_attempts = 0,
         chg_consumed = False, chg_consumedAt = None, chg_createdAt = t1\<rparr>)))))))"

definition verifyOutOfBandChallenge :: "auth_env \<Rightarrow> id \<Rightarrow> MfaChallengeChannel \<Rightarrow> string \<Rightarrow> bool acc" where
  "verifyOutOfBandChallenge A userId channel code =
     bindM (findActiveChallengeByChannel userId channel) (\<lambda>found.
     case found of
       None \<Rightarrow> ret False
     | Some c \<Rightarrow>
         bindM time (\<lambda>t.
         if chg_expiresAt c < t then bindM (consumeChallenge (chg_id c)) (\<lambda>_. ret False)
         else if MFA_MAX_ATTEMPTS \<le> chg_attempts c then bindM (consumeChallenge (chg_id c)) (\<lambda>_. ret False)
         else if \<not> a_verify A (chg_codeHash c) code then
           bindM (incrementChallengeAttempt (chg_id c)) (\<lambda>_. ret False)
         else bindM (consumeChallenge (chg_id c)) (\<lambda>_. ret True)))"

datatype TwoFactorChannel = ViaTotp | ViaEmail | ViaBackupCode | ViaOther string

definition assertChannelSupported :: "string \<Rightarrow> unit acc" where
  "assertChannelSupported channel =
     throw_if (channel \<notin> {''TOTP'', ''EMAIL'', ''BACKUP_CODE''})
       (BadRequest (''Unsupported two-factor verification channel: '' @ channel))"

end
