(* ===== verification/WebSession.thy ===== *)
theory WebSession
  imports Mfa
begin

text \<open>
  The sessions of the web server: what \<^verbatim>\<open>src/src/modules/auth/auth.service.ts\<close> caches about them in Redis,
  what \<^verbatim>\<open>auth.controller.ts\<close>, \<^verbatim>\<open>auth/serializers\<close> and \<^verbatim>\<open>auth/guards\<close> do to establish, check and destroy them,
  as \<^verbatim>\<open>bootstrap/session.config.ts\<close> sets the session store up. Redis itself and the session store do not fail.
\<close>

section \<open>The session user\<close>

record session_user =
  su_snapshot :: session_snapshot
  su_email :: string
  su_firstName :: string
  su_lastName :: string
  su_phoneNumber :: "string option"
  su_emailVerified :: "instant option"
  su_onboardingStatus :: OnboardingStatus
  su_onboardingCompletedAt :: "instant option"
  su_isActive :: bool
  su_needsOnboarding :: bool
  su_createdAt :: instant
  su_lastLoginAt :: "instant option"
  su_lastActiveAt :: "instant option"
  su_twoFactorEnabled :: bool
  su_twoFactorType :: "TwoFactorType option"
  su_twoFactorEnforced :: bool
  su_profileComplete :: bool
  su_tenantCreation :: bool
  su_tenantSetting :: bool

abbreviation su_id :: "session_user \<Rightarrow> id" where "su_id x \<equiv> snap_id (su_snapshot x)"

text \<open>The overrides are the two flags of the second factor, or absent.\<close>

definition onboarding_flags :: "onboarding_state option \<Rightarrow> bool \<times> bool \<times> bool" where
  "onboarding_flags st = (case st of None \<Rightarrow> (False, False, False)
     | Some x \<Rightarrow> (onb_profileComplete x, onb_tenantCreation x, onb_tenantSetting x))"

definition buildSessionUser :: "user \<Rightarrow> onboarding_state option \<Rightarrow> (bool \<times> bool) option \<Rightarrow> session_user" where
  "buildSessionUser u st overrides =
     (let (req, verified) = given overrides (False, True); (profile, tenant, settings) = onboarding_flags st in
      \<lparr>su_snapshot = \<lparr>snap_id = usr_id u, snap_requiresTwoFactor = req, snap_twoFactorVerified = verified\<rparr>,
       su_email = usr_email u, su_firstName = usr_firstName u, su_lastName = usr_lastName u,
       su_phoneNumber = usr_phoneNumber u, su_emailVerified = usr_emailVerified u,
       su_onboardingStatus = usr_onboardingStatus u, su_onboardingCompletedAt = usr_onboardingCompletedAt u,
       su_isActive = usr_isActive u, su_needsOnboarding = (usr_onboardingStatus u \<noteq> OnbCompleted),
       su_createdAt = usr_createdAt u, su_lastLoginAt = usr_lastLoginAt u, su_lastActiveAt = usr_lastActiveAt u,
       su_twoFactorEnabled = usr_twoFactorEnabled u, su_twoFactorType = usr_twoFactorType u,
       su_twoFactorEnforced = usr_twoFactorEnforced u, su_profileComplete = profile,
       su_tenantCreation = tenant, su_tenantSetting = settings\<rparr>)"

text \<open>The row is selected without its onboarding state, so the three flags come out false.\<close>

definition deserializeUser :: "id \<Rightarrow> session_snapshot option \<Rightarrow> session_user option acc" where
  "deserializeUser userId snapshot = readM (\<lambda>s.
     map_option (\<lambda>u. buildSessionUser u None
       (map_option (\<lambda>x. (snap_requiresTwoFactor x, snap_twoFactorVerified x)) snapshot))
     (List.find (\<lambda>u. usr_id u = userId) (users s)))"

section \<open>Metadata\<close>

definition no_metadata :: session_metadata where
  "no_metadata = \<lparr>sm_deviceName = None, sm_osName = None, sm_userAgent = None, sm_ipAddress = None,
     sm_location = None, sm_lastLoginAt = None\<rparr>"

definition normalizeMetadata :: "session_metadata option \<Rightarrow> session_metadata" where
  "normalizeMetadata m = given m no_metadata"

text \<open>\<^verbatim>\<open>text.includes(part)\<close>.\<close>

fun contains_text :: "string \<Rightarrow> string \<Rightarrow> bool" where
  "contains_text [] part = (part = [])"
| "contains_text (c # cs) part = (startsWith (c # cs) part \<or> contains_text cs part)"

definition detectDeviceName :: "string option \<Rightarrow> string option \<Rightarrow> string option" where
  "detectDeviceName userAgent providedLabel =
     (if providedLabel \<noteq> None \<and> js_trim (the providedLabel) \<noteq> [] then Some (take 100 (js_trim (the providedLabel)))
      else if empty_string userAgent then None
      else let ua = map to_lower (the userAgent) in
        if contains_text ua ''iphone'' then Some ''iPhone''
        else if contains_text ua ''ipad'' then Some ''iPad''
        else if contains_text ua ''android'' then Some ''Android Device''
        else if contains_text ua ''macintosh'' \<or> contains_text ua ''mac os'' then Some ''Mac''
        else if contains_text ua ''windows'' then Some ''Windows PC''
        else if contains_text ua ''linux'' then Some ''Linux Device''
        else None)"

definition detectOsName :: "string option \<Rightarrow> string option" where
  "detectOsName userAgent =
     (if empty_string userAgent then None
      else let ua = map to_lower (the userAgent) in
        if contains_text ua ''windows nt'' then Some ''Windows''
        else if contains_text ua ''mac os x'' then Some ''macOS''
        else if contains_text ua ''iphone'' \<or> contains_text ua ''ios'' then Some ''iOS''
        else if contains_text ua ''android'' then Some ''Android''
        else if contains_text ua ''ipad'' then Some ''iPadOS''
        else if contains_text ua ''linux'' then Some ''Linux''
        else if contains_text ua ''chrome os'' then Some ''ChromeOS''
        else None)"

definition normalizeIpAddress :: "string option \<Rightarrow> string option" where
  "normalizeIpAddress ip = (if empty_string ip then None
     else if startsWith (the ip) ''::ffff:'' then Some (drop 7 (the ip)) else ip)"

definition or_previous :: "'a option \<Rightarrow> 'a option \<Rightarrow> 'a option" where
  "or_previous x previous = (case x of None \<Rightarrow> previous | Some v \<Rightarrow> Some v)"

definition deriveSessionMetadata ::
  "instant \<Rightarrow> web_request \<Rightarrow> session_user \<Rightarrow> string option \<Rightarrow> session_metadata \<Rightarrow> session_metadata" where
  "deriveSessionMetadata t rq su deviceLabel previous =
     (let rawUserAgent = or_previous (rq_userAgent rq) (sm_userAgent previous);
          userAgent = (if empty_string rawUserAgent then sm_userAgent previous else rawUserAgent)
      in \<lparr>sm_deviceName = or_previous (detectDeviceName userAgent deviceLabel) (sm_deviceName previous),
          sm_osName = or_previous (detectOsName userAgent) (sm_osName previous), sm_userAgent = userAgent,
          sm_ipAddress = or_previous (normalizeIpAddress (rq_ip rq)) (sm_ipAddress previous),
          sm_location = sm_location previous, sm_lastLoginAt = or_previous (su_lastLoginAt su) (Some t)\<rparr>)"

definition hasMetadataChanged :: "session_metadata \<Rightarrow> session_metadata \<Rightarrow> bool" where
  "hasMetadataChanged previous updated \<longleftrightarrow>
     sm_deviceName previous \<noteq> sm_deviceName updated \<or> sm_osName previous \<noteq> sm_osName updated \<or>
     sm_userAgent previous \<noteq> sm_userAgent updated \<or> sm_ipAddress previous \<noteq> sm_ipAddress updated \<or>
     sm_location previous \<noteq> sm_location updated \<or> sm_lastLoginAt previous \<noteq> sm_lastLoginAt updated"

section \<open>Redis\<close>

definition defaultSessionTtlSeconds :: int where "defaultSessionTtlSeconds = 60 * 60 * 24 * 7"
definition metadataTtlBufferSeconds :: int where "metadataTtlBufferSeconds = 60 * 10"

text \<open>A key is there until it expires; \<^verbatim>\<open>TTL\<close> counts seconds, rounded, -1 without expiry and -2 without the key.\<close>

definition alive :: "instant \<Rightarrow> instant option \<Rightarrow> bool" where
  "alive t e \<longleftrightarrow> (case e of None \<Rightarrow> True | Some x \<Rightarrow> t < x)"

definition web_session_of :: "string \<Rightarrow> org \<Rightarrow> web_session option" where
  "web_session_of sid s = List.find (\<lambda>w. ws_id w = sid \<and> alive (clock s) (ws_expiresAt w)) (webSessions s)"

definition session_ttl :: "string \<Rightarrow> org \<Rightarrow> int" where
  "session_ttl sid s = (case web_session_of sid s of None \<Rightarrow> - 2
     | Some w \<Rightarrow> (case ws_expiresAt w of None \<Rightarrow> - 1 | Some x \<Rightarrow> (x - clock s + 500) div 1000))"

definition find_metadata :: "string \<Rightarrow> org \<Rightarrow> cached_metadata option" where
  "find_metadata sid s =
     List.find (\<lambda>m. cm_sessionId m = sid \<and> alive (clock s) (cm_expiresAt m)) (cachedMetadata s)"

definition sMembers :: "id \<Rightarrow> org \<Rightarrow> string list" where
  "sMembers userId s =
     (case List.find (\<lambda>x. ix_userId x = userId \<and> alive (clock s) (ix_expiresAt x)) (sessionIndexes s) of
        None \<Rightarrow> [] | Some x \<Rightarrow> ix_members x)"

definition del_session :: "string \<Rightarrow> nat acc" where
  "del_session sid =
     bindM (readM (web_session_of sid)) (\<lambda>found.
     bindM (writeM (\<lambda>s. s\<lparr>webSessions := filter (\<lambda>w. ws_id w \<noteq> sid) (webSessions s)\<rparr>)) (\<lambda>_.
     ret (if found = None then 0 else 1)))"

text \<open>\<^verbatim>\<open>HSET\<close> and \<^verbatim>\<open>SADD\<close>, each followed by \<^verbatim>\<open>EXPIRE\<close>.\<close>

definition hset_expire :: "(instant \<Rightarrow> cached_metadata) \<Rightarrow> unit acc" where
  "hset_expire m = bindM time (\<lambda>t. writeM (\<lambda>s. s\<lparr>cachedMetadata :=
     filter (\<lambda>x. cm_sessionId x \<noteq> cm_sessionId (m t)) (cachedMetadata s) @ [m t]\<rparr>))"

definition sadd_expire :: "id \<Rightarrow> string \<Rightarrow> int \<Rightarrow> unit acc" where
  "sadd_expire userId sid ttl =
     bindM time (\<lambda>t. writeM (\<lambda>s. s\<lparr>sessionIndexes := filter (\<lambda>x. ix_userId x \<noteq> userId) (sessionIndexes s) @
       [\<lparr>ix_userId = userId, ix_members = filter (\<lambda>y. y \<noteq> sid) (sMembers userId s) @ [sid],
         ix_expiresAt = Some (t + ttl * 1000)\<rparr>]\<rparr>))"

definition cleanupSessionArtifacts :: "string \<Rightarrow> id option \<Rightarrow> unit acc" where
  "cleanupSessionArtifacts sid userId =
     writeM (\<lambda>s. s\<lparr>cachedMetadata := filter (\<lambda>m. cm_sessionId m \<noteq> sid) (cachedMetadata s),
       sessionIndexes := (if empty_string userId then sessionIndexes s
         else map (\<lambda>x. if Some (ix_userId x) = userId then x\<lparr>ix_members := filter (\<lambda>y. y \<noteq> sid) (ix_members x)\<rparr> else x)
           (sessionIndexes s))\<rparr>)"

definition resolveSessionTtlSeconds :: "web_request \<Rightarrow> int" where
  "resolveSessionTtlSeconds rq = (case rq_maxAge rq of None \<Rightarrow> defaultSessionTtlSeconds
     | Some ms \<Rightarrow> if 0 < ms then (ms + 999) div 1000 else defaultSessionTtlSeconds)"

definition extractSessionId :: "web_request \<Rightarrow> string option" where
  "extractSessionId rq = (if empty_string (rq_sessionId rq) then None else rq_sessionId rq)"

definition serializeMetadataForCache ::
  "string \<Rightarrow> session_user \<Rightarrow> session_metadata \<Rightarrow> instant option \<Rightarrow> cached_metadata" where
  "serializeMetadataForCache sid su m e =
     \<lparr>cm_sessionId = sid, cm_userId = su_id su, cm_requiresTwoFactor = snap_requiresTwoFactor (su_snapshot su),
      cm_twoFactorVerified = snap_twoFactorVerified (su_snapshot su), cm_metadata = m, cm_expiresAt = e\<rparr>"

text \<open>Nothing and the empty text are stored alike, and read back as nothing.\<close>

definition nonempty :: "string option \<Rightarrow> string option" where
  "nonempty x = (if empty_string x then None else x)"

definition deserializeCachedMetadata :: "cached_metadata \<Rightarrow> cached_metadata" where
  "deserializeCachedMetadata c = c\<lparr>cm_metadata := (let m = cm_metadata c in
     \<lparr>sm_deviceName = nonempty (sm_deviceName m), sm_osName = nonempty (sm_osName m),
      sm_userAgent = nonempty (sm_userAgent m), sm_ipAddress = nonempty (sm_ipAddress m),
      sm_location = nonempty (sm_location m), sm_lastLoginAt = sm_lastLoginAt m\<rparr>)\<rparr>"

definition registerSessionInCache :: "session_user \<Rightarrow> string \<Rightarrow> session_metadata \<Rightarrow> int \<Rightarrow> unit acc" where
  "registerSessionInCache su sid m ttlSeconds =
     (let expireSeconds = max (ttlSeconds + metadataTtlBufferSeconds) 0 in
     bindM (hset_expire (\<lambda>t. serializeMetadataForCache sid su m (Some (t + expireSeconds * 1000)))) (\<lambda>_.
     sadd_expire (su_id su) sid expireSeconds))"

definition refreshSessionCacheTtl :: "string \<Rightarrow> id option \<Rightarrow> int \<Rightarrow> unit acc" where
  "refreshSessionCacheTtl sid userId ttlSeconds =
     bindM time (\<lambda>t. let e = Some (t + max (ttlSeconds + metadataTtlBufferSeconds) 1 * 1000) in
     writeM (\<lambda>s. s\<lparr>cachedMetadata := update_where (\<lambda>m. cm_sessionId m = sid \<and> alive (clock s) (cm_expiresAt m))
         (\<lambda>m. m\<lparr>cm_expiresAt := e\<rparr>) (cachedMetadata s),
       sessionIndexes := (if empty_string userId then sessionIndexes s
         else update_where (\<lambda>x. Some (ix_userId x) = userId \<and> alive (clock s) (ix_expiresAt x))
           (\<lambda>x. x\<lparr>ix_expiresAt := e\<rparr>) (sessionIndexes s))\<rparr>))"

text \<open>\<^verbatim>\<open>request.session.save\<close>: the session goes to the store under its identifier.\<close>

definition commitSession :: "web_request \<Rightarrow> unit acc" where
  "commitSession rq =
     bindM time (\<lambda>t. writeM (\<lambda>s. s\<lparr>webSessions :=
       filter (\<lambda>w. Some (ws_id w) \<noteq> rq_sessionId rq) (webSessions s) @
       (case rq_sessionId rq of None \<Rightarrow> [] | Some sid \<Rightarrow>
          [\<lparr>ws_id = sid, ws_snapshot = rq_passport rq, ws_metadata = rq_metadata rq,
            ws_expiresAt = Some (t + resolveSessionTtlSeconds rq * 1000)\<rparr>])\<rparr>))"

definition updateSessionMetadata :: "web_request \<Rightarrow> session_user \<Rightarrow> string option \<Rightarrow> unit acc" where
  "updateSessionMetadata rq su deviceLabel =
     (case extractSessionId rq of None \<Rightarrow> ret () | Some sid \<Rightarrow>
      let ttlSeconds = resolveSessionTtlSeconds rq in
      if \<not> rq_hasSession rq then registerSessionInCache su sid (normalizeMetadata None) ttlSeconds
      else bindM time (\<lambda>t.
        let previous = normalizeMetadata (rq_metadata rq);
            updated = deriveSessionMetadata t rq su deviceLabel previous in
        bindM (if hasMetadataChanged previous updated then commitSession (rq\<lparr>rq_metadata := Some updated\<rparr>)
               else ret ()) (\<lambda>_.
        registerSessionInCache su sid updated ttlSeconds)))"

definition ensureSessionMetadata :: "web_request \<Rightarrow> session_user \<Rightarrow> string option \<Rightarrow> unit acc" where
  "ensureSessionMetadata = updateSessionMetadata"

definition touchSessionCache :: "web_request \<Rightarrow> id option \<Rightarrow> unit acc" where
  "touchSessionCache rq userId =
     (case extractSessionId rq of None \<Rightarrow> ret ()
      | Some sid \<Rightarrow> refreshSessionCacheTtl sid userId (resolveSessionTtlSeconds rq))"

definition removeSessionArtifacts :: "string \<Rightarrow> id option \<Rightarrow> unit acc" where
  "removeSessionArtifacts = cleanupSessionArtifacts"

section \<open>Listing and revoking\<close>

record session_summary =
  ss_sessionId :: string
  ss_expiresAt :: "instant option"
  ss_idleSecondsRemaining :: "int option"
  ss_requiresTwoFactor :: bool
  ss_twoFactorVerified :: bool
  ss_isCurrent :: bool
  ss_metadata :: session_metadata

record session_list_result =
  slr_items :: "session_summary list"
  slr_totalItems :: int
  slr_page :: int
  slr_pageSize :: int
  slr_totalPages :: int
  slr_hasNextPage :: bool
  slr_hasPreviousPage :: bool

definition SESSION_LIST_DEFAULT_PAGE_SIZE :: int where "SESSION_LIST_DEFAULT_PAGE_SIZE = 10"
definition SESSION_LIST_MAX_PAGE_SIZE :: int where "SESSION_LIST_MAX_PAGE_SIZE = 50"

text \<open>What is shown of one identifier of the index; \<open>None\<close> where the entry is stale and is cleaned up.\<close>

definition session_summary_of :: "org \<Rightarrow> id \<Rightarrow> string option \<Rightarrow> string \<Rightarrow> session_summary option" where
  "session_summary_of s userId current sid =
     (let ttl = session_ttl sid s in
      if ttl = - 2 \<or> ttl = 0 then None
      else case find_metadata sid s of None \<Rightarrow> None
      | Some raw \<Rightarrow> (let cached = deserializeCachedMetadata raw in
          if cm_userId cached = [] \<or> cm_userId cached \<noteq> userId then None
          else Some \<lparr>ss_sessionId = sid, ss_expiresAt = (if 0 < ttl then Some (clock s + ttl * 1000) else None),
            ss_idleSecondsRemaining = (if 0 < ttl then Some ttl else None),
            ss_requiresTwoFactor = cm_requiresTwoFactor cached, ss_twoFactorVerified = cm_twoFactorVerified cached,
            ss_isCurrent = (Some sid = current), ss_metadata = cm_metadata cached\<rparr>))"

text \<open>The comparator of the list as stable sorts, least significant first.\<close>

definition sort_summaries :: "auth_env \<Rightarrow> session_summary list \<Rightarrow> session_summary list" where
  "sort_summaries A xs =
     sort_key (\<lambda>x. if ss_isCurrent x then 0 else 1 :: int)
       (sort_key (\<lambda>x. - given (sm_lastLoginAt (ss_metadata x)) 0)
         (sort_key (\<lambda>x. - given (ss_expiresAt x) 0)
           (sort_key (\<lambda>x. a_collate A (ss_sessionId x)) xs)))"

definition listActiveSessions ::
  "auth_env \<Rightarrow> id \<Rightarrow> string option \<Rightarrow> int option \<Rightarrow> int option \<Rightarrow> session_list_result acc" where
  "listActiveSessions A userId current rawPage rawPageSize =
     (let requestedPage = given rawPage 1;
          requestedPageSize = given rawPageSize SESSION_LIST_DEFAULT_PAGE_SIZE;
          page = (if 0 < requestedPage then requestedPage else 1);
          pageSize = min SESSION_LIST_MAX_PAGE_SIZE
            (if 0 < requestedPageSize then requestedPageSize else SESSION_LIST_DEFAULT_PAGE_SIZE)
      in bindM (readM (\<lambda>s. map (\<lambda>sid. (sid, session_summary_of s userId current sid)) (sMembers userId s))) (\<lambda>found.
      bindM (forM (filter (\<lambda>p. snd p = None) found) (\<lambda>p. cleanupSessionArtifacts (fst p) (Some userId))) (\<lambda>_.
      let sorted = sort_summaries A (List.map_filter snd found);
          totalItems = int (length sorted);
          totalPages = (if totalItems = 0 then 0 else (totalItems + pageSize - 1) div pageSize);
          effectivePage = (if totalPages = 0 then 1 else min page totalPages);
          startIndex = (effectivePage - 1) * pageSize
      in ret \<lparr>slr_items = take (nat pageSize) (drop (nat startIndex) sorted), slr_totalItems = totalItems,
          slr_page = effectivePage, slr_pageSize = pageSize, slr_totalPages = totalPages,
          slr_hasNextPage = (0 < totalPages \<and> effectivePage < totalPages),
          slr_hasPreviousPage = (0 < totalPages \<and> 1 < effectivePage)\<rparr>)))"

definition revokeSession :: "id \<Rightarrow> string \<Rightarrow> unit acc" where
  "revokeSession userId sid =
     bindM (readM (\<lambda>s. sid \<in> set (sMembers userId s))) (\<lambda>isMember.
     if \<not> isMember then
       bindM (cleanupSessionArtifacts sid (Some userId)) (\<lambda>_. throw (NotFound ''Session not found.''))
     else
       bindM (del_session sid) (\<lambda>deleted.
       bindM (cleanupSessionArtifacts sid (Some userId)) (\<lambda>_.
       throw_if (deleted = 0) (NotFound ''Session not found.''))))"

definition revokeAllSessions :: "id \<Rightarrow> string option \<Rightarrow> unit acc" where
  "revokeAllSessions userId keepSessionId =
     bindM (readM (sMembers userId)) (\<lambda>sessionIds.
     let targets = (case keepSessionId of None \<Rightarrow> sessionIds | Some k \<Rightarrow> filter (\<lambda>x. x \<noteq> k) sessionIds) in
     bindM (forM targets del_session) (\<lambda>_.
     bindM (forM targets (\<lambda>sid. cleanupSessionArtifacts sid (Some userId))) (\<lambda>_. ret ())))"

section \<open>Establishing, checking and destroying\<close>

text \<open>
  express-session and Passport: \<^verbatim>\<open>regenerate\<close> destroys the session of the request and gives it a fresh one;
  \<^verbatim>\<open>logIn\<close> regenerates, too, then writes the user's snapshot (\<^verbatim>\<open>session.serializer.ts\<close>) and saves.
\<close>

definition regenerate :: "auth_env \<Rightarrow> web_request \<Rightarrow> web_request acc" where
  "regenerate A rq =
     bindM (case rq_sessionId rq of None \<Rightarrow> ret 0 | Some sid \<Rightarrow> del_session sid) (\<lambda>_.
     bindM (draw_next (a_sid A)) (\<lambda>sid.
     ret (rq\<lparr>rq_sessionId := Some sid, rq_hasSession := True, rq_metadata := None, rq_passport := None\<rparr>)))"

definition serializeUser :: "session_user \<Rightarrow> session_snapshot" where
  "serializeUser su = su_snapshot su"

definition log_in :: "auth_env \<Rightarrow> web_request \<Rightarrow> session_user \<Rightarrow> web_request acc" where
  "log_in A rq su =
     bindM (regenerate A rq) (\<lambda>rq1.
     let rq2 = rq1\<lparr>rq_passport := Some (serializeUser su)\<rparr> in
     bindM (commitSession rq2) (\<lambda>_. ret rq2))"

definition getDeviceLabel :: "web_request \<Rightarrow> string option" where
  "getDeviceLabel rq = (if rq_deviceName rq \<noteq> None \<and> js_trim (the (rq_deviceName rq)) \<noteq> []
     then Some (take 100 (js_trim (the (rq_deviceName rq)))) else None)"

definition persistSession :: "auth_env \<Rightarrow> web_request \<Rightarrow> session_user \<Rightarrow> string option \<Rightarrow> web_request acc" where
  "persistSession A rq su deviceLabel =
     bindM (regenerate A rq) (\<lambda>rq1.
     bindM (log_in A rq1 su) (\<lambda>rq2.
     bindM (ensureSessionMetadata rq2 su (or_previous deviceLabel (getDeviceLabel rq2))) (\<lambda>_.
     ret rq2)))"

text \<open>\<^verbatim>\<open>authenticated.guard.ts\<close>: whoever has a live session with a snapshot of an existing user is let in,
  whether or not the snapshot says that the second factor is still due.\<close>

definition authenticatedGuard :: "web_request \<Rightarrow> (web_request \<times> session_user) acc" where
  "authenticatedGuard rq =
     bindM (readM (\<lambda>s. Option.bind (rq_sessionId rq) (\<lambda>sid. web_session_of sid s))) (\<lambda>found.
     bindM (require found (Unauthorized ''Unauthorized'')) (\<lambda>w.
     bindM (require (ws_snapshot w) (Unauthorized ''User session not found.'')) (\<lambda>snap.
     bindM (deserializeUser (snap_id snap) (Some snap)) (\<lambda>hydrated.
     bindM (require hydrated (Unauthorized ''User session not found.'')) (\<lambda>su.
     bindM (touchSessionCache rq (Some (su_id su))) (\<lambda>_.
     ret (rq\<lparr>rq_hasSession := True, rq_metadata := ws_metadata w, rq_passport := Some snap\<rparr>, su)))))))"

text \<open>\<^verbatim>\<open>onboarding.guard.ts\<close>, for routes that do not skip it.\<close>

definition onboardingGuard :: "session_user option \<Rightarrow> unit acc" where
  "onboardingGuard su = throw_if (su \<noteq> None \<and> su_onboardingStatus (the su) \<noteq> OnbCompleted)
     (Forbidden ''Please complete your onboarding before accessing this resource.'')"

definition destroyCurrentSession :: "auth_env \<Rightarrow> web_request \<Rightarrow> session_user \<Rightarrow> unit acc" where
  "destroyCurrentSession A rq su =
     bindM (regenerate A rq) (\<lambda>rq1.
     bindM (case rq_sessionId rq1 of None \<Rightarrow> ret 0 | Some sid \<Rightarrow> del_session sid) (\<lambda>_.
     case extractSessionId rq of None \<Rightarrow> ret () | Some sid \<Rightarrow> removeSessionArtifacts sid (Some (su_id su))))"

end
