(* ===== verification/Auth.thy ===== *)
theory Auth
  imports WebSession
begin

text \<open>
  \<^verbatim>\<open>src/src/modules/auth/auth.service.ts\<close>: registration, login with lockout, verification tokens, password
  reset, and the second factor; and from \<^verbatim>\<open>auth.controller.ts\<close> the handlers that add something to the
  service. Failing mail servers are not modelled: a mail is queued and the handler goes on.
\<close>

section \<open>Constants of \<^verbatim>\<open>auth.constants.ts\<close>\<close>

definition MAX_FAILED_ATTEMPTS :: int where "MAX_FAILED_ATTEMPTS = 5"
definition LOCKOUT_DURATION_MINUTES :: int where "LOCKOUT_DURATION_MINUTES = 15"
definition EMAIL_VERIFICATION_TOKEN_TTL_MINUTES :: int where "EMAIL_VERIFICATION_TOKEN_TTL_MINUTES = 60 * 24"
definition PASSWORD_RESET_TOKEN_TTL_MINUTES :: int where "PASSWORD_RESET_TOKEN_TTL_MINUTES = 60"

section \<open>Results\<close>

record auth_response =
  ar_id :: id
  ar_email :: string
  ar_firstName :: string
  ar_lastName :: string
  ar_phoneNumber :: "string option"
  ar_createdAt :: instant
  ar_emailVerified :: "instant option"
  ar_onboardingStatus :: OnboardingStatus
  ar_onboardingCompletedAt :: "instant option"
  ar_needsOnboarding :: bool
  ar_lastLoginAt :: "instant option"
  ar_twoFactorEnabled :: bool
  ar_twoFactorType :: "TwoFactorType option"
  ar_requiresTwoFactor :: bool
  ar_twoFactorVerified :: bool
  ar_profileComplete :: bool
  ar_tenantCreation :: bool
  ar_tenantSetting :: bool

definition buildAuthResponse :: "user \<Rightarrow> onboarding_state option \<Rightarrow> session_snapshot \<Rightarrow> auth_response" where
  "buildAuthResponse u st snap =
     (let (profile, tenant, settings) = onboarding_flags st in
      \<lparr>ar_id = usr_id u, ar_email = usr_email u, ar_firstName = usr_firstName u, ar_lastName = usr_lastName u,
       ar_phoneNumber = usr_phoneNumber u, ar_createdAt = usr_createdAt u, ar_emailVerified = usr_emailVerified u,
       ar_onboardingStatus = usr_onboardingStatus u, ar_onboardingCompletedAt = usr_onboardingCompletedAt u,
       ar_needsOnboarding = (usr_onboardingStatus u \<noteq> OnbCompleted), ar_lastLoginAt = usr_lastLoginAt u,
       ar_twoFactorEnabled = usr_twoFactorEnabled u, ar_twoFactorType = usr_twoFactorType u,
       ar_requiresTwoFactor = snap_requiresTwoFactor snap, ar_twoFactorVerified = snap_twoFactorVerified snap,
       ar_profileComplete = profile, ar_tenantCreation = tenant, ar_tenantSetting = settings\<rparr>)"

type_synonym auth_result = "session_user \<times> auth_response"

definition buildAuthResult :: "loaded_user \<Rightarrow> (bool \<times> bool) option \<Rightarrow> auth_result" where
  "buildAuthResult lu overrides =
     (let su = buildSessionUser (lu_user lu) (lu_onboarding lu) overrides
      in (su, buildAuthResponse (lu_user lu) (lu_onboarding lu) (su_snapshot su)))"

section \<open>Tokens sent by mail\<close>

definition normalize_email :: "string \<Rightarrow> string" where
  "normalize_email email = map to_lower (js_trim email)"

text \<open>Earlier tokens of the same kind are used up, then the new one is stored; \<^verbatim>\<open>token\<close> is unique.\<close>

definition createVerificationToken :: "auth_env \<Rightarrow> id \<Rightarrow> VerificationTokenType \<Rightarrow> int \<Rightarrow> string acc" where
  "createVerificationToken A userId type ttlMinutes =
     bindM (draw_next (a_hex32 A)) (\<lambda>tok.
     bindM time (\<lambda>t.
     transaction (
       bindM (writeM (\<lambda>s. s\<lparr>verificationTokens :=
         update_where (\<lambda>x. vt_userId x = userId \<and> vt_type x = type \<and> \<not> vt_used x)
           (\<lambda>x. x\<lparr>vt_used := True, vt_usedAt := Some t\<rparr>) (verificationTokens s)\<rparr>)) (\<lambda>_.
       bindM (draw_next (a_uuid A)) (\<lambda>i.
       bindM (readM (\<lambda>s. list_ex (\<lambda>x. vt_token x = tok \<or> vt_id x = i) (verificationTokens s))) (\<lambda>taken.
       bindM (throw_if taken DuplicateKey) (\<lambda>_.
       bindM (writeM (\<lambda>s. s\<lparr>verificationTokens := verificationTokens s @
         [\<lparr>vt_id = i, vt_userId = userId, vt_token = tok, vt_type = type,
           vt_expiresAt = t + minutes ttlMinutes, vt_used = False, vt_usedAt = None\<rparr>]\<rparr>)) (\<lambda>_.
       ret tok))))))))"

definition find_token :: "string \<Rightarrow> org \<Rightarrow> verification_token option" where
  "find_token tok s = List.find (\<lambda>x. vt_token x = tok) (verificationTokens s)"

definition use_token :: "id \<Rightarrow> instant \<Rightarrow> unit acc" where
  "use_token i t = update_token (\<lambda>x. vt_id x = i) (\<lambda>x. x\<lparr>vt_used := True, vt_usedAt := Some t\<rparr>)"

text \<open>The check at the start of \<^verbatim>\<open>verifyEmail\<close> and \<^verbatim>\<open>resetPassword\<close>.\<close>

definition accept_token :: "string \<Rightarrow> VerificationTokenType \<Rightarrow> string \<Rightarrow> verification_token acc" where
  "accept_token tok type msg =
     bindM (readM (find_token tok)) (\<lambda>found.
     bindM (require found (BadRequest msg)) (\<lambda>x.
     bindM time (\<lambda>t.
     bindM (throw_if (vt_type x \<noteq> type \<or> vt_used x \<or> vt_expiresAt x < t) (BadRequest msg)) (\<lambda>_.
     ret x))))"

definition verifyEmail :: "string \<Rightarrow> unit acc" where
  "verifyEmail tok =
     bindM (accept_token tok EMAIL_VERIFICATION ''Invalid or expired verification token.'') (\<lambda>x.
     bindM time (\<lambda>t.
     transaction (
       bindM (update_user (\<lambda>u. usr_id u = vt_userId x) (\<lambda>u. u\<lparr>usr_emailVerified := Some t\<rparr>)) (\<lambda>_.
       use_token (vt_id x) t))))"

definition resendEmailVerification :: "auth_env \<Rightarrow> string \<Rightarrow> unit acc" where
  "resendEmailVerification A email =
     bindM (findByEmail (normalize_email email)) (\<lambda>found.
     case found of None \<Rightarrow> ret ()
     | Some lu \<Rightarrow> let u = lu_user lu in
         if usr_emailVerified u \<noteq> None then ret ()
         else bindM (createVerificationToken A (usr_id u) EMAIL_VERIFICATION EMAIL_VERIFICATION_TOKEN_TTL_MINUTES) (\<lambda>tok.
           send_mail (VerificationMail (usr_email u) (full_name u) tok)))"

definition requestPasswordReset :: "auth_env \<Rightarrow> string \<Rightarrow> unit acc" where
  "requestPasswordReset A email =
     bindM (findByEmail (normalize_email email)) (\<lambda>found.
     case found of None \<Rightarrow> ret ()
     | Some lu \<Rightarrow> let u = lu_user lu in
         if \<not> usr_isActive u then ret ()
         else bindM (createVerificationToken A (usr_id u) PASSWORD_RESET PASSWORD_RESET_TOKEN_TTL_MINUTES) (\<lambda>tok.
           send_mail (PasswordResetMail (usr_email u) (full_name u) tok)))"

definition reset_tx :: "id \<Rightarrow> id \<Rightarrow> string \<Rightarrow> instant \<Rightarrow> unit acc" where
  "reset_tx userId tokenId passwordHash t =
     bindM (update_user (\<lambda>u. usr_id u = userId) (\<lambda>u. u\<lparr>usr_password := passwordHash,
       usr_passwordChangedAt := Some t, usr_sessionVersion := usr_sessionVersion u + 1\<rparr>)) (\<lambda>_.
     bindM (createPasswordHistory userId passwordHash) (\<lambda>_.
     use_token tokenId t))"

definition resetPassword :: "auth_env \<Rightarrow> string \<Rightarrow> string \<Rightarrow> unit acc" where
  "resetPassword A tok newPassword =
     bindM (accept_token tok PASSWORD_RESET ''Invalid or expired password reset token.'') (\<lambda>x.
     bindM (findById (vt_userId x)) (\<lambda>found.
     bindM (require found (BadRequest ''Invalid or expired password reset token.'')) (\<lambda>lu.
     bindM (argon_hash A newPassword) (\<lambda>passwordHash.
     bindM time (\<lambda>t.
     bindM (transaction (reset_tx (usr_id (lu_user lu)) (vt_id x) passwordHash t)) (\<lambda>_.
     revokeAllSessions (usr_id (lu_user lu)) None))))))"

section \<open>Registration\<close>

record register_dto =
  rgd_firstName :: string
  rgd_lastName :: string
  rgd_email :: string
  rgd_password :: string
  rgd_phoneNumber :: "string option"

definition new_user :: "register_dto \<Rightarrow> string \<Rightarrow> instant \<Rightarrow> id \<Rightarrow> instant \<Rightarrow> user" where
  "new_user dto passwordHash changedAt i t =
     \<lparr>usr_id = i, usr_createdAt = t, usr_firstName = js_trim (rgd_firstName dto),
      usr_lastName = js_trim (rgd_lastName dto), usr_profilePhoto = None,
      usr_email = normalize_email (rgd_email dto),
      usr_phoneNumber = (if rgd_phoneNumber dto \<noteq> None \<and> js_trim (the (rgd_phoneNumber dto)) \<noteq> []
        then Some (js_trim (the (rgd_phoneNumber dto))) else None),
      usr_password = passwordHash, usr_emailVerified = None, usr_isActive = True,
      usr_onboardingStatus = OnbPending, usr_onboardingCompletedAt = None, usr_lastLoginAt = None,
      usr_lastLoginIp = None, usr_lastActiveAt = None, usr_passwordChangedAt = Some changedAt,
      usr_failedLoginAttempts = 0, usr_lockedUntil = None, usr_sessionVersion = 0,
      usr_twoFactorEnabled = False, usr_twoFactorType = None, usr_twoFactorSecret = None,
      usr_twoFactorTempSecret = None, usr_twoFactorEnforced = False, usr_twoFactorEnforcedAt = None,
      usr_twoFactorVerifiedAt = None, usr_backupCodesVersion = 0\<rparr>"

text \<open>The verification token is made, but the mail that goes out is the welcome mail without it.\<close>

definition register :: "auth_env \<Rightarrow> register_dto \<Rightarrow> auth_result acc" where
  "register A dto =
     bindM (findByEmail (normalize_email (rgd_email dto))) (\<lambda>existingUser.
     bindM (throw_if (existingUser \<noteq> None)
       (Conflict ''An account already exists with the provided email address.'')) (\<lambda>_.
     bindM (argon_hash A (rgd_password dto)) (\<lambda>passwordHash.
     bindM time (\<lambda>changedAt.
     bindM (create_user A (new_user dto passwordHash changedAt)) (\<lambda>lu.
     bindM (createVerificationToken A (usr_id (lu_user lu)) EMAIL_VERIFICATION
       EMAIL_VERIFICATION_TOKEN_TTL_MINUTES) (\<lambda>_.
     bindM (send_mail (WelcomeMail (usr_email (lu_user lu)) (full_name (lu_user lu)))) (\<lambda>_.
     ret (buildAuthResult lu None))))))))"

section \<open>Login\<close>

definition handleFailedLogin :: "id \<Rightarrow> int \<Rightarrow> unit acc" where
  "handleFailedLogin userId currentFailedAttempts =
     bindM time (\<lambda>t.
     update_user (\<lambda>u. usr_id u = userId) (\<lambda>u. u\<lparr>
       usr_failedLoginAttempts := usr_failedLoginAttempts u + 1,
       usr_lockedUntil := (if MAX_FAILED_ATTEMPTS \<le> currentFailedAttempts + 1
         then Some (t + minutes LOCKOUT_DURATION_MINUTES) else usr_lockedUntil u)\<rparr>))"

definition is_locked :: "user \<Rightarrow> instant \<Rightarrow> bool" where
  "is_locked u t \<longleftrightarrow> (case usr_lockedUntil u of None \<Rightarrow> False | Some l \<Rightarrow> t < l)"

definition logged_in :: "instant \<Rightarrow> string option \<Rightarrow> user \<Rightarrow> user" where
  "logged_in t ip u = u\<lparr>usr_lastLoginAt := Some t,
     usr_lastLoginIp := (case ip of None \<Rightarrow> usr_lastLoginIp u | Some x \<Rightarrow> Some x), usr_lastActiveAt := Some t,
     usr_failedLoginAttempts := 0, usr_lockedUntil := None\<rparr>"

definition wrong_credentials :: acc_exn where
  "wrong_credentials = Unauthorized ''Invalid credentials provided.''"

definition validateUser :: "auth_env \<Rightarrow> string \<Rightarrow> string \<Rightarrow> web_request \<Rightarrow> session_user acc" where
  "validateUser A email password rq =
     bindM (findByEmail (normalize_email email)) (\<lambda>found.
     bindM (require found wrong_credentials) (\<lambda>lu.
     let u = lu_user lu in
     bindM (throw_if (\<not> usr_isActive u) (Forbidden ''Account has been deactivated.'')) (\<lambda>_.
     bindM time (\<lambda>t.
     bindM (throw_if (is_locked u t)
       (Forbidden ''Account is temporarily locked due to multiple failed login attempts.'')) (\<lambda>_.
     if \<not> a_verify A (usr_password u) password then
       bindM (handleFailedLogin (usr_id u) (usr_failedLoginAttempts u)) (\<lambda>_. throw wrong_credentials)
     else
       bindM (update_user (\<lambda>y. usr_id y = usr_id u) (logged_in t (rq_ip rq))) (\<lambda>_.
       let lu1 = lu\<lparr>lu_user := logged_in t (rq_ip rq) u\<rparr> in
       bindM (shouldRequireTwoFactor A lu1 rq) (\<lambda>p.
       bindM (if fst p then ret () else
         case snd p of None \<Rightarrow> ret () | Some d \<Rightarrow> updateTrustedDeviceUsage d rq) (\<lambda>_.
       ret (fst (buildAuthResult lu1 (Some (fst p, \<not> fst p))))))))))))"

definition completeUserPreference :: "id \<Rightarrow> preference_dto \<Rightarrow> auth_response acc" where
  "completeUserPreference userId dto =
     bindM (transaction (
       bindM (update_user (\<lambda>u. usr_id u = userId) (\<lambda>u. u)) (\<lambda>_.
       writeM (\<lambda>s. s\<lparr>
         onboardingStates := (if list_ex (\<lambda>x. onb_userId x = userId) (onboardingStates s)
           then update_where (\<lambda>x. onb_userId x = userId) (\<lambda>x. x\<lparr>onb_profileComplete := True\<rparr>) (onboardingStates s)
           else onboardingStates s @ [\<lparr>onb_userId = userId, onb_profileComplete = True, onb_tenantCreation = False,
             onb_tenantSetting = False\<rparr>]),
         userPreferences := (if list_ex (\<lambda>x. prf_userId x = userId) (userPreferences s)
           then update_where (\<lambda>x. prf_userId x = userId) (set_preferences dto) (userPreferences s)
           else userPreferences s @ [set_preferences dto (default_preferences userId)])\<rparr>)))) (\<lambda>_.
     bindM (findById userId) (\<lambda>found.
     bindM (require found RowMissing) (\<lambda>lu.
     ret (snd (buildAuthResult lu None)))))"

definition getAuthenticatedUser :: "id \<Rightarrow> session_snapshot option \<Rightarrow> auth_response acc" where
  "getAuthenticatedUser userId snapshot =
     bindM (findById userId) (\<lambda>found.
     bindM (require found (Unauthorized ''User not found.'')) (\<lambda>lu.
     ret (snd (buildAuthResult lu
       (map_option (\<lambda>x. (snap_requiresTwoFactor x, snap_twoFactorVerified x)) snapshot)))))"

definition getAuthenticatedUserFromSession :: "session_snapshot \<Rightarrow> auth_response acc" where
  "getAuthenticatedUserFromSession snap = getAuthenticatedUser (snap_id snap) (Some snap)"

section \<open>The second factor\<close>

definition loadUserOrThrow :: "id \<Rightarrow> loaded_user acc" where
  "loadUserOrThrow userId =
     bindM (findById userId) (\<lambda>found. require found (Unauthorized ''User not found.''))"

definition initiateTotpSetup :: "auth_env \<Rightarrow> id \<Rightarrow> (string \<times> string) acc" where
  "initiateTotpSetup A userId = bindM (loadUserOrThrow userId) (\<lambda>lu. totp_setup A (lu_user lu))"

record enable_two_factor_dto =
  etd_method :: TwoFactorType
  etd_code :: string
  etd_rememberDevice :: bool
  etd_deviceLabel :: "string option"

definition invalid_code :: acc_exn where
  "invalid_code = Unauthorized ''Invalid or expired verification code.''"

definition remember_if :: "auth_env \<Rightarrow> bool \<Rightarrow> id \<Rightarrow> web_request \<Rightarrow> string option \<Rightarrow> string option acc" where
  "remember_if A c userId rq label =
     (if c then bindM (rememberDevice A userId rq label) (\<lambda>x. ret (Some x)) else ret None)"

text \<open>The result is paired with the cookie that is set, if a device is to be remembered.\<close>

definition enableTwoFactor ::
  "auth_env \<Rightarrow> id \<Rightarrow> enable_two_factor_dto \<Rightarrow> web_request \<Rightarrow> (auth_result \<times> string option) acc" where
  "enableTwoFactor A userId dto rq =
     bindM (loadUserOrThrow userId) (\<lambda>lu.
     let u = lu_user lu in
     bindM (case etd_method dto of
         TfTotp \<Rightarrow> enableTotp A u (etd_code dto)
       | TfEmail \<Rightarrow>
           bindM (verifyOutOfBandChallenge A (usr_id u) ChEmail (etd_code dto)) (\<lambda>verified.
           bindM (throw_if (\<not> verified) invalid_code) (\<lambda>_.
           bindM time (\<lambda>t.
           update_user_by (usr_id u) (\<lambda>y. y\<lparr>usr_twoFactorEnabled := True, usr_twoFactorType := Some TfEmail,
             usr_twoFactorSecret := None, usr_twoFactorTempSecret := None, usr_twoFactorVerifiedAt := Some t\<rparr>))))
       | TfSms \<Rightarrow> throw (BadRequest ''Unsupported two-factor method: SMS'')) (\<lambda>updated.
     bindM (remember_if A (etd_rememberDevice dto) (usr_id (lu_user updated)) rq (etd_deviceLabel dto)) (\<lambda>cookie.
     ret (buildAuthResult updated (Some (False, True)), cookie))))"

record disable_two_factor_dto =
  dtd_channel :: TwoFactorChannel
  dtd_code :: "string option"
  dtd_backupCode :: "string option"
  dtd_reason :: "string option"
  dtd_adminOverride :: bool

definition verifyDisableRequest :: "auth_env \<Rightarrow> loaded_user \<Rightarrow> disable_two_factor_dto \<Rightarrow> bool acc" where
  "verifyDisableRequest A lu dto =
     (case dtd_channel dto of
        ViaTotp \<Rightarrow>
          bindM (throw_if (empty_string (dtd_code dto)) (BadRequest ''Verification code is required.'')) (\<lambda>_.
          verifyTotp A (lu_user lu) (the (dtd_code dto)))
      | ViaEmail \<Rightarrow>
          bindM (throw_if (empty_string (dtd_code dto)) (BadRequest ''Verification code is required.'')) (\<lambda>_.
          verifyOutOfBandChallenge A (usr_id (lu_user lu)) ChEmail (the (dtd_code dto)))
      | ViaBackupCode \<Rightarrow>
          bindM (throw_if (empty_string (dtd_backupCode dto)) (BadRequest ''Backup code is required.'')) (\<lambda>_.
          validateBackupCode A lu (the (dtd_backupCode dto)))
      | ViaOther ch \<Rightarrow> throw (BadRequest (''Unsupported channel for disabling two-factor: '' @ ch)))"

definition disableTwoFactor :: "auth_env \<Rightarrow> id \<Rightarrow> disable_two_factor_dto \<Rightarrow> auth_result acc" where
  "disableTwoFactor A userId dto =
     bindM (loadUserOrThrow userId) (\<lambda>lu.
     bindM (if dtd_adminOverride dto then ret () else
       bindM (verifyDisableRequest A lu dto) (\<lambda>verified. throw_if (\<not> verified) invalid_code)) (\<lambda>_.
     bindM (mfa_disableTwoFactor (usr_id (lu_user lu))) (\<lambda>_.
     bindM (loadUserOrThrow (usr_id (lu_user lu))) (\<lambda>updated.
     ret (buildAuthResult updated (Some (False, True)))))))"

record verify_two_factor_dto =
  vtd_channel :: TwoFactorChannel
  vtd_code :: string
  vtd_rememberDevice :: bool
  vtd_deviceLabel :: "string option"

definition verifyChallenge :: "auth_env \<Rightarrow> loaded_user \<Rightarrow> verify_two_factor_dto \<Rightarrow> bool acc" where
  "verifyChallenge A lu dto =
     (case vtd_channel dto of
        ViaTotp \<Rightarrow> verifyTotp A (lu_user lu) (vtd_code dto)
      | ViaEmail \<Rightarrow> verifyOutOfBandChallenge A (usr_id (lu_user lu)) ChEmail (vtd_code dto)
      | ViaBackupCode \<Rightarrow> validateBackupCode A lu (vtd_code dto)
      | ViaOther ch \<Rightarrow> throw (BadRequest (''Unsupported verification channel: '' @ ch)))"

definition verifyTwoFactor ::
  "auth_env \<Rightarrow> id \<Rightarrow> verify_two_factor_dto \<Rightarrow> web_request \<Rightarrow> (auth_result \<times> string option) acc" where
  "verifyTwoFactor A userId dto rq =
     bindM (loadUserOrThrow userId) (\<lambda>lu.
     bindM (verifyChallenge A lu dto) (\<lambda>verified.
     bindM (throw_if (\<not> verified) invalid_code) (\<lambda>_.
     bindM time (\<lambda>t.
     bindM (update_user (\<lambda>u. usr_id u = usr_id (lu_user lu))
       (\<lambda>u. u\<lparr>usr_lastActiveAt := Some t, usr_twoFactorVerifiedAt := Some t\<rparr>)) (\<lambda>_.
     bindM (loadUserOrThrow (usr_id (lu_user lu))) (\<lambda>refreshed.
     bindM (remember_if A (vtd_rememberDevice dto) (usr_id (lu_user refreshed)) rq (vtd_deviceLabel dto)) (\<lambda>cookie.
     ret (buildAuthResult refreshed (Some (False, True)), cookie))))))))"

text \<open>The request names the e-mail channel, the only one its validator accepts.\<close>

definition sendTwoFactorChallenge :: "auth_env \<Rightarrow> id \<Rightarrow> unit acc" where
  "sendTwoFactorChallenge A userId =
     bindM (loadUserOrThrow userId) (\<lambda>lu.
     bindM (assertChannelSupported ''EMAIL'') (\<lambda>_.
     createOutOfBandChallenge A (usr_id (lu_user lu)) ChEmail (usr_email (lu_user lu))))"

definition generateBackupCodes :: "auth_env \<Rightarrow> id \<Rightarrow> string list acc" where
  "generateBackupCodes A userId =
     bindM (loadUserOrThrow userId) (\<lambda>lu.
     bindM (throw_if (\<not> usr_twoFactorEnabled (lu_user lu))
       (BadRequest ''Enable two-factor authentication before generating backup codes.'')) (\<lambda>_.
     mfa_generateBackupCodes A (usr_id (lu_user lu))))"

definition set_enforced :: "bool \<Rightarrow> instant \<Rightarrow> user \<Rightarrow> user" where
  "set_enforced enforced t u = u\<lparr>usr_twoFactorEnforced := enforced,
     usr_twoFactorEnforcedAt := (if enforced then Some t else None)\<rparr>"

definition enforceTwoFactorForCurrentUser :: "id \<Rightarrow> bool \<Rightarrow> auth_result acc" where
  "enforceTwoFactorForCurrentUser userId enforced =
     bindM time (\<lambda>t.
     bindM (update_user_by userId (set_enforced enforced t)) (\<lambda>updated.
     ret (buildAuthResult updated (Some (if enforced
       then (\<not> usr_twoFactorEnabled (lu_user updated), usr_twoFactorEnabled (lu_user updated))
       else (False, True))))))"

definition adminEnforceTwoFactor :: "id \<Rightarrow> bool \<Rightarrow> auth_response acc" where
  "adminEnforceTwoFactor userId enforced =
     bindM time (\<lambda>t.
     bindM (update_user_by userId (set_enforced enforced t)) (\<lambda>updated.
     ret (snd (buildAuthResult updated None))))"

section \<open>Handlers of the controller\<close>

text \<open>\<^verbatim>\<open>login\<close>, behind the local strategy, which validates the credentials and logs the request in.\<close>

definition login :: "auth_env \<Rightarrow> string \<Rightarrow> string \<Rightarrow> web_request \<Rightarrow> (web_request \<times> auth_response) acc" where
  "login A email password rq =
     bindM (validateUser A email password rq) (\<lambda>su.
     bindM (log_in A rq su) (\<lambda>rq1.
     bindM (ensureSessionMetadata rq1 su (getDeviceLabel rq1)) (\<lambda>_.
     bindM (getAuthenticatedUserFromSession (su_snapshot su)) (\<lambda>r.
     ret (rq1, r)))))"

definition register_request :: "auth_env \<Rightarrow> register_dto \<Rightarrow> web_request \<Rightarrow> (web_request \<times> auth_response) acc" where
  "register_request A dto rq =
     bindM (register A dto) (\<lambda>p.
     bindM (persistSession A rq (fst p) (getDeviceLabel rq)) (\<lambda>rq1. ret (rq1, snd p)))"

definition logout :: "auth_env \<Rightarrow> web_request \<Rightarrow> unit acc" where
  "logout A rq = bindM (authenticatedGuard rq) (\<lambda>p. destroyCurrentSession A (fst p) (snd p))"

definition revoke_session_request :: "auth_env \<Rightarrow> web_request \<Rightarrow> string \<Rightarrow> unit acc" where
  "revoke_session_request A rq sid =
     bindM (authenticatedGuard rq) (\<lambda>p.
     if extractSessionId (fst p) = Some sid then destroyCurrentSession A (fst p) (snd p)
     else revokeSession (su_id (snd p)) sid)"

definition revoke_all_request :: "auth_env \<Rightarrow> web_request \<Rightarrow> bool \<Rightarrow> unit acc" where
  "revoke_all_request A rq keepCurrent =
     bindM (authenticatedGuard rq) (\<lambda>p.
     bindM (revokeAllSessions (su_id (snd p)) (if keepCurrent then extractSessionId (fst p) else None)) (\<lambda>_.
     if \<not> keepCurrent \<and> extractSessionId (fst p) \<noteq> None then destroyCurrentSession A (fst p) (snd p) else ret ()))"

definition enable_request :: "auth_env \<Rightarrow> web_request \<Rightarrow> enable_two_factor_dto \<Rightarrow> (web_request \<times> auth_response) acc" where
  "enable_request A rq dto =
     bindM (authenticatedGuard rq) (\<lambda>p.
     bindM (enableTwoFactor A (su_id (snd p)) dto (fst p)) (\<lambda>r.
     bindM (persistSession A (fst p) (fst (fst r)) (or_previous (etd_deviceLabel dto) (getDeviceLabel (fst p)))) (\<lambda>rq1.
     ret (rq1, snd (fst r)))))"

definition disable_request :: "auth_env \<Rightarrow> web_request \<Rightarrow> disable_two_factor_dto \<Rightarrow> (web_request \<times> auth_response) acc" where
  "disable_request A rq dto =
     bindM (authenticatedGuard rq) (\<lambda>p.
     bindM (disableTwoFactor A (su_id (snd p)) dto) (\<lambda>r.
     bindM (persistSession A (fst p) (fst r) (getDeviceLabel (fst p))) (\<lambda>rq1.
     ret (rq1, snd r))))"

definition verify_request :: "auth_env \<Rightarrow> web_request \<Rightarrow> verify_two_factor_dto \<Rightarrow> (web_request \<times> auth_response) acc" where
  "verify_request A rq dto =
     bindM (authenticatedGuard rq) (\<lambda>p.
     bindM (verifyTwoFactor A (su_id (snd p)) dto (fst p)) (\<lambda>r.
     bindM (persistSession A (fst p) (fst (fst r)) (or_previous (vtd_deviceLabel dto) (getDeviceLabel (fst p)))) (\<lambda>rq1.
     ret (rq1, snd (fst r)))))"

definition enforce_request :: "auth_env \<Rightarrow> web_request \<Rightarrow> bool \<Rightarrow> (web_request \<times> auth_response) acc" where
  "enforce_request A rq enforced =
     bindM (authenticatedGuard rq) (\<lambda>p.
     bindM (enforceTwoFactorForCurrentUser (su_id (snd p)) enforced) (\<lambda>r.
     bindM (persistSession A (fst p) (fst r) (getDeviceLabel (fst p))) (\<lambda>rq1.
     ret (rq1, snd r))))"

definition refresh_session :: "auth_env \<Rightarrow> web_request \<Rightarrow> session_user \<Rightarrow> unit acc" where
  "refresh_session A rq su =
     bindM (deserializeUser (su_id su) (Some (su_snapshot su))) (\<lambda>refreshed.
     case refreshed of None \<Rightarrow> ret ()
     | Some x \<Rightarrow> bindM (persistSession A rq x (getDeviceLabel rq)) (\<lambda>_. ret ()))"

definition admin_enforce_request :: "auth_env \<Rightarrow> web_request \<Rightarrow> id \<Rightarrow> bool \<Rightarrow> auth_response acc" where
  "admin_enforce_request A rq userId enforced =
     bindM (authenticatedGuard rq) (\<lambda>p.
     bindM (adminEnforceTwoFactor userId enforced) (\<lambda>r.
     bindM (if su_id (snd p) = userId then refresh_session A (fst p) (snd p) else ret ()) (\<lambda>_. ret r)))"

definition me_request :: "web_request \<Rightarrow> auth_response acc" where
  "me_request rq = bindM (authenticatedGuard rq) (\<lambda>p. getAuthenticatedUserFromSession (su_snapshot (snd p)))"

definition list_request :: "auth_env \<Rightarrow> web_request \<Rightarrow> int option \<Rightarrow> int option \<Rightarrow> session_list_result acc" where
  "list_request A rq page pageSize =
     bindM (authenticatedGuard rq) (\<lambda>p.
     listActiveSessions A (su_id (snd p)) (extractSessionId (fst p)) page pageSize)"

definition totp_request :: "auth_env \<Rightarrow> web_request \<Rightarrow> (string \<times> string) acc" where
  "totp_request A rq = bindM (authenticatedGuard rq) (\<lambda>p. initiateTotpSetup A (su_id (snd p)))"

definition challenge_request :: "auth_env \<Rightarrow> web_request \<Rightarrow> unit acc" where
  "challenge_request A rq = bindM (authenticatedGuard rq) (\<lambda>p. sendTwoFactorChallenge A (su_id (snd p)))"

definition backup_codes_request :: "auth_env \<Rightarrow> web_request \<Rightarrow> string list acc" where
  "backup_codes_request A rq = bindM (authenticatedGuard rq) (\<lambda>p. generateBackupCodes A (su_id (snd p)))"

definition preference_request :: "auth_env \<Rightarrow> web_request \<Rightarrow> preference_dto \<Rightarrow> auth_response acc" where
  "preference_request A rq dto =
     bindM (authenticatedGuard rq) (\<lambda>p.
     bindM (completeUserPreference (su_id (snd p)) dto) (\<lambda>r.
     bindM (refresh_session A (fst p) (snd p)) (\<lambda>_. ret r)))"

end
