(* ===== verification/AuthSafety.thy ===== *)
theory AuthSafety
  imports Auth Frames
begin

text \<open>
  What the requests of the auth module guarantee over any sequence of them: how fast passwords can be
  guessed, that a mailed link works once, and what holds of tokens, codes and accounts throughout.
\<close>

section \<open>What a request looks at\<close>

text \<open>Of an account the lockout looks at this much.\<close>

definition login_key :: "user \<Rightarrow> id \<times> string \<times> int \<times> instant option" where
  "login_key u = (usr_id u, usr_email u, usr_failedLoginAttempts u, usr_lockedUntil u)"

definition logins :: "org \<Rightarrow> (id \<times> string \<times> int \<times> instant option) list \<times> instant" where
  "logins s = (map login_key (users s), clock s)"

text \<open>
  A view of the state that session store, mails, devices, backup codes and profile have no part in. Every
  request that only touches those keeps the view, so the frame conditions are proved once for all views.
\<close>

locale session_view =
  fixes f :: "org \<Rightarrow> 'v"
  assumes draws: "f (s\<lparr>nextId := n\<rparr>) = f s"
    and sessions: "f (s\<lparr>webSessions := ws\<rparr>) = f s" "f (s\<lparr>cachedMetadata := cm\<rparr>) = f s"
      "f (s\<lparr>sessionIndexes := ix\<rparr>) = f s"
begin

lemma keeps_draw: "keeps f (draw_next g)"
  by (simp add: keeps_def draws)

lemma keeps_time: "keeps f time"
  by (simp add: keeps_def)

lemma keeps_case: "keeps f m \<Longrightarrow> (\<And>a. keeps f (k a)) \<Longrightarrow> keeps f (case x of None \<Rightarrow> m | Some a \<Rightarrow> k a)"
  by (cases x) auto

lemma keeps_find: "keeps f (findById i)" "keeps f (findByEmail e)" "keeps f (deserializeUser i snap)"
  by (simp_all add: findById_def findByEmail_def deserializeUser_def keeps_basic)

lemmas view_intros = svc_intros keeps_draw keeps_time keeps_case keeps_find

lemma keeps_del: "keeps f (del_session sid)"
  unfolding del_session_def by (intro view_intros) (simp add: sessions)

lemma keeps_cleanup: "keeps f (cleanupSessionArtifacts sid u)"
proof -
  have "f (s\<lparr>cachedMetadata := a, sessionIndexes := b\<rparr>) = f s" for s a b
    using sessions(3) [where s = "s\<lparr>cachedMetadata := a\<rparr>"] sessions(2) by simp
  then show ?thesis unfolding cleanupSessionArtifacts_def by (intro view_intros) simp
qed

lemma keeps_refresh: "keeps f (refreshSessionCacheTtl sid u ttl)"
proof -
  have "f (s\<lparr>cachedMetadata := a, sessionIndexes := b\<rparr>) = f s" for s a b
    using sessions(3) [where s = "s\<lparr>cachedMetadata := a\<rparr>"] sessions(2) by simp
  then show ?thesis unfolding refreshSessionCacheTtl_def Let_def by (intro view_intros) simp
qed

lemma keeps_cache: "keeps f (registerSessionInCache su sid m ttl)"
  unfolding registerSessionInCache_def hset_expire_def sadd_expire_def Let_def
  by (intro view_intros) (simp_all add: sessions)

lemma keeps_commit: "keeps f (commitSession rq)"
  unfolding commitSession_def by (intro view_intros) (simp add: sessions)

lemmas cache_intros = view_intros keeps_del keeps_cleanup keeps_refresh keeps_cache keeps_commit

lemma keeps_metadata: "keeps f (ensureSessionMetadata rq su l)"
  unfolding ensureSessionMetadata_def updateSessionMetadata_def Let_def by (intro cache_intros)

lemma keeps_touch: "keeps f (touchSessionCache rq u)"
  unfolding touchSessionCache_def by (intro cache_intros)

lemma keeps_regenerate: "keeps f (regenerate A rq)"
  unfolding regenerate_def by (intro cache_intros)

lemma keeps_log_in: "keeps f (log_in A rq su)"
  unfolding log_in_def Let_def by (intro cache_intros keeps_regenerate)

lemma keeps_persist: "keeps f (persistSession A rq su l)"
  unfolding persistSession_def by (intro view_intros keeps_regenerate keeps_log_in keeps_metadata)

lemma keeps_guard: "keeps f (authenticatedGuard rq)"
  unfolding authenticatedGuard_def by (intro view_intros keeps_touch)

lemma keeps_destroy: "keeps f (destroyCurrentSession A rq su)"
  unfolding destroyCurrentSession_def removeSessionArtifacts_def by (intro cache_intros keeps_regenerate)

lemma keeps_revoke: "keeps f (revokeSession u sid)" "keeps f (revokeAllSessions u keep)"
  unfolding revokeSession_def revokeAllSessions_def Let_def by (intro cache_intros)+

lemma keeps_list: "keeps f (listActiveSessions A u cur p n)"
  unfolding listActiveSessions_def Let_def by (intro cache_intros)

lemma keeps_refresh_session: "keeps f (refresh_session A rq su)"
  unfolding refresh_session_def by (intro cache_intros keeps_persist)

lemma keeps_load: "keeps f (loadUserOrThrow i)" "keeps f (getAuthenticatedUser i snap)"
  "keeps f (getAuthenticatedUserFromSession snap1)"
  unfolding loadUserOrThrow_def getAuthenticatedUser_def getAuthenticatedUserFromSession_def
  by (intro view_intros)+

lemmas session_intros = cache_intros keeps_metadata keeps_touch keeps_regenerate keeps_log_in keeps_persist
  keeps_guard keeps_destroy keeps_revoke keeps_list keeps_refresh_session keeps_load

end

text \<open>A view that, of the accounts, sees the login keys at most.\<close>

locale account_view = session_view +
  assumes accounts: "map login_key us = map login_key (users s) \<Longrightarrow> f (s\<lparr>users := us\<rparr>) = f s"
    and profile: "f (s\<lparr>onboardingStates := os\<rparr>) = f s" "f (s\<lparr>userPreferences := ps\<rparr>) = f s"
      "f (s\<lparr>passwordHistories := hs\<rparr>) = f s" "f (s\<lparr>outbox := ms\<rparr>) = f s"
    and factors: "f (s\<lparr>backupCodes := cs\<rparr>) = f s" "f (s\<lparr>trustedDevices := ds\<rparr>) = f s"
begin

lemma keeps_update_user: "(\<And>u. login_key (g u) = login_key u) \<Longrightarrow> keeps f (update_user P g)"
  by (auto simp: keeps_def update_row_def map_update_where intro!: accounts split: if_splits)

lemma keeps_update_user_by: "(\<And>u. login_key (g u) = login_key u) \<Longrightarrow> keeps f (update_user_by i g)"
  unfolding update_user_by_def by (intro keeps_update_user session_intros)

lemma keeps_mail: "keeps f (send_mail m)"
  unfolding send_mail_def by (intro svc_intros) (simp add: profile)

lemma keeps_history: "keeps f (createPasswordHistory i p)"
  unfolding createPasswordHistory_def by (intro view_intros) (simp add: profile)

lemma keeps_remember: "keeps f (rememberDevice A u rq l)" "keeps f (remember_if A c u rq l)"
  unfolding remember_if_def rememberDevice_def createTrustedDevice_def
  by (intro view_intros, simp add: factors)+

lemma keeps_device_usage: "keeps f (updateTrustedDeviceUsage d rq)"
  unfolding updateTrustedDeviceUsage_def updateTrustedDevice_def by (intro view_intros) (simp add: factors)

lemma keeps_backup: "keeps f (validateBackupCode A lu c)"
  unfolding validateBackupCode_def markBackupCodeUsed_def Let_def by (intro view_intros) (simp add: factors)

lemma keeps_totp_check: "keeps f (verifyTotp A u c)"
  unfolding verifyTotp_def by (intro view_intros)

lemma keeps_totp: "keeps f (initiateTotpSetup A i)" "keeps f (enableTotp A u c)"
  unfolding initiateTotpSetup_def totp_setup_def enableTotp_def Let_def
  by (intro keeps_update_user session_intros, simp add: login_key_def)+

lemma keeps_generate: "keeps f (generateBackupCodes A i)"
  unfolding generateBackupCodes_def mfa_generateBackupCodes_def replaceBackupCodes_def generateBackupCode_def
    argon_hash_def
  by (intro keeps_update_user session_intros) (simp_all add: factors login_key_def)

lemma keeps_enforce: "keeps f (enforceTwoFactorForCurrentUser i b)" "keeps f (adminEnforceTwoFactor i b)"
  unfolding enforceTwoFactorForCurrentUser_def adminEnforceTwoFactor_def
  by (intro keeps_update_user_by view_intros, simp add: set_enforced_def login_key_def)+

lemma keeps_preferences: "keeps f (completeUserPreference i dto)"
proof -
  have "f (s\<lparr>onboardingStates := a, userPreferences := b\<rparr>) = f s" for s a b
    using profile(2) [where s = "s\<lparr>onboardingStates := a\<rparr>"] profile(1) by simp
  then show ?thesis unfolding completeUserPreference_def
    by (intro keeps_update_user view_intros) simp_all
qed

lemmas account_intros = session_intros keeps_mail keeps_history keeps_remember keeps_device_usage keeps_backup
  keeps_totp_check keeps_totp keeps_generate keeps_enforce keeps_preferences

lemma keeps_quiet_requests:
  "keeps f (logout A rq)" "keeps f (revoke_session_request A rq sid)" "keeps f (revoke_all_request A rq b)"
  "keeps f (enforce_request A rq b)" "keeps f (admin_enforce_request A rq i b)"
  "keeps f (preference_request A rq pd)" "keeps f (me_request rq)" "keeps f (list_request A rq p n)"
  "keeps f (totp_request A rq)" "keeps f (backup_codes_request A rq)"
  unfolding logout_def revoke_session_request_def revoke_all_request_def enforce_request_def
    admin_enforce_request_def preference_request_def me_request_def list_request_def totp_request_def
    backup_codes_request_def
  by (intro account_intros)+

end

text \<open>A view without the one-time codes, and one without the mailed tokens.\<close>

locale codeless_view = account_view +
  assumes codes: "f (s\<lparr>challenges := cs\<rparr>) = f s"
begin

lemma keeps_oob: "keeps f (createOutOfBandChallenge A u ch e)" "keeps f (verifyOutOfBandChallenge A u ch c)"
  unfolding createOutOfBandChallenge_def verifyOutOfBandChallenge_def createChallenge_def consumeChallenge_def
    incrementChallengeAttempt_def findActiveChallengeByChannel_def generateNumericCode_def argon_hash_def
  by (intro view_intros; simp add: codes)+

lemma keeps_mfa_disable: "keeps f (mfa_disableTwoFactor u)"
proof -
  have "f (s\<lparr>backupCodes := a, trustedDevices := b, challenges := c\<rparr>) = f s" for s a b c
    using codes [where s = "s\<lparr>backupCodes := a, trustedDevices := b\<rparr>"] factors(2) [where s = "s\<lparr>backupCodes := a\<rparr>"] factors(1)
    by simp
  then show ?thesis unfolding mfa_disableTwoFactor_def
    by (intro keeps_update_user view_intros) (simp_all add: without_two_factor_def login_key_def)
qed

lemma keeps_code_requests:
  "keeps f (disable_request A rq dd)" "keeps f (verify_request A rq vd)" "keeps f (enable_request A rq ed)"
  "keeps f (challenge_request A rq)"
proof -
  have verify: "keeps f (verifyDisableRequest A lu dd)" "keeps f (verifyChallenge A lu vd)" for lu dd vd
    unfolding verifyDisableRequest_def verifyChallenge_def
    by (cases "dtd_channel dd"; cases "vtd_channel vd"; simp; intro account_intros keeps_oob)+
  show "keeps f (disable_request A rq dd)"
    unfolding disable_request_def disableTwoFactor_def by (intro account_intros verify keeps_mfa_disable)
  show "keeps f (verify_request A rq vd)"
    unfolding verify_request_def verifyTwoFactor_def
    by (intro keeps_update_user account_intros verify) (simp add: login_key_def)
  have by_method: "keeps f (case m of TfTotp \<Rightarrow> a | TfSms \<Rightarrow> b | TfEmail \<Rightarrow> c)" if "keeps f a" "keeps f b" "keeps f c"
    for m and a b c :: "'c acc" using that by (cases m) auto
  show "keeps f (enable_request A rq ed)"
    unfolding enable_request_def enableTwoFactor_def Let_def
    by (intro keeps_update_user_by by_method account_intros keeps_oob) (simp_all add: login_key_def)
  show "keeps f (challenge_request A rq)"
    unfolding challenge_request_def sendTwoFactorChallenge_def assertChannelSupported_def
    by (intro account_intros keeps_oob)
qed

end

locale tokenless_view = account_view +
  assumes tokens: "f (s\<lparr>verificationTokens := ts\<rparr>) = f s"
begin

lemma keeps_token: "keeps f (createVerificationToken A u type ttl)" "keeps f (use_token i t)"
  "keeps f (accept_token tok type msg)"
  unfolding createVerificationToken_def use_token_def accept_token_def
  by (intro view_intros; simp add: tokens)+

lemma keeps_token_requests:
  "keeps f (verifyEmail tok)" "keeps f (resendEmailVerification A e)" "keeps f (requestPasswordReset A e)"
  "keeps f (resetPassword A tok p)"
  unfolding verifyEmail_def resendEmailVerification_def requestPasswordReset_def resetPassword_def reset_tx_def
    argon_hash_def Let_def
  by (intro keeps_update_user account_intros keeps_token; simp add: login_key_def)+

end

interpretation login_view: tokenless_view logins
  by unfold_locales (simp_all add: logins_def)

interpretation login_view: codeless_view logins
  by unfold_locales (simp_all add: logins_def)

interpretation token_view: codeless_view verificationTokens
  by unfold_locales simp_all

interpretation code_view: tokenless_view challenges
  by unfold_locales simp_all

section \<open>The requests\<close>

datatype auth_event = GuessFailed id | LoggedIn id | OtherRequest

text \<open>What a login attempt comes to: a password that was compared and found wrong, a login, or neither.\<close>

definition login_event :: "auth_env \<Rightarrow> string \<Rightarrow> string \<Rightarrow> web_request \<Rightarrow> org \<Rightarrow> auth_event" where
  "login_event A email password rq s =
     (case fst (validateUser A email password rq s) of
        Inr su \<Rightarrow> LoggedIn (su_id su)
      | Inl e \<Rightarrow> (case List.find (\<lambda>u. usr_email u = normalize_email email) (users s) of
          None \<Rightarrow> OtherRequest
        | Some u \<Rightarrow> if e = wrong_credentials then GuessFailed (usr_id u) else OtherRequest))"

inductive auth_step :: "auth_env \<Rightarrow> auth_event \<Rightarrow> org \<Rightarrow> org \<Rightarrow> bool" for A where
  passes: "clock s \<le> t \<Longrightarrow> auth_step A OtherRequest s (s\<lparr>clock := t\<rparr>)"
| registers: "register_request A dto rq s = (r0, s') \<Longrightarrow> auth_step A OtherRequest s s'"
| logs_in: "login A e p rq s = (r1, s') \<Longrightarrow> auth_step A (login_event A e p rq s) s s'"
| logs_out: "logout A rq s = (r2, s') \<Longrightarrow> auth_step A OtherRequest s s'"
| shows_me: "me_request rq s = (r3, s') \<Longrightarrow> auth_step A OtherRequest s s'"
| lists: "list_request A rq pg n s = (r4, s') \<Longrightarrow> auth_step A OtherRequest s s'"
| revokes: "revoke_session_request A rq sid s = (r5, s') \<Longrightarrow> auth_step A OtherRequest s s'"
| revokes_all: "revoke_all_request A rq b s = (r6, s') \<Longrightarrow> auth_step A OtherRequest s s'"
| verifies_email: "verifyEmail tok s = (r7, s') \<Longrightarrow> auth_step A OtherRequest s s'"
| resends: "resendEmailVerification A e s = (r8, s') \<Longrightarrow> auth_step A OtherRequest s s'"
| asks_reset: "requestPasswordReset A e s = (r9, s') \<Longrightarrow> auth_step A OtherRequest s s'"
| resets: "resetPassword A tok p s = (r10, s') \<Longrightarrow> auth_step A OtherRequest s s'"
| prefers: "preference_request A rq pd s = (r11, s') \<Longrightarrow> auth_step A OtherRequest s s'"
| sets_up: "totp_request A rq s = (r12, s') \<Longrightarrow> auth_step A OtherRequest s s'"
| sends_code: "challenge_request A rq s = (r13, s') \<Longrightarrow> auth_step A OtherRequest s s'"
| verifies: "verify_request A rq vd s = (r14, s') \<Longrightarrow> auth_step A OtherRequest s s'"
| enables: "enable_request A rq ed s = (r15, s') \<Longrightarrow> auth_step A OtherRequest s s'"
| disables: "disable_request A rq dd s = (r16, s') \<Longrightarrow> auth_step A OtherRequest s s'"
| generates: "backup_codes_request A rq s = (r17, s') \<Longrightarrow> auth_step A OtherRequest s s'"
| enforces: "enforce_request A rq b s = (r18, s') \<Longrightarrow> auth_step A OtherRequest s s'"
| admin_enforces: "admin_enforce_request A rq i b s = (r19, s') \<Longrightarrow> auth_step A OtherRequest s s'"

inductive_cases auth_stepE: "auth_step A ev s s'"

inductive auth_run :: "auth_env \<Rightarrow> auth_event list \<Rightarrow> org \<Rightarrow> org \<Rightarrow> bool" for A where
  start: "auth_run A [] s s"
| more: "auth_run A evs s s1 \<Longrightarrow> auth_step A ev s1 s2 \<Longrightarrow> auth_run A (evs @ [ev]) s s2"

section \<open>What every request leaves alone\<close>

lemma logins_shape:
  assumes "logins s' = logins s"
  shows "clock s' = clock s" "map login_key (users s') = map login_key (users s)"
  using assms by (simp_all add: logins_def)

text \<open>What the lockout knows of an account.\<close>

definition lock_state :: "id \<Rightarrow> org \<Rightarrow> (int \<times> instant option) option" where
  "lock_state i s = map_option (\<lambda>u. (usr_failedLoginAttempts u, usr_lockedUntil u)) (List.find (\<lambda>u. usr_id u = i) (users s))"

lemma find_same_keys:
  assumes "map login_key us = map login_key vs"
  shows "map_option login_key (List.find (\<lambda>u. usr_id u = i) us) = map_option login_key (List.find (\<lambda>u. usr_id u = i) vs)"
  using assms
proof (induction us arbitrary: vs)
  case (Cons u us)
  then obtain v vs' where "vs = v # vs'" by (cases vs) auto
  with Cons show ?case by (auto simp: login_key_def)
qed simp

lemma lock_state_key:
  "lock_state i s = map_option (\<lambda>k. snd (snd k)) (map_option login_key (List.find (\<lambda>u. usr_id u = i) (users s)))"
  by (cases "List.find (\<lambda>u. usr_id u = i) (users s)") (simp_all add: lock_state_def login_key_def)

lemma logins_lock_state: "logins s' = logins s \<Longrightarrow> lock_state i s' = lock_state i s"
  unfolding lock_state_key using find_same_keys [OF logins_shape(2)] by metis

definition accounts_distinct :: "org \<Rightarrow> bool" where
  "accounts_distinct s \<longleftrightarrow> distinct (map usr_id (users s)) \<and> distinct (map usr_email (users s))"

lemma login_key_parts:
  "map usr_id us = map fst (map login_key us)" "map usr_email us = map (\<lambda>k. fst (snd k)) (map login_key us)"
  by (simp_all add: login_key_def)

lemma logins_distinct: "logins s' = logins s \<Longrightarrow> accounts_distinct s \<Longrightarrow> accounts_distinct s'"
  unfolding accounts_distinct_def login_key_parts using logins_shape(2) by metis

section \<open>Registration\<close>

text \<open>Accounts are only added, and only under an address that is free.\<close>

definition grown :: "org \<Rightarrow> org \<Rightarrow> bool" where
  "grown s s' \<longleftrightarrow> clock s' = clock s \<and> (\<exists>ks. map login_key (users s') = map login_key (users s) @ ks) \<and>
     (accounts_distinct s \<longrightarrow> accounts_distinct s')"

lemma keeps_grown: "keeps logins m \<Longrightarrow> obeys grown m"
  unfolding obeys_def grown_def
  by (metis keepsD logins_shape logins_distinct append_Nil2)

interpretation grown: frame grown
  by unfold_locales (auto simp: grown_def)

lemma create_user_run:
  "create_user A row s = (let i = a_uuid A (nextId s); u = row i (clock s) in
     if list_ex (\<lambda>y. usr_email y = usr_email u \<or> usr_id y = i) (users s) then (Inl DuplicateKey, s)
     else (let s1 = s\<lparr>nextId := Suc (nextId s), users := users s @ [u],
         onboardingStates := onboardingStates s @ [\<lparr>onb_userId = i, onb_profileComplete = False,
           onb_tenantCreation = False, onb_tenantSetting = False\<rparr>],
         userPreferences := userPreferences s @ [default_preferences i],
         passwordHistories := passwordHistories s @ [\<lparr>pwh_userId = i, pwh_password = usr_password u, pwh_createdAt = clock s\<rparr>]\<rparr>
       in (Inr (load_user s1 u), s1)))"
  by (simp add: create_user_def transaction_def createPasswordHistory_def run_simps Let_def)

lemma create_user_grown:
  assumes "\<And>i t. usr_id (row i t) = i"
  shows "obeys grown (create_user A row)"
  unfolding obeys_def
proof (intro allI impI)
  fix s r s' assume run: "create_user A row s = (r, s')"
  show "grown s s'"
  proof (cases "s' = s")
    case True
    then show ?thesis by (simp add: grown.same)
  next
    case False
    let ?u = "row (a_uuid A (nextId s)) (clock s)"
    from run False have new: "users s' = users s @ [?u]" "clock s' = clock s"
      and free: "\<not> list_ex (\<lambda>y. usr_email y = usr_email ?u \<or> usr_id y = usr_id ?u) (users s)"
      by (auto simp: create_user_run Let_def assms split: if_splits)
    from free have "usr_email ?u \<notin> usr_email ` set (users s)" "usr_id ?u \<notin> usr_id ` set (users s)"
      by (auto simp: list_ex_iff image_iff dest: sym)
    with new show ?thesis by (simp add: grown_def accounts_distinct_def)
  qed
qed

lemma register_grown: "obeys grown (register_request A dto rq)"
  unfolding register_request_def register_def argon_hash_def
  by (intro grown.of_bindM create_user_grown keeps_grown login_view.account_intros login_view.keeps_token)
    (simp add: new_user_def)

section \<open>Login attempts\<close>

definition find_account :: "string \<Rightarrow> org \<Rightarrow> user option" where
  "find_account email s = List.find (\<lambda>u. usr_email u = normalize_email email) (users s)"

lemma shouldRequire_device:
  assumes "shouldRequireTwoFactor A lu rq s = (Inr (q, Some d), s')"
  shows "d \<in> set (lu_trustedDevices lu)"
  using assms by (auto simp: shouldRequireTwoFactor_def split: if_splits option.splits dest: find_SomeD)

lemma shouldRequire_run: "\<exists>q. shouldRequireTwoFactor A lu rq s = (Inr q, s)"
  by (simp add: shouldRequireTwoFactor_def)

lemma device_usage_runs:
  assumes "list_ex (\<lambda>y. dev_deviceId y = dev_deviceId d) (trustedDevices s)"
  shows "\<exists>s'. updateTrustedDeviceUsage d rq s = (Inr (), s') \<and> logins s' = logins s"
proof -
  obtain r s' where run: "updateTrustedDeviceUsage d rq s = (r, s')" by fastforce
  moreover have "r = Inr ()"
    using run assms by (simp add: updateTrustedDeviceUsage_def updateTrustedDevice_def run_simps)
  ultimately show ?thesis using keepsD [OF login_view.keeps_device_usage run] by blast
qed

lemma find_account_row: "find_account e s = Some u \<Longrightarrow> u \<in> set (users s) \<and> list_ex (\<lambda>y. usr_id y = usr_id u) (users s)"
  by (auto simp: find_account_def list_ex_iff dest: find_SomeD)

text \<open>The five ways a login attempt can go, with what each does to the accounts.\<close>

lemma validateUser_cases:
  assumes "validateUser A e p rq s = (r, s')"
  obtains (unknown) "find_account e s = None" "r = Inl wrong_credentials" "s' = s"
  | (refused) u msg where "find_account e s = Some u" "r = Inl (Forbidden msg)" "s' = s"
  | (wrong) u where "find_account e s = Some u" "\<not> is_locked u (clock s)" "\<not> a_verify A (usr_password u) p"
      "r = Inl wrong_credentials" "handleFailedLogin (usr_id u) (usr_failedLoginAttempts u) s = (Inr (), s')"
  | (right) u su where "find_account e s = Some u" "\<not> is_locked u (clock s)" "a_verify A (usr_password u) p"
      "r = Inr su" "su_id su = usr_id u"
      "logins s' = logins (s\<lparr>users := update_where (\<lambda>y. usr_id y = usr_id u) (logged_in (clock s) (rq_ip rq)) (users s)\<rparr>)"
proof (cases "find_account e s")
  case None
  then have "validateUser A e p rq s = (Inl wrong_credentials, s)"
    by (simp add: validateUser_def find_account_def bindM_find_user bindM_require)
  with assms show ?thesis by (intro unknown None) simp_all
next
  case (Some u)
  let ?lu = "load_user s u"
  note row = find_account_row [OF Some]
  have start: "validateUser A e p rq s =
     (if \<not> usr_isActive u then (Inl (Forbidden ''Account has been deactivated.''), s)
      else if is_locked u (clock s)
      then (Inl (Forbidden ''Account is temporarily locked due to multiple failed login attempts.''), s)
      else if \<not> a_verify A (usr_password u) p
      then bindM (handleFailedLogin (usr_id u) (usr_failedLoginAttempts u)) (\<lambda>_. throw wrong_credentials) s
      else (let s1 = s\<lparr>users := update_where (\<lambda>y. usr_id y = usr_id u) (logged_in (clock s) (rq_ip rq)) (users s)\<rparr>;
          lu1 = ?lu\<lparr>lu_user := logged_in (clock s) (rq_ip rq) u\<rparr>
        in bindM (shouldRequireTwoFactor A lu1 rq) (\<lambda>q.
           bindM (if fst q then ret () else
             case snd q of None \<Rightarrow> ret () | Some d \<Rightarrow> updateTrustedDeviceUsage d rq) (\<lambda>_.
           ret (fst (buildAuthResult lu1 (Some (fst q, \<not> fst q)))))) s1))"
    using Some row by (simp add: validateUser_def find_account_def Let_def bindM_find_user bindM_require bindM_run
      bindM_draw bindM_update_row)
  consider "\<not> usr_isActive u \<or> is_locked u (clock s)"
    | "usr_isActive u" "\<not> is_locked u (clock s)" "\<not> a_verify A (usr_password u) p"
    | "usr_isActive u" "\<not> is_locked u (clock s)" "a_verify A (usr_password u) p" by blast
  then show ?thesis
  proof cases
    case 1
    then show ?thesis using assms start refused [OF Some] by (auto split: if_splits)
  next
    case 2
    then have run: "bindM (handleFailedLogin (usr_id u) (usr_failedLoginAttempts u)) (\<lambda>_. throw wrong_credentials) s = (r, s')"
      using assms start by simp
    obtain s1 where h: "handleFailedLogin (usr_id u) (usr_failedLoginAttempts u) s = (Inr (), s1)"
      using row by (simp add: handleFailedLogin_def run_simps)
    with run have "r = Inl wrong_credentials" "s' = s1" by (simp_all add: run_simps)
    with h show ?thesis using wrong [OF Some 2(2,3)] by simp
  next
    case 3
    let ?s1 = "s\<lparr>users := update_where (\<lambda>y. usr_id y = usr_id u) (logged_in (clock s) (rq_ip rq)) (users s)\<rparr>"
    let ?lu1 = "?lu\<lparr>lu_user := logged_in (clock s) (rq_ip rq) u\<rparr>"
    from shouldRequire_run obtain q where q: "shouldRequireTwoFactor A ?lu1 rq ?s1 = (Inr q, ?s1)" by metis
    have usage: "\<exists>s2. (if fst q then ret () else case snd q of None \<Rightarrow> ret ()
        | Some d \<Rightarrow> updateTrustedDeviceUsage d rq) ?s1 = (Inr (), s2) \<and> logins s2 = logins ?s1"
    proof (cases "snd q")
      case (Some d)
      then have "d \<in> set (lu_trustedDevices ?lu1)" using q shouldRequire_device [of A ?lu1 rq ?s1 "fst q" d ?s1]
        by (cases q) simp
      then have "list_ex (\<lambda>y. dev_deviceId y = dev_deviceId d) (trustedDevices ?s1)"
        by (auto simp: load_user_def list_ex_iff)
      from device_usage_runs [OF this] Some show ?thesis by auto
    qed simp
    then obtain s2 where s2: "(if fst q then ret () else case snd q of None \<Rightarrow> ret ()
        | Some d \<Rightarrow> updateTrustedDeviceUsage d rq) ?s1 = (Inr (), s2)" "logins s2 = logins ?s1" by blast
    have "validateUser A e p rq s = (Inr (fst (buildAuthResult ?lu1 (Some (fst q, \<not> fst q)))), s2)"
      using start 3 q s2(1) by (simp add: run_simps Let_def)
    then have "r = Inr (fst (buildAuthResult ?lu1 (Some (fst q, \<not> fst q))))" "s' = s2" using assms by simp_all
    with s2(2) show ?thesis using right [OF Some 3(2,3)]
      by (simp add: buildAuthResult_def buildSessionUser_def onboarding_flags_def Let_def logged_in_def
        split: option.splits prod.splits)
  qed
qed

text \<open>After the password has been validated, the handler only makes a session.\<close>

lemma login_logins:
  assumes "login A e p rq s = (r, s')"
  shows "logins s' = logins (snd (validateUser A e p rq s))"
proof -
  obtain v s1 where v: "validateUser A e p rq s = (v, s1)" by fastforce
  show ?thesis
  proof (cases v)
    case (Inl x)
    with v assms show ?thesis by (simp add: login_def run_simps)
  next
    case (Inr su)
    have "keeps logins (bindM (log_in A rq su) (\<lambda>rq1. bindM (ensureSessionMetadata rq1 su (getDeviceLabel rq1)) (\<lambda>_.
        bindM (getAuthenticatedUserFromSession (su_snapshot su)) (\<lambda>r. ret (rq1, r)))))"
      by (intro login_view.session_intros)
    with v assms Inr show ?thesis by (auto simp: login_def run_simps dest: keepsD)
  qed
qed

section \<open>The lockout\<close>

lemma account_found:
  assumes "accounts_distinct s" "u \<in> set (users s)"
  shows "List.find (\<lambda>y. usr_id y = usr_id u) (users s) = Some u"
  using assms by (simp add: accounts_distinct_def find_map_key)

lemma grown_lock_state: "grown s s' \<Longrightarrow> lock_state i s = Some x \<Longrightarrow> lock_state i s' = Some x"
proof -
  assume g: "grown s s'" and l: "lock_state i s = Some x"
  from g obtain ks where ks: "map login_key (users s') = map login_key (users s) @ ks" by (auto simp: grown_def)
  define us where "us = take (length (users s)) (users s')"
  have "users s' = us @ drop (length (users s)) (users s')" by (simp add: us_def)
  moreover have "map login_key us = map login_key (users s)"
    unfolding us_def take_map [symmetric] ks by simp
  then have "map_option (\<lambda>k. snd (snd k)) (map_option login_key (List.find (\<lambda>u. usr_id u = i) us)) = Some x"
    using l find_same_keys unfolding lock_state_key by metis
  ultimately show ?thesis unfolding lock_state_key by (metis (no_types, lifting) find_append option.case(2) option.map_disc_iff option.exhaust option.simps(3))
qed

lemma failed_login_run:
  assumes "handleFailedLogin (usr_id u) n s = (Inr (), s')"
  shows "s' = s\<lparr>users := update_where (\<lambda>y. usr_id y = usr_id u) (\<lambda>y. y\<lparr>
    usr_failedLoginAttempts := usr_failedLoginAttempts y + 1, usr_lockedUntil := (if MAX_FAILED_ATTEMPTS \<le> n + 1
      then Some (clock s + minutes LOCKOUT_DURATION_MINUTES) else usr_lockedUntil y)\<rparr>) (users s)\<rparr>"
  using assms by (simp add: handleFailedLogin_def bindM_draw update_row_run split: if_splits)

lemma update_where_distinct_accounts:
  assumes "accounts_distinct s" "\<And>y. usr_id (g y) = usr_id y" "\<And>y. usr_email (g y) = usr_email y"
  shows "accounts_distinct (s\<lparr>users := update_where P g (users s)\<rparr>)"
  using assms by (simp add: accounts_distinct_def map_update_where)

lemma lock_state_update:
  assumes "\<And>y. usr_id (g y) = usr_id y"
  shows "lock_state i (s\<lparr>users := update_where (\<lambda>y. usr_id y = j) g (users s)\<rparr>) =
    (if i = j then map_option (\<lambda>y. (usr_failedLoginAttempts (g y), usr_lockedUntil (g y))) (List.find (\<lambda>y. usr_id y = i) (users s))
     else lock_state i s)"
proof -
  have "List.find (\<lambda>y. usr_id y = i) (update_where (\<lambda>y. usr_id y = j) g (users s)) =
      map_option (\<lambda>y. if usr_id y = j then g y else y) (List.find (\<lambda>y. usr_id y = i) (users s))"
    by (rule find_update_where) (simp add: assms)
  then show ?thesis
    by (cases "List.find (\<lambda>y. usr_id y = i) (users s)") (auto simp: lock_state_def dest: find_SomeD)
qed

text \<open>What a login attempt does to the lock of an account.\<close>

lemma login_lock_state:
  assumes "accounts_distinct s" "login A e p rq s = (r, s')" "lock_state i s = Some (f, l)"
  shows "accounts_distinct s' \<and> clock s' = clock s \<and>
    (case login_event A e p rq s of
       GuessFailed j \<Rightarrow> if j = i then (\<forall>L. l = Some L \<longrightarrow> L \<le> clock s) \<and>
           lock_state i s' = Some (f + 1, if MAX_FAILED_ATTEMPTS \<le> f + 1
             then Some (clock s + minutes LOCKOUT_DURATION_MINUTES) else l)
         else lock_state i s' = lock_state i s
     | LoggedIn j \<Rightarrow> j = i \<or> lock_state i s' = lock_state i s
     | OtherRequest \<Rightarrow> lock_state i s' = lock_state i s)"
proof -
  obtain v s1 where v: "validateUser A e p rq s = (v, s1)" by fastforce
  have same: "logins s' = logins s1" using login_logins [OF assms(2)] v by simp
  note carry = logins_lock_state [OF same] logins_shape(1) [OF same] logins_distinct [OF same]
  from v show ?thesis
  proof (cases rule: validateUser_cases)
    case unknown
    then show ?thesis using v carry assms(1) by (simp add: login_event_def find_account_def)
  next
    case (refused u msg)
    then show ?thesis using v carry assms(1) by (simp add: login_event_def find_account_def wrong_credentials_def)
  next
    case (wrong u)
    note s1 = failed_login_run [OF wrong(5)]
    have u: "List.find (\<lambda>y. usr_id y = usr_id u) (users s) = Some u"
      using account_found [OF assms(1)] find_account_row [OF wrong(1)] by blast
    have ev: "login_event A e p rq s = GuessFailed (usr_id u)"
      using v wrong(1,4) by (simp add: login_event_def find_account_def)
    have d: "accounts_distinct s1" unfolding s1 by (rule update_where_distinct_accounts [OF assms(1)]) simp_all
    have c: "clock s1 = clock s" unfolding s1 by simp
    show ?thesis
    proof (cases "usr_id u = i")
      case True
      with u assms(3) have fl: "f = usr_failedLoginAttempts u" "l = usr_lockedUntil u" by (auto simp: lock_state_def)
      have "lock_state i s1 = Some (f + 1, if MAX_FAILED_ATTEMPTS \<le> f + 1
          then Some (clock s + minutes LOCKOUT_DURATION_MINUTES) else l)"
        unfolding s1 using u True by (simp add: lock_state_update fl)
      moreover have "\<forall>L. l = Some L \<longrightarrow> L \<le> clock s" using wrong(2) by (auto simp: is_locked_def fl)
      ultimately show ?thesis using ev True carry d c by simp
    next
      case False
      then have "lock_state i s1 = lock_state i s" unfolding s1 by (simp add: lock_state_update)
      then show ?thesis using ev False carry d c by simp
    qed
  next
    case (right u su)
    let ?s2 = "s\<lparr>users := update_where (\<lambda>y. usr_id y = usr_id u) (logged_in (clock s) (rq_ip rq)) (users s)\<rparr>"
    have ev: "login_event A e p rq s = LoggedIn (usr_id u)" using v right(4,5) by (simp add: login_event_def)
    have d: "accounts_distinct ?s2" by (rule update_where_distinct_accounts [OF assms(1)]) (simp_all add: logged_in_def)
    have "usr_id u \<noteq> i \<Longrightarrow> lock_state i ?s2 = lock_state i s" by (simp add: lock_state_update logged_in_def)
    then show ?thesis
      using ev carry d right(6) logins_lock_state [OF right(6), of i] logins_shape(1) [OF right(6)]
        logins_distinct [OF right(6)] by auto
  qed
qed

text \<open>Every other request leaves the locks alone, and time only moves on.\<close>

lemma grown_lock:
  assumes "grown s s'" "accounts_distinct s" "lock_state i s = Some x"
  shows "accounts_distinct s' \<and> clock s \<le> clock s' \<and> lock_state i s' = Some x"
  using assms grown_lock_state [OF assms(1,3)] by (simp add: grown_def)

lemma quiet_lock:
  assumes "m s = (r, s')" "keeps logins m" "accounts_distinct s" "lock_state i s = Some x"
  shows "accounts_distinct s' \<and> clock s \<le> clock s' \<and> lock_state i s' = Some x"
  using grown_lock [OF obeysD [OF keeps_grown [OF assms(2)] assms(1)] assms(3,4)] .

lemma step_lock_state:
  assumes "auth_step A ev s s'" "accounts_distinct s" "lock_state i s = Some (f, l)"
  shows "accounts_distinct s' \<and> clock s \<le> clock s' \<and>
    (case ev of
       GuessFailed j \<Rightarrow> if j = i then (\<forall>L. l = Some L \<longrightarrow> L \<le> clock s) \<and> clock s' = clock s \<and>
           lock_state i s' = Some (f + 1, if MAX_FAILED_ATTEMPTS \<le> f + 1
             then Some (clock s + minutes LOCKOUT_DURATION_MINUTES) else l)
         else lock_state i s' = Some (f, l)
     | LoggedIn j \<Rightarrow> j = i \<or> lock_state i s' = Some (f, l)
     | OtherRequest \<Rightarrow> lock_state i s' = Some (f, l))"
proof -
  note quiet = grown_lock [OF _ assms(2,3)]
  from assms(1) show ?thesis
  proof (cases rule: auth_step.cases)
    case (passes t)
    then show ?thesis using assms(2,3) by (simp add: accounts_distinct_def lock_state_def)
  next
    case (registers dto rq r0)
    with quiet obeysD [OF register_grown] show ?thesis by fastforce
  next
    case (logs_in e p rq r)
    from login_lock_state [OF assms(2) logs_in(2) assms(3)] assms(3) logs_in(1) show ?thesis
      by (auto split: auth_event.splits)
  qed (simp, erule quiet_lock [OF _ _ assms(2,3)], rule login_view.keeps_quiet_requests
    login_view.keeps_code_requests login_view.keeps_token_requests)+
qed

definition failures :: "auth_event list \<Rightarrow> id \<Rightarrow> int" where
  "failures evs i = int (count_list evs (GuessFailed i))"

lemma failures_snoc: "failures (evs @ [ev]) i = failures evs i + (if ev = GuessFailed i then 1 else 0)"
  by (simp add: failures_def)

text \<open>After \<open>k\<close> failures the counter stands at \<open>k\<close> at least; from the fifth on, each came a lockout after the one before.\<close>

lemma lockout_spaces_guesses:
  assumes "auth_run A evs s0 s" "accounts_distinct s0" "lock_state i s0 = Some (f0, l0)" "0 \<le> f0" "LoggedIn i \<notin> set evs"
  shows "accounts_distinct s \<and> clock s0 \<le> clock s \<and>
    clock s0 + (failures evs i - 5) * minutes 15 \<le> clock s \<and>
    (\<exists>f l. lock_state i s = Some (f, l) \<and> failures evs i \<le> f \<and>
       (5 \<le> failures evs i \<longrightarrow> (\<exists>L. l = Some L \<and> clock s0 + (failures evs i - 4) * minutes 15 \<le> L)))"
  using assms
proof (induction rule: auth_run.induct)
  case (start s)
  then show ?case by (simp add: failures_def minutes_def)
next
  case (more evs s0 s1 ev s2)
  let ?k = "failures evs i"
  from more have IH: "accounts_distinct s1" "clock s0 \<le> clock s1" "clock s0 + (?k - 5) * minutes 15 \<le> clock s1"
    by auto
  from more obtain f l where l: "lock_state i s1 = Some (f, l)" "?k \<le> f"
    "5 \<le> ?k \<longrightarrow> (\<exists>L. l = Some L \<and> clock s0 + (?k - 4) * minutes 15 \<le> L)" by auto
  note st = step_lock_state [OF more.hyps(2) IH(1) l(1)]
  show ?case
  proof (cases "ev = GuessFailed i")
    case False
    then have "lock_state i s2 = Some (f, l)" using st more.prems(4) by (auto split: auth_event.splits if_splits)
    then show ?thesis using False st IH l by (auto simp: failures_snoc)
  next
    case True
    with st have st': "accounts_distinct s2" "clock s2 = clock s1" "\<And>L. l = Some L \<Longrightarrow> L \<le> clock s1"
      "lock_state i s2 = Some (f + 1, if MAX_FAILED_ATTEMPTS \<le> f + 1 then Some (clock s1 + minutes LOCKOUT_DURATION_MINUTES) else l)"
      by auto
    have late: "clock s0 + (?k - 4) * minutes 15 \<le> clock s1" if "4 \<le> ?k"
    proof (cases "?k = 4")
      case True
      then show ?thesis using IH(2) by simp
    next
      case False
      with that l(3) st'(3) show ?thesis by force
    qed
    have early: "(?k - 4) * minutes 15 \<le> 0" if "?k < 4" using that by (simp add: minutes_def)
    have "clock s0 + (?k + 1 - 5) * minutes 15 \<le> clock s2"
      using late early IH(2) st'(2) by (cases "4 \<le> ?k") auto
    moreover have "\<exists>L. (if MAX_FAILED_ATTEMPTS \<le> f + 1 then Some (clock s1 + minutes LOCKOUT_DURATION_MINUTES) else l) = Some L \<and>
        clock s0 + (?k + 1 - 4) * minutes 15 \<le> L" if "5 \<le> ?k + 1"
      using that l(2) late by (auto simp: MAX_FAILED_ATTEMPTS_def LOCKOUT_DURATION_MINUTES_def minutes_def)
    ultimately show ?thesis using True st' l(2) IH(2) by (auto simp: failures_snoc)
  qed
qed

text \<open>C20: Passwords are guessed at a limited rate. Over any sequence of requests of the auth module, from anybody
  and against any account, the wrong passwords that get compared with the password of one account number at most
  five plus one per quarter of an hour that passes, as long as nobody logs into the account.\<close>

theorem password_guesses_limited:
  assumes "auth_run A evs s0 s" "accounts_distinct s0" "lock_state i s0 = Some (f, l)" "0 \<le> f" "LoggedIn i \<notin> set evs"
  shows "failures evs i \<le> 5 + (clock s - clock s0) div minutes 15"
proof -
  have "(failures evs i - 5) * minutes 15 \<le> clock s - clock s0"
    using lockout_spaces_guesses [OF assms] by auto
  then have "(failures evs i - 5) * minutes 15 div minutes 15 \<le> (clock s - clock s0) div minutes 15"
    by (intro zdiv_mono1) (simp_all add: minutes_def)
  then show ?thesis by (simp add: minutes_def)
qed

section \<open>Mailed links\<close>

text \<open>A view with the accounts out of sight altogether.\<close>

locale userless_view = account_view +
  assumes all_users: "f (s\<lparr>users := us\<rparr>) = f s"
begin

lemma keeps_any_user: "keeps f (update_user P g)"
  by (intro svc_intros) (simp add: all_users)

lemma keeps_login: "keeps f (login A e p rq)"
  unfolding login_def validateUser_def handleFailedLogin_def shouldRequireTwoFactor_def Let_def
  by (intro keeps_any_user account_intros)

lemma keeps_create_user: "keeps f (create_user A row)"
proof -
  have "f (s\<lparr>users := a, onboardingStates := b, userPreferences := c\<rparr>) = f s" for s a b c
    using profile(2) [where s = "s\<lparr>users := a, onboardingStates := b\<rparr>"]
      profile(1) [where s = "s\<lparr>users := a\<rparr>"] all_users by simp
  then show ?thesis unfolding create_user_def by (intro account_intros) simp
qed

end

interpretation token_view: userless_view verificationTokens
  by unfold_locales simp

interpretation code_view: userless_view challenges
  by unfold_locales simp

definition link_dead :: "string \<Rightarrow> org \<Rightarrow> bool" where
  "link_dead tok s \<longleftrightarrow> (case find_token tok s of None \<Rightarrow> False | Some x \<Rightarrow> vt_used x)"

definition spent :: "org \<Rightarrow> org \<Rightarrow> bool" where
  "spent s s' \<longleftrightarrow> (\<forall>tok. link_dead tok s \<longrightarrow> link_dead tok s')"

interpretation spent: frame spent
  by unfold_locales (auto simp: spent_def)

lemma keeps_spent: "keeps verificationTokens m \<Longrightarrow> obeys spent m"
  by (auto simp: obeys_def spent_def link_dead_def find_token_def dest: keepsD)

lemma use_up_token:
  "spent s (s\<lparr>verificationTokens := update_where P (\<lambda>x. x\<lparr>vt_used := True, vt_usedAt := Some t\<rparr>) (verificationTokens s)\<rparr>)"
  by (auto simp: spent_def link_dead_def find_token_def find_update_where split: option.splits)

lemma append_token: "spent s (s\<lparr>verificationTokens := verificationTokens s @ xs\<rparr>)"
  by (auto simp: spent_def link_dead_def find_token_def find_append split: option.splits)

lemma token_spent: "obeys spent (createVerificationToken A u type ttl)" "obeys spent (use_token i t)"
  unfolding createVerificationToken_def use_token_def
  by (intro spent.parts use_up_token append_token keeps_spent token_view.keeps_draw token_view.keeps_time; simp)+

lemma accept_spent: "obeys spent (accept_token tok type msg)"
  unfolding accept_token_def by (intro spent.parts keeps_spent token_view.keeps_time)

lemma links_spent:
  "obeys spent (verifyEmail tok)" "obeys spent (resendEmailVerification A e)" "obeys spent (requestPasswordReset A e)"
  "obeys spent (resetPassword A tok p)" "obeys spent (register_request A dto rq)"
  unfolding verifyEmail_def resendEmailVerification_def requestPasswordReset_def resetPassword_def reset_tx_def
    register_request_def register_def argon_hash_def Let_def
  by (intro spent.of_basic(1) spent.of_bindM spent.of_transaction spent.of_option spent.of_if token_spent accept_spent;
    intro keeps_spent token_view.keeps_any_user token_view.account_intros token_view.keeps_create_user)+

lemma step_spent:
  assumes "auth_step A ev s s'"
  shows "spent s s'"
  using assms
proof (cases rule: auth_step.cases)
  case (passes t)
  then show ?thesis by (simp add: spent_def link_dead_def find_token_def)
qed (erule obeysD [rotated], rule links_spent token_view.keeps_login [THEN keeps_spent]
    token_view.keeps_quiet_requests [THEN keeps_spent] token_view.keeps_code_requests [THEN keeps_spent])+

lemma run_spent: "auth_run A evs s s' \<Longrightarrow> spent s s'"
  by (induction rule: auth_run.induct) (auto intro: spent.same spent.step step_spent)

lemma accept_token_Inr:
  assumes "accept_token tok type msg s = (Inr x, s')"
  shows "s' = s" "find_token tok s = Some x" "vt_type x = type" "\<not> vt_used x" "clock s \<le> vt_expiresAt x"
  using assms by (auto simp: accept_token_def svc_invert split: if_splits)

lemma use_token_dead:
  assumes "use_token (vt_id x) t s = (Inr (), s')" "find_token (vt_token x) s = Some x"
  shows "link_dead (vt_token x) s'"
  using assms by (auto simp: use_token_def update_row_def link_dead_def find_token_def find_update_where split: if_splits)

text \<open>C22: A reset link works once. After a password has been reset with a link, whatever requests follow, the same
  link is refused and changes nothing.\<close>

theorem reset_link_once:
  assumes "resetPassword A tok p s = (Inr (), s1)" "auth_run A evs s1 s2"
  shows "resetPassword A tok q s2 = (Inl (BadRequest ''Invalid or expired password reset token.''), s2)"
proof -
  let ?msg = "''Invalid or expired password reset token.''"
  from assms(1) obtain x s' i h s0 s3
    where x0: "accept_token tok PASSWORD_RESET ?msg s = (Inr x, s')" and h: "argon_hash A p s' = (Inr h, s0)"
      and tx: "reset_tx i (vt_id x) h (clock s0) s0 = (Inr (), s3)" and out: "revokeAllSessions i None s3 = (Inr (), s1)"
    unfolding resetPassword_def by (auto simp: bindM_Inr transaction_Inr)
  have s: "s' = s" using accept_token_Inr(1) [OF x0] .
  note x = x0 [unfolded s]
  note x' = accept_token_Inr(2) [OF x]
  then have tok: "vt_token x = tok" by (auto simp: find_token_def dest: find_SomeD)
  have s0: "verificationTokens s0 = verificationTokens s" using h s by (auto simp: argon_hash_def)
  from tx obtain s4 where "use_token (vt_id x) (clock s0) s4 = (Inr (), s3)" "verificationTokens s4 = verificationTokens s0"
    by (auto simp: reset_tx_def bindM_Inr createPasswordHistory_def update_row_def split: if_splits)
  with x' s0 tok have "link_dead tok s3" using use_token_dead [of x "clock s0" s4 s3] by (simp add: find_token_def)
  moreover have "spent s3 s1" using obeysD [OF keeps_spent [OF token_view.keeps_revoke(2)] out] .
  ultimately have "link_dead tok s2" using run_spent [OF assms(2)] by (simp add: spent_def)
  then show ?thesis
    by (auto simp: resetPassword_def accept_token_def link_dead_def bindM_run bindM_draw bindM_require bindM_def
      split: option.splits)
qed

end
