(* ===== verification/AccessSafety.thy ===== *)
theory AccessSafety
  imports Tenancy AuthSafety
begin

text \<open>
  What holds of tenants, roles and permissions over any sequence of requests: a tenant keeps a SuperAdmin, an
  invitation is accepted once, a removed member has no access left, and an endpoint whose module the
  server does not know is closed to everybody.
\<close>

section \<open>The requests\<close>

text \<open>Requests of the access-control and tenants modules, the synchronisation of modules and default roles by server
  and seed scripts, and those of the auth module. A new name of a role is not empty, as its validator demands.\<close>

inductive access_step :: "auth_env \<Rightarrow> org \<Rightarrow> org \<Rightarrow> bool" for A where
  signs: "auth_step A ev s s' \<Longrightarrow> access_step A s s'"
| boots: "syncModules A s = (r0, s') \<Longrightarrow> access_step A s s'"
| syncs: "transaction (syncRolesWithModules i ctx) s = (r1, s') \<Longrightarrow> access_step A s s'"
| upserts: "transaction (upsertDefaultRoles A i ctx) s = (r2, s') \<Longrightarrow> access_step A s s'"
| adds_role: "create_role A crd i s = (r3, s') \<Longrightarrow> access_step A s s'"
| edits_role: "urd_name urd \<noteq> Some [] \<Longrightarrow> update_role_by i t urd s = (r4, s') \<Longrightarrow> access_step A s s'"
| removes_role: "remove_role i t s = (r5, s') \<Longrightarrow> access_step A s s'"
| assigns: "assignUser A t i u scope l by s = (r6, s') \<Longrightarrow> access_step A s s'"
| unassigns: "removeUserAssignment i u t l s = (r7, s') \<Longrightarrow> access_step A s s'"
| founds: "createTenant A u tcd s = (r8, s') \<Longrightarrow> access_step A s s'"
| edits_tenant: "updateTenant A u tud t s = (r9, s') \<Longrightarrow> access_step A s s'"
| closes: "deleteTenant u t s = (r10, s') \<Longrightarrow> access_step A s s'"
| invites: "createTenantInvitation A u name t cid s = (r11, s') \<Longrightarrow> access_step A s s'"
| cancels: "deleteTenantInvitation t i s = (r12, s') \<Longrightarrow> access_step A s s'"
| accepts: "acceptInvitation A u e tok s = (r13, s') \<Longrightarrow> access_step A s s'"
| declines: "declineInvitation A u tok s = (r14, s') \<Longrightarrow> access_step A s s'"
| dismisses: "removeTenantMember by t u reason s = (r15, s') \<Longrightarrow> access_step A s s'"
| sets_units: "(upsertUnitTypes (a_uuid A) t vs :: tenant_unit_types acc) s = (r16, s') \<Longrightarrow> access_step A s s'"
| adds_units: "(addUnitTypes (a_uuid A) t vs :: tenant_unit_types acc) s = (r17, s') \<Longrightarrow> access_step A s s'"
| drops_units: "(removeUnitTypes (a_uuid A) t vs :: tenant_unit_types acc) s = (r18, s') \<Longrightarrow> access_step A s s'"

inductive access_run :: "auth_env \<Rightarrow> org \<Rightarrow> org \<Rightarrow> bool" for A where
  start: "access_run A s s"
| more: "access_run A s s1 \<Longrightarrow> access_step A s1 s2 \<Longrightarrow> access_run A s s2"

section \<open>What has to last\<close>

definition admin_role :: "id \<Rightarrow> role \<Rightarrow> bool" where
  "admin_role t r \<longleftrightarrow> role_name r = SUPER_ADMIN_ROLE \<and> role_tenantId r = t"

definition has_admin_role :: "id \<Rightarrow> org \<Rightarrow> bool" where
  "has_admin_role t s \<longleftrightarrow> (\<exists>r \<in> set (roles s). admin_role t r)"

text \<open>Somebody is assigned the SuperAdmin role of the tenant.\<close>

definition has_admin :: "id \<Rightarrow> org \<Rightarrow> bool" where
  "has_admin t s \<longleftrightarrow>
     (\<exists>a \<in> set (userAssignments s). ua_tenantId a = t \<and> (\<exists>r \<in> set (roles s). role_id r = ua_roleId a \<and> admin_role t r))"

definition invitation_used :: "string \<Rightarrow> org \<Rightarrow> bool" where
  "invitation_used h s \<longleftrightarrow>
     (case List.find (\<lambda>x. ti_tokenHash x = h) (tenantInvitations s) of None \<Rightarrow> False | Some x \<Rightarrow> ti_status x \<noteq> InvPending)"

definition module_names :: "org \<Rightarrow> string list" where
  "module_names s = map mod_name (moduleRefs s)"

abbreviation role_ids :: "org \<Rightarrow> id list" where
  "role_ids s \<equiv> map role_id (roles s)"

definition roles_last :: "org \<Rightarrow> org \<Rightarrow> bool" where
  "roles_last s s' \<longleftrightarrow> (distinct (role_ids s) \<longrightarrow> distinct (role_ids s') \<and>
     (\<forall>t. has_admin_role t s \<longrightarrow> has_admin_role t s') \<and> (\<forall>t. has_admin t s \<longrightarrow> has_admin t s'))"

definition invitations_last :: "org \<Rightarrow> org \<Rightarrow> bool" where
  "invitations_last s s' \<longleftrightarrow> (\<forall>h. invitation_used h s \<longrightarrow> invitation_used h s')"

definition modules_last :: "org \<Rightarrow> org \<Rightarrow> bool" where
  "modules_last s s' \<longleftrightarrow> set (module_names s') \<subseteq> set (module_names s) \<union> set (map fst MODULESREF)"

definition lasts :: "org \<Rightarrow> org \<Rightarrow> bool" where
  "lasts s s' \<longleftrightarrow> roles_last s s' \<and> invitations_last s s' \<and> modules_last s s'"

interpretation lasting: frame lasts
  by unfold_locales (auto simp: lasts_def roles_last_def invitations_last_def modules_last_def)

lemma lastsI: "roles_last s s' \<Longrightarrow> invitations_last s s' \<Longrightarrow> modules_last s s' \<Longrightarrow> lasts s s'"
  by (simp add: lasts_def)

text \<open>Each of the three looks at some tables only.\<close>

lemma same_roles: "roles s' = roles s \<Longrightarrow> userAssignments s' = userAssignments s \<Longrightarrow> roles_last s s'"
  by (simp add: roles_last_def has_admin_role_def has_admin_def)

lemma same_invitations: "tenantInvitations s' = tenantInvitations s \<Longrightarrow> invitations_last s s'"
  by (simp add: invitations_last_def invitation_used_def)

lemma same_modules: "moduleRefs s' = moduleRefs s \<Longrightarrow> modules_last s s'"
  by (simp add: modules_last_def module_names_def)

definition access_view ::
  "org \<Rightarrow> role list \<times> user_assignment list \<times> tenant_invitation list \<times> module_ref list" where
  "access_view s = (roles s, userAssignments s, tenantInvitations s, moduleRefs s)"

lemma keeps_lasts: "keeps access_view m \<Longrightarrow> obeys lasts m"
  unfolding obeys_def access_view_def
  by (auto dest: keepsD intro!: lastsI same_roles same_invitations same_modules)

interpretation access_view: userless_view access_view
  by unfold_locales (simp_all add: access_view_def)

interpretation access_view: tokenless_view access_view
  by unfold_locales (simp_all add: access_view_def)

interpretation access_view: codeless_view access_view
  by unfold_locales (simp_all add: access_view_def)

lemma signing_lasts:
  assumes "auth_step A ev s s'"
  shows "lasts s s'"
  using assms
proof (cases rule: auth_step.cases)
  case (passes t)
  then show ?thesis by (intro lastsI same_roles same_invitations same_modules) simp_all
next
  case (registers dto rq r0)
  have "keeps access_view (register_request A dto rq)"
    unfolding register_request_def register_def argon_hash_def
    by (intro access_view.account_intros access_view.keeps_create_user access_view.keeps_token)
  then show ?thesis using registers(2) by (blast intro: obeysD keeps_lasts)
qed (erule obeysD [rotated], rule keeps_lasts, rule access_view.keeps_login access_view.keeps_quiet_requests
    access_view.keeps_code_requests access_view.keeps_token_requests)+

section \<open>The tables\<close>

lemma role_change:
  assumes "invitations_last s s'" "modules_last s s'" "distinct (role_ids s) \<Longrightarrow> roles_last s s'"
  shows "lasts s s'"
  using assms by (auto simp: lasts_def roles_last_def)

lemma more_roles:
  assumes "role_id r \<notin> set (role_ids s)"
  shows "lasts s (s\<lparr>roles := roles s @ [r]\<rparr>)"
proof (intro role_change same_invitations same_modules)
  show "roles_last s (s\<lparr>roles := roles s @ [r]\<rparr>)"
    using assms by (auto simp: roles_last_def has_admin_role_def has_admin_def)
qed simp_all

lemma change_roles:
  assumes "\<And>r. role_id (f r) = role_id r" "\<And>t r. r \<in> set (roles s) \<Longrightarrow> P r \<Longrightarrow> admin_role t r \<Longrightarrow> admin_role t (f r)"
  shows "lasts s (s\<lparr>roles := update_where P f (roles s)\<rparr>)"
proof (intro role_change same_invitations same_modules)
  have ids: "map role_id (update_where P f (roles s)) = role_ids s"
    by (rule map_update_where) (rule assms(1))
  have moved: "\<exists>r' \<in> set (update_where P f (roles s)). role_id r' = role_id r \<and> admin_role t r'"
    if "r \<in> set (roles s)" "admin_role t r" for r t
    using that assms(1) assms(2) [OF that(1) _ that(2)]
    by (intro bexI [where x = "if P r then f r else r"]) (auto simp: update_where_def)
  show "roles_last s (s\<lparr>roles := update_where P f (roles s)\<rparr>)"
    using moved unfolding roles_last_def has_admin_role_def has_admin_def by (simp add: ids) metis
qed simp_all

lemma fewer_assignments:
  assumes "distinct (role_ids s) \<Longrightarrow> \<forall>t. has_admin t s \<longrightarrow> has_admin t (s\<lparr>userAssignments := as\<rparr>)"
  shows "lasts s (s\<lparr>userAssignments := as\<rparr>)"
  by (intro role_change same_invitations same_modules) (use assms in \<open>simp_all add: roles_last_def has_admin_role_def\<close>)

lemma more_assignments: "lasts s (s\<lparr>userAssignments := userAssignments s @ as\<rparr>)"
  by (rule fewer_assignments) (auto simp: has_admin_def)

lemma change_invitations:
  assumes "\<And>x. ti_tokenHash (f x) = ti_tokenHash x" "\<And>x. ti_status x \<noteq> InvPending \<Longrightarrow> ti_status (f x) \<noteq> InvPending"
  shows "lasts s (s\<lparr>tenantInvitations := update_where P f (tenantInvitations s)\<rparr>)"
proof (intro lastsI same_roles same_modules)
  show "invitations_last s (s\<lparr>tenantInvitations := update_where P f (tenantInvitations s)\<rparr>)"
    using assms by (auto simp: invitations_last_def invitation_used_def find_update_where split: option.splits)
qed simp_all

lemma more_invitations: "lasts s (s\<lparr>tenantInvitations := tenantInvitations s @ xs\<rparr>)"
proof (intro lastsI same_roles same_modules)
  show "invitations_last s (s\<lparr>tenantInvitations := tenantInvitations s @ xs\<rparr>)"
    by (auto simp: invitations_last_def invitation_used_def find_append split: option.splits)
qed simp_all

lemma known_modules:
  assumes "set (map mod_name ms) \<subseteq> set (module_names s) \<union> set (map fst MODULESREF)"
  shows "lasts s (s\<lparr>moduleRefs := ms\<rparr>)"
  by (intro lastsI same_roles same_invitations) (use assms in \<open>simp_all add: modules_last_def module_names_def\<close>)

section \<open>The services\<close>

lemma draw_lasts: "obeys lasts (draw_next g)" "obeys lasts time" "obeys lasts (send_mail m)"
  by (intro keeps_lasts access_view.account_intros)+

lemma user_lasts: "obeys lasts (update_user P g)"
  by (intro keeps_lasts access_view.keeps_any_user)

lemma write_other: "(\<And>s. access_view (w s) = access_view s) \<Longrightarrow> obeys lasts (writeM w)"
  by (intro keeps_lasts keeps_writeM)

lemma invitation_lasts:
  "(\<And>x. ti_tokenHash (f x) = ti_tokenHash x) \<Longrightarrow> (\<And>x. ti_status x \<noteq> InvPending \<Longrightarrow> ti_status (f x) \<noteq> InvPending) \<Longrightarrow>
   obeys lasts (update_invitation P f)"
  by (intro lasting.of_update_row change_invitations)

lemmas last_intros = lasting.of_basic lasting.of_bindM lasting.of_if lasting.of_option lasting.of_prod
  lasting.of_transaction lasting.of_forM draw_lasts user_lasts

lemma insert_role_lasts: "obeys lasts (insert_role A name d t)"
  unfolding obeys_def
proof (intro allI impI)
  fix s r s' assume run: "insert_role A name d t s = (r, s')"
  let ?s = "s\<lparr>nextId := Suc (nextId s)\<rparr>"
  let ?r = "\<lparr>role_id = a_uuid A (nextId s), role_name = name, role_description = d, role_tenantId = t, role_createdAt = clock s\<rparr>"
  have drawn: "lasts s ?s" by (intro lastsI same_roles same_invitations same_modules) simp_all
  show "lasts s s'"
  proof (cases "list_ex (\<lambda>r. (role_name r = name \<and> role_tenantId r = t) \<or> role_id r = a_uuid A (nextId s)) (roles s)")
    case True
    with run drawn show ?thesis by (simp add: insert_role_def Let_def bindM_run bindM_draw)
  next
    case False
    then have "role_id ?r \<notin> set (role_ids ?s)" by (auto simp: list_ex_iff)
    from lasting.step [OF drawn more_roles [OF this]] run False show ?thesis
      by (simp add: insert_role_def Let_def bindM_run bindM_draw)
  qed
qed

lemma permission_lasts: "obeys lasts (insert_permission r m acts)" "obeys lasts (update_permission r m acts)"
  unfolding insert_permission_def update_permission_def
  by (intro last_intros write_other keeps_lasts keeps_update_row; simp add: access_view_def)+

lemma assignment_lasts: "obeys lasts (insert_assignment A row)"
  unfolding insert_assignment_def by (intro last_intros lasting.of_writeM more_assignments)

lemma default_roles_last:
  "obeys lasts (initializeDefaultRoles A t ctx)" "obeys lasts (syncRolesWithModules t ctx)"
  "obeys lasts (upsertDefaultRoles A t ctx)"
proof -
  show "obeys lasts (initializeDefaultRoles A t ctx)"
    unfolding initializeDefaultRoles_def grant_default_def Let_def
    by (intro last_intros insert_role_lasts permission_lasts)
  show "obeys lasts (syncRolesWithModules t ctx)"
    unfolding syncRolesWithModules_def sync_permission_def
    by (intro last_intros permission_lasts)
  have "obeys lasts (upsert_role A name t)" for name
    unfolding upsert_role_def
    by (intro last_intros insert_role_lasts lasting.of_update_row change_roles) (simp_all add: admin_role_def)
  then show "obeys lasts (upsertDefaultRoles A t ctx)"
    unfolding upsertDefaultRoles_def upsert_permission_def Let_def
    by (intro last_intros permission_lasts)
qed

lemma sync_modules_lasts: "obeys lasts (syncModules A)"
proof -
  have one: "obeys lasts (sync_module A d)" if "d \<in> set MODULESREF" for d
  proof -
    obtain name descr actions where d: "d = (name, descr, actions)" by (cases d)
    then have name: "name \<in> set (map fst MODULESREF)" using that by force
    have names: "map mod_name (update_where P (\<lambda>y. y\<lparr>mod_description := Some descr, mod_actions := actions\<rparr>) ms) = map mod_name ms"
      for P and ms :: "module_ref list" by (rule map_update_where) simp
    show ?thesis unfolding sync_module_def d prod.case
    proof (intro last_intros lasting.of_update_row lasting.of_writeM)
      show "lasts s (s\<lparr>moduleRefs := update_where P (\<lambda>y. y\<lparr>mod_description := Some descr, mod_actions := actions\<rparr>) (moduleRefs s)\<rparr>)"
        for s P by (rule known_modules) (use names in \<open>auto simp: module_names_def simp del: set_map\<close>)
      show "lasts s (s\<lparr>moduleRefs := moduleRefs s @ [\<lparr>mod_id = i, mod_name = name, mod_description = Some descr, mod_actions = actions\<rparr>]\<rparr>)"
        for s i by (rule known_modules) (use name in \<open>auto simp: module_names_def\<close>)
    qed
  qed
  have all: "obeys lasts (forM ds (sync_module A))" if "set ds \<subseteq> set MODULESREF" for ds
    using that by (induction ds) (auto intro!: lasting.of_basic lasting.of_bindM one)
  show ?thesis unfolding syncModules_def
    by (intro lasting.of_transaction lasting.of_bindM lasting.of_basic all subset_refl)
qed

section \<open>Roles\<close>

lemma found_role: "find_role i t s = (Inr r, s') \<Longrightarrow> s' = s \<and> r \<in> set (roles s) \<and> role_id r = i \<and> role_tenantId r = t"
  by (auto simp: find_role_def svc_invert split: if_splits dest!: find_SomeD)

lemma other_roles:
  assumes "distinct (role_ids s)" "r \<in> set (roles s)" "r' \<in> set (roles s)" "role_id r' = role_id r"
  shows "r' = r"
  using assms by (auto simp: distinct_map inj_on_def)

lemma create_role_lasts: "obeys lasts (create_role A dto t)"
  unfolding create_role_def validatePermissions_def grant_def
  by (intro last_intros insert_role_lasts permission_lasts)

text \<open>A role that stays protected or was not protected may be renamed.\<close>

lemma rename_lasts:
  assumes "rename_role r dto s = (x, s')" "r \<in> set (roles s)"
    "isProtectedRole (role_name r) \<Longrightarrow> given (urd_name dto) (role_name r) = role_name r"
  shows "lasts s s'"
proof -
  let ?f = "\<lambda>y. y\<lparr>role_name := given (urd_name dto) (role_name r),
       role_description := (case urd_description dto of None \<Rightarrow> role_description r | Some d \<Rightarrow> Some d)\<rparr>"
  have "lasts s (s\<lparr>roles := update_where (\<lambda>y. role_id y = role_id r) ?f (roles s)\<rparr>)" if "distinct (role_ids s)"
  proof (rule change_roles)
    fix t y assume y: "y \<in> set (roles s)" "role_id y = role_id r" "admin_role t y"
    from other_roles [OF that assms(2) y(1,2)] y(3) assms(3) show "admin_role t (?f y)"
      by (simp add: admin_role_def isProtectedRole_def)
  qed simp
  moreover have "lasts s (s\<lparr>roles := update_where (\<lambda>y. role_id y = role_id r) ?f (roles s)\<rparr>)" if "\<not> distinct (role_ids s)"
    by (intro lastsI same_invitations same_modules) (use that in \<open>simp_all add: roles_last_def\<close>)
  moreover have "s' = s \<or> s' = s\<lparr>roles := update_where (\<lambda>y. role_id y = role_id r) ?f (roles s)\<rparr>"
    using assms(1) by (auto simp: rename_role_def bindM_run update_row_run split: if_splits)
  ultimately show ?thesis using lasting.same by metis
qed

lemma replace_permissions_lasts:
  "obeys lasts (bindM (writeM (\<lambda>s. s\<lparr>rolePermissions := filter P (rolePermissions s)\<rparr>)) (\<lambda>_.
     bindM (forM ps (grant i)) (\<lambda>_. ret ())))"
  unfolding grant_def by (intro last_intros permission_lasts write_other) (simp add: access_view_def)

lemma update_role_lasts:
  assumes "urd_name dto \<noteq> Some []"
  shows "obeys lasts (update_role_by i t dto)"
  unfolding obeys_def
proof (intro allI impI)
  fix s r s' assume run: "update_role_by i t dto s = (r, s')"
  obtain x s1 where x: "find_role i t s = (x, s1)" by fastforce
  show "lasts s s'"
  proof (cases x)
    case (Inl e)
    moreover have "s1 = s" using x Inl by (auto simp: find_role_def svc_invert split: if_splits)
    ultimately show ?thesis using run x lasting.same by (simp add: update_role_by_def bindM_fail)
  next
    case (Inr ro)
    from found_role x Inr have ro: "s1 = s" "ro \<in> set (roles s)" by blast+
    let ?tx = "bindM (rename_role ro dto) (\<lambda>_.
       bindM (case urd_permissions dto of None \<Rightarrow> ret ()
         | Some ps \<Rightarrow>
             bindM (writeM (\<lambda>s. s\<lparr>rolePermissions := filter (\<lambda>p. rp_roleId p \<noteq> i) (rolePermissions s)\<rparr>)) (\<lambda>_.
             bindM (forM ps (grant i)) (\<lambda>_. ret ()))) (\<lambda>_.
       readM (\<lambda>s. map_option (role_view_of s) (List.find (\<lambda>y. role_id y = i) (roles s)))))"
    have rest: "obeys lasts (bindM (case urd_permissions dto of None \<Rightarrow> ret ()
         | Some ps \<Rightarrow>
             bindM (writeM (\<lambda>s. s\<lparr>rolePermissions := filter (\<lambda>p. rp_roleId p \<noteq> i) (rolePermissions s)\<rparr>)) (\<lambda>_.
             bindM (forM ps (grant i)) (\<lambda>_. ret ()))) (\<lambda>_.
       readM (\<lambda>s. map_option (role_view_of s) (List.find (\<lambda>y. role_id y = i) (roles s)))))"
      by (intro last_intros replace_permissions_lasts)
    have tx: "lasts s s2" if t: "?tx s = (y, s2)" and "isProtectedRole (role_name ro) \<Longrightarrow> given (urd_name dto) (role_name ro) = role_name ro"
      for y s2
      using t
    proof (cases rule: bindM_cases)
      case (stops e)
      then show ?thesis using rename_lasts ro that(2) by blast
    next
      case (goes_on a s3)
      from rename_lasts [OF goes_on(1) ro(2) that(2)] obeysD [OF rest goes_on(2)] show ?thesis
        by (rule lasting.step)
    qed
    have "s' = s \<or> (\<exists>y. ?tx s = (y, s') \<and>
       \<not> (isProtectedRole (role_name ro) \<and> \<not> empty_string (urd_name dto) \<and> urd_name dto \<noteq> Some (role_name ro)))"
      using run x Inr ro(1)
      by (auto simp: update_role_by_def bindM_ok bindM_run validatePermissions_def bindM_assoc transaction_def
          split: if_splits prod.splits sum.splits)
    then show ?thesis using tx lasting.same assms by (auto simp: empty_string_def split: option.splits)
  qed
qed

lemma kept_admin:
  assumes "distinct (role_ids s)" "has_admin t s" "roles s' = roles s"
    "\<And>a r. a \<in> set (userAssignments s) \<Longrightarrow> ua_tenantId a = t \<Longrightarrow> r \<in> set (roles s) \<Longrightarrow> role_id r = ua_roleId a \<Longrightarrow>
       admin_role t r \<Longrightarrow> \<exists>b \<in> set (userAssignments s'). ua_tenantId b = t \<and> ua_roleId b = ua_roleId a"
  shows "has_admin t s'"
  using assms(2-4) unfolding has_admin_def by metis

lemma remove_role_lasts: "obeys lasts (remove_role i t)"
  unfolding obeys_def
proof (intro allI impI)
  fix s r s' assume run: "remove_role i t s = (r, s')"
  define g where "g x = x\<lparr>ti_roleId := None\<rparr>" for x :: tenant_invitation
  let ?inv = "update_where (\<lambda>x. ti_roleId x = Some i) g (tenantInvitations s)"
  let ?s = "s\<lparr>roles := filter (\<lambda>y. role_id y \<noteq> i) (roles s),
       rolePermissions := filter (\<lambda>p. rp_roleId p \<noteq> i) (rolePermissions s),
       userAssignments := filter (\<lambda>a. ua_roleId a \<noteq> i) (userAssignments s), tenantInvitations := ?inv\<rparr>"
  have "s' = s \<or> (\<exists>ro \<in> set (roles s). role_id ro = i \<and> \<not> isProtectedRole (role_name ro) \<and> s' = ?s)"
    using run unfolding remove_role_def
  proof (cases rule: bindM_cases)
    case (stops e)
    then show ?thesis by (auto simp: find_role_def svc_invert split: if_splits)
  next
    case (goes_on ro s1)
    from found_role [OF goes_on(1)] goes_on(2) show ?thesis
      by (auto simp: g_def [abs_def] bindM_run split: if_splits)
  qed
  then show "lasts s s'"
  proof
    assume "\<exists>ro \<in> set (roles s). role_id ro = i \<and> \<not> isProtectedRole (role_name ro) \<and> s' = ?s"
    then obtain ro where ro: "ro \<in> set (roles s)" "role_id ro = i" "\<not> isProtectedRole (role_name ro)" and s': "s' = ?s" by blast
    show ?thesis
    proof (rule role_change)
      have "invitations_last s (s\<lparr>tenantInvitations := ?inv\<rparr>)"
        using change_invitations [of g s "\<lambda>x. ti_roleId x = Some i"] by (simp add: lasts_def g_def)
      then show "invitations_last s s'" by (simp add: s' invitations_last_def invitation_used_def)
      show "modules_last s s'" by (rule same_modules) (simp add: s')
      assume dist: "distinct (role_ids s)"
      have other: "role_id r \<noteq> i" if "r \<in> set (roles s)" "admin_role t r" for r t
        using other_roles [OF dist ro(1) that(1)] ro that(2) by (auto simp: admin_role_def isProtectedRole_def)
      have "distinct (role_ids s')" using dist by (simp add: s' distinct_map_filter)
      moreover have "has_admin_role t s'" if "has_admin_role t s" for t
        using that other unfolding has_admin_role_def by (auto simp: s')
      moreover have "has_admin t s'" if "has_admin t s" for t
      proof -
        from that obtain a r where a: "a \<in> set (userAssignments s)" "ua_tenantId a = t" "r \<in> set (roles s)"
          "role_id r = ua_roleId a" "admin_role t r" unfolding has_admin_def by blast
        with other [OF a(3,5)] show ?thesis unfolding has_admin_def
          by (intro bexI [where x = a] conjI bexI [where x = r]) (auto simp: s')
      qed
      ultimately show "roles_last s s'" by (simp add: roles_last_def)
    qed
  qed (simp add: lasting.same)
qed

lemma assign_lasts: "obeys lasts (assignUser A t i u scope l by)"
proof -
  have catch: "obeys lasts (catch_conflict msg m)" if "obeys lasts m" for msg and m :: "user_assignment acc"
    using that by (auto simp: obeys_def catch_conflict_def split: prod.splits sum.splits)
  show ?thesis unfolding assignUser_def by (intro last_intros catch assignment_lasts)
qed

lemma unassign_lasts: "obeys lasts (removeUserAssignment i u t l)"
  unfolding obeys_def
proof (intro allI impI)
  fix s r s' assume run: "removeUserAssignment i u t l s = (r, s')"
  let ?P = "\<lambda>a. ua_roleId a = i \<and> ua_userId a = u \<and> ua_tenantId a = t \<and> ua_locationId a = l"
  let ?s = "s\<lparr>userAssignments := filter (\<lambda>a. \<not> ?P a) (userAssignments s)\<rparr>"
  let ?left = "list_ex (\<lambda>a. ua_roleId a = i \<and> ua_tenantId a = t \<and> ua_userId a \<noteq> u) (userAssignments s)"
  have "s' = s \<or> s' = ?s \<and> (\<forall>ro. List.find (\<lambda>r. role_id r = i) (roles s) = Some ro \<longrightarrow> isProtectedRole (role_name ro) \<longrightarrow> ?left)"
    using run by (auto simp: removeUserAssignment_def bindM_run split: if_splits)
  moreover have "lasts s ?s"
    if safe: "\<forall>ro. List.find (\<lambda>r. role_id r = i) (roles s) = Some ro \<longrightarrow> isProtectedRole (role_name ro) \<longrightarrow> ?left"
  proof (rule fewer_assignments, intro allI impI)
    fix t' assume dist: "distinct (role_ids s)" and admin: "has_admin t' s"
    from dist admin show "has_admin t' ?s"
    proof (rule kept_admin)
      fix a ro assume a: "a \<in> set (userAssignments s)" "ua_tenantId a = t'" "ro \<in> set (roles s)" "role_id ro = ua_roleId a"
        "admin_role t' ro"
      show "\<exists>b \<in> set (userAssignments ?s). ua_tenantId b = t' \<and> ua_roleId b = ua_roleId a"
      proof (cases "?P a")
        case True
        then have "List.find (\<lambda>r. role_id r = i) (roles s) = Some ro"
          using find_map_key [OF dist a(3)] a(4) by simp
        with safe a(5) have "?left" by (simp add: admin_role_def isProtectedRole_def)
        then obtain b where "b \<in> set (userAssignments s)" "ua_roleId b = i" "ua_tenantId b = t" "ua_userId b \<noteq> u"
          by (auto simp: list_ex_iff)
        with True a(2) show ?thesis by (intro bexI [where x = b]) auto
      next
        case False
        with a(1,2) show ?thesis by (intro bexI [where x = a]) auto
      qed
    qed simp
  qed
  ultimately show "lasts s s'" by (elim disjE conjE) (simp_all add: lasting.same)
qed

section \<open>Tenants, invitations and members\<close>

lemma other_tables: "access_view s' = access_view s \<Longrightarrow> lasts s s'"
  by (simp add: access_view_def lastsI same_roles same_invitations same_modules)

lemma tenant_rows_last:
  "obeys lasts (insert_tenant A dto)" "obeys lasts (insert_address A t ad)" "obeys lasts (upsert_settings A t sd)"
  "obeys lasts (mark_onboarding u f)" "obeys lasts (connect_member u t)" "obeys lasts (disconnect_member u t)"
  "obeys lasts (checkAndCompleteOnboarding u)" "obeys lasts (patch_tenant t ud)" "obeys lasts (find_tenant t)"
  "obeys lasts (upsertUnitTypes uuid t vs :: tenant_unit_types acc)" "obeys lasts (getUnitTypes t :: tenant_unit_types acc)"
  unfolding insert_tenant_def insert_address_def upsert_settings_def mark_onboarding_def connect_member_def
    disconnect_member_def checkAndCompleteOnboarding_def patch_tenant_def find_tenant_def upsertUnitTypes_def
    getUnitTypes_def
  by (intro last_intros write_other lasting.of_update_row other_tables; simp add: access_view_def)+

lemmas tenant_intros = last_intros tenant_rows_last assignment_lasts default_roles_last

lemma unit_types_last:
  "obeys lasts (addUnitTypes uuid t vs :: tenant_unit_types acc)" "obeys lasts (removeUnitTypes (a_uuid A) t vs :: tenant_unit_types acc)"
  unfolding addUnitTypes_def removeUnitTypes_def by (intro tenant_intros)+

lemma tenants_last:
  "obeys lasts (createTenant A u dto)" "obeys lasts (updateTenant A u ud t)" "obeys lasts (deleteTenant u t)"
  unfolding createTenant_def create_tenant_tx_def updateTenant_def deleteTenant_def
  by (intro tenant_intros lasting.of_update_row other_tables; simp add: access_view_def)+

lemma send_invitation_lasts: "obeys lasts (createTenantInvitation A u name t dto)"
  unfolding createTenantInvitation_def insert_invitation_def
  by (intro tenant_intros lasting.of_writeM more_invitations)

lemma by_status:
  assumes "obeys lasts a" "obeys lasts b" "obeys lasts c" "obeys lasts d" "obeys lasts e"
  shows "obeys lasts (case st of InvPending \<Rightarrow> a | InvAccepted \<Rightarrow> b | InvDeclined \<Rightarrow> c | InvExpired \<Rightarrow> d | InvCancelled \<Rightarrow> e)"
  using assms by (cases st) simp_all

lemma answer_invitation_lasts:
  "obeys lasts (deleteTenantInvitation t i)" "obeys lasts (expire_if_late x msg)"
  "obeys lasts (acceptInvitation A u e tok)" "obeys lasts (declineInvitation A u tok)"
  unfolding deleteTenantInvitation_def expire_if_late_def acceptInvitation_def accept_tx_def declineInvitation_def
  by (intro tenant_intros by_status invitation_lasts; simp)+

lemma update_nothing: "update_where P (\<lambda>x. x) xs = xs"
  by (induction xs) simp_all

lemma remove_member_run:
  "removeTenantMember by t u reason s =
     (case List.find (\<lambda>x. ten_id x = t) (tenants s) of None \<Rightarrow> (Inl (NotFound ''Tenant not found.''), s)
      | Some x \<Rightarrow>
        (case if (u, t) \<in> set (tenantMembers s) then List.find (\<lambda>y. usr_id y = u) (users s) else None of
          None \<Rightarrow> (Inl (NotFound ''User not found or is not a member of this tenant.''), s)
        | Some y \<Rightarrow>
          if has_super_admin u t s
          then (Inl (Forbidden ''Cannot remove the SuperAdmin from the tenant. Transfer ownership first.''), s)
          else (Inr (), s\<lparr>userAssignments := filter (\<lambda>a. \<not> (ua_userId a = u \<and> ua_tenantId a = t)) (userAssignments s),
            tenantMembers := filter (\<lambda>p. p \<noteq> (u, t)) (tenantMembers s),
            memberRemovals := memberRemovals s @
              [\<lparr>rem_userId = u, rem_tenantId = t, rem_removedById = by, rem_reason = reason\<rparr>],
            outbox := outbox s @ [RemovalMail (usr_email y)
              (if js_trim (full_name y) = [] then usr_email y else js_trim (full_name y)) (ten_name x)]\<rparr>)))"
proof -
  define tx where "tx = transaction (
       bindM (writeM (\<lambda>s. s\<lparr>userAssignments :=
         filter (\<lambda>a. \<not> (ua_userId a = u \<and> ua_tenantId a = t)) (userAssignments s)\<rparr>)) (\<lambda>_.
       bindM (disconnect_member u t) (\<lambda>_.
       writeM (\<lambda>s. s\<lparr>memberRemovals := memberRemovals s @ [\<lparr>rem_userId = u, rem_tenantId = t,
         rem_removedById = by, rem_reason = reason\<rparr>]\<rparr>) :: unit acc)))"
  have tx: "tx s = (Inr (), s\<lparr>userAssignments := filter (\<lambda>a. \<not> (ua_userId a = u \<and> ua_tenantId a = t)) (userAssignments s),
      tenantMembers := filter (\<lambda>p. p \<noteq> (u, t)) (tenantMembers s),
      memberRemovals := memberRemovals s @ [\<lparr>rem_userId = u, rem_tenantId = t, rem_removedById = by, rem_reason = reason\<rparr>]\<rparr>)"
    if "List.find (\<lambda>y. usr_id y = u) (users s) = Some y" for y
    using find_user_ex [OF that]
    by (simp add: tx_def transaction_def bindM_run disconnect_member_def bindM_assoc bindM_update_row update_nothing)
  have ask: "bindM (require x e) f s = (case x of None \<Rightarrow> (Inl e, s) | Some a \<Rightarrow> f a s)"
    for x e and f :: "'z \<Rightarrow> 'y acc" by (cases x) (simp_all add: bindM_require)
  have gone: "removeTenantMember by t u reason s = (case List.find (\<lambda>x. ten_id x = t) (tenants s) of
      None \<Rightarrow> (Inl (NotFound ''Tenant not found.''), s)
    | Some x \<Rightarrow> (case if (u, t) \<in> set (tenantMembers s) then List.find (\<lambda>y. usr_id y = u) (users s) else None of
        None \<Rightarrow> (Inl (NotFound ''User not found or is not a member of this tenant.''), s)
      | Some y \<Rightarrow> if has_super_admin u t s
          then (Inl (Forbidden ''Cannot remove the SuperAdmin from the tenant. Transfer ownership first.''), s)
          else bindM tx (\<lambda>_. let userName = js_trim (full_name y) in
            send_mail (RemovalMail (usr_email y) (if userName = [] then usr_email y else userName) (ten_name x))) s))"
    unfolding removeTenantMember_def tx_def [symmetric]
    by (simp add: find_tenant_def bindM_assoc bindM_run ask split: option.splits)
  show ?thesis
  proof (cases "List.find (\<lambda>y. usr_id y = u) (users s)")
    case None
    then show ?thesis by (simp add: gone split: option.splits)
  next
    case (Some y)
    then show ?thesis by (simp add: gone bindM_ok [where m = tx, OF tx [OF Some]] Let_def split: option.splits)
  qed
qed

lemma dismiss_lasts: "obeys lasts (removeTenantMember by t u reason)"
  unfolding obeys_def
proof (intro allI impI)
  fix s r s' assume run: "removeTenantMember by t u reason s = (r, s')"
  let ?s = "s\<lparr>userAssignments := filter (\<lambda>a. \<not> (ua_userId a = u \<and> ua_tenantId a = t)) (userAssignments s)\<rparr>"
  have "lasts s ?s" if safe: "\<not> has_super_admin u t s"
  proof (rule fewer_assignments, intro allI impI)
    fix t' assume dist: "distinct (role_ids s)" and admin: "has_admin t' s"
    then show "has_admin t' ?s"
    proof (rule kept_admin)
      fix a ro assume a: "a \<in> set (userAssignments s)" "ua_tenantId a = t'" "ro \<in> set (roles s)" "role_id ro = ua_roleId a"
        "admin_role t' ro"
      with safe have "\<not> (ua_userId a = u \<and> ua_tenantId a = t)"
        by (auto simp: has_super_admin_def list_ex_iff admin_role_def)
      with a(1,2) show "\<exists>b \<in> set (userAssignments ?s). ua_tenantId b = t' \<and> ua_roleId b = ua_roleId a"
        by (intro bexI [where x = a]) auto
    qed simp
  qed
  moreover have "access_view s' = access_view s \<or> access_view s' = access_view ?s \<and> \<not> has_super_admin u t s"
    using run by (auto simp: remove_member_run access_view_def split: if_splits option.splits)
  ultimately show "lasts s s'" using lasting.step other_tables by blast
qed

section \<open>Every request\<close>

lemma step_lasts:
  assumes "access_step A s s'"
  shows "lasts s s'"
  using assms
proof (cases rule: access_step.cases)
  case (signs ev)
  then show ?thesis by (rule signing_lasts)
next
  case (edits_role urd i t r)
  then show ?thesis by (blast intro: obeysD update_role_lasts)
qed (erule obeysD [rotated], rule sync_modules_lasts default_roles_last lasting.of_transaction create_role_lasts
    remove_role_lasts assign_lasts unassign_lasts tenants_last send_invitation_lasts answer_invitation_lasts dismiss_lasts
    tenant_rows_last unit_types_last,
    (rule default_roles_last)?)+

lemma run_lasts: "access_run A s s' \<Longrightarrow> lasts s s'"
  by (induction rule: access_run.induct) (auto intro: lasting.same lasting.step step_lasts)

section \<open>A tenant keeps a SuperAdmin\<close>

definition tenant_ids :: "org \<Rightarrow> id list" where
  "tenant_ids s = map ten_id (tenants s)"

definition administered :: "org \<Rightarrow> bool" where
  "administered s \<longleftrightarrow> distinct (role_ids s) \<and> (\<forall>t \<in> set (tenant_ids s). has_admin t s)"

interpretation tenant_view: userless_view tenant_ids
  by unfold_locales (simp_all add: tenant_ids_def)

interpretation tenant_view: tokenless_view tenant_ids
  by unfold_locales (simp_all add: tenant_ids_def)

interpretation tenant_view: codeless_view tenant_ids
  by unfold_locales (simp_all add: tenant_ids_def)

lemma same_tenant_ids:
  "(\<And>x. ten_id (f x) = ten_id x) \<Longrightarrow> keeps tenant_ids (update_row tenants (\<lambda>rows s. s\<lparr>tenants := rows\<rparr>) e P f)"
  by (auto simp: keeps_def update_row_run tenant_ids_def map_update_where split: if_splits)

lemmas same_tenants = tenant_view.account_intros tenant_view.keeps_any_user same_tenant_ids

lemma role_services_keep_tenants:
  "keeps tenant_ids (insert_role A name d t)" "keeps tenant_ids (insert_permission r m acts)"
  "keeps tenant_ids (update_permission r m acts)" "keeps tenant_ids (insert_assignment A row)"
  unfolding insert_role_def insert_permission_def update_permission_def insert_assignment_def Let_def
  by (intro same_tenants keeps_update_row; simp add: tenant_ids_def)+

lemmas same_tenants1 = same_tenants role_services_keep_tenants

lemma default_roles_keep_tenants:
  "keeps tenant_ids (initializeDefaultRoles A t ctx)" "keeps tenant_ids (syncRolesWithModules t ctx)"
  "keeps tenant_ids (upsertDefaultRoles A t ctx)" "keeps tenant_ids (syncModules A)"
proof -
  show "keeps tenant_ids (initializeDefaultRoles A t ctx)" "keeps tenant_ids (syncRolesWithModules t ctx)"
    unfolding initializeDefaultRoles_def grant_default_def syncRolesWithModules_def sync_permission_def Let_def
    by (intro same_tenants1)+
  have "keeps tenant_ids (sync_module A d)" for d
    unfolding sync_module_def by (cases d; simp; intro same_tenants1 keeps_update_row; simp add: tenant_ids_def)
  then show "keeps tenant_ids (syncModules A)"
    unfolding syncModules_def by (intro same_tenants1)
  show "keeps tenant_ids (upsertDefaultRoles A t ctx)"
    unfolding upsertDefaultRoles_def upsert_role_def upsert_permission_def Let_def
    by (intro same_tenants1 keeps_update_row; simp add: tenant_ids_def)
qed

lemma role_requests_keep_tenants:
  "keeps tenant_ids (create_role A dto t)" "keeps tenant_ids (update_role_by i t ud)" "keeps tenant_ids (remove_role i t)"
  "keeps tenant_ids (removeUserAssignment i u t l)" "keeps tenant_ids (assignUser A t i u scope l by)"
proof -
  have find: "keeps tenant_ids (find_role i t)" "keeps tenant_ids (validatePermissions ps)" for ps
    unfolding find_role_def validatePermissions_def by (intro same_tenants)+
  show "keeps tenant_ids (create_role A dto t)" "keeps tenant_ids (update_role_by i t ud)" "keeps tenant_ids (remove_role i t)"
    "keeps tenant_ids (removeUserAssignment i u t l)"
    unfolding create_role_def update_role_by_def rename_role_def remove_role_def grant_def removeUserAssignment_def
    by (intro find same_tenants1 keeps_update_row; simp add: tenant_ids_def)+
  have catch: "keeps tenant_ids (catch_conflict msg m)" if "keeps tenant_ids m" for msg and m :: "user_assignment acc"
    using that by (auto simp: keeps_def catch_conflict_def split: prod.splits sum.splits)
  show "keeps tenant_ids (assignUser A t i u scope l by)"
    unfolding assignUser_def by (intro catch same_tenants1)
qed

lemma tenant_parts_keep_tenants:
  "keeps tenant_ids (insert_address A t ad)" "keeps tenant_ids (upsert_settings A t sd)"
  "keeps tenant_ids (connect_member u t)" "keeps tenant_ids (disconnect_member u t)"
  "keeps tenant_ids (mark_onboarding u f)" "keeps tenant_ids (checkAndCompleteOnboarding u)"
  "keeps tenant_ids (patch_tenant t ud)" "keeps tenant_ids (find_tenant t)" "keeps tenant_ids (getUnitTypes t :: tenant_unit_types acc)"
  "keeps tenant_ids (upsertUnitTypes uuid t vs :: tenant_unit_types acc)"
  unfolding insert_address_def upsert_settings_def connect_member_def disconnect_member_def mark_onboarding_def
    checkAndCompleteOnboarding_def patch_tenant_def find_tenant_def getUnitTypes_def upsertUnitTypes_def
  by (intro same_tenants1; simp add: tenant_ids_def)+

lemmas same_tenants2 = same_tenants1 tenant_parts_keep_tenants default_roles_keep_tenants

lemma tenant_requests_keep_tenants:
  "keeps tenant_ids (updateTenant A u ud t)" "keeps tenant_ids (deleteTenant u t)"
  "keeps tenant_ids (createTenantInvitation A u name t cid)" "keeps tenant_ids (deleteTenantInvitation t i)"
  "keeps tenant_ids (acceptInvitation A u e tok)" "keeps tenant_ids (declineInvitation A u tok)"
  "keeps tenant_ids (removeTenantMember by t u reason)" "keeps tenant_ids (addUnitTypes uuid t vs :: tenant_unit_types acc)"
  "keeps tenant_ids (removeUnitTypes uuid t vs :: tenant_unit_types acc)"
proof -
  have status: "keeps tenant_ids (case st of InvPending \<Rightarrow> ret () | InvAccepted \<Rightarrow> throw b | InvDeclined \<Rightarrow> throw c
      | InvExpired \<Rightarrow> throw d | InvCancelled \<Rightarrow> throw e)" for st b c d e
    by (cases st) (simp_all add: keeps_basic)
  show "keeps tenant_ids (updateTenant A u ud t)" "keeps tenant_ids (deleteTenant u t)"
    "keeps tenant_ids (createTenantInvitation A u name t cid)" "keeps tenant_ids (deleteTenantInvitation t i)"
    "keeps tenant_ids (acceptInvitation A u e tok)" "keeps tenant_ids (declineInvitation A u tok)"
    "keeps tenant_ids (removeTenantMember by t u reason)" "keeps tenant_ids (addUnitTypes uuid t vs :: tenant_unit_types acc)"
    "keeps tenant_ids (removeUnitTypes uuid t vs :: tenant_unit_types acc)"
    unfolding updateTenant_def deleteTenant_def createTenantInvitation_def insert_invitation_def deleteTenantInvitation_def
      acceptInvitation_def expire_if_late_def accept_tx_def declineInvitation_def removeTenantMember_def addUnitTypes_def
      removeUnitTypes_def Let_def
    by (intro status same_tenants2 keeps_update_row; simp add: tenant_ids_def)+
qed

lemma bindM_InrE:
  assumes "bindM m f s = (Inr b, s'')"
  obtains a s' where "m s = (Inr a, s')" "f a s' = (Inr b, s'')"
  using assms unfolding bindM_Inr by blast

lemma insert_role_Inr: "insert_role A name d t s = (Inr r, s') \<Longrightarrow> r \<in> set (roles s') \<and> role_name r = name \<and> role_tenantId r = t"
  by (auto simp: insert_role_def Let_def bindM_run bindM_draw split: if_splits)

lemma default_admin_role:
  assumes "initializeDefaultRoles A t TENANT_CONTEXT s = (Inr c, s')" "distinct (role_ids s)"
  shows "has_admin_role t s'"
proof -
  let ?f = "\<lambda>c. bindM (insert_role A (fst c) (Some (role_text (fst c))) t) (\<lambda>r. forM (snd c) (grant_default (role_id r)))"
  obtain p ps where ps: "ROLE_PERMISSIONS TENANT_CONTEXT = p # ps" "fst p = SUPER_ADMIN_ROLE"
    by (simp add: ROLE_PERMISSIONS_def SUPER_ADMIN_ROLE_def)
  from assms(1) obtain ns where loop: "forM (p # ps) ?f s = (Inr ns, s')"
    unfolding initializeDefaultRoles_def ps(1) by (elim bindM_InrE) (simp only: ret_run prod.inject)
  then obtain r s1 where r: "insert_role A (fst p) (Some (role_text (fst p))) t s = (Inr r, s1)"
    and rest: "bindM (forM (snd p) (grant_default (role_id r))) (\<lambda>y. bindM (forM ps ?f) (\<lambda>ys. ret (y # ys))) s1 = (Inr ns, s')"
    unfolding forM.simps bindM_assoc by (rule bindM_InrE)
  have "obeys lasts (bindM (forM (snd p) (grant_default (role_id r))) (\<lambda>y. bindM (forM ps ?f) (\<lambda>ys. ret (y # ys))))"
    unfolding grant_default_def Let_def by (intro last_intros insert_role_lasts permission_lasts)
  from obeysD [OF this rest] have "roles_last s1 s'" by (simp add: lasts_def)
  moreover have "roles_last s s1" using obeysD [OF insert_role_lasts r] by (simp add: lasts_def)
  moreover have "has_admin_role t s1"
    using insert_role_Inr [OF r] ps(2) unfolding has_admin_role_def admin_role_def by auto
  ultimately show ?thesis using assms(2) by (auto simp: roles_last_def)
qed

lemma assigned_admin:
  assumes "insert_assignment A (\<lambda>i t1. \<lparr>ua_id = i, ua_userId = u, ua_roleId = role_id r, ua_tenantId = t,
      ua_accessScope = ScopeTenant, ua_locationId = None, ua_assignedAt = t1, ua_assignedById = Some u\<rparr>) s = (Inr a, s')"
    "r \<in> set (roles s)" "admin_role t r"
  shows "has_admin t s'"
  using assms by (auto simp: insert_assignment_def has_admin_def bindM_run bindM_draw split: if_splits)

lemma found_tenant_ids: "insert_tenant A dto s = (Inr t, s') \<Longrightarrow> tenant_ids s' = tenant_ids s @ [t]"
  by (auto simp: insert_tenant_def tenant_ids_def bindM_run bindM_draw split: if_splits)

lemma founded_tenant_has_admin:
  assumes "create_tenant_tx A u dto s = (Inr x, s')" "distinct (role_ids s)" "t \<in> set (tenant_ids s')"
  shows "t \<in> set (tenant_ids s) \<or> has_admin t s'"
proof -
  let ?give = "\<lambda>i found. case found of None \<Rightarrow> ret () | Some r \<Rightarrow>
       bindM (insert_assignment A (\<lambda>i1 t1. \<lparr>ua_id = i1, ua_userId = u, ua_roleId = role_id r, ua_tenantId = i,
         ua_accessScope = ScopeTenant, ua_locationId = None, ua_assignedAt = t1, ua_assignedById = Some u\<rparr>)) (\<lambda>_. ret ())"
  let ?rest = "\<lambda>i. bindM (connect_member u i) (\<lambda>_. bindM (mark_onboarding u (\<lambda>x. x\<lparr>onb_tenantCreation := True\<rparr>)) (\<lambda>_.
     bindM (checkAndCompleteOnboarding u) (\<lambda>_. bindM (readM (tenant_response_of i)) (\<lambda>found.
     require found (NotFound ''Tenant not found after creation.'')))))"
  let ?pre = "\<lambda>i. bindM (insert_address A i (tcd_address dto)) (\<lambda>_.
     case tcd_tenantSettings dto of None \<Rightarrow> ret () | Some d \<Rightarrow> upsert_settings A i d)"
  let ?role = "\<lambda>i s. List.find (\<lambda>r. role_name r = SUPER_ADMIN_ROLE \<and> role_tenantId r = i) (roles s)"
  obtain i s1 where i: "insert_tenant A dto s = (Inr i, s1)"
    and 1: "bindM (?pre i) (\<lambda>_. bindM (initializeDefaultRoles A i TENANT_CONTEXT) (\<lambda>_. bindM (readM (?role i)) (\<lambda>found.
      bindM (?give i found) (\<lambda>_. ?rest i)))) s1 = (Inr x, s')"
    using assms(1) unfolding create_tenant_tx_def bindM_assoc by (rule bindM_InrE)
  obtain u2 s2 where pre: "?pre i s1 = (Inr u2, s2)"
    and 2: "bindM (initializeDefaultRoles A i TENANT_CONTEXT) (\<lambda>_. bindM (readM (?role i)) (\<lambda>found.
      bindM (?give i found) (\<lambda>_. ?rest i))) s2 = (Inr x, s')"
    using 1 by (rule bindM_InrE)
  obtain c s3 where init: "initializeDefaultRoles A i TENANT_CONTEXT s2 = (Inr c, s3)"
    and 3: "bindM (readM (?role i)) (\<lambda>found. bindM (?give i found) (\<lambda>_. ?rest i)) s3 = (Inr x, s')"
    using 2 by (rule bindM_InrE)
  obtain g s4 where give: "?give i (?role i s3) s3 = (Inr g, s4)" and rest: "?rest i s4 = (Inr x, s')"
    using 3 unfolding bindM_run by (rule bindM_InrE)
  have pre_lasts: "obeys lasts (?pre i)" by (intro tenant_intros)
  have give_lasts: "obeys lasts (?give i found)" for found by (intro tenant_intros)
  have rest_lasts: "obeys lasts (?rest i)" by (intro tenant_intros)
  have steps: "roles_last s s1" "roles_last s1 s2" "roles_last s2 s3" "roles_last s3 s4" "roles_last s4 s'"
    using obeysD [OF tenant_rows_last(1) i] obeysD [OF pre_lasts pre] obeysD [OF default_roles_last(1) init]
      obeysD [OF give_lasts give] obeysD [OF rest_lasts rest] by (simp_all add: lasts_def)
  then have dist: "distinct (role_ids s2)" "distinct (role_ids s3)" "distinct (role_ids s4)"
    using assms(2) by (simp_all add: roles_last_def)
  obtain r where r: "List.find (\<lambda>r. role_name r = SUPER_ADMIN_ROLE \<and> role_tenantId r = i) (roles s3) = Some r"
    using default_admin_role [OF init dist(1)]
    by (cases "List.find (\<lambda>r. role_name r = SUPER_ADMIN_ROLE \<and> role_tenantId r = i) (roles s3)")
      (auto simp: has_admin_role_def admin_role_def find_None_iff')
  have "has_admin i s4"
    using give find_SomeD [OF r] assigned_admin unfolding r by (auto simp: bindM_Inr admin_role_def)
  then have "has_admin i s'" using steps(5) dist(3) by (simp add: roles_last_def)
  moreover have "tenant_ids s' = tenant_ids s1"
  proof -
    have parts: "keeps tenant_ids (?pre i)" "keeps tenant_ids (?rest i)" by (intro same_tenants2)+
    have give_parts: "keeps tenant_ids (?give i (?role i s3))" by (intro same_tenants2)
    show ?thesis
      using keepsD [OF parts(1) pre] keepsD [OF default_roles_keep_tenants(1) init] keepsD [OF give_parts give]
        keepsD [OF parts(2) rest] by simp
  qed
  ultimately show ?thesis using assms(3) found_tenant_ids [OF i] by auto
qed

lemma step_administered:
  assumes "access_step A s s'" "administered s"
  shows "administered s'"
proof -
  have dist: "distinct (role_ids s)" using assms(2) by (simp add: administered_def)
  have lasting: "roles_last s s'" using step_lasts [OF assms(1)] by (simp add: lasts_def)
  have same: ?thesis if "tenant_ids s' = tenant_ids s"
    using lasting assms(2) that by (simp add: administered_def roles_last_def)
  from assms(1) show ?thesis
  proof (cases rule: access_step.cases)
    case (signs ev)
    have "tenant_ids s' = tenant_ids s" using signs
    proof (cases rule: auth_step.cases)
      case (registers dto rq r0)
      have "keeps tenant_ids (register_request A dto rq)"
        unfolding register_request_def register_def argon_hash_def
        by (intro tenant_view.account_intros tenant_view.keeps_create_user tenant_view.keeps_token)
      then show ?thesis using registers(2) by (blast dest: keepsD)
    qed (simp add: tenant_ids_def, (erule keepsD [rotated], rule tenant_view.keeps_login
        tenant_view.keeps_quiet_requests tenant_view.keeps_code_requests tenant_view.keeps_token_requests)+)
    then show ?thesis by (rule same)
  next
    case (founds u dto r)
    then have "s' = s \<or> (\<exists>x. create_tenant_tx A u dto s = (Inr x, s'))"
      by (auto simp: createTenant_def transaction_def split: prod.splits sum.splits)
    then show ?thesis
    proof
      assume "\<exists>x. create_tenant_tx A u dto s = (Inr x, s')"
      then obtain x where x: "create_tenant_tx A u dto s = (Inr x, s')" by blast
      show ?thesis using founded_tenant_has_admin [OF x dist] lasting assms(2)
        by (auto simp: administered_def roles_last_def)
    qed (use assms(2) in simp)
  qed (rule same, erule keepsD [rotated], (rule keeps_transaction)?, rule role_requests_keep_tenants
      tenant_requests_keep_tenants tenant_parts_keep_tenants default_roles_keep_tenants)+
qed

text \<open>C16: Every tenant keeps a SuperAdmin. Whatever sequence of requests on roles, assignments, invitations, members, tenants
  and accounts follows, each tenant, those founded on the way included, has a user who is assigned its own
  SuperAdmin role.\<close>

theorem tenants_keep_admin:
  assumes "access_run A s s'" "administered s"
  shows "administered s'"
  using assms by (induction rule: access_run.induct) (auto intro: step_administered)

end
