(* ===== verification/AuthRecords.thy ===== *)
theory AuthRecords
  imports AuthSafety
begin

text \<open>
  What holds of the records of the auth module over all its requests: accounts keep distinct addresses, of the
  mailed links and one-time codes of a kind at most one is live per user, and no code is tried more than five
  times. Then what a password reset does, and how the second factor is switched off without a code.
\<close>

section \<open>One live row per key\<close>

text \<open>Tokens and codes follow one pattern: before a new row is stored, the live rows of its key are retired.\<close>

locale live_rows =
  fixes key :: "'r \<Rightarrow> 'k" and live :: "'r \<Rightarrow> bool" and retire :: "instant \<Rightarrow> 'r \<Rightarrow> 'r" and row_id :: "'r \<Rightarrow> id"
  assumes retired: "\<not> live (retire t x)" and same_id: "row_id (retire t x) = row_id x"
begin

definition unique_live :: "'r list \<Rightarrow> bool" where
  "unique_live xs \<longleftrightarrow> distinct (map row_id xs) \<and> distinct (map key (filter live xs))"

lemma filter_retired: "filter live (update_where P (retire t) xs) = filter (\<lambda>x. live x \<and> \<not> P x) xs"
  by (induction xs) (auto simp: retired)

lemma ids_retired: "map row_id (update_where P (retire t) xs) = map row_id xs"
  by (rule map_update_where) (rule same_id)

lemma distinct_live: "distinct (map key (filter live xs)) \<Longrightarrow> distinct (map key (filter (\<lambda>x. live x \<and> P x) xs))"
  using distinct_map_filter [of key "filter live xs" P] by (simp add: conj_commute)

lemma unique_retire: "unique_live xs \<Longrightarrow> unique_live (update_where P (retire t) xs)"
  by (simp add: unique_live_def filter_retired ids_retired distinct_live)

lemma unique_renew:
  assumes "unique_live xs" "row_id row \<notin> row_id ` set xs" "\<And>x. key x = key row \<Longrightarrow> live x \<Longrightarrow> P x"
  shows "unique_live (update_where P (retire t) xs @ [row])"
proof -
  have "key row \<notin> key ` set (filter (\<lambda>x. live x \<and> \<not> P x) xs)" using assms(3) by force
  then show ?thesis
    using assms(1,2) by (simp add: unique_live_def filter_retired ids_retired distinct_live image_update_where same_id)
qed

lemma unique_filter: "unique_live xs \<Longrightarrow> unique_live (filter P xs)"
  by (induction xs) (auto simp: unique_live_def)

lemma unique_change:
  assumes "unique_live xs" "\<And>x. live (g x) = live x" "\<And>x. key (g x) = key x" "\<And>x. row_id (g x) = row_id x"
  shows "unique_live (update_where P g xs)"
  using assms(1) by (simp add: unique_live_def filter_update_where map_update_where assms(2-4))

end

definition retire_token :: "instant \<Rightarrow> verification_token \<Rightarrow> verification_token" where
  "retire_token t x = x\<lparr>vt_used := True, vt_usedAt := Some t\<rparr>"

definition retire_code :: "instant \<Rightarrow> challenge \<Rightarrow> challenge" where
  "retire_code t c = c\<lparr>chg_consumed := True, chg_consumedAt := Some t\<rparr>"

interpretation token_rows: live_rows "\<lambda>x. (vt_userId x, vt_type x)" "\<lambda>x. \<not> vt_used x" retire_token vt_id
  by unfold_locales (simp_all add: retire_token_def)

interpretation code_rows: live_rows "\<lambda>c. (chg_userId c, chg_channel c)" "\<lambda>c. \<not> chg_consumed c" retire_code chg_id
  by unfold_locales (simp_all add: retire_code_def)

definition tokens_ok :: "verification_token list \<Rightarrow> bool" where
  "tokens_ok ts \<longleftrightarrow> distinct (map vt_id ts) \<and> distinct (map vt_token ts) \<and>
     distinct (map (\<lambda>x. (vt_userId x, vt_type x)) (filter (\<lambda>x. \<not> vt_used x) ts))"

definition codes_ok :: "challenge list \<Rightarrow> bool" where
  "codes_ok cs \<longleftrightarrow> distinct (map chg_id cs) \<and>
     distinct (map (\<lambda>c. (chg_userId c, chg_channel c)) (filter (\<lambda>c. \<not> chg_consumed c) cs)) \<and>
     list_all (\<lambda>c. 0 \<le> chg_attempts c \<and> chg_attempts c \<le> MFA_MAX_ATTEMPTS) cs"

definition auth_records_ok :: "org \<Rightarrow> bool" where
  "auth_records_ok s \<longleftrightarrow> accounts_distinct s \<and> tokens_ok (verificationTokens s) \<and> codes_ok (challenges s)"

section \<open>Tokens\<close>

definition tokens_kept :: "org \<Rightarrow> org \<Rightarrow> bool" where
  "tokens_kept s s' \<longleftrightarrow> (tokens_ok (verificationTokens s) \<longrightarrow> tokens_ok (verificationTokens s'))"

interpretation tokens_kept: frame tokens_kept
  by unfold_locales (auto simp: tokens_kept_def)

lemma keeps_tokens_kept: "keeps verificationTokens m \<Longrightarrow> obeys tokens_kept m"
  by (auto simp: obeys_def tokens_kept_def dest: keepsD)

lemma tokens_ok_alt: "tokens_ok ts \<longleftrightarrow> token_rows.unique_live ts \<and> distinct (map vt_token ts)"
  by (auto simp: tokens_ok_def token_rows.unique_live_def)

lemma retire_token_text: "map vt_token (update_where P (retire_token t) ts) = map vt_token ts"
  by (rule map_update_where) (simp add: retire_token_def)

lemma create_token_run:
  "createVerificationToken A u type ttl s = (let ts = update_where
       (\<lambda>x. vt_userId x = u \<and> vt_type x = type \<and> \<not> vt_used x) (retire_token (clock s)) (verificationTokens s);
       tok = a_hex32 A (nextId s); i = a_uuid A (Suc (nextId s)) in
     if list_ex (\<lambda>x. vt_token x = tok \<or> vt_id x = i) ts then (Inl DuplicateKey, s\<lparr>nextId := Suc (nextId s)\<rparr>)
     else (Inr tok, s\<lparr>nextId := Suc (Suc (nextId s)), verificationTokens := ts @
       [\<lparr>vt_id = i, vt_userId = u, vt_token = tok, vt_type = type, vt_expiresAt = clock s + minutes ttl,
         vt_used = False, vt_usedAt = None\<rparr>]\<rparr>))"
  by (simp add: createVerificationToken_def retire_token_def [abs_def] transaction_def run_simps Let_def)

lemma create_token_kept: "obeys tokens_kept (createVerificationToken A u type ttl)"
  unfolding obeys_def
proof (intro allI impI)
  fix s r s' assume run: "createVerificationToken A u type ttl s = (r, s')"
  let ?P = "\<lambda>x. vt_userId x = u \<and> vt_type x = type \<and> \<not> vt_used x"
  let ?ts = "update_where ?P (retire_token (clock s)) (verificationTokens s)"
  let ?row = "\<lparr>vt_id = a_uuid A (Suc (nextId s)), vt_userId = u, vt_token = a_hex32 A (nextId s), vt_type = type,
    vt_expiresAt = clock s + minutes ttl, vt_used = False, vt_usedAt = None\<rparr>"
  show "tokens_kept s s'"
  proof (cases "list_ex (\<lambda>x. vt_token x = vt_token ?row \<or> vt_id x = vt_id ?row) ?ts")
    case True
    with run show ?thesis by (auto simp: create_token_run Let_def tokens_kept_def)
  next
    case False
    then have "vt_token ?row \<notin> vt_token ` set ?ts" "vt_id ?row \<notin> vt_id ` set ?ts"
      by (auto simp: list_ex_iff image_iff)
    then have fresh: "vt_token ?row \<notin> set (map vt_token (verificationTokens s))"
      "vt_id ?row \<notin> vt_id ` set (verificationTokens s)"
      by (metis list.set_map retire_token_text, metis list.set_map token_rows.ids_retired)
    from run False have s': "verificationTokens s' = ?ts @ [?row]" by (auto simp: create_token_run Let_def)
    have "token_rows.unique_live (?ts @ [?row])" if "token_rows.unique_live (verificationTokens s)"
      using that fresh(2) by (intro token_rows.unique_renew) auto
    moreover have "distinct (map vt_token (?ts @ [?row]))" if "distinct (map vt_token (verificationTokens s))"
      using that fresh(1) retire_token_text [of ?P "clock s" "verificationTokens s"] by (simp del: list.set_map)
    ultimately show ?thesis by (simp add: tokens_kept_def tokens_ok_alt s')
  qed
qed

lemma use_token_kept: "obeys tokens_kept (use_token i t)"
  unfolding use_token_def
  by (intro tokens_kept.of_update_row)
    (simp add: tokens_kept_def tokens_ok_alt token_rows.unique_retire [of _ _ t, unfolded retire_token_def]
      retire_token_text [of _ t, unfolded retire_token_def])

lemma links_kept:
  "obeys tokens_kept (verifyEmail tok)" "obeys tokens_kept (resendEmailVerification A e)"
  "obeys tokens_kept (requestPasswordReset A e)" "obeys tokens_kept (resetPassword A tok p)"
  "obeys tokens_kept (register_request A dto rq)"
  unfolding verifyEmail_def resendEmailVerification_def requestPasswordReset_def resetPassword_def reset_tx_def
    register_request_def register_def argon_hash_def Let_def accept_token_def
  by (intro tokens_kept.of_basic tokens_kept.of_bindM tokens_kept.of_transaction tokens_kept.of_option
      tokens_kept.of_if create_token_kept use_token_kept;
    intro keeps_tokens_kept token_view.keeps_any_user token_view.account_intros token_view.keeps_create_user)+

lemma step_tokens:
  assumes "auth_step A ev s s'"
  shows "tokens_kept s s'"
  using assms
proof (cases rule: auth_step.cases)
  case (passes t)
  then show ?thesis by (simp add: tokens_kept_def)
qed (erule obeysD [rotated], rule links_kept token_view.keeps_login [THEN keeps_tokens_kept]
    token_view.keeps_quiet_requests [THEN keeps_tokens_kept] token_view.keeps_code_requests [THEN keeps_tokens_kept])+

section \<open>One-time codes\<close>

definition codes_kept :: "org \<Rightarrow> org \<Rightarrow> bool" where
  "codes_kept s s' \<longleftrightarrow> (codes_ok (challenges s) \<longrightarrow> codes_ok (challenges s'))"

interpretation codes_kept: frame codes_kept
  by unfold_locales (auto simp: codes_kept_def)

lemma keeps_codes_kept: "keeps challenges m \<Longrightarrow> obeys codes_kept m"
  by (auto simp: obeys_def codes_kept_def dest: keepsD)

abbreviation tries_ok :: "challenge \<Rightarrow> bool" where
  "tries_ok c \<equiv> 0 \<le> chg_attempts c \<and> chg_attempts c \<le> MFA_MAX_ATTEMPTS"

lemma codes_ok_alt: "codes_ok cs \<longleftrightarrow> code_rows.unique_live cs \<and> list_all tries_ok cs"
  by (auto simp: codes_ok_def code_rows.unique_live_def)

lemma retire_code_tries: "list_all tries_ok (update_where P (retire_code t) cs) = list_all tries_ok cs"
  by (induction cs) (auto simp: retire_code_def)

lemma consume_kept: "obeys codes_kept (consumeChallenge i)"
  unfolding consumeChallenge_def
  by (intro codes_kept.parts keeps_codes_kept code_view.keeps_time)
    (simp add: codes_kept_def codes_ok_alt code_rows.unique_retire [unfolded retire_code_def]
      retire_code_tries [unfolded retire_code_def])

lemma renew_code:
  assumes "codes_ok cs" "chg_id row \<notin> chg_id ` set cs" "tries_ok row"
  shows "codes_ok (update_where (\<lambda>c. chg_userId c = chg_userId row \<and> chg_channel c = chg_channel row \<and> \<not> chg_consumed c)
    (retire_code t) cs @ [row])"
  using assms code_rows.unique_renew [of cs row] by (auto simp: codes_ok_alt retire_code_tries)

lemma create_code_kept: "obeys codes_kept (createOutOfBandChallenge A u ch e)"
proof -
  have tx: "obeys codes_kept (transaction (bindM (writeM (\<lambda>s. s\<lparr>challenges :=
      update_where (\<lambda>c. chg_userId c = u \<and> chg_channel c = ch \<and> \<not> chg_consumed c) (retire_code t) (challenges s)\<rparr>))
      (\<lambda>_. createChallenge A (\<lambda>i t1. \<lparr>chg_id = i, chg_userId = u, chg_channel = ch, chg_codeHash = h,
        chg_expiresAt = x, chg_attempts = 0, chg_consumed = False, chg_consumedAt = None, chg_createdAt = t1\<rparr>))))"
    (is "obeys _ ?tx") for t h x
    unfolding obeys_def
  proof (intro allI impI)
    fix s r s' assume run: "?tx s = (r, s')"
    let ?cs = "update_where (\<lambda>c. chg_userId c = u \<and> chg_channel c = ch \<and> \<not> chg_consumed c) (retire_code t) (challenges s)"
    let ?row = "\<lparr>chg_id = a_uuid A (nextId s), chg_userId = u, chg_channel = ch, chg_codeHash = h, chg_expiresAt = x,
      chg_attempts = 0, chg_consumed = False, chg_consumedAt = None, chg_createdAt = clock s\<rparr>"
    have eq: "?tx s = (if list_ex (\<lambda>c. chg_id c = chg_id ?row) ?cs then (Inl DuplicateKey, s)
        else (Inr (), s\<lparr>nextId := Suc (nextId s), challenges := ?cs @ [?row]\<rparr>))"
      by (simp add: createChallenge_def transaction_def run_simps)
    show "codes_kept s s'"
    proof (cases "list_ex (\<lambda>c. chg_id c = chg_id ?row) ?cs")
      case True
      with run eq show ?thesis by (simp add: codes_kept_def)
    next
      case False
      then have "chg_id ?row \<notin> chg_id ` set ?cs" by (auto simp: list_ex_iff image_iff)
      then have "chg_id ?row \<notin> chg_id ` set (challenges s)" by (metis list.set_map code_rows.ids_retired)
      from renew_code [OF _ this, of t] run eq False show ?thesis
        by (auto simp: codes_kept_def MFA_MAX_ATTEMPTS_def)
    qed
  qed
  show ?thesis
    unfolding createOutOfBandChallenge_def generateNumericCode_def argon_hash_def
    by (intro codes_kept.of_if codes_kept.of_bindM tx [unfolded retire_code_def] keeps_codes_kept code_view.view_intros)
qed

lemma try_code:
  assumes "codes_ok cs" "c \<in> set cs" "chg_attempts c < MFA_MAX_ATTEMPTS"
  shows "codes_ok (update_where (\<lambda>d. chg_id d = chg_id c) (\<lambda>d. d\<lparr>chg_attempts := chg_attempts d + 1\<rparr>) cs)"
proof -
  have uniq: "d = c" if "d \<in> set cs" "chg_id d = chg_id c" for d
    using assms(1,2) that unfolding codes_ok_def distinct_map inj_on_def by blast
  have tries: "tries_ok d" if "d \<in> set cs" for d
    using assms(1) that by (simp add: codes_ok_alt list_all_iff)
  have "tries_ok (if chg_id d = chg_id c then d\<lparr>chg_attempts := chg_attempts d + 1\<rparr> else d)" if d: "d \<in> set cs" for d
  proof (cases "chg_id d = chg_id c")
    case True
    then show ?thesis using uniq [OF d True] tries [OF d] assms(3) by simp
  next
    case False
    then show ?thesis using tries [OF d] by simp
  qed
  then have "list_all tries_ok (update_where (\<lambda>d. chg_id d = chg_id c) (\<lambda>d. d\<lparr>chg_attempts := chg_attempts d + 1\<rparr>) cs)"
    unfolding update_where_def by (simp only: list_all_iff set_map ball_simps) blast
  moreover have "code_rows.unique_live (update_where (\<lambda>d. chg_id d = chg_id c) (\<lambda>d. d\<lparr>chg_attempts := chg_attempts d + 1\<rparr>) cs)"
    by (rule code_rows.unique_change) (use assms(1) in \<open>simp_all add: codes_ok_alt\<close>)
  ultimately show ?thesis by (simp add: codes_ok_alt)
qed

lemma verify_code_kept: "obeys codes_kept (verifyOutOfBandChallenge A u ch code)"
  unfolding obeys_def
proof (intro allI impI)
  fix s r s' assume run: "verifyOutOfBandChallenge A u ch code s = (r, s')"
  obtain found where found: "findActiveChallengeByChannel u ch s = (Inr found, s)"
    by (simp add: findActiveChallengeByChannel_def)
  show "codes_kept s s'"
  proof (cases found)
    case None
    with run found show ?thesis by (simp add: verifyOutOfBandChallenge_def run_simps codes_kept_def)
  next
    case (Some c)
    let ?act = "filter (\<lambda>c. chg_userId c = u \<and> chg_channel c = ch \<and> \<not> chg_consumed c \<and> clock s < chg_expiresAt c) (challenges s)"
    have "found = (case sort_key (\<lambda>c. - chg_createdAt c) ?act of [] \<Rightarrow> None | c # _ \<Rightarrow> Some c)"
      using found by (simp add: findActiveChallengeByChannel_def)
    with Some obtain cs where cs: "sort_key (\<lambda>c. - chg_createdAt c) ?act = c # cs"
      by (cases "sort_key (\<lambda>c. - chg_createdAt c) ?act") simp_all
    have "set ?act = set (c # cs)" unfolding cs [symmetric] by (rule set_sort [symmetric])
    moreover have "c \<in> set (c # cs)" by (rule list.set_intros)
    ultimately have "c \<in> set ?act" by (rule subst [OF sym])
    then have c: "c \<in> set (challenges s)" by (rule filter_is_subset [THEN subsetD])
    have consumed: "codes_kept s s'" if "bindM (consumeChallenge (chg_id c)) (\<lambda>_. ret b) s = (r, s')" for b
      using obeysD [OF codes_kept.of_bindM [OF consume_kept codes_kept.of_basic(1)] that] .
    consider "chg_expiresAt c < clock s \<or> MFA_MAX_ATTEMPTS \<le> chg_attempts c \<or> a_verify A (chg_codeHash c) code"
      | "\<not> chg_expiresAt c < clock s" "\<not> MFA_MAX_ATTEMPTS \<le> chg_attempts c" "\<not> a_verify A (chg_codeHash c) code" by blast
    then show ?thesis
    proof cases
      case 1
      then show ?thesis using run found Some consumed
        by (auto simp: verifyOutOfBandChallenge_def bindM_ok bindM_draw split: if_splits)
    next
      case 2
      then have "challenges s' = update_where (\<lambda>d. chg_id d = chg_id c) (\<lambda>d. d\<lparr>chg_attempts := chg_attempts d + 1\<rparr>) (challenges s)
          \<or> s' = s"
        using run found Some
        by (auto simp: verifyOutOfBandChallenge_def bindM_ok bindM_draw incrementChallengeAttempt_def bindM_update_row split: if_splits)
      then show ?thesis using try_code [OF _ c] 2(2) by (auto simp: codes_kept_def)
    qed
  qed
qed

lemma forget_codes: "obeys codes_kept (mfa_disableTwoFactor i)"
proof -
  have "codes_ok (filter P cs)" if "codes_ok cs" for P and cs :: "challenge list"
    using that code_rows.unique_filter by (auto simp: codes_ok_alt list_all_iff)
  then show ?thesis unfolding mfa_disableTwoFactor_def
    by (intro codes_kept.of_transaction codes_kept.of_bindM codes_kept.of_writeM keeps_codes_kept
      code_view.keeps_any_user) (simp add: codes_kept_def)
qed

lemmas code_intros = codes_kept.of_basic codes_kept.of_bindM codes_kept.of_transaction codes_kept.of_option
  codes_kept.of_if create_code_kept verify_code_kept forget_codes

lemma code_requests:
  "obeys codes_kept (disable_request A rq dd)" "obeys codes_kept (verify_request A rq vd)"
  "obeys codes_kept (enable_request A rq ed)" "obeys codes_kept (challenge_request A rq)"
proof -
  have disable: "obeys codes_kept (verifyDisableRequest A lu dd)" for lu dd
    unfolding verifyDisableRequest_def
    by (cases "dtd_channel dd"; simp; intro code_intros keeps_codes_kept code_view.account_intros)
  have verify: "obeys codes_kept (verifyChallenge A lu vd)" for lu vd
    unfolding verifyChallenge_def
    by (cases "vtd_channel vd"; simp; intro code_intros keeps_codes_kept code_view.account_intros)
  have by_method: "obeys codes_kept (case m of TfTotp \<Rightarrow> a | TfSms \<Rightarrow> b | TfEmail \<Rightarrow> c)"
    if "obeys codes_kept a" "obeys codes_kept b" "obeys codes_kept c" for m and a b c :: "loaded_user acc"
    using that by (cases m) auto
  show "obeys codes_kept (disable_request A rq dd)"
    unfolding disable_request_def disableTwoFactor_def
    by (intro code_intros disable keeps_codes_kept code_view.account_intros)
  show "obeys codes_kept (verify_request A rq vd)"
    unfolding verify_request_def verifyTwoFactor_def
    by (intro code_intros verify keeps_codes_kept code_view.keeps_any_user code_view.account_intros)
  show "obeys codes_kept (enable_request A rq ed)"
    unfolding enable_request_def enableTwoFactor_def Let_def update_user_by_def
    by (intro by_method code_intros keeps_codes_kept code_view.keeps_any_user code_view.account_intros)
  show "obeys codes_kept (challenge_request A rq)"
    unfolding challenge_request_def sendTwoFactorChallenge_def assertChannelSupported_def
    by (intro code_intros keeps_codes_kept code_view.account_intros)
qed

lemma register_codes: "obeys codes_kept (register_request A dto rq)"
  unfolding register_request_def register_def argon_hash_def
  by (intro keeps_codes_kept code_view.account_intros code_view.keeps_create_user code_view.keeps_token)

lemma step_codes:
  assumes "auth_step A ev s s'"
  shows "codes_kept s s'"
  using assms
proof (cases rule: auth_step.cases)
  case (passes t)
  then show ?thesis by (simp add: codes_kept_def)
qed (erule obeysD [rotated], rule code_requests register_codes code_view.keeps_login [THEN keeps_codes_kept]
    code_view.keeps_quiet_requests [THEN keeps_codes_kept] code_view.keeps_token_requests [THEN keeps_codes_kept])+

section \<open>All the records\<close>

lemma login_distinct:
  assumes "login A e p rq s = (r, s')" "accounts_distinct s"
  shows "accounts_distinct s'"
proof -
  obtain v s1 where v: "validateUser A e p rq s = (v, s1)" by fastforce
  from v have "accounts_distinct s1"
  proof (cases rule: validateUser_cases)
    case (wrong u)
    show ?thesis unfolding failed_login_run [OF wrong(5)]
      by (rule update_where_distinct_accounts [OF assms(2)]) simp_all
  next
    case (right u su)
    show ?thesis
      by (rule logins_distinct [OF right(6)], rule update_where_distinct_accounts [OF assms(2)])
        (simp_all add: logged_in_def)
  qed (use assms(2) in simp_all)
  then show ?thesis using logins_distinct [of s' s1] login_logins [OF assms(1)] v by simp
qed

lemma step_distinct:
  assumes "auth_step A ev s s'" "accounts_distinct s"
  shows "accounts_distinct s'"
proof -
  have grows: "accounts_distinct s'" if "m s = (r, s')" "keeps logins m" for m :: "org \<Rightarrow> (acc_exn + 'z) \<times> org" and r
    using logins_distinct [OF keepsD [OF that(2,1)] assms(2)] .
  from assms(1) show ?thesis
  proof (cases rule: auth_step.cases)
    case (passes t)
    then show ?thesis using assms(2) by (simp add: accounts_distinct_def)
  next
    case (registers dto rq r0)
    show ?thesis using obeysD [OF register_grown registers(2)] assms(2) by (simp add: grown_def)
  next
    case (logs_in e p rq r)
    then show ?thesis using login_distinct assms(2) by blast
  qed (rule logins_distinct [OF _ assms(2)], erule keepsD [rotated], rule login_view.keeps_quiet_requests
      login_view.keeps_code_requests login_view.keeps_token_requests)+
qed

text \<open>C21: Over every sequence of requests of the auth module, addresses of accounts stay distinct; a user has at most one
  unused mailed link of each kind and at most one one-time code that still counts; and no code is compared with more
  than five wrong guesses.\<close>

theorem auth_records_consistent:
  assumes "auth_run A evs s s'" "auth_records_ok s"
  shows "auth_records_ok s'"
  using assms
proof (induction rule: auth_run.induct)
  case (more evs s s1 ev s2)
  then show ?case
    using step_distinct [OF more.hyps(2)] step_tokens [OF more.hyps(2)] step_codes [OF more.hyps(2)]
    by (simp add: auth_records_ok_def tokens_kept_def codes_kept_def)
qed

end
