(* ===== verification/AuthEffects.thy ===== *)
theory AuthEffects
  imports AuthRecords
begin

text \<open>
  What single requests of the auth module do: a password reset ends the user's sessions, and a session that
  still owes its second factor can switch the factor off. The sample organisation at the end instantiates
  the properties.
\<close>

section \<open>Session handling returns\<close>

lemma never_throws_steps: "never_throws (draw_next g)" "never_throws time" "never_throws (readM h)"
  by (simp_all add: never_throws_def)

lemma never_throws_option:
  "never_throws m \<Longrightarrow> (\<And>a. never_throws (k a)) \<Longrightarrow> never_throws (case x of None \<Rightarrow> m | Some a \<Rightarrow> k a)"
  by (cases x) auto

lemmas returns = svc_intros never_throws_steps never_throws_option

lemma cache_returns: "never_throws (del_session sid)" "never_throws (cleanupSessionArtifacts sid u)"
  "never_throws (registerSessionInCache su sid m ttl)" "never_throws (refreshSessionCacheTtl sid u ttl)"
  "never_throws (commitSession rq)"
  unfolding del_session_def cleanupSessionArtifacts_def registerSessionInCache_def hset_expire_def sadd_expire_def
    refreshSessionCacheTtl_def commitSession_def Let_def by (intro returns)+

lemma session_returns: "never_throws (ensureSessionMetadata rq su l)" "never_throws (touchSessionCache rq u)"
  "never_throws (regenerate A rq)"
  unfolding ensureSessionMetadata_def updateSessionMetadata_def touchSessionCache_def regenerate_def Let_def
  by (intro returns cache_returns)+

lemma persist_returns: "never_throws (persistSession A rq su l)"
  unfolding persistSession_def log_in_def Let_def by (intro returns cache_returns session_returns)

section \<open>Password reset\<close>

lemma del_session_run:
  "del_session sid s = (Inr (if web_session_of sid s = None then 0 else 1),
     s\<lparr>webSessions := filter (\<lambda>w. ws_id w \<noteq> sid) (webSessions s)\<rparr>)"
  by (simp add: del_session_def bindM_run)

lemma del_sessions_run:
  "\<exists>ns. forM sids del_session s = (Inr ns, s\<lparr>webSessions := filter (\<lambda>w. ws_id w \<notin> set sids) (webSessions s)\<rparr>)"
proof (induction sids arbitrary: s)
  case (Cons sid sids)
  let ?s1 = "s\<lparr>webSessions := filter (\<lambda>w. ws_id w \<noteq> sid) (webSessions s)\<rparr>"
  obtain n where first: "del_session sid s = (Inr n, ?s1)" using del_session_run by metis
  from Cons [of ?s1] obtain ns where "forM sids del_session ?s1 =
      (Inr ns, ?s1\<lparr>webSessions := filter (\<lambda>w. ws_id w \<notin> set sids) (webSessions ?s1)\<rparr>)" ..
  then show ?case using first by (simp add: bindM_ok conj_commute)
qed simp

definition reset_view where
  "reset_view s = (users s, verificationTokens s, trustedDevices s, webSessions s, clock s)"

lemma revoke_all_run:
  "\<exists>s'. revokeAllSessions u None s = (Inr (), s') \<and> users s' = users s \<and> verificationTokens s' = verificationTokens s \<and>
     trustedDevices s' = trustedDevices s \<and> clock s' = clock s \<and>
     webSessions s' = filter (\<lambda>w. ws_id w \<notin> set (sMembers u s)) (webSessions s)"
proof -
  obtain ns where del: "forM (sMembers u s) del_session s =
      (Inr ns, s\<lparr>webSessions := filter (\<lambda>w. ws_id w \<notin> set (sMembers u s)) (webSessions s)\<rparr>)"
    using del_sessions_run by blast
  let ?s1 = "s\<lparr>webSessions := filter (\<lambda>w. ws_id w \<notin> set (sMembers u s)) (webSessions s)\<rparr>"
  have "never_throws (forM (sMembers u s) (\<lambda>sid. cleanupSessionArtifacts sid (Some u)))"
    by (intro returns cache_returns)
  then obtain us s' where clean: "forM (sMembers u s) (\<lambda>sid. cleanupSessionArtifacts sid (Some u)) ?s1 = (Inr us, s')"
    by (rule never_throwsE)
  have "keeps reset_view (forM (sMembers u s) (\<lambda>sid. cleanupSessionArtifacts sid (Some u)))"
    unfolding cleanupSessionArtifacts_def by (intro svc_intros) (simp add: reset_view_def)
  from keepsD [OF this clean] show ?thesis
    by (simp add: revokeAllSessions_def bindM_run bindM_ok del clean reset_view_def)
qed

text \<open>C23: With an unused, unexpired reset link of an existing user, the reset succeeds: the account gets the new password and
  a new session version, the link is used up and every web session of the user that the index knows is gone. Nothing else of
  the account changes, so a lockout stays, and the devices that were trusted stay trusted.\<close>

theorem password_reset_effect:
  assumes "find_token tok s = Some x" "vt_type x = PASSWORD_RESET" "\<not> vt_used x" "clock s \<le> vt_expiresAt x"
    and "List.find (\<lambda>y. usr_id y = vt_userId x) (users s) = Some u"
  shows "\<exists>s'. resetPassword A tok p s = (Inr (), s') \<and>
    users s' = update_where (\<lambda>y. usr_id y = vt_userId x) (\<lambda>y. y\<lparr>usr_password := a_hash A (nextId s) p,
      usr_passwordChangedAt := Some (clock s), usr_sessionVersion := usr_sessionVersion y + 1\<rparr>) (users s) \<and>
    link_dead tok s' \<and> list_all (\<lambda>sid. web_session_of sid s' = None) (sMembers (vt_userId x) s) \<and>
    trustedDevices s' = trustedDevices s"
proof -
  let ?us = "update_where (\<lambda>y. usr_id y = vt_userId x) (\<lambda>y. y\<lparr>usr_password := a_hash A (nextId s) p,
    usr_passwordChangedAt := Some (clock s), usr_sessionVersion := usr_sessionVersion y + 1\<rparr>) (users s)"
  let ?ts = "update_where (\<lambda>y. vt_id y = vt_id x) (\<lambda>y. y\<lparr>vt_used := True, vt_usedAt := Some (clock s)\<rparr>) (verificationTokens s)"
  let ?s1 = "s\<lparr>nextId := Suc (nextId s)\<rparr>"
  let ?s2 = "s\<lparr>nextId := Suc (nextId s), users := ?us,
    passwordHistories := passwordHistories s @ [\<lparr>pwh_userId = vt_userId x, pwh_password = a_hash A (nextId s) p, pwh_createdAt = clock s\<rparr>],
    verificationTokens := ?ts\<rparr>"
  have ids: "usr_id u = vt_userId x" and tok: "vt_token x = tok" and x: "list_ex (\<lambda>y. vt_id y = vt_id x) (verificationTokens s)"
    using assms(1,5) by (auto simp: find_token_def list_ex_iff dest: find_SomeD)
  have accept: "accept_token tok PASSWORD_RESET msg s = (Inr x, s)" for msg
    using assms(1-4) by (simp add: accept_token_def bindM_run bindM_require bindM_draw)
  have tx: "transaction (reset_tx (vt_userId x) (vt_id x) (a_hash A (nextId s) p) (clock s)) ?s1 = (Inr (), ?s2)"
    using find_user_ex [OF assms(5)] x
    by (simp add: reset_tx_def createPasswordHistory_def use_token_def transaction_def bindM_update_row bindM_draw bindM_run update_row_run bindM_def)
  obtain s' where out: "revokeAllSessions (vt_userId x) None ?s2 = (Inr (), s')" "users s' = ?us" "verificationTokens s' = ?ts"
    "trustedDevices s' = trustedDevices s" "webSessions s' = filter (\<lambda>w. ws_id w \<notin> set (sMembers (vt_userId x) s)) (webSessions s)"
    using revoke_all_run [of "vt_userId x" ?s2] by (auto simp: sMembers_def)
  have "resetPassword A tok p s = (Inr (), s')"
    using assms(5) ids by (simp add: resetPassword_def bindM_ok accept tx out(1) bindM_find_user bindM_require
      argon_hash_def bindM_draw)
  moreover have "link_dead tok s'"
    using assms(1) tok by (simp add: link_dead_def find_token_def out(3) find_update_where)
  moreover have "list_all (\<lambda>sid. web_session_of sid s' = None) (sMembers (vt_userId x) s)"
    by (auto simp: list_all_iff web_session_of_def out(5) find_None_iff)
  ultimately show ?thesis using out by blast
qed

section \<open>The second factor\<close>

interpretation users_view: session_view users
  by unfold_locales simp_all

lemma auth_result_simps [simp]:
  "ar_id (snd (buildAuthResult lu ov)) = usr_id (lu_user lu)"
  "ar_twoFactorVerified (snd (buildAuthResult lu (Some (a, b)))) = b"
  by (simp_all add: buildAuthResult_def buildAuthResponse_def buildSessionUser_def onboarding_flags_def Let_def
    split: option.splits prod.splits)

lemma guard_run:
  assumes "rq_sessionId rq = Some sid" "web_session_of sid s = Some w" "ws_snapshot w = Some snap"
    and "List.find (\<lambda>y. usr_id y = snap_id snap) (users s) = Some u"
  shows "\<exists>rq1 su s1. authenticatedGuard rq s = (Inr (rq1, su), s1) \<and> su_id su = snap_id snap \<and> users s1 = users s"
proof -
  let ?su = "buildSessionUser u None (Some (snap_requiresTwoFactor snap, snap_twoFactorVerified snap))"
  have id: "su_id ?su = snap_id snap"
    using assms(4) by (auto simp: buildSessionUser_def onboarding_flags_def Let_def dest: find_SomeD)
  obtain a s1 where touch: "touchSessionCache rq (Some (snap_id snap)) s = (Inr a, s1)"
    using session_returns(2) by (rule never_throwsE)
  from keepsD [OF users_view.keeps_touch touch] show ?thesis
    using assms id by (simp add: authenticatedGuard_def deserializeUser_def bindM_run bindM_require bindM_ok touch)
qed

text \<open>C24: Any session of a user, one that still owes the second factor included, switches two-factor authentication off
  without a code: the request says itself that it is an administrator's. Backup codes, trusted devices and one-time codes of the
  user are deleted, and the new session counts as verified.\<close>

theorem override_disables_two_factor:
  assumes "rq_sessionId rq = Some sid" "web_session_of sid s = Some w" "ws_snapshot w = Some snap"
    and "List.find (\<lambda>y. usr_id y = snap_id snap) (users s) = Some u" "dtd_adminOverride dto"
  shows "\<exists>rq1 r s'. disable_request A rq dto s = (Inr (rq1, r), s') \<and> ar_id r = snap_id snap \<and> ar_twoFactorVerified r \<and>
    map_option usr_twoFactorEnabled (List.find (\<lambda>y. usr_id y = snap_id snap) (users s')) = Some False"
proof -
  let ?i = "snap_id snap"
  from guard_run [OF assms(1-4)] obtain rq1 su s1
    where guard: "authenticatedGuard rq s = (Inr (rq1, su), s1)" "su_id su = ?i" "users s1 = users s" by blast
  let ?s2 = "s1\<lparr>users := update_where (\<lambda>y. usr_id y = ?i) without_two_factor (users s1),
    backupCodes := filter (\<lambda>c. bc_userId c \<noteq> ?i) (backupCodes s1),
    trustedDevices := filter (\<lambda>d. dev_userId d \<noteq> ?i) (trustedDevices s1),
    challenges := filter (\<lambda>c. chg_userId c \<noteq> ?i) (challenges s1)\<rparr>"
  have u: "usr_id u = ?i" "list_ex (\<lambda>y. usr_id y = ?i) (users s)"
    using assms(4) by (auto simp: list_ex_iff dest: find_SomeD)
  have off: "List.find (\<lambda>y. usr_id y = ?i) (update_where (\<lambda>y. usr_id y = ?i) without_two_factor (users s)) = Some (without_two_factor u)"
    using assms(4) u(1) by (simp add: find_update_where without_two_factor_def)
  let ?lu = "load_user ?s2 (without_two_factor u)"
  have run: "disableTwoFactor A ?i dto s1 = (Inr (buildAuthResult ?lu (Some (False, True))), ?s2)"
    using assms(4,5) u guard(3) off
    by (simp add: disableTwoFactor_def loadUserOrThrow_def mfa_disableTwoFactor_def transaction_def bindM_def update_row_run)
  have w: "usr_id (without_two_factor u) = ?i" "\<not> usr_twoFactorEnabled (without_two_factor u)"
    by (simp_all add: without_two_factor_def u(1))
  obtain rq2 s3 where last: "persistSession A rq1 (fst (buildAuthResult ?lu (Some (False, True)))) (getDeviceLabel rq1) ?s2 = (Inr rq2, s3)"
    using persist_returns by (rule never_throwsE)
  have "disable_request A rq dto s = (Inr (rq2, snd (buildAuthResult ?lu (Some (False, True)))), s3)"
    by (simp only: disable_request_def bindM_ok [where m = "authenticatedGuard rq", OF guard(1)] snd_conv fst_conv guard(2)
      bindM_ok [where m = "disableTwoFactor A ?i dto", OF run] bindM_ok [where m = "persistSession A rq1 _ _", OF last] ret_run)
  moreover have "users s3 = update_where (\<lambda>y. usr_id y = ?i) without_two_factor (users s)"
    using keepsD [OF users_view.keeps_persist last] guard(3) by simp
  ultimately show ?thesis using off w by simp
qed

section \<open>A sample organisation\<close>

definition auth0 :: auth_env where
  "auth0 = \<lparr>a_uuid = nat_id, a_hash = (\<lambda>_ p. p), a_verify = (\<lambda>h p. h = p), a_hex32 = nat_id, a_base12 = nat_id,
     a_base48 = nat_id, a_sid = nat_id, a_random = (\<lambda>n m. n mod m), a_sha256 = (\<lambda>x. x), a_secret = nat_id,
     a_totp = (\<lambda>c secret _. c = secret), a_keyuri = (\<lambda>e x. x), a_ilike = (\<lambda>x y. x = y), a_collate = (\<lambda>_. 0)\<rparr>"

definition org_of :: "db \<Rightarrow> org" where
  "org_of d = db.extend d (org.fields [] [] [] [] [] [] [] [] [] [] [] [] [] [] [] [] [] [] [] [] [] [])"

definition ann :: user where
  "ann = new_user \<lparr>rgd_firstName = ''Ann'', rgd_lastName = ''Lee'', rgd_email = ''ann'', rgd_password = ''old'',
     rgd_phoneNumber = None\<rparr> ''old'' 0 ''u'' 0\<lparr>usr_twoFactorEnabled := True, usr_twoFactorType := Some TfTotp\<rparr>"

definition ann_org :: org where
  "ann_org = org_of db0\<lparr>users := [ann],
     verificationTokens := [\<lparr>vt_id = ''v'', vt_userId = ''u'', vt_token = ''link'', vt_type = PASSWORD_RESET,
       vt_expiresAt = 60, vt_used = False, vt_usedAt = None\<rparr>],
     webSessions := [\<lparr>ws_id = ''w'', ws_snapshot = Some \<lparr>snap_id = ''u'', snap_requiresTwoFactor = True,
       snap_twoFactorVerified = False\<rparr>, ws_metadata = None, ws_expiresAt = None\<rparr>],
     sessionIndexes := [\<lparr>ix_userId = ''u'', ix_members = [''w''], ix_expiresAt = None\<rparr>]\<rparr>"

definition from_w :: web_request where
  "from_w = \<lparr>rq_userAgent = None, rq_ip = None, rq_deviceName = None, rq_deviceCookie = None,
     rq_sessionId = Some ''w'', rq_maxAge = None, rq_hasSession = True, rq_metadata = None, rq_passport = None\<rparr>"

definition as_admin :: disable_two_factor_dto where
  "as_admin = \<lparr>dtd_channel = ViaTotp, dtd_code = None, dtd_backupCode = None, dtd_reason = None, dtd_adminOverride = True\<rparr>"

lemma ann_wrong_guess: "\<exists>s. auth_run auth0 [GuessFailed ''u''] ann_org s"
proof -
  obtain r s where run: "login auth0 ''ann'' ''bad'' from_w ann_org = (r, s)" by fastforce
  have "login_event auth0 ''ann'' ''bad'' from_w ann_org = GuessFailed ''u''" by code_simp
  with auth_step.logs_in [OF run] have "auth_step auth0 (GuessFailed ''u'') ann_org s" by simp
  from auth_run.more [OF auth_run.start this] show ?thesis by auto
qed

lemma ann_accounts: "accounts_distinct ann_org" "lock_state ''u'' ann_org = Some (0, None)" "auth_records_ok ann_org"
  unfolding auth_records_ok_def by code_simp+

theorem password_guesses_limited_witness:
  "\<exists>s. auth_run auth0 [GuessFailed ''u''] ann_org s \<and>
     failures [GuessFailed ''u''] ''u'' \<le> 5 + (clock s - clock ann_org) div minutes 15"
  using ann_wrong_guess password_guesses_limited [where A = auth0 and i = "''u''", OF _ ann_accounts(1,2)] by fastforce

theorem auth_records_consistent_witness:
  "\<exists>s. auth_run auth0 [GuessFailed ''u''] ann_org s \<and> auth_records_ok s"
  using ann_wrong_guess auth_records_consistent [OF _ ann_accounts(3)] by blast

lemma ann_link:
  "find_token ''link'' ann_org = Some \<lparr>vt_id = ''v'', vt_userId = ''u'', vt_token = ''link'', vt_type = PASSWORD_RESET,
     vt_expiresAt = 60, vt_used = False, vt_usedAt = None\<rparr>" "clock ann_org = 0"
  "List.find (\<lambda>y. usr_id y = ''u'') (users ann_org) = Some ann"
  by code_simp+

lemma ann_resets: "fst (resetPassword auth0 ''link'' ''new'' ann_org) = Inr ()"
  by code_simp

theorem reset_link_once_witness:
  "\<exists>s. resetPassword auth0 ''link'' ''new'' ann_org = (Inr (), s) \<and> resetPassword auth0 ''link'' ''newer'' s =
     (Inl (BadRequest ''Invalid or expired password reset token.''), s)"
proof -
  obtain s where run: "resetPassword auth0 ''link'' ''new'' ann_org = (Inr (), s)"
    using ann_resets by (metis prod.collapse)
  with reset_link_once [OF run auth_run.start] show ?thesis by blast
qed

theorem password_reset_effect_witness:
  "\<exists>s. resetPassword auth0 ''link'' ''new'' ann_org = (Inr (), s) \<and> map usr_password (users s) = [''new''] \<and>
     web_session_of ''w'' s = None"
proof -
  have "users ann_org = [ann]" "sMembers ''u'' ann_org = [''w'']" "usr_id ann = ''u''" by code_simp+
  with password_reset_effect [OF ann_link(1), of ann auth0 "''new''"] ann_link(2,3) show ?thesis
    by (auto simp: auth0_def)
qed

theorem override_disables_two_factor_witness:
  "usr_twoFactorEnabled ann \<and> (\<exists>rq r s. disable_request auth0 from_w as_admin ann_org = (Inr (rq, r), s) \<and>
     ar_twoFactorVerified r \<and> map_option usr_twoFactorEnabled (List.find (\<lambda>y. usr_id y = ''u'') (users s)) = Some False)"
proof -
  let ?snap = "\<lparr>snap_id = ''u'', snap_requiresTwoFactor = True, snap_twoFactorVerified = False\<rparr>"
  let ?w = "\<lparr>ws_id = ''w'', ws_snapshot = Some ?snap, ws_metadata = None, ws_expiresAt = None\<rparr>"
  have "rq_sessionId from_w = Some ''w''" "web_session_of ''w'' ann_org = Some ?w" "ws_snapshot ?w = Some ?snap"
    "List.find (\<lambda>y. usr_id y = snap_id ?snap) (users ann_org) = Some ann" "dtd_adminOverride as_admin"
    by code_simp+
  from override_disables_two_factor [OF this, of auth0] show ?thesis by (auto simp: ann_def)
qed

end
