(* ===== verification/AccessEffects.thy ===== *)
theory AccessEffects
  imports AccessSafety AuthEffects
begin

text \<open>
  What single requests come to: an accepted invitation, a removed member, the guard of an endpoint whose module
  the server does not know; and the properties of both access theories at work in a small tenant.
\<close>

section \<open>An invitation is accepted once\<close>

lemma accept_uses_invitation:
  assumes "acceptInvitation A u e tok s = (Inr t, s')"
  shows "invitation_used (a_sha256 A tok) s'"
proof -
  have ask: "bindM (require x e1) f s = (case x of None \<Rightarrow> (Inl e1, s) | Some a \<Rightarrow> f a s)"
    for x e1 and f :: "tenant_invitation \<Rightarrow> id acc" by (cases x) (simp_all add: bindM_require)
  obtain x where x: "find_invitation A tok s = Some x" and pending: "ti_status x = InvPending"
    and tx: "accept_tx A u x s = (Inr (), s')"
    using assms
    by (auto simp: acceptInvitation_def bindM_run ask expire_if_late_def bindM_draw bindM_assoc bindM_update_row
        bindM_Inr transaction_Inr split: option.splits if_splits TenantInvitationStatus.splits)
  define f where "f y = y\<lparr>ti_status := InvAccepted, ti_acceptedAt := Some (clock s), ti_invitedUserId := Some u\<rparr>"
    for y :: tenant_invitation
  let ?s = "s\<lparr>tenantInvitations := update_where (\<lambda>y. ti_invId y = ti_invId x) f (tenantInvitations s)\<rparr>"
  let ?rest = "bindM (connect_member u (ti_tenantId x)) (\<lambda>_.
     bindM (if empty_string (ti_roleId x) then ret () else
       bindM (insert_assignment A (\<lambda>i t1. \<lparr>ua_id = i, ua_userId = u, ua_roleId = the (ti_roleId x),
         ua_tenantId = ti_tenantId x, ua_accessScope = ScopeTenant, ua_locationId = None, ua_assignedAt = t1,
         ua_assignedById = Some (ti_invitedById x)\<rparr>)) (\<lambda>_. ret ())) (\<lambda>_.
     update_user (\<lambda>y. usr_id y = u) (complete_onboarding (clock s))))"
  have "?rest ?s = (Inr (), s')"
    using tx by (auto simp: accept_tx_def bindM_draw bindM_update_row f_def [abs_def] split: if_splits)
  moreover have "obeys lasts ?rest" by (intro tenant_intros)
  ultimately have "lasts ?s s'" by (blast dest: obeysD)
  moreover have "invitation_used (a_sha256 A tok) ?s"
    using x by (auto simp: invitation_used_def find_invitation_def find_update_where f_def)
  ultimately show ?thesis by (simp add: lasts_def invitations_last_def)
qed

lemma used_invitation_refused:
  assumes "invitation_used (a_sha256 A tok) s"
  shows "\<exists>err s'. acceptInvitation A u e tok s = (Inl err, s') \<and> tenantMembers s' = tenantMembers s \<and>
    userAssignments s' = userAssignments s"
proof -
  from assms obtain x where x: "find_invitation A tok s = Some x" and "ti_status x \<noteq> InvPending"
    by (auto simp: invitation_used_def find_invitation_def split: option.splits)
  then show ?thesis
    by (cases "ti_status x")
      (simp_all add: acceptInvitation_def bindM_run bindM_require expire_if_late_def bindM_draw bindM_assoc bindM_update_row)
qed

text \<open>C18: An invitation lets its holder in once. After it has been accepted, whatever requests follow, presenting its token
  again, by whomever, is refused and makes nobody a member and gives nobody a role.\<close>

theorem invitation_accepted_once:
  assumes "acceptInvitation A u e tok s = (Inr t, s1)" "access_run A s1 s2"
  shows "\<exists>err s3. acceptInvitation A u' e' tok s2 = (Inl err, s3) \<and> tenantMembers s3 = tenantMembers s2 \<and>
    userAssignments s3 = userAssignments s2"
  using accept_uses_invitation [OF assms(1)] run_lasts [OF assms(2)]
  by (intro used_invitation_refused) (simp add: lasts_def invitations_last_def)

section \<open>A removed member\<close>

lemma assignments_permission:
  "hasPermission u res act t l (s\<lparr>userAssignments := as, tenantMembers := ms, memberRemovals := rs, outbox := os\<rparr>) =
   hasPermission u res act t l (s\<lparr>userAssignments := as\<rparr>)"
  by (simp add: hasPermission_def)

lemma filtered_permission:
  "hasPermission u res act t l (s\<lparr>userAssignments := filter (\<lambda>a. \<not> (ua_userId a = u0 \<and> ua_tenantId a = t0)) (userAssignments s)\<rparr>)
    \<longleftrightarrow> (u, t) \<noteq> (u0, t0) \<and> hasPermission u res act t l s"
  by (auto simp: hasPermission_def Let_def list_ex_iff)

text \<open>C19: Removing a member takes all of the member's access in that tenant away, at every location, and the
  membership, and leaves the permissions and memberships of everybody else, and those the member has in other
  tenants, as they were.\<close>

theorem removed_member_loses_access:
  assumes "removeTenantMember by t u reason s = (Inr (), s')"
  shows "(hasPermission u1 resource action t1 l s' \<longleftrightarrow> (u1, t1) \<noteq> (u, t) \<and> hasPermission u1 resource action t1 l s) \<and>
    ((u1, t1) \<in> set (tenantMembers s') \<longleftrightarrow> (u1, t1) \<noteq> (u, t) \<and> (u1, t1) \<in> set (tenantMembers s))"
proof -
  have "\<exists>rs ms. s' = s\<lparr>userAssignments := filter (\<lambda>a. \<not> (ua_userId a = u \<and> ua_tenantId a = t)) (userAssignments s),
      tenantMembers := filter (\<lambda>p. p \<noteq> (u, t)) (tenantMembers s), memberRemovals := rs, outbox := ms\<rparr>"
    using assms unfolding remove_member_run by (force split: option.splits if_splits)
  then show ?thesis by (auto simp only: assignments_permission filtered_permission) auto
qed

section \<open>Modules the server does not know\<close>

lemma unknown_module_permission:
  assumes "resource \<notin> set (module_names s)"
  shows "\<not> hasPermission u resource act t l s"
  using assms by (auto simp: hasPermission_def Let_def list_ex_iff module_names_def split: option.splits dest!: find_SomeD)

text \<open>C17: An endpoint whose route names a module that \<open>MODULESREF\<close> does not list is closed to everybody: over every
  sequence of requests, role changes and synchronisations included, the guard refuses every user, tenant, location and
  action. (The routes of the POS and invoice controllers name such modules.)\<close>

theorem unlisted_modules_denied:
  assumes "access_run A s0 s" "set (module_names s0) \<subseteq> set (map fst MODULESREF)"
    and "resource \<notin> set (map fst MODULESREF)"
  shows "\<exists>e. accessControlGuard (Some (resource, action)) user tenantId locationId s = (Inl (Forbidden e), s)"
proof -
  have "modules_last s0 s" using run_lasts [OF assms(1)] by (simp add: lasts_def)
  then have "resource \<notin> set (module_names s)" using assms(2,3) unfolding modules_last_def by blast
  from unknown_module_permission [OF this] show ?thesis
    by (cases user) (auto simp: accessControlGuard_def bindM_run bindM_require)
qed

section \<open>A small tenant\<close>

definition bob :: user where
  "bob = new_user \<lparr>rgd_firstName = ''Bob'', rgd_lastName = ''Ray'', rgd_email = ''bob'', rgd_password = ''pass'',
     rgd_phoneNumber = None\<rparr> ''pass'' 0 ''b'' 0"

definition owner_role :: role where
  "owner_role = \<lparr>role_id = ''o'', role_name = SUPER_ADMIN_ROLE, role_description = None, role_tenantId = ''t'', role_createdAt = 0\<rparr>"

definition clerk_role :: role where
  "clerk_role = \<lparr>role_id = ''c'', role_name = ''Clerk'', role_description = None, role_tenantId = ''t'', role_createdAt = 0\<rparr>"

definition team :: org where
  "team = ann_org\<lparr>users := [ann, bob],
     tenants := [\<lparr>ten_id = ''t'', ten_name = ''Shop'', ten_deletedAt = None, ten_defaultPricingMethod = FIFO\<rparr>],
     roles := [owner_role, clerk_role],
     moduleRefs := [\<lparr>mod_id = ''m'', mod_name = ''Product'', mod_description = None, mod_actions = [''product.view'']\<rparr>],
     rolePermissions := [\<lparr>rp_roleId = ''c'', rp_moduleRefId = ''m'', rp_actions = [''product.view'']\<rparr>],
     userAssignments := [\<lparr>ua_id = ''1'', ua_userId = ''u'', ua_roleId = ''o'', ua_tenantId = ''t'',
       ua_accessScope = ScopeTenant, ua_locationId = None, ua_assignedAt = 0, ua_assignedById = None\<rparr>],
     tenantMembers := [(''u'', ''t'')],
     tenantInvitations := [\<lparr>ti_invId = ''i'', ti_email = ''bob'', ti_status = InvPending, ti_tokenHash = ''tok'',
       ti_expiresAt = None, ti_acceptedAt = None, ti_declinedAt = None, ti_cancelledAt = None, ti_message = None,
       ti_createdAt = 0, ti_tenantId = ''t'', ti_invitedById = ''u'', ti_invitedUserId = None, ti_roleId = Some ''c''\<rparr>]\<rparr>"

definition joined :: org where
  "joined = snd (acceptInvitation auth0 ''b'' ''Bob'' ''tok'' team)"

lemma bob_joins: "fst (acceptInvitation auth0 ''b'' ''Bob'' ''tok'' team) = Inr ''t''"
  by code_simp

lemma bob_joined: "acceptInvitation auth0 ''b'' ''Bob'' ''tok'' team = (Inr ''t'', joined)"
  using bob_joins by (simp add: joined_def prod_eq_iff)

lemma team_run: "access_run auth0 team joined"
  using access_run.more [OF access_run.start access_step.accepts [OF bob_joined]] .

lemma team_administered: "administered team"
proof -
  have "distinct (role_ids team)" "tenant_ids team = [''t'']" by code_simp+
  moreover have "has_admin ''t'' team" by (simp add: has_admin_def team_def admin_role_def owner_role_def)
  ultimately show ?thesis by (simp add: administered_def)
qed

theorem tenants_keep_admin_witness: "access_run auth0 team joined \<and> administered joined"
  using tenants_keep_admin [OF team_run team_administered] team_run by simp

theorem invitation_accepted_once_witness:
  "acceptInvitation auth0 ''b'' ''Bob'' ''tok'' team = (Inr ''t'', joined) \<and>
   (\<exists>err s. acceptInvitation auth0 ''b'' ''Bob'' ''tok'' joined = (Inl err, s) \<and> tenantMembers s = tenantMembers joined)"
  using invitation_accepted_once [OF bob_joined access_run.start] bob_joined by blast

lemma bob_works: "hasPermission ''b'' ''Product'' ''product.view'' ''t'' None joined"
  "fst (removeTenantMember ''u'' ''t'' ''b'' None joined) = Inr ()"
  by code_simp+

theorem removed_member_loses_access_witness:
  "hasPermission ''b'' ''Product'' ''product.view'' ''t'' None joined \<and>
   (\<exists>s. removeTenantMember ''u'' ''t'' ''b'' None joined = (Inr (), s) \<and>
      \<not> hasPermission ''b'' ''Product'' ''product.view'' ''t'' None s)"
proof -
  obtain s where run: "removeTenantMember ''u'' ''t'' ''b'' None joined = (Inr (), s)"
    using bob_works(2) by (metis prod.collapse)
  with removed_member_loses_access [OF run, of "''b''" "''Product''" "''product.view''" "''t''" None] bob_works(1)
  show ?thesis by blast
qed

lemma pos_unlisted: "''POS'' \<notin> set (map fst MODULESREF)" "set (module_names team) \<subseteq> set (map fst MODULESREF)"
  by code_simp+

theorem unlisted_modules_denied_witness:
  "access_run auth0 team joined \<and>
   (\<exists>e. accessControlGuard (Some (''POS'', ''pos.sale.create'')) (Some ''u'') (Some ''t'') None joined = (Inl (Forbidden e), joined))"
  using unlisted_modules_denied [OF team_run pos_unlisted(2,1)] team_run by blast

end
