(* ===== verification/Spec2Isabelle.thy ===== *)
theory Spec2Isabelle
  imports TransferSafety Category Refund Register Invoice AccessEffects
begin

text \<open>
  A verification library of the Invetrixa server, a multi-tenant inventory and point-of-sale back end
  written in TypeScript on NestJS, Prisma and PostgreSQL.

  \<^bold>\<open>The program.\<close> Each module under \<^verbatim>\<open>src/src/modules\<close> has services whose methods read and write
  the database through Prisma and throw NestJS exceptions. The core is the stock module: per product
  and location a \<^emph>\<open>balance\<close> (units on hand, units reserved), an append-only ledger of \<^emph>\<open>movements\<close>,
  \<^emph>\<open>valuation layers\<close> that carry what the units cost, \<^emph>\<open>reservations\<close> with a delayed expiry job in a
  queue, and \<^emph>\<open>transfers\<close> between locations. The point of sale stands on it: a \<^emph>\<open>cart\<close> reserves
  its lines, a \<^emph>\<open>sale\<close> issues stock and takes payments, a \<^emph>\<open>refund\<close> receives stock back, and cash is
  counted per \<^emph>\<open>session\<close> of a terminal. In front of both are accounts with their web sessions and second
  factor, and the tenants with their members, roles and permissions, which a guard checks on each route.

  \<^bold>\<open>How code becomes definitions.\<close> A method becomes a function of the service monad of \<^verbatim>\<open>Prelude\<close>: from
  the database (record \<^verbatim>\<open>db\<close> of \<^verbatim>\<open>Db\<close>, one list per table, plus the queues, the clock and the identifier
  counter) to an exception or a result, and the database afterwards. \<^verbatim>\<open>prisma.$transaction\<close> is
  \<open>transaction\<close>, which undoes the writes of a run that throws; outside it the writes before an exception
  stay. Loops over a request's items are \<open>forM\<close> and \<open>foldM\<close>. What is not under \<^verbatim>\<open>src\<close> (the UUID
  generator, decimal rounding, case-insensitive matching, the calendar) is the record \<^verbatim>\<open>env\<close>, a
  parameter; theorems name what they rely on. The account modules work on \<^verbatim>\<open>org\<close> (of \<^verbatim>\<open>Accounts\<close>), which extends
  \<^verbatim>\<open>db\<close> by the tables of users, tenants and roles, the keys Redis holds for web sessions, and the outgoing mail; argon2,
  otplib, sha256, the random sources and the text comparison of the database are their parameter \<^verbatim>\<open>auth_env\<close>. One method call runs without interleaving, except where
  the model says otherwise: \<open>Movement\<close> splits an issue into its checks and its transaction to show what
  happens between them.

  \<^bold>\<open>Theories.\<close>
  \<^item> \<^verbatim>\<open>Prelude\<close>: the service monad, its rules for frames, invariants and evaluation, rows of tables,
    sums over tables, the locale of keyed tables.
  \<^item> \<^verbatim>\<open>JsNumber\<close>: numbers as the request validators accept them.
  \<^item> \<^verbatim>\<open>Db\<close>: rows of \<^verbatim>\<open>src/prisma/schemas\<close>, exceptions, the environment.
  \<^item> \<^verbatim>\<open>Pagination\<close>: \<^verbatim>\<open>common/utils/pagination.utils.ts\<close>. Page windows stay in bounds, and the
    pages of a list are the list.
  \<^item> \<^verbatim>\<open>Valuation\<close>: \<^verbatim>\<open>stock/services/valuation.service.ts\<close>. An issue of stock takes units from the layers
    in the order of the pricing method; it refines a shelf of single units, conserves value, can be split
    in steps, and reports costs between those of the layers.
  \<^item> \<^verbatim>\<open>Balance\<close>: \<^verbatim>\<open>balance.service.ts\<close> and \<^verbatim>\<open>stock-validation.service.ts\<close>. The upsert, every
    query, the valuation report as a partition of the open layers, and the request checks.
  \<^item> \<^verbatim>\<open>Movement\<close>: \<^verbatim>\<open>movement.service.ts\<close>. Receipts, issues and adjustments: when they succeed, what
    they do to balance, ledger and layers, that value is conserved and reservations are respected, and
    the race between check and transaction.
  \<^item> \<^verbatim>\<open>Reservation\<close>: \<^verbatim>\<open>reservation.service.ts\<close> and \<^verbatim>\<open>stock/queue\<close>. The step relation of requests
    and expiry jobs, its invariant (reserved quantities are the sums of the ACTIVE reservations, each
    with its job), no overselling, expiry, finality of closed reservations.
  \<^item> \<^verbatim>\<open>Numbering\<close>: yearly document numbers, as \<^verbatim>\<open>transfer.service.ts\<close> and the point of sale make
    them: fresh while the counter fits its width, stuck afterwards.
  \<^item> \<^verbatim>\<open>StockTransfer\<close>, \<^verbatim>\<open>TransferSafety\<close>: \<^verbatim>\<open>transfer.service.ts\<close>. The handlers and their
    effects; then the status machine the handlers refine, shipping and cancelling, shipping and receiving.
  \<^item> \<^verbatim>\<open>Slug\<close>: \<^verbatim>\<open>common/utils/slug.utils.ts\<close> and \<^verbatim>\<open>sku.utils.ts\<close>. Normal forms, the loop that makes
    a name unique (it ends, and finds the first free name).
  \<^item> \<^verbatim>\<open>Category\<close>: \<^verbatim>\<open>category.service.ts\<close>. The category tree as an invariant of every request; the walk that
    looks for cycles ends on a tree, and what two interleaved moves do to it.
  \<^item> \<^verbatim>\<open>Cart\<close>: \<^verbatim>\<open>pos/services/cart.service.ts\<close> and \<^verbatim>\<open>cart-cleanup.service.ts\<close>. The totals of a cart as an
    invariant, what the clean-up gives back, and the hold that a failed change of quantity loses.
  \<^item> \<^verbatim>\<open>Sale\<close>: \<^verbatim>\<open>pos/services/sale.service.ts\<close> and \<^verbatim>\<open>payment.service.ts\<close>. The quick sale and what it does to
    sales, payments, balance and ledger; a sale that is voided; a cart that is completed.
  \<^item> \<^verbatim>\<open>Frames\<close>: the locale of a relation between databases that every step of a handler keeps, with
    the rules that lift it to handlers; \<open>Refund\<close> and \<open>Register\<close> interpret it.
  \<^item> \<^verbatim>\<open>Refund\<close>: \<^verbatim>\<open>pos/services/refund.service.ts\<close>. The step relation of the point of sale, over which
    refunds never exceed what was paid; the effect of one refund.
  \<^item> \<^verbatim>\<open>Register\<close>: \<^verbatim>\<open>pos/services/terminal.service.ts\<close> and \<^verbatim>\<open>session.service.ts\<close>. One open session per
    terminal over all requests; what closing a session says about the drawer.
  \<^item> \<^verbatim>\<open>Invoice\<close>: the module \<^verbatim>\<open>invoice\<close>. Quotes and invoices over all requests: statuses and numbers fit
    the kind of the document, what is paid and due adds up; the conversion of a quote, a payment.
  \<^item> \<^verbatim>\<open>Accounts\<close>: the rows of users, tenants and roles, and the module \<^verbatim>\<open>users\<close>.
  \<^item> \<^verbatim>\<open>Mfa\<close>: \<^verbatim>\<open>auth/mfa/mfa.service.ts\<close>: authenticator codes, one-time codes, backup codes, trusted devices.
  \<^item> \<^verbatim>\<open>WebSession\<close>, \<^verbatim>\<open>Auth\<close>: the sessions in Redis with their guards (\<^verbatim>\<open>auth/guards\<close>, \<^verbatim>\<open>auth/serializers\<close>);
    \<^verbatim>\<open>auth.service.ts\<close> and the handlers of \<^verbatim>\<open>auth.controller.ts\<close>.
  \<^item> \<^verbatim>\<open>AuthSafety\<close>, \<^verbatim>\<open>AuthRecords\<close>, \<^verbatim>\<open>AuthEffects\<close>: the step relation of all auth requests; over it the bound on
    guessed passwords, links that work once, and the invariant of tokens, codes and accounts; then what a password
    reset does, and the switch that turns the second factor off. The locales of state views say once what a
    request leaves alone.
  \<^item> \<^verbatim>\<open>Access\<close>: the module \<^verbatim>\<open>access-control\<close>, the modules and default roles of \<^verbatim>\<open>modules-definition\<close>, and
    \<^verbatim>\<open>role-initializer.utils.ts\<close>. \<^verbatim>\<open>Tenancy\<close>: the module \<^verbatim>\<open>tenants\<close>.
  \<^item> \<^verbatim>\<open>AccessSafety\<close>, \<^verbatim>\<open>AccessEffects\<close>: the step relation of requests on roles, tenants and accounts together; over it
    a tenant keeps a SuperAdmin, an invitation is accepted once, and a route of an unlisted module stays closed; what
    removing a member takes away.

  \<^bold>\<open>Bounds.\<close> Nothing uses fuel: every loop is structural or has a termination proof. Quantities are
  unbounded integers (the columns are 32-bit; no modelled operation checks for overflow either).

  \<^bold>\<open>Not modelled.\<close> Products, suppliers and customers as modules of their own (the stock theories read
  their rows), the routing of the other controllers, DTO decorators (the range checks of the stock requests are modelled as
  the \<open>_valid\<close> predicates), sending e-mail, failures of Redis, logging and bootstrap: they are configuration or
  single database calls. JSON columns, the audit columns and the ordering of rows by a column that a query only
  displays are left out.
\<close>

end
